(* ===== verification/Prelude.thy ===== *)
theory Prelude
  imports Main
begin

text \<open>
  Shared vocabulary of the development: Python exceptions as values, the sequencing of
  fallible steps, and the list primitives of Python that every component uses
  (\<open>str.split\<close>, \<open>dict.fromkeys\<close>, \<open>min\<close> and \<open>max\<close> with a key).
\<close>

section \<open>Hint collections\<close>

named_theorems res_simps \<open>inversion of successful fallible computations\<close>
named_theorems select_facts \<open>facts on the first extremal element of a list\<close>

section \<open>Exceptions as values\<close>

text \<open>
  One constructor per exception class the modelled code raises. The message is kept where it
  is a literal of the source; a value interpolated into a message is dropped.
\<close>

datatype pyerr =
    ValueError string
  | RuntimeError string
  | SystemExit string
  | KeyError string
  | TypeError
  | AttributeError
  | IndexError
  | OverflowError
  | ZeroDivisionError
  | StopIteration
  | AssertionError
  | OSError string
  | SubprocessError

type_synonym 'a res = "pyerr + 'a"

definition bnd :: "'a res \<Rightarrow> ('a \<Rightarrow> 'b res) \<Rightarrow> 'b res" where
  "bnd m f = (case m of Inl e \<Rightarrow> Inl e | Inr x \<Rightarrow> f x)"

lemma bnd_Inl [simp]: "bnd (Inl e) f = Inl e"
  by (simp add: bnd_def)

lemma bnd_Inr [simp]: "bnd (Inr x) f = f x"
  by (simp add: bnd_def)

lemma bnd_eq_Inr [res_simps]: "bnd m f = Inr y \<longleftrightarrow> (\<exists>x. m = Inr x \<and> f x = Inr y)"
  by (cases m) auto

lemma bnd_eq_Inl: "bnd m f = Inl e \<longleftrightarrow> m = Inl e \<or> (\<exists>x. m = Inr x \<and> f x = Inl e)"
  by (cases m) auto

lemma bnd_cong [fundef_cong]:
  "m = m' \<Longrightarrow> (\<And>x. m' = Inr x \<Longrightarrow> f x = g x) \<Longrightarrow> bnd m f = bnd m' g"
  by (cases m') auto

lemma if_Inl_eq_Inr [res_simps]: "(if c then Inl e else m) = Inr y \<longleftrightarrow> \<not> c \<and> m = Inr y"
  by auto

lemma if_Inr_Inl_eq_Inr [res_simps]: "(if c then m else Inl e) = Inr y \<longleftrightarrow> c \<and> m = Inr y"
  by auto

text \<open>A comprehension or a loop whose body may raise stops at the first exception.\<close>

fun map_res :: "('a \<Rightarrow> 'b res) \<Rightarrow> 'a list \<Rightarrow> 'b list res" where
  "map_res f [] = Inr []"
| "map_res f (x # xs) = bnd (f x) (\<lambda>y. bnd (map_res f xs) (\<lambda>ys. Inr (y # ys)))"

lemma map_res_eq_Inr [res_simps]:
  "map_res f xs = Inr ys \<longleftrightarrow> list_all2 (\<lambda>x y. f x = Inr y) xs ys"
  by (induction xs arbitrary: ys) (auto simp: res_simps list_all2_Cons1)

lemma map_res_cong [fundef_cong]:
  "xs = ys \<Longrightarrow> (\<And>x. x \<in> set ys \<Longrightarrow> f x = g x) \<Longrightarrow> map_res f xs = map_res g ys"
proof (induction ys arbitrary: xs)
  case (Cons y ys)
  then show ?case by (metis list.set_intros map_res.simps(2))
qed simp

lemma map_res_mem: "map_res f xs = Inr ys \<Longrightarrow> y \<in> set ys \<Longrightarrow> \<exists>x \<in> set xs. f x = Inr y"
  by (induction xs arbitrary: ys) (auto simp: bnd_eq_Inr)

lemma map_res_mem': "map_res f xs = Inr ys \<Longrightarrow> x \<in> set xs \<Longrightarrow> \<exists>y \<in> set ys. f x = Inr y"
  by (induction xs arbitrary: ys) (auto simp: bnd_eq_Inr)

lemma map_res_Inr: "map_res (\<lambda>x. Inr (f x)) xs = Inr (map f xs)"
  by (induction xs) auto

fun fold_res :: "('a \<Rightarrow> 'b \<Rightarrow> 'b res) \<Rightarrow> 'a list \<Rightarrow> 'b \<Rightarrow> 'b res" where
  "fold_res f [] s = Inr s"
| "fold_res f (x # xs) s = bnd (f x s) (fold_res f xs)"

lemma fold_res_append: "fold_res f (xs @ ys) s = bnd (fold_res f xs s) (fold_res f ys)"
proof (induction xs arbitrary: s)
  case (Cons x xs)
  then show ?case by (cases "f x s") auto
qed simp

lemma fold_res_invariant:
  assumes "fold_res f xs s = Inr t" and "P s"
    and "\<And>x u v. x \<in> set xs \<Longrightarrow> P u \<Longrightarrow> f x u = Inr v \<Longrightarrow> P v"
  shows "P t"
  using assms
proof (induction xs arbitrary: s)
  case (Cons x xs)
  from Cons.prems(1) obtain u where u: "f x s = Inr u" "fold_res f xs u = Inr t"
    by (auto simp: res_simps)
  with Cons.prems have "P u" by (meson list.set_intros(1))
  with Cons u(2) show ?case by (meson list.set_intros(2))
qed simp

lemma find_SomeD: "find P xs = Some x \<Longrightarrow> P x \<and> x \<in> set xs"
  by (induction xs) (auto split: if_splits)

section \<open>Python's list and string primitives\<close>

text \<open>\<open>str.split(c)\<close>: the pieces between separators, always at least one.\<close>

fun split_on :: "char \<Rightarrow> string \<Rightarrow> string list" where
  "split_on c [] = [[]]"
| "split_on c (x # xs) =
     (if x = c then [] # split_on c xs
      else (case split_on c xs of [] \<Rightarrow> [[x]] | p # ps \<Rightarrow> (x # p) # ps))"

text \<open>\<open>str.split(c, 1)\<close>: at most one cut, at the first separator.\<close>

definition split_once :: "char \<Rightarrow> string \<Rightarrow> string \<times> string option" where
  "split_once c s =
     (let pre = takeWhile (\<lambda>x. x \<noteq> c) s; rest = dropWhile (\<lambda>x. x \<noteq> c) s
      in (pre, case rest of [] \<Rightarrow> None | _ # r \<Rightarrow> Some r))"

fun join_with :: "string \<Rightarrow> string list \<Rightarrow> string" where
  "join_with s [] = []"
| "join_with s [p] = p"
| "join_with s (p # q # ps) = p @ s @ join_with s (q # ps)"

lemma split_on_not_Nil [simp]: "split_on c s \<noteq> []"
  by (induction s) (auto split: list.splits)

lemma split_on_no_sep: "c \<notin> set p \<Longrightarrow> split_on c p = [p]"
  by (induction p) auto

lemma split_on_append: "c \<notin> set p \<Longrightarrow> split_on c (p @ c # s) = p # split_on c s"
  by (induction p) auto

lemma split_on_join:
  "ps \<noteq> [] \<Longrightarrow> \<forall>p \<in> set ps. c \<notin> set p \<Longrightarrow> split_on c (join_with [c] ps) = ps"
  by (induction "[c]" ps rule: join_with.induct) (auto simp: split_on_no_sep split_on_append)

lemma split_once_none: "c \<notin> set p \<Longrightarrow> split_once c p = (p, None)"
  by (induction p) (auto simp: split_once_def)

lemma split_once_some: "c \<notin> set p \<Longrightarrow> split_once c (p @ c # s) = (p, Some s)"
proof -
  assume c: "c \<notin> set p"
  have "takeWhile (\<lambda>x. x \<noteq> c) (p @ c # s) = p" "dropWhile (\<lambda>x. x \<noteq> c) (p @ c # s) = c # s"
    using c by (induction p) auto
  then show ?thesis by (simp add: split_once_def)
qed

text \<open>\<open>dict.fromkeys(xs)\<close>: the distinct elements in order of first occurrence.\<close>

fun uniq :: "'a list \<Rightarrow> 'a list" where
  "uniq [] = []"
| "uniq (x # xs) = x # uniq (filter (\<lambda>y. y \<noteq> x) xs)"

lemma set_uniq [simp]: "set (uniq xs) = set xs"
proof (induction xs rule: uniq.induct)
  case (2 x xs)
  then show ?case by auto
qed simp

lemma distinct_uniq [simp]: "distinct (uniq xs)"
  by (induction xs rule: uniq.induct) auto

lemma uniq_distinct: "distinct xs \<Longrightarrow> uniq xs = xs"
proof (induction xs)
  case (Cons x xs)
  then have "filter (\<lambda>y. y \<noteq> x) xs = xs" by (auto simp: filter_id_conv)
  with Cons show ?case by simp
qed simp

text \<open>
  \<open>min(xs, key=k)\<close> scans from the left and replaces the best element only when a later one is
  strictly better, so it returns the first extremal element. The order of the keys is the
  argument \<open>better\<close>.
\<close>

fun scan_best :: "('a \<Rightarrow> 'a \<Rightarrow> bool) \<Rightarrow> 'a \<Rightarrow> 'a list \<Rightarrow> 'a" where
  "scan_best better b [] = b"
| "scan_best better b (x # xs) = scan_best better (if better x b then x else b) xs"

definition best_by :: "('a \<Rightarrow> 'a \<Rightarrow> bool) \<Rightarrow> 'a list \<Rightarrow> 'a option" where
  "best_by better xs = (case xs of [] \<Rightarrow> None | x # rest \<Rightarrow> Some (scan_best better x rest))"

lemma best_by_Nil [simp]: "best_by better [] = None"
  by (simp add: best_by_def)

lemma best_by_eq_None [simp]: "best_by better xs = None \<longleftrightarrow> xs = []"
  by (simp add: best_by_def split: list.splits)

lemma scan_best_in: "scan_best better b xs \<in> insert b (set xs)"
proof (induction xs arbitrary: b)
  case (Cons x xs)
  from Cons [of "if better x b then x else b"] show ?case by (auto split: if_splits)
qed simp

lemma best_by_in [select_facts]: "best_by better xs = Some y \<Longrightarrow> y \<in> set xs"
  using scan_best_in by (fastforce simp: best_by_def split: list.splits)

text \<open>
  What a caller of \<open>min\<close>/\<open>max\<close> relies on, given a strict weak order of the keys on the elements
  it ranks: nothing in the list beats the result.
\<close>

locale ranking =
  fixes better :: "'a \<Rightarrow> 'a \<Rightarrow> bool" and dom :: "'a \<Rightarrow> bool"
  assumes irrefl: "dom x \<Longrightarrow> \<not> better x x"
    and neg_trans: "dom x \<Longrightarrow> dom y \<Longrightarrow> dom z \<Longrightarrow> \<not> better x y \<Longrightarrow> \<not> better y z \<Longrightarrow> \<not> better x z"
    and asym: "dom x \<Longrightarrow> dom y \<Longrightarrow> better x y \<Longrightarrow> \<not> better y x"
begin

lemma scan_best_unbeaten:
  assumes "dom b" and "\<forall>x \<in> set xs. dom x" and "x \<in> insert b (set xs)"
  shows "\<not> better x (scan_best better b xs)"
  using assms
proof (induction xs arbitrary: b x)
  case Nil
  then show ?case by (simp add: irrefl)
next
  case (Cons y ys)
  let ?b = "if better y b then y else b"
  have b: "dom ?b" using Cons.prems by simp
  have IH: "\<And>x. x \<in> insert ?b (set ys) \<Longrightarrow> \<not> better x (scan_best better ?b ys)"
    using Cons.IH b Cons.prems(2) by auto
  have best: "dom (scan_best better ?b ys)"
    using scan_best_in [of better ?b ys] b Cons.prems(2) by auto
  have "\<not> better b ?b" and "\<not> better y ?b"
    using Cons.prems(1,2) irrefl [of b] irrefl [of y] asym [of y b] by auto
  then have "\<not> better b (scan_best better ?b ys)" and "\<not> better y (scan_best better ?b ys)"
    using neg_trans [OF _ b best] IH [of ?b] Cons.prems by auto
  with Cons.prems(3) IH show ?case by auto
qed

lemma best_by_unbeaten:
  assumes "best_by better xs = Some y" and "\<forall>x \<in> set xs. dom x" and "x \<in> set xs"
  shows "\<not> better x y"
  using assms scan_best_unbeaten by (auto simp: best_by_def split: list.splits)

end

text \<open>Ranking by a key in a linear order, ascending (\<open>min\<close>) and descending (\<open>max\<close>).\<close>

definition key_less :: "('a \<Rightarrow> 'k::linorder) \<Rightarrow> 'a \<Rightarrow> 'a \<Rightarrow> bool" where
  "key_less k x y \<longleftrightarrow> k x < k y"

definition key_greater :: "('a \<Rightarrow> 'k::linorder) \<Rightarrow> 'a \<Rightarrow> 'a \<Rightarrow> bool" where
  "key_greater k x y \<longleftrightarrow> k y < k x"

interpretation least: ranking "key_less k" "\<lambda>_. True" for k :: "'a \<Rightarrow> 'k::linorder"
  by unfold_locales (auto simp: key_less_def)

interpretation greatest: ranking "key_greater k" "\<lambda>_. True" for k :: "'a \<Rightarrow> 'k::linorder"
  by unfold_locales (auto simp: key_greater_def)

lemma best_by_least [select_facts]:
  "best_by (key_less k) xs = Some y \<Longrightarrow> x \<in> set xs \<Longrightarrow> k y \<le> k x"
  using least.best_by_unbeaten [of k xs y x] by (auto simp: key_less_def)

lemma best_by_greatest [select_facts]:
  "best_by (key_greater k) xs = Some y \<Longrightarrow> x \<in> set xs \<Longrightarrow> k x \<le> k y"
  using greatest.best_by_unbeaten [of k xs y x] by (auto simp: key_greater_def)

lemma scan_best_cong:
  "(\<And>x y. x \<in> insert b (set xs) \<Longrightarrow> y \<in> insert b (set xs) \<Longrightarrow> f x y = g x y) \<Longrightarrow> scan_best f b xs = scan_best g b xs"
proof (induction xs arbitrary: b)
  case (Cons x xs)
  then have "f x b = g x b" by simp
  then have "scan_best f b (x # xs) = scan_best f (if g x b then x else b) xs" by simp
  also have "\<dots> = scan_best g (if g x b then x else b) xs"
    using Cons.prems by (intro Cons.IH) auto
  finally show ?case by simp
qed simp

section \<open>Consecutive pairs\<close>

text \<open>\<open>zip(xs, xs[1:])\<close>.\<close>

fun adjacent :: "'a list \<Rightarrow> ('a \<times> 'a) list" where
  "adjacent (x # y # ys) = (x, y) # adjacent (y # ys)"
| "adjacent _ = []"

lemma adjacent_zip: "adjacent xs = zip xs (tl xs)"
  by (induction xs rule: adjacent.induct) auto

lemma sorted_adjacent: "sorted xs \<longleftrightarrow> (\<forall>(a, b) \<in> set (adjacent xs). a \<le> b)"
proof (induction xs rule: adjacent.induct)
  case (1 x y ys)
  have "sorted (x # y # ys) \<longleftrightarrow> x \<le> y \<and> sorted (y # ys)" by auto
  with 1 show ?case by simp
qed auto

section \<open>Indexing and slicing\<close>

text \<open>\<open>xs[i]\<close> counts negative indices from the end and raises outside the list; \<open>xs[:n]\<close> never raises.\<close>

definition py_index :: "'a list \<Rightarrow> int \<Rightarrow> 'a res" where
  "py_index xs i =
     (if i < - int (length xs) \<or> int (length xs) \<le> i then Inl IndexError
      else Inr (xs ! nat (if 0 \<le> i then i else int (length xs) + i)))"

definition py_take :: "int \<Rightarrow> 'a list \<Rightarrow> 'a list" where
  "py_take n xs = (if 0 \<le> n then take (nat n) xs else take (nat (int (length xs) + n)) xs)"

lemma py_index_nat [simp]: "i < length xs \<Longrightarrow> py_index xs (int i) = Inr (xs ! i)"
  by (simp add: py_index_def)

lemma py_take_nat [simp]: "py_take (int n) xs = take n xs"
  by (simp add: py_take_def)

end
