(* ===== verification/PyFloat.thy ===== *)
theory PyFloat
  imports Prelude Complex_Main
begin

text \<open>
  Python's \<open>float\<close>: the IEEE 754 double, with the rounding of every operation written out.
  A finite float is the rational number it denotes. An arithmetic result is the exact result
  rounded to 53 significant bits, ties to even, with gradual underflow below 2 to the -1022 and
  overflow to an infinity. The two zeros are identified: the modelled code never divides by
  a zero (Python raises) and never prints one.
\<close>

section \<open>Rounding\<close>

datatype pyfloat = Fin rat | PInf | NInf | NaN

definition pow2 :: "int \<Rightarrow> rat" where
  "pow2 e = (if 0 \<le> e then 2 ^ nat e else 1 / 2 ^ nat (- e))"

fun bit_count :: "nat \<Rightarrow> nat" where
  "bit_count n = (if n = 0 then 0 else Suc (bit_count (n div 2)))"

declare bit_count.simps [simp del]

text \<open>The binary exponent of a non-zero number: the largest \<open>e\<close> with \<open>pow2 e \<le> \<bar>x\<bar>\<close>.\<close>

definition expo :: "rat \<Rightarrow> int" where
  "expo x =
     (if 1 \<le> \<bar>x\<bar> then int (bit_count (nat \<lfloor>\<bar>x\<bar>\<rfloor>)) - 1
      else - int (bit_count (nat (\<lceil>1 / \<bar>x\<bar>\<rceil> - 1))))"

text \<open>The exponent of the last kept bit: 53 significant bits, but never below -1074.\<close>

definition quantum :: "rat \<Rightarrow> int" where
  "quantum x = max (-1074) (expo x - 52)"

definition round_even :: "rat \<Rightarrow> int" where
  "round_even x =
     (let f = \<lfloor>x\<rfloor>; d = x - of_int f
      in if d < 1 / 2 then f else if 1 / 2 < d then f + 1 else if even f then f else f + 1)"

definition rnd :: "rat \<Rightarrow> rat" where
  "rnd x =
     (if x = 0 then 0
      else let u = pow2 (quantum x) in of_int (round_even (x / u)) * u)"

definition fl :: "rat \<Rightarrow> pyfloat" where
  "fl x =
     (let r = rnd x
      in if \<bar>r\<bar> < 2 ^ 1024 then Fin r else if 0 < r then PInf else NInf)"

subsection \<open>Powers of two and the exponent\<close>

lemma pow2_pos [simp]: "0 < pow2 e"
  by (simp add: pow2_def)

lemma pow2_nonzero [simp]: "pow2 e \<noteq> 0"
  using pow2_pos [of e] by linarith

lemma pow2_nonneg [simp]: "0 \<le> pow2 e"
  using pow2_pos [of e] by linarith

lemma pow2_nat: "pow2 (int n) = 2 ^ n"
  by (simp add: pow2_def)

lemma pow2_Suc: "pow2 (e + 1) = 2 * pow2 e"
proof (cases "0 \<le> e")
  case True
  then have "nat (e + 1) = Suc (nat e)" by simp
  with True show ?thesis by (simp add: pow2_def)
next
  case False
  show ?thesis
  proof (cases "e = -1")
    case True
    then show ?thesis by (simp add: pow2_def)
  next
    case ne: False
    with False have "nat (- e) = Suc (nat (- (e + 1)))" by simp
    with False ne show ?thesis by (simp add: pow2_def field_simps)
  qed
qed

lemma pow2_add_nat: "pow2 (e + int n) = pow2 e * 2 ^ n"
proof (induction n)
  case (Suc n)
  have "pow2 (e + int (Suc n)) = pow2 ((e + int n) + 1)" by (simp add: algebra_simps)
  also have "\<dots> = 2 * pow2 (e + int n)" by (rule pow2_Suc)
  finally show ?case using Suc by simp
qed simp

lemma pow2_split:
  assumes "a \<le> b"
  shows "pow2 b = pow2 a * 2 ^ nat (b - a)"
  using pow2_add_nat [of a "nat (b - a)"] assms by simp

lemma pow2_mono:
  assumes "a \<le> b"
  shows "pow2 a \<le> pow2 b"
proof -
  have "pow2 a * 1 \<le> pow2 a * 2 ^ nat (b - a)" by (rule mult_left_mono) simp_all
  with pow2_split [OF assms] show ?thesis by simp
qed

lemma pow2_less_cancel: "pow2 a < pow2 b \<Longrightarrow> a < b"
  using pow2_mono [of b a] by linarith

lemma bit_count_bounds:
  assumes "0 < n"
  shows "2 ^ (bit_count n - 1) \<le> n" and "n < 2 ^ bit_count n" and "0 < bit_count n"
proof -
  have "2 ^ (bit_count n - 1) \<le> n \<and> n < 2 ^ bit_count n \<and> 0 < bit_count n"
    using assms
  proof (induction n rule: bit_count.induct)
    case (1 n)
    show ?case
    proof (cases "n div 2 = 0")
      case True
      with 1(2) have "n = 1" by linarith
      then show ?thesis by (simp add: bit_count.simps)
    next
      case False
      with 1 have IH: "2 ^ (bit_count (n div 2) - 1) \<le> n div 2"
        "n div 2 < 2 ^ bit_count (n div 2)" "0 < bit_count (n div 2)"
        by simp_all
      obtain k where k: "bit_count (n div 2) = Suc k"
        using IH(3) by (cases "bit_count (n div 2)") auto
      have b: "bit_count n = Suc (Suc k)"
        using 1(2) k by (simp add: bit_count.simps [of n])
      have "2 * 2 ^ k \<le> n" and "n < 2 * (2 * 2 ^ k)"
        using IH(1,2) k by simp_all
      then show ?thesis by (simp add: b)
    qed
  qed
  then show "2 ^ (bit_count n - 1) \<le> n" and "n < 2 ^ bit_count n" and "0 < bit_count n"
    by auto
qed

lemma bit_count_bounds_rat:
  assumes "0 < n"
  shows "(2::rat) ^ (bit_count n - 1) \<le> of_nat n" and "of_nat (Suc n) \<le> (2::rat) ^ bit_count n"
proof -
  show "(2::rat) ^ (bit_count n - 1) \<le> of_nat n"
    using of_nat_mono [OF bit_count_bounds(1) [OF assms], where 'a = rat] by simp
  have "Suc n \<le> 2 ^ bit_count n" using bit_count_bounds(2) [OF assms] by simp
  from of_nat_mono [OF this, where 'a = rat] show "of_nat (Suc n) \<le> (2::rat) ^ bit_count n" by simp
qed

lemma expo_bounds_ge1:
  assumes "1 \<le> (a::rat)"
  shows "pow2 (int (bit_count (nat \<lfloor>a\<rfloor>)) - 1) \<le> a" and "a < pow2 (int (bit_count (nat \<lfloor>a\<rfloor>)))"
proof -
  define n where "n = nat \<lfloor>a\<rfloor>"
  have n: "0 < n" using assms by (simp add: n_def)
  obtain c where c: "c = \<lfloor>a\<rfloor>" by simp
  have "0 \<le> c" using assms by (simp add: c)
  then have "(of_nat n :: rat) = of_int c" by (simp add: n_def c [symmetric])
  moreover have "of_int c \<le> a" "a < of_int c + 1"
    using floor_correct [of a] by (simp_all add: c)
  ultimately have fl: "of_nat n \<le> a" "a < of_nat (Suc n)" by simp_all
  have "int (bit_count n) - 1 = int (bit_count n - 1)"
    using bit_count_bounds(3) [OF n] by (simp add: of_nat_diff)
  then have "pow2 (int (bit_count n) - 1) = 2 ^ (bit_count n - 1)"
    by (simp only: pow2_nat)
  with order_trans [OF bit_count_bounds_rat(1) [OF n] fl(1)]
  show "pow2 (int (bit_count (nat \<lfloor>a\<rfloor>)) - 1) \<le> a"
    unfolding n_def by argo
  from less_le_trans [OF fl(2) bit_count_bounds_rat(2) [OF n]]
  show "a < pow2 (int (bit_count (nat \<lfloor>a\<rfloor>)))"
    unfolding n_def pow2_nat .
qed

lemma pow2_minus: "pow2 (- int n) = 1 / 2 ^ n"
  by (simp add: pow2_def)

lemma expo_bounds_lt1:
  assumes "0 < (a::rat)" and "a < 1"
  shows "pow2 (- int (bit_count (nat (\<lceil>1 / a\<rceil> - 1)))) \<le> a"
    and "a < pow2 (- int (bit_count (nat (\<lceil>1 / a\<rceil> - 1))) + 1)"
proof -
  obtain c where c: "c = \<lceil>1 / a\<rceil>" by simp
  define m where "m = nat (\<lceil>1 / a\<rceil> - 1)"
  have y: "1 < 1 / a" using assms by simp
  have ceil: "of_int c - 1 < 1 / a" "1 / a \<le> of_int c"
    using ceiling_correct [of "1 / a"] unfolding c by auto
  have "(of_int 1 :: rat) < of_int c" using y ceil(2) by simp
  then have c1: "1 < c" by (rule of_int_less_iff [THEN iffD1])
  then have m: "0 < m" by (simp add: m_def c [symmetric])
  have "(of_nat m :: rat) = of_int c - 1" using c1 by (simp add: m_def c [symmetric])
  then have low: "of_nat m < 1 / a" and up: "1 / a \<le> of_nat (Suc m)"
    using ceil by simp_all
  have "1 / a \<le> 2 ^ bit_count m"
    using order_trans [OF up bit_count_bounds_rat(2) [OF m]] .
  then show "pow2 (- int (bit_count (nat (\<lceil>1 / a\<rceil> - 1)))) \<le> a"
    using assms(1) by (simp add: m_def [symmetric] pow2_minus field_simps)
  obtain k where k: "bit_count m = Suc k" using bit_count_bounds(3) [OF m] by (cases "bit_count m") auto
  have "2 ^ k < 1 / a"
    using le_less_trans [OF bit_count_bounds_rat(1) [OF m] low] unfolding k by simp
  then have "a < 1 / 2 ^ k" using assms(1) by (simp add: field_simps)
  moreover have "pow2 (- int (bit_count m) + 1) = 1 / 2 ^ k"
    using pow2_minus [of k] by (simp add: k)
  ultimately show "a < pow2 (- int (bit_count (nat (\<lceil>1 / a\<rceil> - 1))) + 1)"
    unfolding m_def by argo
qed

lemma expo_bounds:
  assumes "x \<noteq> 0"
  shows "pow2 (expo x) \<le> \<bar>x\<bar>" and "\<bar>x\<bar> < pow2 (expo x + 1)"
  using expo_bounds_ge1 [of "\<bar>x\<bar>"] expo_bounds_lt1 [of "\<bar>x\<bar>"] assms
  by (auto simp: expo_def)

lemma expo_mono:
  assumes "x \<noteq> 0" and "\<bar>x\<bar> \<le> \<bar>y\<bar>"
  shows "expo x \<le> expo y"
proof -
  have "y \<noteq> 0" using assms by auto
  then have "pow2 (expo x) < pow2 (expo y + 1)"
    using expo_bounds(1) [OF assms(1)] expo_bounds(2) [of y] assms(2) by linarith
  from pow2_less_cancel [OF this] show ?thesis by simp
qed

subsection \<open>Rounding is monotone, odd and exact on representable numbers\<close>

lemma round_even_of_int [simp]: "round_even (of_int n) = n"
  by (simp add: round_even_def)

lemma round_even_floor: "\<lfloor>x\<rfloor> \<le> round_even x" "round_even x \<le> \<lfloor>x\<rfloor> + 1"
  by (auto simp: round_even_def Let_def)

lemma round_even_mono:
  assumes "x \<le> y"
  shows "round_even x \<le> round_even y"
proof (cases "\<lfloor>x\<rfloor> = \<lfloor>y\<rfloor>")
  case True
  then have "x - of_int \<lfloor>x\<rfloor> \<le> y - of_int \<lfloor>y\<rfloor>" using assms by simp
  with True show ?thesis by (auto simp: round_even_def Let_def)
next
  case False
  with floor_mono [OF assms] have "\<lfloor>x\<rfloor> + 1 \<le> \<lfloor>y\<rfloor>" by simp
  with round_even_floor(2) [of x] round_even_floor(1) [of y] show ?thesis by linarith
qed

lemma round_even_minus: "round_even (- x) = - round_even x"
proof (cases "x = of_int \<lfloor>x\<rfloor>")
  case True
  then have "- x = of_int (- \<lfloor>x\<rfloor>)" by simp
  then show ?thesis by (metis True round_even_of_int)
next
  case False
  define f where "f = \<lfloor>x\<rfloor>"
  have f: "of_int f < x" "x < of_int f + 1"
    using False floor_correct [of x] by (auto simp: f_def less_le)
  have "\<lfloor>- x\<rfloor> = - f - 1" using f by (simp add: floor_eq_iff)
  then show ?thesis by (auto simp: round_even_def Let_def f_def [symmetric])
qed

lemma rnd_0 [simp]: "rnd 0 = 0"
  by (simp add: rnd_def)

lemma expo_minus [simp]: "expo (- x) = expo x"
  by (simp add: expo_def)

lemma rnd_minus: "rnd (- x) = - rnd x"
  by (simp add: rnd_def quantum_def Let_def round_even_minus)

lemma rnd_eq: "x \<noteq> 0 \<Longrightarrow> rnd x = of_int (round_even (x / pow2 (quantum x))) * pow2 (quantum x)"
  by (simp add: rnd_def Let_def)

lemma pow2_div: "q \<le> e \<Longrightarrow> pow2 e / pow2 q = of_int (2 ^ nat (e - q))"
  by (simp add: pow2_split [of q e])

text \<open>Rounding does not cross a power of two that lies on the grid.\<close>

lemma rnd_le_pow2:
  assumes "0 < x" and "x \<le> pow2 e" and "quantum x \<le> e"
  shows "rnd x \<le> pow2 e"
proof -
  have "x / pow2 (quantum x) \<le> pow2 e / pow2 (quantum x)"
    using assms(2) by (simp add: divide_right_mono)
  also have "\<dots> = of_int (2 ^ nat (e - quantum x))" by (rule pow2_div [OF assms(3)])
  finally have "round_even (x / pow2 (quantum x)) \<le> 2 ^ nat (e - quantum x)"
    using round_even_mono round_even_of_int by metis
  then have "(of_int (round_even (x / pow2 (quantum x))) :: rat) \<le> of_int (2 ^ nat (e - quantum x))"
    by (rule of_int_le_iff [THEN iffD2])
  then have "rnd x \<le> of_int (2 ^ nat (e - quantum x)) * pow2 (quantum x)"
    using assms(1) by (simp add: rnd_eq)
  also have "\<dots> = pow2 e" by (simp add: pow2_split [OF assms(3)])
  finally show ?thesis .
qed

lemma rnd_ge_pow2:
  assumes "pow2 e \<le> x" and "quantum x \<le> e"
  shows "pow2 e \<le> rnd x"
proof -
  have "0 < x" using pow2_pos [of e] assms(1) by linarith
  have "of_int (2 ^ nat (e - quantum x)) \<le> x / pow2 (quantum x)"
    using divide_right_mono [OF assms(1), of "pow2 (quantum x)"] by (simp add: pow2_div [OF assms(2)])
  then have "2 ^ nat (e - quantum x) \<le> round_even (x / pow2 (quantum x))"
    using round_even_mono round_even_of_int by metis
  then have "(of_int (2 ^ nat (e - quantum x)) :: rat) \<le> of_int (round_even (x / pow2 (quantum x)))"
    by (rule of_int_le_iff [THEN iffD2])
  then have "of_int (2 ^ nat (e - quantum x)) * pow2 (quantum x) \<le> rnd x"
    using \<open>0 < x\<close> by (simp add: rnd_eq)
  moreover have "of_int (2 ^ nat (e - quantum x)) * pow2 (quantum x) = pow2 e"
    by (simp add: pow2_split [OF assms(2)])
  ultimately show ?thesis by simp
qed

lemma rnd_nonneg [simp]: "0 \<le> x \<Longrightarrow> 0 \<le> rnd x"
proof (cases "x = 0")
  case False
  assume "0 \<le> x"
  then have "0 \<le> round_even (x / pow2 (quantum x))"
    using round_even_mono [of 0 "x / pow2 (quantum x)"] round_even_of_int [of 0] by simp
  with False show ?thesis by (simp add: rnd_eq)
qed simp

lemma rnd_mono_pos:
  assumes "0 < x" and "x \<le> y"
  shows "rnd x \<le> rnd y"
proof (cases "quantum x = quantum y")
  case True
  have "x / pow2 (quantum y) \<le> y / pow2 (quantum y)"
    using assms(2) by (simp add: divide_right_mono)
  from round_even_mono [OF this]
  show ?thesis using True assms by (simp add: rnd_eq mult_right_mono)
next
  case False
  have le: "expo x \<le> expo y" using assms by (intro expo_mono) auto
  with False have q: "quantum y = expo y - 52" "quantum x < quantum y" "expo x < expo y"
    by (auto simp: quantum_def max_def split: if_splits)
  have "x < pow2 (expo x + 1)" using expo_bounds(2) [of x] assms(1) by simp
  also have "\<dots> \<le> pow2 (expo y)" using q(3) by (intro pow2_mono) simp
  finally have "rnd x \<le> pow2 (expo y)"
    using assms(1) q by (intro rnd_le_pow2) auto
  also have "\<dots> \<le> rnd y"
    using expo_bounds(1) [of y] assms q by (intro rnd_ge_pow2) auto
  finally show ?thesis .
qed

lemma rnd_mono: "x \<le> y \<Longrightarrow> rnd x \<le> rnd y"
proof -
  assume le: "x \<le> y"
  consider "0 < x" | "x \<le> 0" "0 \<le> y" | "y < 0" by linarith
  then show ?thesis
  proof cases
    case 1
    then show ?thesis using rnd_mono_pos le by blast
  next
    case 2
    then have "0 \<le> rnd (- x)" "0 \<le> rnd y" by simp_all
    then show ?thesis by (simp add: rnd_minus)
  next
    case 3
    then have "rnd (- y) \<le> rnd (- x)" using rnd_mono_pos le by simp
    then show ?thesis by (simp add: rnd_minus)
  qed
qed

text \<open>The finite doubles: an integer of at most 53 bits times a power of two.\<close>

definition representable :: "rat \<Rightarrow> bool" where
  "representable x \<longleftrightarrow> (\<exists>m q. x = of_int m * pow2 q \<and> \<bar>m\<bar> \<le> 2 ^ 53 \<and> -1074 \<le> q)"

lemma rnd_on_grid:
  assumes "x \<noteq> 0" and "x = of_int m * pow2 q" and "quantum x \<le> q"
  shows "rnd x = x"
proof -
  define u where "u = quantum x"
  have "x / pow2 u = of_int m * (pow2 q / pow2 u)" by (simp add: assms(2))
  also have "\<dots> = of_int (m * 2 ^ nat (q - u))"
    using pow2_div [OF assms(3)] by (simp add: u_def)
  finally have "round_even (x / pow2 u) = m * 2 ^ nat (q - u)"
    by (simp only: round_even_of_int)
  then have "rnd x = of_int (m * 2 ^ nat (q - u)) * pow2 u"
    using assms(1) by (simp add: rnd_eq u_def)
  also have "\<dots> = of_int m * pow2 q" using pow2_split [OF assms(3)] by (simp add: u_def)
  finally show ?thesis using assms(2) by simp
qed

lemma rnd_representable:
  assumes "representable x"
  shows "rnd x = x"
proof (cases "x = 0")
  case False
  obtain m q where mq: "x = of_int m * pow2 q" "\<bar>m\<bar> \<le> 2 ^ 53" "-1074 \<le> q"
    using assms by (auto simp: representable_def)
  have abs: "\<bar>x\<bar> = of_int \<bar>m\<bar> * pow2 q" using mq(1) by (simp add: abs_mult)
  show ?thesis
  proof (cases "\<bar>m\<bar> = 2 ^ 53")
    case True
    have "expo x \<le> q + 53"
    proof -
      have two: "pow2 (q + 54) = 2 * pow2 (q + 53)"
        using pow2_Suc [of "q + 53"] by (simp add: add.assoc)
      have "\<bar>x\<bar> = pow2 (q + 53)" using abs True pow2_add_nat [of q 53] by simp
      then have "pow2 (expo x) < pow2 (q + 54)"
        using expo_bounds(1) [OF False] two pow2_pos [of "q + 53"] by linarith
      from pow2_less_cancel [OF this] show ?thesis by simp
    qed
    then have quant: "quantum x \<le> q + 1" using mq(3) by (simp add: quantum_def)
    obtain s where s: "m = s * 2 ^ 53" "s = 1 \<or> s = -1"
      using True by (cases "0 \<le> m") auto
    have "x = of_int (s * 2 ^ 52) * pow2 (q + 1)"
      unfolding mq(1) s(1) pow2_Suc by simp
    from rnd_on_grid [OF False this quant] show ?thesis .
  next
    case ne: False
    with mq(2) have "\<bar>m\<bar> < 2 ^ 53" by simp
    then have "(of_int \<bar>m\<bar> :: rat) < of_int (2 ^ 53)" by (rule of_int_less_iff [THEN iffD2])
    then have "\<bar>x\<bar> < pow2 (q + 53)"
      using abs pow2_add_nat [of q 53] by simp
    with expo_bounds(1) [OF False] have "pow2 (expo x) < pow2 (q + 53)" by linarith
    from pow2_less_cancel [OF this] have "quantum x \<le> q"
      using mq(3) by (simp add: quantum_def)
    from rnd_on_grid [OF False mq(1) this] show ?thesis .
  qed
qed simp

lemma representable_rnd: "representable (rnd x)"
proof (cases "x = 0")
  case True
  have "(0::rat) = of_int 0 * pow2 0 \<and> \<bar>0::int\<bar> \<le> 2 ^ 53 \<and> -1074 \<le> (0::int)" by simp
  with True show ?thesis unfolding representable_def by (metis rnd_0)
next
  case False
  define q where "q = quantum x"
  define m where "m = round_even (x / pow2 q)"
  have q: "-1074 \<le> q" "expo x + 1 \<le> q + 53" by (auto simp: q_def quantum_def)
  have "\<bar>x\<bar> \<le> pow2 (q + 53)"
    using expo_bounds(2) [OF False] pow2_mono [OF q(2)] by linarith
  also have "\<dots> = of_int (2 ^ 53) * pow2 q" using pow2_add_nat [of q 53] by simp
  finally have "\<bar>x / pow2 q\<bar> \<le> of_int (2 ^ 53)"
    by (simp add: abs_divide divide_le_eq)
  then have "x / pow2 q \<le> of_int (2 ^ 53)" "of_int (- (2 ^ 53)) \<le> x / pow2 q"
    unfolding abs_le_iff by simp_all
  then have "m \<le> 2 ^ 53" "- (2 ^ 53) \<le> m"
    unfolding m_def using round_even_mono round_even_of_int by metis+
  then have "\<bar>m\<bar> \<le> 2 ^ 53" by simp
  moreover have "rnd x = of_int m * pow2 q" using False by (simp add: rnd_eq m_def q_def)
  ultimately show ?thesis using q(1) unfolding representable_def by blast
qed

lemma rnd_idem [simp]: "rnd (rnd x) = rnd x"
  by (rule rnd_representable [OF representable_rnd])

lemma rnd_of_int: "\<bar>n\<bar> \<le> 2 ^ 53 \<Longrightarrow> rnd (of_int n) = of_int n"
proof (rule rnd_representable)
  assume "\<bar>n\<bar> \<le> 2 ^ 53"
  then show "representable (of_int n)"
    unfolding representable_def by (intro exI [of _ n] exI [of _ 0]) (simp add: pow2_def)
qed

text \<open>
  What the components use of a rounding rule, and its consequences: rounding is monotone and leaves
  its grid fixed, so a bound that lies on the grid survives rounding.
\<close>

locale rounding =
  fixes r :: "rat \<Rightarrow> rat" and grid :: "rat \<Rightarrow> bool"
  assumes mono: "x \<le> y \<Longrightarrow> r x \<le> r y"
    and on_grid: "grid x \<Longrightarrow> r x = x"
    and zero: "grid 0"
begin

lemma upper: "grid b \<Longrightarrow> x \<le> b \<Longrightarrow> r x \<le> b"
  using mono [of x b] on_grid by simp

lemma lower: "grid b \<Longrightarrow> b \<le> x \<Longrightarrow> b \<le> r x"
  using mono [of b x] on_grid by simp

lemma nonneg: "0 \<le> x \<Longrightarrow> 0 \<le> r x"
  using lower zero by blast

lemma nonpos: "x \<le> 0 \<Longrightarrow> r x \<le> 0"
  using upper zero by blast

lemma add_ge_left: "grid a \<Longrightarrow> 0 \<le> b \<Longrightarrow> a \<le> r (a + b)"
  by (rule lower) simp_all

lemma add_mono: "a \<le> a' \<Longrightarrow> b \<le> b' \<Longrightarrow> r (a + b) \<le> r (a' + b')"
  by (rule mono) simp

end

interpretation ieee: rounding rnd representable
proof
  show "representable 0" using representable_rnd [of 0] by simp
qed (simp_all add: rnd_mono rnd_representable)

section \<open>Values, order and arithmetic\<close>

fun fval :: "pyfloat \<Rightarrow> rat" where
  "fval (Fin x) = x"
| "fval _ = 0"

fun isfinite :: "pyfloat \<Rightarrow> bool" where
  "isfinite (Fin _) = True"
| "isfinite _ = False"

lemma isfinite_Fin: "isfinite x \<longleftrightarrow> (\<exists>v. x = Fin v)"
  by (cases x) auto

lemma fval_inject: "isfinite x \<Longrightarrow> isfinite y \<Longrightarrow> fval x = fval y \<longleftrightarrow> x = y"
  by (cases x; cases y) auto

text \<open>Python's comparisons: every comparison with a NaN is false.\<close>

fun flt :: "pyfloat \<Rightarrow> pyfloat \<Rightarrow> bool" where
  "flt (Fin a) (Fin b) = (a < b)"
| "flt (Fin _) PInf = True"
| "flt NInf (Fin _) = True"
| "flt NInf PInf = True"
| "flt _ _ = False"

definition feq :: "pyfloat \<Rightarrow> pyfloat \<Rightarrow> bool" where
  "feq a b \<longleftrightarrow> a = b \<and> a \<noteq> NaN"

definition fle :: "pyfloat \<Rightarrow> pyfloat \<Rightarrow> bool" where
  "fle a b \<longleftrightarrow> flt a b \<or> feq a b"

lemma fle_Fin [simp]: "fle (Fin a) (Fin b) \<longleftrightarrow> a \<le> b"
  by (auto simp: fle_def feq_def)

lemma feq_Fin [simp]: "feq (Fin a) (Fin b) \<longleftrightarrow> a = b"
  by (simp add: feq_def)

lemma fle_refl: "a \<noteq> NaN \<Longrightarrow> fle a a"
  by (simp add: fle_def feq_def)

lemma fle_trans: "fle a b \<Longrightarrow> fle b c \<Longrightarrow> fle a c"
  by (cases a; cases b; cases c) (auto simp: fle_def feq_def)

lemma flt_fle_trans: "flt a b \<Longrightarrow> fle b c \<Longrightarrow> flt a c"
  by (cases a; cases b; cases c) (auto simp: fle_def feq_def)

lemma fle_flt_trans: "fle a b \<Longrightarrow> flt b c \<Longrightarrow> flt a c"
  by (cases a; cases b; cases c) (auto simp: fle_def feq_def)

lemma not_flt: "a \<noteq> NaN \<Longrightarrow> b \<noteq> NaN \<Longrightarrow> \<not> flt a b \<longleftrightarrow> fle b a"
  by (cases a; cases b) (auto simp: fle_def feq_def)

text \<open>\<open>sorted\<close> ranks floats by a linear order that agrees with the comparisons off NaN.\<close>

fun float_rank :: "pyfloat \<Rightarrow> nat" where
  "float_rank NInf = 0"
| "float_rank (Fin _) = 1"
| "float_rank PInf = 2"
| "float_rank NaN = 3"

instantiation pyfloat :: linorder
begin

definition less_eq_pyfloat :: "pyfloat \<Rightarrow> pyfloat \<Rightarrow> bool" where
  "less_eq_pyfloat a b \<longleftrightarrow>
     float_rank a < float_rank b \<or> (float_rank a = float_rank b \<and> fval a \<le> fval b)"

definition less_pyfloat :: "pyfloat \<Rightarrow> pyfloat \<Rightarrow> bool" where
  "less_pyfloat a b \<longleftrightarrow> a \<le> b \<and> \<not> b \<le> (a :: pyfloat)"

instance
proof
  fix a b :: pyfloat
  assume "a \<le> b" and "b \<le> a"
  then show "a = b" by (cases a; cases b) (auto simp: less_eq_pyfloat_def)
qed (auto simp: less_pyfloat_def less_eq_pyfloat_def)

end

lemma less_eq_Fin [simp]: "Fin a \<le> Fin b \<longleftrightarrow> a \<le> b"
  by (simp add: less_eq_pyfloat_def)

lemma less_Fin [simp]: "Fin a < Fin b \<longleftrightarrow> a < b"
  by (auto simp: less_pyfloat_def)

lemma flt_less: "a \<noteq> NaN \<Longrightarrow> b \<noteq> NaN \<Longrightarrow> flt a b \<longleftrightarrow> a < b"
  by (cases a; cases b) (auto simp: less_pyfloat_def less_eq_pyfloat_def)

lemma fle_less_eq: "a \<noteq> NaN \<Longrightarrow> b \<noteq> NaN \<Longrightarrow> fle a b \<longleftrightarrow> a \<le> b"
  by (cases a; cases b) (auto simp: fle_def feq_def less_eq_pyfloat_def)

text \<open>
  \<open>min\<close> and \<open>max\<close> of floats, with the rule for NaN that Python's scan has: the first argument stays
  unless the second compares strictly better.
\<close>

definition fmin :: "pyfloat \<Rightarrow> pyfloat \<Rightarrow> pyfloat" where
  "fmin a b = (if flt b a then b else a)"

definition fmax :: "pyfloat \<Rightarrow> pyfloat \<Rightarrow> pyfloat" where
  "fmax a b = (if flt a b then b else a)"

fun fneg :: "pyfloat \<Rightarrow> pyfloat" where
  "fneg (Fin a) = Fin (- a)"
| "fneg PInf = NInf"
| "fneg NInf = PInf"
| "fneg NaN = NaN"

fun fabs :: "pyfloat \<Rightarrow> pyfloat" where
  "fabs (Fin a) = Fin \<bar>a\<bar>"
| "fabs NaN = NaN"
| "fabs _ = PInf"

fun fadd :: "pyfloat \<Rightarrow> pyfloat \<Rightarrow> pyfloat" where
  "fadd (Fin a) (Fin b) = fl (a + b)"
| "fadd NaN _ = NaN"
| "fadd _ NaN = NaN"
| "fadd PInf NInf = NaN"
| "fadd NInf PInf = NaN"
| "fadd PInf _ = PInf"
| "fadd _ PInf = PInf"
| "fadd NInf _ = NInf"
| "fadd _ NInf = NInf"

definition fsub :: "pyfloat \<Rightarrow> pyfloat \<Rightarrow> pyfloat" where
  "fsub a b = fadd a (fneg b)"

definition inf_of :: "rat \<Rightarrow> pyfloat" where
  "inf_of s = (if 0 < s then PInf else if s < 0 then NInf else NaN)"

fun fsign :: "pyfloat \<Rightarrow> rat" where
  "fsign (Fin a) = sgn a"
| "fsign PInf = 1"
| "fsign NInf = -1"
| "fsign NaN = 0"

fun fmul :: "pyfloat \<Rightarrow> pyfloat \<Rightarrow> pyfloat" where
  "fmul (Fin a) (Fin b) = fl (a * b)"
| "fmul a b = inf_of (fsign a * fsign b)"

text \<open>True division raises on a zero divisor.\<close>

fun fdiv :: "pyfloat \<Rightarrow> pyfloat \<Rightarrow> pyfloat res" where
  "fdiv (Fin a) (Fin b) = (if b = 0 then Inl ZeroDivisionError else Inr (fl (a / b)))"
| "fdiv NaN b = (if b = Fin 0 then Inl ZeroDivisionError else Inr NaN)"
| "fdiv a (Fin b) = (if b = 0 then Inl ZeroDivisionError else Inr (inf_of (fsign a * sgn b)))"
| "fdiv _ NaN = Inr NaN"
| "fdiv (Fin _) _ = Inr (Fin 0)"
| "fdiv _ _ = Inr NaN"

text \<open>Conversions between \<open>int\<close> and \<open>float\<close>, and the true division of two \<open>int\<close>s.\<close>

definition float_of_int :: "int \<Rightarrow> pyfloat res" where
  "float_of_int n =
     (case fl (of_int n) of Fin v \<Rightarrow> Inr (Fin v) | _ \<Rightarrow> Inl OverflowError)"

definition int_truediv :: "int \<Rightarrow> int \<Rightarrow> pyfloat res" where
  "int_truediv a b =
     (if b = 0 then Inl ZeroDivisionError
      else case fl (of_int a / of_int b) of Fin v \<Rightarrow> Inr (Fin v) | _ \<Rightarrow> Inl OverflowError)"

fun to_int :: "(rat \<Rightarrow> int) \<Rightarrow> pyfloat \<Rightarrow> int res" where
  "to_int f (Fin a) = Inr (f a)"
| "to_int f NaN = Inl (ValueError ''cannot convert float NaN to integer'')"
| "to_int f _ = Inl OverflowError"

definition math_floor :: "pyfloat \<Rightarrow> int res" where
  "math_floor = to_int floor"

definition math_ceil :: "pyfloat \<Rightarrow> int res" where
  "math_ceil = to_int ceiling"

definition int_of_float :: "pyfloat \<Rightarrow> int res" where
  "int_of_float = to_int (\<lambda>a. if 0 \<le> a then \<lfloor>a\<rfloor> else \<lceil>a\<rceil>)"

text \<open>\<open>math.isclose\<close>.\<close>

definition isclose :: "pyfloat \<Rightarrow> pyfloat \<Rightarrow> pyfloat \<Rightarrow> pyfloat \<Rightarrow> bool" where
  "isclose a b rel_tol abs_tol \<longleftrightarrow>
     feq a b \<or>
     (a \<notin> {PInf, NInf} \<and> b \<notin> {PInf, NInf} \<and>
      (let diff = fabs (fsub b a)
       in fle diff (fabs (fmul rel_tol b)) \<or> fle diff (fabs (fmul rel_tol a)) \<or> fle diff abs_tol))"

text \<open>\<open>statistics.fmean\<close>: the exactly rounded sum (\<open>math.fsum\<close>) over the length.\<close>

definition math_fsum :: "pyfloat list \<Rightarrow> pyfloat res" where
  "math_fsum xs =
     (if NaN \<in> set xs then Inr NaN
      else if PInf \<in> set xs \<and> NInf \<in> set xs then Inl (ValueError ''-inf + inf in fsum'')
      else if PInf \<in> set xs then Inr PInf
      else if NInf \<in> set xs then Inr NInf
      else case fl (sum_list (map fval xs)) of Fin v \<Rightarrow> Inr (Fin v) | _ \<Rightarrow> Inl OverflowError)"

definition fmean :: "pyfloat list \<Rightarrow> pyfloat res" where
  "fmean xs = bnd (math_fsum xs) (\<lambda>t. fdiv t (Fin (of_nat (length xs))))"

subsection \<open>Evaluation\<close>

lemma floor_rat_numeral [simp]:
  "\<lfloor>numeral a / numeral b :: rat\<rfloor> = numeral a div numeral b"
  "\<lfloor>1 / numeral b :: rat\<rfloor> = 1 div numeral b"
  "\<lfloor>- (numeral a / numeral b) :: rat\<rfloor> = - numeral a div numeral b"
  "\<lfloor>- (1 / numeral b) :: rat\<rfloor> = - 1 div numeral b"
  using floor_divide_of_int_eq [of "numeral a" "numeral b", where 'a = rat]
    floor_divide_of_int_eq [of 1 "numeral b", where 'a = rat]
    floor_divide_of_int_eq [of "- numeral a" "numeral b", where 'a = rat]
    floor_divide_of_int_eq [of "- 1" "numeral b", where 'a = rat]
  by simp_all

lemma bit_count_eval:
  "bit_count 0 = 0" "bit_count (Suc 0) = 1" "bit_count 1 = 1"
  "bit_count (numeral (Num.Bit0 n)) = Suc (bit_count (numeral n))"
  "bit_count (numeral (Num.Bit1 n)) = Suc (bit_count (numeral n))"
  "bit_count (numeral Num.One) = 1"
  by (simp_all add: bit_count.simps)

lemmas fl_eval = fl_def rnd_def quantum_def expo_def bit_count_eval round_even_def pow2_def
  ceiling_def Let_def

subsection \<open>Facts the components share\<close>

lemma fl_cases: "fl x = Fin (rnd x) \<or> (fl x = PInf \<and> 0 < rnd x) \<or> (fl x = NInf \<and> rnd x < 0)"
  by (auto simp: fl_def Let_def abs_less_iff)

lemma fl_not_NaN [simp]: "fl x \<noteq> NaN"
  by (simp add: fl_def Let_def)

lemma fl_representable: "representable x \<Longrightarrow> \<bar>x\<bar> < 2 ^ 1024 \<Longrightarrow> fl x = Fin x"
  by (simp add: fl_def rnd_representable)

lemma fl_of_int: "\<bar>n\<bar> \<le> 2 ^ 53 \<Longrightarrow> fl (of_int n) = Fin (of_int n)"
proof -
  assume n: "\<bar>n\<bar> \<le> 2 ^ 53"
  then have "(of_int \<bar>n\<bar> :: rat) \<le> of_int (2 ^ 53)" by (rule of_int_le_iff [THEN iffD2])
  then have "\<bar>of_int n :: rat\<bar> < 2 ^ 1024" by simp
  with rnd_of_int [OF n] show ?thesis by (simp add: fl_def)
qed

text \<open>Evaluation: whole numbers need no rounding, and small results no test for overflow.\<close>

lemma fl_code [code]:
  "fl x =
     (let n = \<lfloor>x\<rfloor>
      in if x = of_int n \<and> \<bar>n\<bar> \<le> 9007199254740992 then Fin x
         else let r = rnd x
              in if \<bar>r\<bar> < 9007199254740992 then Fin r
                 else if \<bar>r\<bar> < 2 ^ 1024 then Fin r else if 0 < r then PInf else NInf)"
proof -
  have "(9007199254740992 :: rat) < 2 ^ 1024" by simp
  then show ?thesis using fl_of_int [of "\<lfloor>x\<rfloor>"] by (auto simp: Let_def fl_def [of x])
qed

lemma fl_mono: "x \<le> y \<Longrightarrow> fle (fl x) (fl y)"
proof -
  assume "x \<le> y"
  then have r: "rnd x \<le> rnd y" by (rule rnd_mono)
  show ?thesis
  proof (cases "\<bar>rnd x\<bar> < 2 ^ 1024"; cases "\<bar>rnd y\<bar> < 2 ^ 1024")
    assume "\<bar>rnd x\<bar> < 2 ^ 1024" "\<bar>rnd y\<bar> < 2 ^ 1024"
    with r show ?thesis by (simp add: fl_def)
  next
    assume x: "\<bar>rnd x\<bar> < 2 ^ 1024" and y: "\<not> \<bar>rnd y\<bar> < 2 ^ 1024"
    from r x y have "0 < rnd y" unfolding abs_less_iff by linarith
    with x y show ?thesis by (simp add: fl_def fle_def)
  next
    assume x: "\<not> \<bar>rnd x\<bar> < 2 ^ 1024" and y: "\<bar>rnd y\<bar> < 2 ^ 1024"
    from r x y have "\<not> 0 < rnd x" unfolding abs_less_iff by linarith
    with x y show ?thesis by (simp add: fl_def fle_def)
  next
    assume x: "\<not> \<bar>rnd x\<bar> < 2 ^ 1024" and y: "\<not> \<bar>rnd y\<bar> < 2 ^ 1024"
    have "0 < rnd y" if "0 < rnd x" using r that by linarith
    with x y show ?thesis by (auto simp: fl_def fle_def feq_def)
  qed
qed

lemma fl_nonneg: "0 \<le> x \<Longrightarrow> fle (Fin 0) (fl x)"
  using fl_mono [of 0 x] fl_of_int [of 0] by simp

lemma fadd_mono:
  assumes "isfinite a" "isfinite b" "isfinite a'" "isfinite b'" and "fle a a'" and "fle b b'"
  shows "fle (fadd a b) (fadd a' b')"
  using assms by (auto simp: isfinite_Fin intro!: fl_mono add_mono)

lemma isfinite_not_NaN: "isfinite a \<Longrightarrow> a \<noteq> NaN"
  by auto

text \<open>
  The value of a Python float is a double. A sum of at most three doubles between 0 and \<open>m\<close> does
  not pass \<open>3.0 * m\<close>, whatever the roundings: \<open>m + m\<close> is exact.
\<close>

definition double :: "pyfloat \<Rightarrow> bool" where
  "double x \<longleftrightarrow> isfinite x \<longrightarrow> representable (fval x) \<and> \<bar>fval x\<bar> < 2 ^ 1024"

lemma double_fl: "double (fl x)"
  using representable_rnd [of x] by (simp add: double_def fl_def Let_def)

lemma double_fl_id: "double (Fin a) \<Longrightarrow> fl a = Fin a"
  by (simp add: double_def fl_representable)

lemma double_fadd: "double (fadd a b)"
  by (cases a; cases b) (auto simp: double_fl, auto simp: double_def)

lemma fadd_nonneg: "fle (Fin 0) a \<Longrightarrow> fle (Fin 0) b \<Longrightarrow> fle (Fin 0) (fadd a b)"
proof (cases "\<exists>x y. a = Fin x \<and> b = Fin y")
  case True
  assume "fle (Fin 0) a" "fle (Fin 0) b"
  with True show ?thesis by (auto intro!: fl_nonneg)
next
  case False
  assume "fle (Fin 0) a" "fle (Fin 0) b"
  with False show ?thesis by (cases a; cases b) (auto simp: fle_def feq_def)
qed

lemma nonneg_not_NaN: "fle (Fin 0) a \<Longrightarrow> a \<noteq> NaN"
  by (auto simp: fle_def feq_def)

lemma fadd_increases:
  assumes "double a" and "fadd a b \<noteq> NaN" and "fle (Fin 0) b"
  shows "fle a (fadd a b)"
proof (cases "\<exists>r q. a = Fin r \<and> b = Fin q")
  case True
  then obtain r q where rq: "a = Fin r" "b = Fin q" by blast
  with assms(3) have "fle (fl r) (fl (r + q))" by (intro fl_mono) simp
  then show ?thesis using rq assms(1) by (simp add: double_fl_id)
next
  case False
  with assms show ?thesis by (cases a; cases b) (auto simp: fle_def feq_def)
qed

lemma representable_double: "representable m \<Longrightarrow> representable (2 * m)"
  unfolding representable_def
proof (elim exE conjE)
  fix k q assume "m = of_int k * pow2 q" "\<bar>k\<bar> \<le> 2 ^ 53" "-1074 \<le> q"
  then have "2 * m = of_int k * pow2 (q + 1) \<and> \<bar>k\<bar> \<le> 2 ^ 53 \<and> -1074 \<le> q + 1"
    by (simp add: pow2_Suc)
  then show "\<exists>k q. 2 * m = of_int k * pow2 q \<and> \<bar>k\<bar> \<le> 2 ^ 53 \<and> -1074 \<le> q" by blast
qed

lemma fl_overflow: "2 ^ 1024 \<le> x \<Longrightarrow> fl x = PInf"
proof -
  assume x: "2 ^ 1024 \<le> x"
  have "representable (2 ^ 1024)"
    unfolding representable_def by (rule exI [of _ 1], rule exI [of _ 1024]) (simp add: pow2_def)
  then have "rnd (2 ^ 1024) = 2 ^ 1024" by (rule rnd_representable)
  with rnd_mono [OF x] have "2 ^ 1024 \<le> rnd x" by simp
  moreover from this have "0 < rnd x" by (rule less_le_trans [rotated]) simp
  ultimately show ?thesis by (auto simp: fl_def Let_def)
qed

lemma triple_sum_step:
  assumes "a \<le> m" "b \<le> m" "c \<le> m" and "0 \<le> m" and "double (Fin m)"
  shows "fle (fadd (fl (a + b)) (Fin c)) (fl (3 * m))"
proof (cases "2 * m < 2 ^ 1024")
  case True
  have "fl (2 * m) = Fin (2 * m)"
    using assms(4,5) True by (intro fl_representable representable_double) (auto simp: double_def)
  then have le: "fle (fl (a + b)) (Fin (2 * m))" using fl_mono [of "a + b" "2 * m"] assms(1,2) by simp
  show ?thesis
  proof (cases "fl (a + b)")
    case (Fin s)
    with le assms(3) have "s + c \<le> 3 * m" by simp
    with Fin show ?thesis by (simp add: fl_mono)
  next
    case NInf
    then show ?thesis using fl_not_NaN [of "3 * m"] by (cases "fl (3 * m)") (auto simp: fle_def feq_def)
  qed (use le in \<open>simp_all add: fle_def feq_def\<close>)
next
  case False
  then have "fl (3 * m) = PInf" using assms(4) by (intro fl_overflow) linarith
  moreover have "fadd (fl (a + b)) (Fin c) \<noteq> NaN"
    using fl_not_NaN [of "a + b"] by (cases "fl (a + b)") auto
  ultimately show ?thesis by (cases "fadd (fl (a + b)) (Fin c)") (auto simp: fle_def feq_def)
qed

lemma triple_sum:
  assumes "length vs \<le> 3" and "0 \<le> m" and "double (Fin m)"
    and "\<And>v. v \<in> set vs \<Longrightarrow> double v \<and> isfinite v \<and> fle v (Fin m)"
  shows "fle (foldl fadd (Fin 0) vs) (fmul (Fin 3) (Fin m))"
proof -
  have "vs = map Fin (map fval vs)"
    unfolding map_map using assms(4)
    by (intro map_idI [symmetric]) (metis comp_apply fval.simps(1) isfinite_Fin)
  then obtain rs where vs: "vs = map Fin rs" by blast
  have rs: "double (Fin r) \<and> r \<le> m" if "r \<in> set rs" for r using assms(4) [of "Fin r"] that vs by auto
  have one: "fl a = Fin a" if "a \<in> set rs" for a using rs [OF that] double_fl_id by blast
  have up: "fle (fl x) (fl (3 * m))" if "x \<le> 3 * m" for x using that by (rule fl_mono)
  consider "rs = []" | a where "rs = [a]" | a b where "rs = [a, b]" | a b c where "rs = [a, b, c]"
    using assms(1) vs by (cases rs; cases "tl rs"; cases "tl (tl rs)") auto
  then show ?thesis
  proof cases
    case 1
    then show ?thesis using up [of 0] fl_of_int [of 0] assms(2) vs by simp
  next
    case 2
    then show ?thesis using up [of a] one rs assms(2) vs by auto
  next
    case 3
    then have "a \<le> m" "b \<le> m" "fl a = Fin a" using rs [of a] rs [of b] one [of a] by auto
    with 3 up [of "a + b"] assms(2) vs show ?thesis by simp
  next
    case 4
    then show ?thesis using triple_sum_step [of a m b c] one [of a] rs assms(2,3) vs by simp
  qed
qed

text \<open>Bounds of a running maximum.\<close>

lemma foldl_fmax_le: "fle v m \<Longrightarrow> \<forall>w \<in> set vs. fle w m \<Longrightarrow> fle (foldl fmax v vs) m"
  by (induction vs arbitrary: v) (auto simp: fmax_def)

lemma fmax_ge:
  "a \<noteq> NaN \<Longrightarrow> b \<noteq> NaN \<Longrightarrow> fle a (fmax a b) \<and> fle b (fmax a b) \<and> fmax a b \<noteq> NaN"
  by (cases a; cases b) (auto simp: fmax_def fle_def feq_def)

lemma foldl_fmax_ge:
  "v \<noteq> NaN \<Longrightarrow> NaN \<notin> set vs \<Longrightarrow> w \<in> set (v # vs) \<Longrightarrow> fle w (foldl fmax v vs)"
proof (induction vs arbitrary: v w)
  case Nil
  then show ?case by (simp add: fle_refl)
next
  case (Cons x xs)
  have x: "x \<noteq> NaN" "NaN \<notin> set xs" using Cons.prems(2) by auto
  note mx = fmax_ge [OF Cons.prems(1) x(1)]
  have top: "fle (fmax v x) (foldl fmax (fmax v x) xs)"
    using Cons.IH [of "fmax v x" "fmax v x"] mx x(2) by simp
  consider "w = v" | "w = x" | "w \<in> set xs" using Cons.prems(3) by auto
  then show ?case
  proof cases
    case 3
    then show ?thesis using Cons.IH [of "fmax v x" w] mx x(2) by simp
  qed (use mx top fle_trans in auto)
qed

lemma foldl_fmax_in: "foldl fmax v vs \<in> insert v (set vs)"
proof (induction vs arbitrary: v)
  case (Cons x xs)
  from Cons [of "fmax v x"] show ?case by (auto simp: fmax_def split: if_splits)
qed simp

text \<open>\<open>max\<close> by a float key that is never a NaN.\<close>

lemma best_by_flt:
  assumes "\<forall>x \<in> set xs. k x \<noteq> NaN"
  shows "best_by (\<lambda>a b. flt (k b) (k a)) xs = best_by (key_greater k) xs"
  using assms by (cases xs) (auto simp: best_by_def key_greater_def flt_less intro!: scan_best_cong)

lemma fl_between:
  assumes "fl a = Fin a" and "fl b = Fin b" and "a \<le> x" and "x \<le> b"
  shows "\<exists>v. fl x = Fin v \<and> a \<le> v \<and> v \<le> b"
  using fl_mono [OF assms(3)] fl_mono [OF assms(4)] assms(1,2) by (cases "fl x") (auto simp: fle_def feq_def)

end
