(* ===== verification/PyText.thy ===== *)
theory PyText
  imports PyFloat
begin

text \<open>
  Text conversions of Python: \<open>str(n)\<close>, \<open>int(s)\<close>, \<open>float(s)\<close>, \<open>str.strip\<close> and the ASCII case
  mappings. Strings are sequences of ASCII characters.
\<close>

section \<open>Characters\<close>

definition code :: "char \<Rightarrow> nat" where
  "code c = of_char c"

definition is_digit :: "char \<Rightarrow> bool" where
  "is_digit c \<longleftrightarrow> 48 \<le> code c \<and> code c \<le> 57"

definition digit_char :: "nat \<Rightarrow> char" where
  "digit_char d = char_of (48 + d)"

definition digit_val :: "char \<Rightarrow> nat" where
  "digit_val c = code c - 48"

definition is_space :: "char \<Rightarrow> bool" where
  "is_space c \<longleftrightarrow> (9 \<le> code c \<and> code c \<le> 13) \<or> (28 \<le> code c \<and> code c \<le> 32)"

definition lower_char :: "char \<Rightarrow> char" where
  "lower_char c = (if 65 \<le> code c \<and> code c \<le> 90 then char_of (code c + 32) else c)"

definition upper_char :: "char \<Rightarrow> char" where
  "upper_char c = (if 97 \<le> code c \<and> code c \<le> 122 then char_of (code c - 32) else c)"

definition py_lower :: "string \<Rightarrow> string" where
  "py_lower = map lower_char"

definition py_upper :: "string \<Rightarrow> string" where
  "py_upper = map upper_char"

definition strip :: "string \<Rightarrow> string" where
  "strip s = rev (dropWhile is_space (rev (dropWhile is_space s)))"

lemma code_char_of [simp]: "n < 256 \<Longrightarrow> code (char_of n) = n"
  by (simp add: code_def)

lemma digit_char_facts [simp]:
  assumes "d < 10"
  shows "is_digit (digit_char d)" "digit_val (digit_char d) = d" "\<not> is_space (digit_char d)"
  using assms by (simp_all add: is_digit_def digit_char_def digit_val_def is_space_def)

lemma is_digit_not [simp]: "is_digit c \<Longrightarrow> c \<noteq> CHR ''-''" "is_digit c \<Longrightarrow> c \<noteq> CHR '',''"
  "is_digit c \<Longrightarrow> c \<noteq> CHR ''_''" "is_digit c \<Longrightarrow> c \<noteq> CHR ''+''" "is_digit c \<Longrightarrow> \<not> is_space c"
  by (auto simp: is_digit_def code_def is_space_def)

lemma strip_id:
  assumes "s \<noteq> []" and "\<not> is_space (hd s)" and "\<not> is_space (last s)"
  shows "strip s = s"
proof -
  have "dropWhile is_space s = s" using assms(1,2) by (cases s) auto
  moreover have "dropWhile is_space (rev s) = rev s"
    using assms(1,3) by (cases s rule: rev_cases) auto
  ultimately show ?thesis by (simp add: strip_def)
qed

text \<open>\<open>str.split()\<close>: the maximal runs without white space.\<close>

fun py_words :: "string \<Rightarrow> string \<Rightarrow> string list" where
  "py_words acc [] = (if acc = [] then [] else [acc])"
| "py_words acc (c # cs) =
     (if is_space c then (if acc = [] then py_words [] cs else acc # py_words [] cs)
      else py_words (acc @ [c]) cs)"

section \<open>Decimal numerals\<close>

fun digits_of :: "nat \<Rightarrow> nat list" where
  "digits_of n = (if n < 10 then [n] else digits_of (n div 10) @ [n mod 10])"

declare digits_of.simps [simp del]

definition num_of_digits :: "nat list \<Rightarrow> nat" where
  "num_of_digits = foldl (\<lambda>a d. 10 * a + d) 0"

lemma digits_of_small: "\<forall>d \<in> set (digits_of n). d < 10"
proof (induction n rule: digits_of.induct)
  case (1 n)
  then show ?case by (subst digits_of.simps) auto
qed

lemma digits_of_not_Nil [simp]: "digits_of n \<noteq> []"
  by (subst digits_of.simps) simp

lemma num_of_digits_of [simp]: "num_of_digits (digits_of n) = n"
proof (induction n rule: digits_of.induct)
  case (1 n)
  then show ?case by (subst digits_of.simps) (auto simp: num_of_digits_def)
qed

definition str_of_nat :: "nat \<Rightarrow> string" where
  "str_of_nat n = map digit_char (digits_of n)"

definition str_of_int :: "int \<Rightarrow> string" where
  "str_of_int n = (if n < 0 then CHR ''-'' # str_of_nat (nat (- n)) else str_of_nat (nat n))"

text \<open>A run of digits, with single underscores between two digits.\<close>

definition skip_underscore :: "string \<Rightarrow> string" where
  "skip_underscore s =
     (case s of u # d # r \<Rightarrow> if u = CHR ''_'' \<and> is_digit d then d # r else s | _ \<Rightarrow> s)"

lemma length_skip_underscore: "length (skip_underscore s) \<le> length s"
  by (simp add: skip_underscore_def split: list.splits)

function digits_run :: "string \<Rightarrow> nat list \<times> string" where
  "digits_run [] = ([], [])"
| "digits_run (c # cs) =
     (if is_digit c then (let (ds, r) = digits_run (skip_underscore cs) in (digit_val c # ds, r))
      else ([], c # cs))"
  by pat_completeness auto
termination
  by (relation "measure length") (auto simp: le_imp_less_Suc length_skip_underscore)

fun take_sign :: "string \<Rightarrow> bool \<times> string" where
  "take_sign (c # cs) =
     (if c = CHR ''-'' then (True, cs) else if c = CHR ''+'' then (False, cs) else (False, c # cs))"
| "take_sign [] = (False, [])"

text \<open>\<open>int(s)\<close>.\<close>

definition int_of_string :: "string \<Rightarrow> int res" where
  "int_of_string s =
     (let (neg, body) = take_sign (strip s); (ds, rest) = digits_run body
      in if ds = [] \<or> rest \<noteq> [] then Inl (ValueError ''invalid literal for int()'')
         else Inr (if neg then - int (num_of_digits ds) else int (num_of_digits ds)))"

lemma skip_underscore_digits:
  "\<forall>c \<in> set s. is_digit c \<Longrightarrow> skip_underscore s = s"
  by (auto simp: skip_underscore_def split: list.splits)

lemma digits_run_chars:
  "\<forall>d \<in> set ds. d < 10 \<Longrightarrow> digits_run (map digit_char ds) = (ds, [])"
proof (induction ds)
  case (Cons d ds)
  then have "skip_underscore (map digit_char ds) = map digit_char ds"
    by (intro skip_underscore_digits) auto
  with Cons show ?case by simp
qed simp

lemma str_of_nat_digits: "c \<in> set (str_of_nat n) \<Longrightarrow> is_digit c"
  using digits_of_small by (auto simp: str_of_nat_def)

lemma str_of_nat_not_Nil [simp]: "str_of_nat n \<noteq> []"
  by (simp add: str_of_nat_def)

lemma int_of_str_of_nat [simp]: "int_of_string (str_of_nat n) = Inr (int n)"
proof -
  obtain c cs where s: "str_of_nat n = c # cs" by (cases "str_of_nat n") auto
  then have c: "is_digit c" using str_of_nat_digits [of c n] by simp
  have "is_digit (last (str_of_nat n))"
    using str_of_nat_digits [of "last (str_of_nat n)" n] by simp
  then have "strip (str_of_nat n) = str_of_nat n"
    using c s by (intro strip_id) auto
  moreover have "take_sign (str_of_nat n) = (False, str_of_nat n)" using s c by simp
  moreover have "digits_run (str_of_nat n) = (digits_of n, [])"
    unfolding str_of_nat_def by (rule digits_run_chars [OF digits_of_small])
  ultimately show ?thesis by (simp add: int_of_string_def)
qed

section \<open>Decimal fractions\<close>

text \<open>
  \<open>float(s)\<close>: optional sign, then \<open>inf\<close>, \<open>infinity\<close> or \<open>nan\<close> in any case, or digits with an
  optional fraction and an optional exponent; the exact decimal value is rounded once.
\<close>

fun parse_exponent :: "string \<Rightarrow> (int \<times> string) option" where
  "parse_exponent (c # cs) =
     (if c = CHR ''e'' \<or> c = CHR ''E''
      then (let (neg, body) = take_sign cs; (ds, r) = digits_run body
            in if ds = [] then None
               else Some (if neg then - int (num_of_digits ds) else int (num_of_digits ds), r))
      else Some (0, c # cs))"
| "parse_exponent [] = Some (0, [])"

definition scale10 :: "int \<Rightarrow> rat" where
  "scale10 e = (if 0 \<le> e then 10 ^ nat e else 1 / 10 ^ nat (- e))"

definition parse_decimal :: "string \<Rightarrow> pyfloat option" where
  "parse_decimal s =
     (let (whole, r1) = digits_run s;
          (frac, r2) = (case r1 of c # cs \<Rightarrow> if c = CHR ''.'' then digits_run cs else ([], r1) | [] \<Rightarrow> ([], []))
      in if whole = [] \<and> frac = [] then None
         else case parse_exponent r2 of
             Some (e, []) \<Rightarrow>
               Some (fl (of_nat (num_of_digits (whole @ frac)) * scale10 (e - int (length frac))))
           | _ \<Rightarrow> None)"

definition float_of_string :: "string \<Rightarrow> pyfloat res" where
  "float_of_string s =
     (let (neg, body) = take_sign (strip s); low = py_lower body;
          v = (if low \<in> {''inf'', ''infinity''} then Some PInf
               else if low = ''nan'' then Some NaN else parse_decimal body)
      in case v of None \<Rightarrow> Inl (ValueError ''could not convert string to float'')
         | Some x \<Rightarrow> Inr (if neg then fneg x else x))"

end
