(* ===== verification/PyValue.thy ===== *)
theory PyValue
  imports PyText
begin

text \<open>
  Dynamically typed values: what \<open>json.loads\<close> returns and what the validators inspect. An object
  is an association list in insertion order; a parsed object never repeats a key.
\<close>

section \<open>Values\<close>

datatype pyval =
    VNone
  | VBool bool
  | VInt int
  | VFloat pyfloat
  | VStr string
  | VList "pyval list"
  | VDict "(string \<times> pyval) list"

type_synonym pydict = "(string \<times> pyval) list"

text \<open>\<open>d.get(k)\<close>, \<open>d.get(k, default)\<close>, \<open>d[k]\<close> and \<open>set(d)\<close> on a value known to be an object.\<close>

definition dget :: "pydict \<Rightarrow> string \<Rightarrow> pyval" where
  "dget d k = (case map_of d k of None \<Rightarrow> VNone | Some v \<Rightarrow> v)"

definition dget_default :: "pydict \<Rightarrow> string \<Rightarrow> pyval \<Rightarrow> pyval" where
  "dget_default d k v0 = (case map_of d k of None \<Rightarrow> v0 | Some v \<Rightarrow> v)"

definition dindex :: "pydict \<Rightarrow> string \<Rightarrow> pyval res" where
  "dindex d k = (case map_of d k of None \<Rightarrow> Inl (KeyError k) | Some v \<Rightarrow> Inr v)"

definition dkeys :: "pydict \<Rightarrow> string set" where
  "dkeys d = fst ` set d"

text \<open>\<open>v.get(k)\<close> on any value: only an object has the method.\<close>

fun vget :: "pyval \<Rightarrow> string \<Rightarrow> pyval res" where
  "vget (VDict d) k = Inr (dget d k)"
| "vget _ _ = Inl AttributeError"

lemma dget_Some [simp]: "map_of d k = Some v \<Longrightarrow> dget d k = v"
  by (simp add: dget_def)

lemma dget_None [simp]: "map_of d k = None \<Longrightarrow> dget d k = VNone"
  by (simp add: dget_def)

lemma dkeys_map_of: "k \<in> dkeys d \<longleftrightarrow> map_of d k \<noteq> None"
  by (metis dkeys_def map_of_eq_None_iff)

lemma dindex_eq_Inr [res_simps]: "dindex d k = Inr v \<longleftrightarrow> map_of d k = Some v"
  by (simp add: dindex_def split: option.splits)

text \<open>\<open>d[k] = v\<close>: an existing key keeps its place, a new one goes to the end.\<close>

fun dset :: "string \<Rightarrow> pyval \<Rightarrow> pydict \<Rightarrow> pydict" where
  "dset k v [] = [(k, v)]"
| "dset k v ((k', w) # d) = (if k = k' then (k, v) # d else (k', w) # dset k v d)"

lemma map_of_dset: "map_of (dset k v d) = (map_of d)(k \<mapsto> v)"
  by (induction k v d rule: dset.induct) (auto simp: fun_eq_iff)

text \<open>The items that \<open>for item in v\<close> visits.\<close>

fun iterate :: "pyval \<Rightarrow> pyval list res" where
  "iterate (VList vs) = Inr vs"
| "iterate (VDict d) = Inr (map (\<lambda>(k, _). VStr k) d)"
| "iterate (VStr s) = Inr (map (\<lambda>c. VStr [c]) s)"
| "iterate _ = Inl TypeError"

section \<open>Type tests\<close>

text \<open>\<open>isinstance(v, int)\<close> accepts a bool; the validators exclude it explicitly.\<close>

fun is_str :: "pyval \<Rightarrow> bool" where
  "is_str (VStr _) = True" | "is_str _ = False"

fun is_int :: "pyval \<Rightarrow> bool" where
  "is_int (VInt _) = True" | "is_int (VBool _) = True" | "is_int _ = False"

fun is_bool :: "pyval \<Rightarrow> bool" where
  "is_bool (VBool _) = True" | "is_bool _ = False"

fun is_number :: "pyval \<Rightarrow> bool" where
  "is_number (VFloat _) = True" | "is_number v = is_int v"

fun is_list :: "pyval \<Rightarrow> bool" where
  "is_list (VList _) = True" | "is_list _ = False"

fun is_dict :: "pyval \<Rightarrow> bool" where
  "is_dict (VDict _) = True" | "is_dict _ = False"

text \<open>The value of a number, exact for integers of any size.\<close>

fun numval :: "pyval \<Rightarrow> pyfloat option" where
  "numval (VBool b) = Some (Fin (if b then 1 else 0))"
| "numval (VInt n) = Some (Fin (of_int n))"
| "numval (VFloat x) = Some x"
| "numval _ = None"

text \<open>
  \<open>==\<close>: numbers compare by value whatever their type (\<open>True == 1 == 1.0\<close>), sequences element by
  element, objects by keys and values.
\<close>

fun py_eq :: "pyval \<Rightarrow> pyval \<Rightarrow> bool"
  and eq_list :: "pyval list \<Rightarrow> pyval list \<Rightarrow> bool"
  and eq_entries :: "pydict \<Rightarrow> pydict \<Rightarrow> bool"
  and eq_entry :: "string \<Rightarrow> pyval \<Rightarrow> pydict \<Rightarrow> bool"
where
  "py_eq VNone VNone = True"
| "py_eq (VStr s) (VStr t) = (s = t)"
| "py_eq (VList xs) (VList ys) = eq_list xs ys"
| "py_eq (VDict d) (VDict e) = (length d = length e \<and> eq_entries d e)"
| "py_eq a b =
     (case (numval a, numval b) of (Some x, Some y) \<Rightarrow> feq x y | _ \<Rightarrow> False)"
| "eq_list [] [] = True"
| "eq_list (x # xs) (y # ys) = (py_eq x y \<and> eq_list xs ys)"
| "eq_list _ _ = False"
| "eq_entries [] e = True"
| "eq_entries ((k, v) # d) e = (eq_entry k v e \<and> eq_entries d e)"
| "eq_entry k v [] = False"
| "eq_entry k v ((k', w) # e) = (if k = k' then py_eq v w else eq_entry k v e)"

lemma py_eq_str: "py_eq v (VStr s) \<longleftrightarrow> v = VStr s"
  by (cases v) auto

lemma py_eq_str' [simp]: "py_eq (VStr s) v \<longleftrightarrow> v = VStr s"
  by (cases v) auto

lemma py_eq_int: "py_eq v (VInt n) \<longleftrightarrow> numval v = Some (Fin (of_int n))"
  by (cases v) (auto simp: feq_def)

lemma py_eq_None: "py_eq v VNone \<longleftrightarrow> v = VNone"
  by (cases v) auto

lemma eq_list_strs: "eq_list vs (map VStr ss) \<longleftrightarrow> vs = map VStr ss"
proof (induction vs arbitrary: ss)
  case Nil
  then show ?case by (cases ss) auto
next
  case (Cons v vs)
  then show ?case by (cases ss) (auto simp: py_eq_str)
qed

text \<open>Truth value, used by \<open>not v\<close>.\<close>

fun truthy :: "pyval \<Rightarrow> bool" where
  "truthy VNone = False"
| "truthy (VBool b) = b"
| "truthy (VInt n) = (n \<noteq> 0)"
| "truthy (VFloat x) = (x \<noteq> Fin 0)"
| "truthy (VStr s) = (s \<noteq> [])"
| "truthy (VList xs) = (xs \<noteq> [])"
| "truthy (VDict d) = (d \<noteq> [])"

section \<open>Conversions\<close>

text \<open>\<open>float(v)\<close> and \<open>int(v)\<close>.\<close>

fun to_float :: "pyval \<Rightarrow> pyfloat res" where
  "to_float (VFloat x) = Inr x"
| "to_float (VInt n) = float_of_int n"
| "to_float (VBool b) = Inr (Fin (if b then 1 else 0))"
| "to_float (VStr s) = float_of_string s"
| "to_float _ = Inl TypeError"

fun to_pyint :: "pyval \<Rightarrow> int res" where
  "to_pyint (VInt n) = Inr n"
| "to_pyint (VBool b) = Inr (if b then 1 else 0)"
| "to_pyint (VFloat x) = int_of_float x"
| "to_pyint (VStr s) = int_of_string s"
| "to_pyint _ = Inl TypeError"

text \<open>\<open>isinstance(v, int) and not isinstance(v, bool)\<close>, the usual test for a genuine integer.\<close>

fun genuine_int :: "pyval \<Rightarrow> int option" where
  "genuine_int (VInt n) = Some n"
| "genuine_int _ = None"

lemma genuine_int_iff: "(is_bool v \<or> \<not> is_int v) \<longleftrightarrow> genuine_int v = None"
  by (cases v) auto

lemma genuine_int_Some [simp]: "genuine_int v = Some n \<longleftrightarrow> v = VInt n"
  by (cases v) auto

end
