(* ===== verification/DagContract.thy ===== *)
theory DagContract
  imports PyValue
begin

text \<open>
  \<open>runtime/quiet_dag_contract.py\<close>: the structural validation of a stage graph. The state of the
  edge loop (\<open>pairs\<close>, \<open>outgoing\<close>, \<open>indegree\<close>) is a record; the worklist loop is a partial function
  whose \<open>None\<close> would be a run that never returns.
\<close>

section \<open>Parsing the stages and the edges\<close>

definition text_of :: "string \<Rightarrow> pyval \<Rightarrow> string res" where
  "text_of label v =
     (case v of VStr s \<Rightarrow> if s = [] then Inl (ValueError (label @ '' must be a nonempty string'')) else Inr s
      | _ \<Rightarrow> Inl (ValueError (label @ '' must be a nonempty string'')))"

fun read_stages :: "nat \<Rightarrow> pyval list \<Rightarrow> string list res" where
  "read_stages i [] = Inr []"
| "read_stages i (VDict d # vs) =
     bnd (text_of (''dag stage '' @ str_of_nat i @ '' id'') (dget d ''id''))
       (\<lambda>s. bnd (read_stages (Suc i) vs) (\<lambda>ss. Inr (s # ss)))"
| "read_stages i (_ # vs) = Inl (ValueError (''dag stage '' @ str_of_nat i @ '' must be an object''))"

type_synonym edge = "string \<times> string"

record graph =
  pairs :: "edge list"
  indegree :: "string \<Rightarrow> int"
  outgoing :: "string \<Rightarrow> string list"

definition empty_graph :: graph where
  "empty_graph = \<lparr>pairs = [], indegree = (\<lambda>_. 0), outgoing = (\<lambda>_. [])\<rparr>"

definition add_pair :: "edge \<Rightarrow> graph \<Rightarrow> graph" where
  "add_pair p g =
     g\<lparr>pairs := pairs g @ [p],
       outgoing := (outgoing g)(fst p := outgoing g (fst p) @ [snd p]),
       indegree := (indegree g)(snd p := indegree g (snd p) + 1)\<rparr>"

fun read_edge :: "string list \<Rightarrow> nat \<Rightarrow> pyval \<Rightarrow> graph \<Rightarrow> graph res" where
  "read_edge known i (VDict d) g =
     bnd (text_of (''dag edge '' @ str_of_nat i @ '' source'') (dget d ''source'')) (\<lambda>s.
     bnd (text_of (''dag edge '' @ str_of_nat i @ '' target'') (dget d ''target'')) (\<lambda>t.
       if s \<notin> set known \<or> t \<notin> set known
       then Inl (ValueError (''dag edge '' @ str_of_nat i @ '' references an unknown stage''))
       else if s = t then Inl (ValueError ''dag cannot contain self-edges'')
       else if (s, t) \<in> set (pairs g) then Inl (ValueError ''dag edges must be unique'')
       else Inr (add_pair (s, t) g)))"
| "read_edge known i _ g = Inl (ValueError (''dag edge '' @ str_of_nat i @ '' must be an object''))"

fun read_edges :: "string list \<Rightarrow> nat \<Rightarrow> pyval list \<Rightarrow> graph \<Rightarrow> graph res" where
  "read_edges known i [] g = Inr g"
| "read_edges known i (v # vs) g = bnd (read_edge known i v g) (read_edges known (Suc i) vs)"

section \<open>The precedence worklist\<close>

text \<open>Decrement the successors of a finished stage; those that reach zero become ready.\<close>

fun relax :: "(string \<Rightarrow> int) \<Rightarrow> string list \<Rightarrow> (string \<Rightarrow> int) \<times> string list" where
  "relax deg [] = (deg, [])"
| "relax deg (t # ts) =
     (let deg1 = deg(t := deg t - 1); (deg2, added) = relax deg1 ts
      in (deg2, if deg1 t = 0 then t # added else added))"

partial_function (option) precedence ::
  "(string \<Rightarrow> string list) \<Rightarrow> string list \<Rightarrow> (string \<Rightarrow> int) \<Rightarrow> string list \<Rightarrow> string list option"
where
  [code]: "precedence out ready deg topo =
     (case ready of [] \<Rightarrow> Some topo
      | s # rest \<Rightarrow>
          precedence out (rest @ snd (relax deg (out s))) (fst (relax deg (out s))) (topo @ [s]))"

section \<open>Classification\<close>

datatype topology = FanOutFanIn | FanOut | FanIn | TwoStageChain | LongChain | GeneralDag

definition outdegrees :: "string list \<Rightarrow> graph \<Rightarrow> nat list" where
  "outdegrees ids g = map (\<lambda>s. length (outgoing g s)) ids"

definition indegrees :: "string list \<Rightarrow> graph \<Rightarrow> nat list" where
  "indegrees ids g = map (\<lambda>s. length (filter (\<lambda>(source, target). target = s) (pairs g))) ids"

definition classify :: "string list \<Rightarrow> graph \<Rightarrow> topology" where
  "classify ids g =
     (let outs = outdegrees ids g; ins = indegrees ids g;
          has_fan_out = (\<exists>n \<in> set outs. 1 < n);
          has_fan_in = (\<exists>n \<in> set ins. 1 < n);
          is_chain = (\<forall>n \<in> set outs. n \<le> 1) \<and> (\<forall>n \<in> set ins. n \<le> 1)
      in if has_fan_out \<and> has_fan_in then FanOutFanIn
         else if has_fan_out then FanOut
         else if has_fan_in then FanIn
         else if is_chain \<and> length ids = 2 then TwoStageChain
         else if is_chain \<and> 3 \<le> length ids then LongChain
         else GeneralDag)"

record contract =
  stage_count :: nat
  edge_count :: nat
  stage_ids :: "string list"
  topological_order :: "string list"
  topology_class :: topology
  multi_stage_validated :: bool
  source_count :: nat
  sink_count :: nat

definition summarize_graph :: "string list \<Rightarrow> graph \<Rightarrow> string list \<Rightarrow> contract" where
  "summarize_graph ids g topo =
     (let cls = classify ids g in
      \<lparr>stage_count = length ids, edge_count = length (pairs g), stage_ids = ids,
       topological_order = topo, topology_class = cls,
       multi_stage_validated = (3 \<le> length ids \<and> cls \<in> {LongChain, FanOut, FanIn, FanOutFanIn}),
       source_count = length (filter (\<lambda>n. 0 < n) (outdegrees ids g)),
       sink_count = length (filter (\<lambda>n. n = 0) (outdegrees ids g))\<rparr>)"

text \<open>The part of \<open>validate_dag\<close> before the worklist: every structural check of the input.\<close>

definition parse_dag :: "pyval \<Rightarrow> (string list \<times> graph) res" where
  "parse_dag v =
     (case v of VDict dag \<Rightarrow>
        (case dget dag ''stages'' of
           VList (st # sts) \<Rightarrow>
             (case dget dag ''edges'' of
                VList (e # es) \<Rightarrow>
                  bnd (read_stages 0 (st # sts)) (\<lambda>ids.
                    if length (remdups ids) \<noteq> length ids
                    then Inl (ValueError ''dag stage ids must be unique'')
                    else bnd (read_edges ids 0 (e # es) empty_graph) (\<lambda>g. Inr (ids, g)))
              | _ \<Rightarrow> Inl (ValueError ''dag edges must be a nonempty list''))
         | _ \<Rightarrow> Inl (ValueError ''dag stages must be a nonempty list''))
      | _ \<Rightarrow> Inl (ValueError ''dag must be an object''))"

definition initially_ready :: "string list \<Rightarrow> graph \<Rightarrow> string list" where
  "initially_ready ids g = filter (\<lambda>s. indegree g s = 0) ids"

definition validate_dag :: "pyval \<Rightarrow> contract res option" where
  "validate_dag v =
     (case parse_dag v of Inl e \<Rightarrow> Some (Inl e)
      | Inr (ids, g) \<Rightarrow>
          (case precedence (outgoing g) (initially_ready ids g) (indegree g) [] of
             None \<Rightarrow> None
           | Some topo \<Rightarrow>
               Some (if length topo \<noteq> length ids
                     then Inl (ValueError ''dag precedence graph contains a cycle'')
                     else Inr (summarize_graph ids g topo))))"

section \<open>Well-formed graphs\<close>

text \<open>What the edge loop builds: duplicate-free edges between distinct known stages, with
  \<open>outgoing\<close> and \<open>indegree\<close> derived from them.\<close>

definition wf_graph :: "string list \<Rightarrow> graph \<Rightarrow> bool" where
  "wf_graph ids g \<longleftrightarrow>
     distinct (pairs g) \<and> (\<forall>(s, t) \<in> set (pairs g). s \<in> set ids \<and> t \<in> set ids \<and> s \<noteq> t) \<and>
     (\<forall>s. outgoing g s = map snd (filter (\<lambda>p. fst p = s) (pairs g))) \<and>
     (\<forall>t. indegree g t = int (length (filter (\<lambda>p. snd p = t) (pairs g))))"

lemma wf_empty_graph: "wf_graph ids empty_graph"
  by (simp add: wf_graph_def empty_graph_def)

lemma wf_add_pair:
  "wf_graph ids g \<Longrightarrow> s \<in> set ids \<Longrightarrow> t \<in> set ids \<Longrightarrow> s \<noteq> t \<Longrightarrow> (s, t) \<notin> set (pairs g) \<Longrightarrow>
   wf_graph ids (add_pair (s, t) g)"
  by (auto simp: wf_graph_def add_pair_def)

lemma read_edge_wf: "read_edge ids i v g = Inr g' \<Longrightarrow> wf_graph ids g \<Longrightarrow> wf_graph ids g'"
  by (cases v) (auto simp: res_simps intro: wf_add_pair)

lemma read_edges_wf: "read_edges ids i vs g = Inr g' \<Longrightarrow> wf_graph ids g \<Longrightarrow> wf_graph ids g'"
  by (induction vs arbitrary: i g) (auto simp: res_simps dest: read_edge_wf)

lemma read_edge_pairs: "read_edge ids i v g = Inr g' \<Longrightarrow> length (pairs g') = Suc (length (pairs g))"
  by (cases v) (auto simp: res_simps add_pair_def)

lemma read_edges_pairs:
  "read_edges ids i vs g = Inr g' \<Longrightarrow> length (pairs g') = length (pairs g) + length vs"
  by (induction vs arbitrary: i g) (auto simp: res_simps dest: read_edge_pairs)

lemma parse_dag_wf:
  assumes "parse_dag v = Inr (ids, g)"
  shows "wf_graph ids g" and "distinct ids" and "ids \<noteq> []" and "pairs g \<noteq> []"
proof -
  obtain dag st sts e es where
    r: "read_stages 0 (st # sts) = Inr ids" "length (remdups ids) = length ids"
      "read_edges ids 0 (e # es) empty_graph = Inr g"
    using assms
    by (auto simp: parse_dag_def res_simps simp del: read_edges.simps read_stages.simps
        split: pyval.splits list.splits)
  show "wf_graph ids g" by (rule read_edges_wf [OF r(3) wf_empty_graph])
  show "distinct ids" using r(2) by (metis card_distinct length_remdups_card_conv)
  show "ids \<noteq> []" using r(1) by (cases st) (auto simp: res_simps)
  show "pairs g \<noteq> []" using read_edges_pairs [OF r(3)] by (auto simp: empty_graph_def)
qed

lemma wf_outgoing_distinct:
  assumes "wf_graph ids g"
  shows "distinct (outgoing g s)"
proof -
  have "inj_on snd (set (filter (\<lambda>p. fst p = s) (pairs g)))"
    by (rule inj_onI) (auto simp: prod_eq_iff)
  then show ?thesis using assms by (simp add: wf_graph_def distinct_map)
qed

lemma wf_outgoing_set:
  assumes "wf_graph ids g"
  shows "t \<in> set (outgoing g s) \<longleftrightarrow> (s, t) \<in> set (pairs g)"
proof -
  have "outgoing g s = map snd (filter (\<lambda>p. fst p = s) (pairs g))"
    using assms by (simp add: wf_graph_def)
  then show ?thesis by force
qed

section \<open>The worklist invariant\<close>

lemma relax_eq:
  "distinct ts \<Longrightarrow>
   relax deg ts = (\<lambda>v. if v \<in> set ts then deg v - 1 else deg v, filter (\<lambda>t. deg t = 1) ts)"
proof (induction ts arbitrary: deg)
  case (Cons t ts)
  define deg1 where "deg1 = deg(t := deg t - 1)"
  have "filter (\<lambda>v. deg1 v = 1) ts = filter (\<lambda>v. deg v = 1) ts"
    using Cons.prems by (intro filter_cong) (auto simp: deg1_def)
  with Cons have "relax deg1 ts =
      (\<lambda>v. if v \<in> set ts then deg1 v - 1 else deg1 v, filter (\<lambda>v. deg v = 1) ts)" by simp
  moreover have "(\<lambda>v. if v \<in> set ts then deg1 v - 1 else deg1 v) =
      (\<lambda>v. if v \<in> set (t # ts) then deg v - 1 else deg v)"
    using Cons.prems by (auto simp: deg1_def fun_eq_iff)
  ultimately show ?case by (simp add: deg1_def [symmetric]) (simp add: deg1_def)
qed simp

text \<open>The stages not yet finished that precede \<open>v\<close>.\<close>

definition pending :: "graph \<Rightarrow> string list \<Rightarrow> string \<Rightarrow> nat" where
  "pending g topo v = length (filter (\<lambda>p. snd p = v \<and> fst p \<notin> set topo) (pairs g))"

lemma pending_Nil: "wf_graph ids g \<Longrightarrow> indegree g v = int (pending g [] v)"
  by (simp add: pending_def wf_graph_def)

lemma pending_0: "pending g topo v = 0 \<longleftrightarrow> (\<forall>u. (u, v) \<in> set (pairs g) \<longrightarrow> u \<in> set topo)"
  by (auto simp: pending_def filter_empty_conv)

lemma pending_step:
  assumes "distinct (pairs g)" and "s \<notin> set topo"
  shows "int (pending g (topo @ [s]) v) =
    int (pending g topo v) - (if (s, v) \<in> set (pairs g) then 1 else 0)"
proof -
  have "length (filter (\<lambda>p. snd p = v \<and> fst p \<notin> set topo) ps) =
    length (filter (\<lambda>p. snd p = v \<and> fst p \<notin> set (topo @ [s])) ps) +
    (if (s, v) \<in> set ps then 1 else 0)" if "distinct ps" for ps
    using that assms(2) by (induction ps) auto
  from this [OF assms(1)] show ?thesis by (simp add: pending_def)
qed

definition worklist_inv ::
  "string list \<Rightarrow> graph \<Rightarrow> string list \<Rightarrow> (string \<Rightarrow> int) \<Rightarrow> string list \<Rightarrow> bool"
where
  "worklist_inv ids g ready deg topo \<longleftrightarrow>
     distinct (topo @ ready) \<and> set (topo @ ready) \<subseteq> set ids \<and>
     (\<forall>v. deg v = int (pending g topo v)) \<and>
     (\<forall>v \<in> set ids. pending g topo v = 0 \<longleftrightarrow> v \<in> set (topo @ ready)) \<and>
     (\<forall>i < length topo. \<forall>u. (u, topo ! i) \<in> set (pairs g) \<longrightarrow> u \<in> set (take i topo))"

lemma worklist_inv_init:
  "wf_graph ids g \<Longrightarrow> distinct ids \<Longrightarrow>
   worklist_inv ids g (initially_ready ids g) (indegree g) []"
  by (auto simp: worklist_inv_def initially_ready_def pending_Nil)

lemma worklist_inv_step:
  assumes wf: "wf_graph ids g" and inv: "worklist_inv ids g (s # rest) deg topo"
  shows "worklist_inv ids g (rest @ snd (relax deg (outgoing g s)))
           (fst (relax deg (outgoing g s))) (topo @ [s])"
proof -
  note i = inv [unfolded worklist_inv_def]
  define added where "added = filter (\<lambda>t. deg t = 1) (outgoing g s)"
  have rel: "relax deg (outgoing g s) =
      (\<lambda>v. if v \<in> set (outgoing g s) then deg v - 1 else deg v, added)"
    unfolding added_def by (rule relax_eq [OF wf_outgoing_distinct [OF wf]])
  have dist: "distinct (pairs g)" using wf by (simp add: wf_graph_def)
  have s: "s \<notin> set topo" "s \<in> set ids" "pending g topo s = 0"
    using i by auto
  note step = pending_step [OF dist s(1)]
  have deg: "(if v \<in> set (outgoing g s) then deg v - 1 else deg v) = int (pending g (topo @ [s]) v)" for v
    using i step [of v] by (simp add: wf_outgoing_set [OF wf])
  have added: "v \<in> set added \<longleftrightarrow> (s, v) \<in> set (pairs g) \<and> pending g topo v = 1" for v
    using i by (auto simp: added_def wf_outgoing_set [OF wf])
  have added_ids: "v \<in> set ids" if "v \<in> set added" for v
    using that wf by (auto simp: added wf_graph_def)
  have added_new: "v \<notin> set topo" "v \<notin> set (s # rest)" if "v \<in> set added" for v
    using that added [of v] added_ids [of v] i by auto
  have "distinct added" unfolding added_def using wf_outgoing_distinct [OF wf] by simp
  then have c1: "distinct ((topo @ [s]) @ rest @ added)"
    using i added_new by auto
  have c2: "set ((topo @ [s]) @ rest @ added) \<subseteq> set ids"
    using i added_ids by auto
  have c3: "pending g (topo @ [s]) v = 0 \<longleftrightarrow> v \<in> set ((topo @ [s]) @ rest @ added)"
    if "v \<in> set ids" for v
  proof (cases "(s, v) \<in> set (pairs g)")
    case True
    then have "pending g topo v \<noteq> 0" using s(1) pending_0 by blast
    moreover have "v \<notin> set (topo @ s # rest)" using i that calculation by auto
    ultimately show ?thesis using step [of v] True added [of v] by auto
  next
    case False
    then show ?thesis using step [of v] added [of v] i that by auto
  qed
  have c4: "u \<in> set (take k (topo @ [s]))"
    if "k < length (topo @ [s])" "(u, (topo @ [s]) ! k) \<in> set (pairs g)" for k u
  proof (cases "k < length topo")
    case True
    with that i show ?thesis by (auto simp: nth_append)
  next
    case False
    with that have "k = length topo" by simp
    with that s(3) show ?thesis by (auto simp: pending_0)
  qed
  show ?thesis
    unfolding worklist_inv_def rel fst_conv snd_conv using c1 c2 c3 c4 deg by blast
qed

text \<open>Every run of the worklist ends, with the invariant and nothing left to do.\<close>

lemma precedence_returns:
  assumes "wf_graph ids g" and "worklist_inv ids g ready deg topo"
  shows "\<exists>topo' deg'. precedence (outgoing g) ready deg topo = Some topo' \<and>
    worklist_inv ids g [] deg' topo'"
  using assms(2)
proof (induction "card (set ids) - length topo" arbitrary: ready deg topo rule: less_induct)
  case less
  show ?case
  proof (cases ready)
    case Nil
    then show ?thesis using less.prems by (auto simp: precedence.simps)
  next
    case (Cons s rest)
    let ?r = "relax deg (outgoing g s)"
    have inv: "worklist_inv ids g (rest @ snd ?r) (fst ?r) (topo @ [s])"
      using worklist_inv_step [OF assms(1)] less.prems Cons by simp
    then have "length (topo @ [s]) \<le> card (set ids)"
      unfolding worklist_inv_def by (metis card_mono distinct_append distinct_card finite_set le_sup_iff set_append)
    then have "card (set ids) - length (topo @ [s]) < card (set ids) - length topo" by simp
    from less.hyps [OF this inv] show ?thesis
      by (simp add: Cons precedence.simps [of _ "s # rest"])
  qed
qed

section \<open>What an accepted graph satisfies\<close>

text \<open>A topological order: every stage once, and every edge goes forward.\<close>

definition topological :: "string list \<Rightarrow> edge list \<Rightarrow> string list \<Rightarrow> bool" where
  "topological ids es topo \<longleftrightarrow>
     distinct topo \<and> set topo = set ids \<and>
     (\<forall>i < length topo. \<forall>u. (u, topo ! i) \<in> set es \<longrightarrow> u \<in> set (take i topo))"

lemma topological_acyclic:
  assumes "topological ids es topo" and "\<forall>(s, t) \<in> set es. t \<in> set ids"
  shows "acyclic (set es)"
proof -
  define pos where "pos v = (THE i. i < length topo \<and> topo ! i = v)" for v
  have dist: "distinct topo" using assms(1) by (simp add: topological_def)
  have pos: "pos (topo ! i) = i" if "i < length topo" for i
    unfolding pos_def using that dist by (auto simp: nth_eq_iff_index_eq intro!: the_equality)
  have "pos u < pos v" if "(u, v) \<in> set es" for u v
  proof -
    have "v \<in> set topo" using that assms by (auto simp: topological_def)
    then obtain i where i: "i < length topo" "topo ! i = v" by (auto simp: in_set_conv_nth)
    then have "u \<in> set (take i topo)" using that assms(1) by (auto simp: topological_def)
    then obtain j where "j < i" "topo ! j = u" "j < length topo"
      by (auto simp: in_set_conv_nth)
    then show ?thesis using i pos by auto
  qed
  then have "set es \<subseteq> measure pos" by auto
  then show ?thesis by (meson acyclic_subset wf_acyclic wf_measure)
qed

text \<open>If the worklist stops early, the stages left over contain a cycle.\<close>

lemma stuck_cycle:
  assumes wf: "wf_graph ids g" and inv: "worklist_inv ids g [] deg topo"
    and v: "v \<in> set ids" "v \<notin> set topo"
  shows "\<not> acyclic (set (pairs g))"
proof
  assume "acyclic (set (pairs g))"
  then have "wfP (\<lambda>a b. (a, b) \<in> set (pairs g))"
    unfolding wfp_def by (simp add: finite_acyclic_wf)
  then have "w \<in> set ids \<longrightarrow> w \<in> set topo" for w
  proof (induction w rule: wfp_induct_rule)
    case (less w)
    show ?case
    proof
      assume w: "w \<in> set ids"
      have "u \<in> set topo" if "(u, w) \<in> set (pairs g)" for u
        using less that wf by (auto simp: wf_graph_def)
      then have "pending g topo w = 0" by (simp add: pending_0)
      then show "w \<in> set topo" using inv w by (simp add: worklist_inv_def)
    qed
  qed
  with v show False by blast
qed

lemma worklist_complete:
  assumes "parse_dag v = Inr (ids, g)"
  shows "\<exists>topo. precedence (outgoing g) (initially_ready ids g) (indegree g) [] = Some topo \<and>
    (if length topo = length ids then topological ids (pairs g) topo
     else \<not> acyclic (set (pairs g)))"
proof -
  note p = parse_dag_wf [OF assms]
  obtain topo deg where t: "precedence (outgoing g) (initially_ready ids g) (indegree g) [] = Some topo"
    and inv: "worklist_inv ids g [] deg topo"
    using precedence_returns [OF p(1) worklist_inv_init [OF p(1,2)]] by blast
  have dist: "distinct topo" and sub: "set topo \<subseteq> set ids"
    using inv by (auto simp: worklist_inv_def)
  have all: "set topo = set ids" if "length topo = length ids"
    using that dist sub p(2) by (metis card_subset_eq distinct_card finite_set)
  have "topological ids (pairs g) topo" if "length topo = length ids"
    using all [OF that] inv by (auto simp: topological_def worklist_inv_def)
  moreover have "\<not> acyclic (set (pairs g))" if ne: "length topo \<noteq> length ids"
  proof -
    have "set topo \<noteq> set ids" using ne dist p(2) by (metis distinct_card)
    with sub obtain w where "w \<in> set ids" "w \<notin> set topo" by blast
    from stuck_cycle [OF p(1) inv this] show ?thesis .
  qed
  ultimately show ?thesis using t by auto
qed

section \<open>Properties\<close>

lemma validate_dag_Inr:
  assumes "validate_dag v = Some (Inr c)"
  obtains ids g topo where "parse_dag v = Inr (ids, g)" and "topological ids (pairs g) topo"
    and "c = summarize_graph ids g topo"
proof -
  obtain ids g where p: "parse_dag v = Inr (ids, g)"
    using assms by (auto simp: validate_dag_def split: sum.splits prod.splits)
  obtain topo where "precedence (outgoing g) (initially_ready ids g) (indegree g) [] = Some topo"
    "if length topo = length ids then topological ids (pairs g) topo else \<not> acyclic (set (pairs g))"
    using worklist_complete [OF p] by blast
  with assms p show ?thesis by (auto intro!: that simp: validate_dag_def split: if_splits)
qed

lemma two_distinct: "a \<in> set xs \<Longrightarrow> b \<in> set xs \<Longrightarrow> a \<noteq> b \<Longrightarrow> 2 \<le> length xs"
  by (cases xs; cases "tl xs") auto

lemma parse_dag_two_stages:
  assumes "parse_dag v = Inr (ids, g)"
  shows "2 \<le> length ids"
proof -
  obtain s t where "(s, t) \<in> set (pairs g)" using parse_dag_wf(4) [OF assms] by (cases "pairs g") auto
  with parse_dag_wf(1) [OF assms] have "s \<in> set ids" "t \<in> set ids" "s \<noteq> t"
    by (auto simp: wf_graph_def)
  then show ?thesis by (rule two_distinct)
qed

lemma classify_not_general: "2 \<le> length ids \<Longrightarrow> classify ids g \<noteq> GeneralDag"
  by (auto simp: classify_def Let_def not_less)

lemma classify_two: "classify ids g = TwoStageChain \<Longrightarrow> length ids = 2"
  by (auto simp: classify_def Let_def split: if_splits)

lemma filter_partition: "length (filter P xs) + length (filter (\<lambda>x. \<not> P x) xs) = length xs"
  by (induction xs) auto

text \<open>
  \<open>validate_dag\<close> returns on every JSON value: the worklist loop always empties its queue,
  whatever the stages and edges are.
\<close>

lemma validate_dag_returns: "\<exists>r. validate_dag v = Some r"
proof (cases "parse_dag v")
  case (Inr p)
  obtain ids g where p: "p = (ids, g)" by (cases p)
  with Inr have "parse_dag v = Inr (ids, g)" by simp
  from worklist_complete [OF this] this show ?thesis
    by (auto simp: validate_dag_def)
qed (simp add: validate_dag_def)

text \<open>
  C39: an accepted graph is acyclic, and the emitted \<open>topological_order\<close> lists every stage exactly
  once with every edge going forward.
\<close>

theorem validate_dag_sound:
  assumes "validate_dag v = Some (Inr c)"
  shows "\<exists>ids g. parse_dag v = Inr (ids, g) \<and> acyclic (set (pairs g)) \<and>
    topological ids (pairs g) (topological_order c) \<and> stage_ids c = ids \<and>
    stage_count c = length ids \<and> edge_count c = length (pairs g)"
proof -
  obtain ids g topo where r: "parse_dag v = Inr (ids, g)" "topological ids (pairs g) topo"
    "c = summarize_graph ids g topo"
    by (rule validate_dag_Inr [OF assms])
  have "acyclic (set (pairs g))"
    using topological_acyclic [OF r(2)] parse_dag_wf(1) [OF r(1)] by (auto simp: wf_graph_def)
  with r show ?thesis by (auto simp: summarize_graph_def Let_def)
qed

definition chain_example :: pyval where
  "chain_example = VDict
     [(''stages'', VList [VDict [(''id'', VStr ''vision'')], VDict [(''id'', VStr ''head'')], VDict [(''id'', VStr ''policy'')]]),
      (''edges'', VList [VDict [(''source'', VStr ''vision''), (''target'', VStr ''head'')],
                         VDict [(''source'', VStr ''head''), (''target'', VStr ''policy'')]])]"

lemmas dag_eval = parse_dag_def validate_dag_def dget_def text_of_def empty_graph_def add_pair_def
  initially_ready_def precedence.simps summarize_graph_def classify_def outdegrees_def
  indegrees_def Let_def

definition chain_contract :: contract where
  "chain_contract = \<lparr>stage_count = 3, edge_count = 2,
     stage_ids = [''vision'', ''head'', ''policy''],
     topological_order = [''vision'', ''head'', ''policy''],
     topology_class = LongChain, multi_stage_validated = True, source_count = 2, sink_count = 1\<rparr>"

lemma chain_example_result: "validate_dag chain_example = Some (Inr chain_contract)"
  by (simp add: chain_example_def chain_contract_def dag_eval)

theorem validate_dag_sound_witness:
  "\<exists>ids g. parse_dag chain_example = Inr (ids, g) \<and> acyclic (set (pairs g)) \<and>
    topological ids (pairs g) (topological_order chain_contract) \<and> stage_ids chain_contract = ids \<and>
    stage_count chain_contract = length ids \<and> edge_count chain_contract = length (pairs g)"
  by (rule validate_dag_sound [OF chain_example_result])

text \<open>
  C40: a structurally valid graph is rejected exactly when it has a cycle, with the cycle error; so
  the validator accepts every acyclic graph and misses no cycle.
\<close>

theorem validate_dag_cycle_iff:
  assumes "parse_dag v = Inr (ids, g)"
  shows "(validate_dag v = Some (Inl (ValueError ''dag precedence graph contains a cycle'')) \<longleftrightarrow>
      \<not> acyclic (set (pairs g))) \<and>
    (acyclic (set (pairs g)) \<longleftrightarrow> (\<exists>c. validate_dag v = Some (Inr c)))"
proof -
  obtain topo where t: "precedence (outgoing g) (initially_ready ids g) (indegree g) [] = Some topo"
    "if length topo = length ids then topological ids (pairs g) topo else \<not> acyclic (set (pairs g))"
    using worklist_complete [OF assms] by blast
  have ends: "\<forall>(s, t) \<in> set (pairs g). t \<in> set ids"
    using parse_dag_wf(1) [OF assms] by (auto simp: wf_graph_def)
  have "acyclic (set (pairs g)) \<longleftrightarrow> length topo = length ids"
    using t(2) topological_acyclic [OF _ ends, of topo] by (cases "length topo = length ids") auto
  with t(1) assms show ?thesis by (auto simp: validate_dag_def)
qed

definition loop_example :: pyval where
  "loop_example = VDict
     [(''stages'', VList [VDict [(''id'', VStr ''a'')], VDict [(''id'', VStr ''b'')]]),
      (''edges'', VList [VDict [(''source'', VStr ''a''), (''target'', VStr ''b'')],
                         VDict [(''source'', VStr ''b''), (''target'', VStr ''a'')]])]"

theorem validate_dag_cycle_iff_witness:
  "\<not> acyclic (set (pairs (snd (projr (parse_dag loop_example)))))"
proof -
  let ?p = "projr (parse_dag loop_example)"
  have "parse_dag loop_example = Inr (fst ?p, snd ?p)"
    by (simp add: loop_example_def dag_eval)
  note validate_dag_cycle_iff [OF this]
  moreover have "validate_dag loop_example =
      Some (Inl (ValueError ''dag precedence graph contains a cycle''))"
    by (simp add: loop_example_def dag_eval)
  ultimately show ?thesis by blast
qed

text \<open>
  The \<open>general-dag\<close> class is never emitted, the multi-stage claim is allowed exactly for three
  stages or more whatever the shape of the graph, and \<open>source_count\<close> counts the stages with an
  outgoing edge: with \<open>sink_count\<close> it partitions the stages.
\<close>

lemma validate_dag_classes:
  assumes "validate_dag v = Some (Inr c)"
  shows "topology_class c \<noteq> GeneralDag \<and> (multi_stage_validated c \<longleftrightarrow> 3 \<le> stage_count c) \<and>
    source_count c + sink_count c = stage_count c"
proof -
  obtain ids g topo where r: "parse_dag v = Inr (ids, g)" "c = summarize_graph ids g topo"
    by (rule validate_dag_Inr [OF assms])
  have two: "2 \<le> length ids" by (rule parse_dag_two_stages [OF r(1)])
  have "classify ids g \<noteq> TwoStageChain" if "3 \<le> length ids"
    using classify_two [of ids g] that by auto
  moreover have "classify ids g \<noteq> GeneralDag" by (rule classify_not_general [OF two])
  ultimately have "multi_stage_validated c \<longleftrightarrow> 3 \<le> length ids"
    using r(2) topology.exhaust [of "classify ids g"]
    by (auto simp: summarize_graph_def Let_def)
  moreover have "source_count c + sink_count c = length ids"
    using r(2) filter_partition [of "\<lambda>n. 0 < n" "outdegrees ids g"]
    by (simp add: summarize_graph_def Let_def outdegrees_def)
  ultimately show ?thesis
    using r(2) classify_not_general [OF two] by (simp add: summarize_graph_def Let_def)
qed

lemma validate_dag_classes_witness:
  "topology_class chain_contract \<noteq> GeneralDag \<and>
   (multi_stage_validated chain_contract \<longleftrightarrow> 3 \<le> stage_count chain_contract) \<and>
   source_count chain_contract + sink_count chain_contract = stage_count chain_contract"
  by (rule validate_dag_classes [OF chain_example_result])

definition disconnected_example :: pyval where
  "disconnected_example = VDict
     [(''stages'', VList [VDict [(''id'', VStr ''a'')], VDict [(''id'', VStr ''b'')],
                          VDict [(''id'', VStr ''x'')], VDict [(''id'', VStr ''y'')]]),
      (''edges'', VList [VDict [(''source'', VStr ''a''), (''target'', VStr ''b'')],
                         VDict [(''source'', VStr ''x''), (''target'', VStr ''y'')]])]"

text \<open>
  Connectivity is not validated. Two separate two-stage pipelines in one object are accepted as
  a \<open>three-or-more-stage-chain\<close> with the multi-stage claim allowed.
\<close>

lemma disconnected_is_chain:
  "\<exists>c. validate_dag disconnected_example = Some (Inr c) \<and> topology_class c = LongChain \<and>
    multi_stage_validated c"
  by (simp add: disconnected_example_def dag_eval)

end
