(* ===== verification/StagePlanner.thy ===== *)
theory StagePlanner
  imports DagContract
begin

text \<open>
  \<open>runtime/quiet_stage_dag.py\<close>: candidate parsing, the evaluation of a measured pipeline profile,
  the choice of a plan and its binding to launch-time resources. Profile files are read through a
  parameter that gives a path's content.
\<close>

section \<open>Field readers\<close>

definition SCHEMA_VERSION :: int where
  "SCHEMA_VERSION = 1"

definition SYSTEM_NAME :: string where
  "SYSTEM_NAME = ''QUIET''"

definition TRANSPORT_ALIASES :: "(string \<times> string) list" where
  "TRANSPORT_ALIASES =
     [(''registered-shared-sysmem-direct-binding'', ''registered-direct''),
      (''full-coherent-registered-system-memory'', ''registered-direct''),
      (''registered-direct'', ''registered-direct''),
      (''pinned-shared-sysmem-d2h-h2d'', ''pinned-bounce''),
      (''pinned-bounce'', ''pinned-bounce''),
      (''pageable-shared-sysmem-d2h-h2d'', ''pageable-bounce''),
      (''pageable-bounce'', ''pageable-bounce'')]"

record slice_binding =
  producer_slice :: string
  consumer_slice :: string
  producer_uuid_key :: string
  consumer_uuid_key :: string

definition PLACEMENT_VARIANTS :: "(string \<times> slice_binding) list" where
  "PLACEMENT_VARIANTS =
     [(''fixed-1g-producer-2g-consumer'',
       \<lparr>producer_slice = ''1g'', consumer_slice = ''2g'',
        producer_uuid_key = ''JDG_MIG_SMALL_UUID'', consumer_uuid_key = ''JDG_MIG_BIG_UUID''\<rparr>),
      (''fixed-2g-producer-1g-consumer'',
       \<lparr>producer_slice = ''2g'', consumer_slice = ''1g'',
        producer_uuid_key = ''JDG_MIG_BIG_UUID'', consumer_uuid_key = ''JDG_MIG_SMALL_UUID''\<rparr>)]"

definition finite_nonnegative :: "pyval \<Rightarrow> string \<Rightarrow> pyfloat res" where
  "finite_nonnegative v label =
     (if is_bool v \<or> \<not> is_number v then Inl (ValueError (label @ '' must be numeric''))
      else bnd (to_float v) (\<lambda>x.
        if \<not> isfinite x \<or> flt x (Fin 0)
        then Inl (ValueError (label @ '' must be finite and nonnegative'')) else Inr x))"

definition positive_int :: "pyval \<Rightarrow> string \<Rightarrow> int res" where
  "positive_int v label =
     (case v of VInt n \<Rightarrow>
        if n \<le> 0 then Inl (ValueError (label @ '' must be a positive integer'')) else Inr n
      | _ \<Rightarrow> Inl (ValueError (label @ '' must be a positive integer'')))"

definition canonical_transport :: "pyval \<Rightarrow> string res" where
  "canonical_transport v =
     (case v of VStr s \<Rightarrow>
        (case map_of TRANSPORT_ALIASES s of Some t \<Rightarrow> Inr t
         | None \<Rightarrow> Inl (ValueError ''unsupported QUIET plan transport''))
      | _ \<Rightarrow> Inl (ValueError ''unsupported QUIET plan transport''))"

text \<open>
  The two regular expressions. The pattern \<open>(1g|2g)-q(10|25|50|75|90|100)\<close> denotes twelve strings;
  in the search, the digits are followed by \<open>-\<close>, \<open>@\<close> or the end (\<open>$\<close> also matches before a final
  newline), so at most one pair of quotas matches at a position.
\<close>

definition QUOTAS :: "int list" where
  "QUOTAS = [10, 25, 50, 75, 90, 100]"

definition label_of :: "string \<Rightarrow> int \<Rightarrow> string" where
  "label_of slice quota = slice @ ''-q'' @ str_of_int quota"

definition placement_label :: "pyval \<Rightarrow> string \<Rightarrow> (string \<times> int) res" where
  "placement_label v label =
     (case v of VStr s \<Rightarrow>
        (case find (\<lambda>(slice, quota). s = label_of slice quota) (List.product [''1g'', ''2g''] QUOTAS) of
           Some m \<Rightarrow> Inr m
         | None \<Rightarrow> Inl (ValueError (label @ '' placement label is not quota-bound'')))
      | _ \<Rightarrow> Inl (ValueError (label @ '' placement label is malformed'')))"

definition quotas_end :: "string \<Rightarrow> bool" where
  "quotas_end s \<longleftrightarrow> s = [] \<or> s = [CHR 0x0A] \<or> hd s = CHR ''@''"

definition quotas_match :: "string \<Rightarrow> int \<times> int \<Rightarrow> bool" where
  "quotas_match s p =
     (let pat = ''q'' @ str_of_int (fst p) @ ''-q'' @ str_of_int (snd p)
      in take (length pat) s = pat \<and> quotas_end (drop (length pat) s))"

fun search_quotas :: "string \<Rightarrow> (int \<times> int) option" where
  "search_quotas [] = None"
| "search_quotas (c # cs) =
     (case find (quotas_match (c # cs)) (List.product QUOTAS QUOTAS) of
        Some m \<Rightarrow> Some m | None \<Rightarrow> search_quotas cs)"

definition candidate_quotas :: "pyval \<Rightarrow> (int \<times> int) res" where
  "candidate_quotas v =
     (case v of VStr s \<Rightarrow>
        (case search_quotas s of Some m \<Rightarrow> Inr m
         | None \<Rightarrow> Inl (ValueError ''QUIET candidate_id does not bind producer/background quotas''))
      | _ \<Rightarrow> Inl (ValueError ''QUIET candidate_id is malformed''))"

section \<open>Candidates\<close>

record candidate =
  candidate_id :: string
  profile_path :: string
  placement :: pydict
  placement_variant :: string
  background_goodput_rps :: pyfloat
  pre_release_guard_p99_us :: pyfloat
  reservation_margin_us :: pyfloat
  protection_scope :: string

definition candidate_fields :: "string list" where
  "candidate_fields =
     [''candidate_id'', ''profile_path'', ''placement'', ''placement_variant'',
      ''background_goodput_rps'', ''pre_release_guard_p99_us'', ''reservation_margin_us'',
      ''protection_scope'']"

definition candidate_metadata :: "string list" where
  "candidate_metadata =
     [''summary'', ''profile_sha256'', ''background_quota_percent'', ''pipeline_requests'',
      ''deadline_misses'', ''observed_p99_us'', ''slo_qualified'', ''workload'',
      ''background_period_ms'', ''background_offered_rps'', ''deadline_mode'', ''deadline_us'',
      ''deadline_lock_sha256'', ''checksum_mode'', ''correctness_validated'',
      ''unique_payload_checksums'', ''unique_policy_output_checksums'']"

definition optional_fields :: "string list" where
  "optional_fields = [''placement_variant'', ''protection_scope'']"

definition candidate_keys_ok :: "string list \<Rightarrow> bool" where
  "candidate_keys_ok ks \<longleftrightarrow>
     (\<forall>k \<in> set ks. k \<in> set candidate_fields \<or> k \<in> set candidate_metadata) \<and>
     (\<forall>k \<in> set candidate_fields. k \<in> set ks \<or> k \<in> set optional_fields)"

definition placement_ok :: "pyval \<Rightarrow> bool" where
  "placement_ok v \<longleftrightarrow>
     (case v of VDict d \<Rightarrow>
        dkeys d = {''producer'', ''consumer''} \<and> (\<forall>(k, w) \<in> set d. is_str w \<and> w \<noteq> VStr [])
      | _ \<Rightarrow> False)"

fun nonempty_str :: "pyval \<Rightarrow> string \<Rightarrow> string res" where
  "nonempty_str (VStr s) msg = (if s = [] then Inl (ValueError msg) else Inr s)"
| "nonempty_str _ msg = Inl (ValueError msg)"

fun hashable :: "pyval \<Rightarrow> bool" where
  "hashable (VList _) = False" | "hashable (VDict _) = False" | "hashable _ = True"

definition scope_of :: "pyval \<Rightarrow> string res" where
  "scope_of v =
     (if \<not> hashable v then Inl TypeError
      else case v of VStr s \<Rightarrow>
          if s \<in> {''producer'', ''consumer'', ''pipeline''} then Inr s
          else Inl (ValueError ''protection_scope must be producer, consumer, or pipeline'')
        | _ \<Rightarrow> Inl (ValueError ''protection_scope must be producer, consumer, or pipeline''))"

text \<open>\<open>Path(v)\<close>, made absolute against the root by \<open>resolve\<close>.\<close>

definition path_of :: "(string \<Rightarrow> string) \<Rightarrow> pyval \<Rightarrow> string res" where
  "path_of resolve v = (case v of VStr s \<Rightarrow> Inr (resolve s) | _ \<Rightarrow> Inl TypeError)"

definition parse_candidate_object :: "(string \<Rightarrow> string) \<Rightarrow> pydict \<Rightarrow> candidate res" where
  "parse_candidate_object resolve raw =
     (if \<not> candidate_keys_ok (map fst raw) then Inl (ValueError ''candidate keys differ'')
      else bnd (nonempty_str (dget raw ''candidate_id'')
                 ''candidate_id must be a nonempty internal identifier'') (\<lambda>cid.
        if \<not> placement_ok (dget raw ''placement'')
        then Inl (ValueError ''placement must map producer and consumer to instances'')
        else bnd (nonempty_str
                   (dget_default raw ''placement_variant'' (VStr ''fixed-1g-producer-2g-consumer''))
                   ''placement_variant must be a nonempty string'') (\<lambda>variant.
        bnd (scope_of (dget_default raw ''protection_scope'' (VStr ''producer''))) (\<lambda>scope.
        bnd (path_of resolve (dget raw ''profile_path'')) (\<lambda>path.
        bnd (finite_nonnegative (dget raw ''background_goodput_rps'') ''background_goodput_rps'') (\<lambda>goodput.
        bnd (finite_nonnegative (dget raw ''pre_release_guard_p99_us'') ''pre_release_guard_p99_us'') (\<lambda>guard.
        bnd (finite_nonnegative (dget raw ''reservation_margin_us'') ''reservation_margin_us'') (\<lambda>margin.
          Inr \<lparr>candidate_id = cid, profile_path = path,
               placement = (case dget raw ''placement'' of VDict d \<Rightarrow> d | _ \<Rightarrow> []),
               placement_variant = variant, background_goodput_rps = goodput,
               pre_release_guard_p99_us = guard, reservation_margin_us = margin,
               protection_scope = scope\<rparr>))))))))"

text \<open>
  A value that is not an object fails too: \<open>set(raw)\<close> rejects the scalars, and the elements of a
  sequence either differ from the expected keys or \<open>raw[...]\<close> rejects the string index.
\<close>

definition parse_candidate :: "(string \<Rightarrow> string) \<Rightarrow> pyval \<Rightarrow> candidate res" where
  "parse_candidate resolve raw =
     (case raw of
        VDict d \<Rightarrow> parse_candidate_object resolve d
      | VStr s \<Rightarrow> Inl (ValueError ''candidate keys differ'')
      | VList vs \<Rightarrow>
          if \<exists>v \<in> set vs. \<not> hashable v then Inl TypeError
          else if (\<forall>v \<in> set vs. is_str v) \<and>
                  candidate_keys_ok (map (\<lambda>v. case v of VStr s \<Rightarrow> s | _ \<Rightarrow> []) vs)
               then Inl TypeError
               else Inl (ValueError ''candidate keys differ'')
      | _ \<Rightarrow> Inl TypeError)"

section \<open>Evaluating a measured profile\<close>

definition PIPELINES :: "(string \<times> string \<times> string) list" where
  "PIPELINES =
     [(''resnet10-layer7-cov-to-control-mlp'', ''perception'', ''control''),
      (''resnet10-backbone-to-learned-detection-head'', ''backbone'', ''detection-head''),
      (''resnet50-backbone-to-classification-head'', ''backbone'', ''classification-head''),
      (''whisper-last-hidden-state-to-projection-mlp'', ''audio-encoder'', ''projection'')]"

text \<open>The checks that the profile is a successful run of a known pipeline; the stage names.\<close>

definition at_least_two :: "pyval \<Rightarrow> string \<Rightarrow> string \<Rightarrow> unit res" where
  "at_least_two v label msg =
     bnd (positive_int v label) (\<lambda>n. if n < 2 then Inl (ValueError msg) else Inr ())"

definition profile_stage_names :: "pydict \<Rightarrow> (string \<times> string) res" where
  "profile_stage_names profile =
     (if dget profile ''status'' \<noteq> VStr ''ok'' then Inl (ValueError ''profile is not successful'')
      else if \<not> hashable (dget profile ''pipeline'') then Inl TypeError
      else case (case dget profile ''pipeline'' of VStr s \<Rightarrow> map_of PIPELINES s | _ \<Rightarrow> None) of
          None \<Rightarrow> Inl (ValueError ''unexpected pipeline workload'')
        | Some names \<Rightarrow>
            bnd (to_pyint (dget_default profile ''checksum_failures'' (VInt (-1)))) (\<lambda>failures.
              if failures \<noteq> 0 then Inl (ValueError ''payload checksum failure in profile'')
              else bnd (at_least_two (dget profile ''iterations'') ''iterations''
                          ''profile needs at least two measured requests'') (\<lambda>_.
              bnd (at_least_two (dget profile ''unique_payload_checksums'') ''payload checksums''
                     ''profile does not prove changing payloads'') (\<lambda>_.
              bnd (at_least_two (dget profile ''unique_policy_output_checksums'') ''policy output checksums''
                     ''profile does not prove payload-dependent outputs'') (\<lambda>_.
                Inr names)))))"

record stage_latencies =
  producer_us :: pyfloat
  transport_us :: pyfloat
  consumer_us :: pyfloat
  verification_us :: pyfloat

definition precise_transport :: "pydict \<Rightarrow> pyval res" where
  "precise_transport stage =
     (case dget stage ''transport_notification_p99'' of
        VNone \<Rightarrow> Inr VNone
      | v \<Rightarrow>
          bnd (finite_nonnegative (dget_default stage ''producer_handoff_copy_p99'' (VInt 0))
                 ''producer handoff copy'') (\<lambda>a.
          bnd (finite_nonnegative v ''transport notification'') (\<lambda>b.
          bnd (finite_nonnegative (dget_default stage ''consumer_handoff_copy_p99'' (VInt 0))
                 ''consumer handoff copy'') (\<lambda>c.
            Inr (dget_default stage ''edge_transport_p99'' (VFloat (fadd (fadd a b) c)))))))"

definition read_stage_latencies :: "pydict \<Rightarrow> stage_latencies res" where
  "read_stage_latencies stage =
     bnd (finite_nonnegative (dget stage ''producer_compute_p99'') ''producer p99'') (\<lambda>pr.
     bnd (precise_transport stage) (\<lambda>precise.
     bnd (finite_nonnegative
            (if precise \<noteq> VNone then precise else dget stage ''transport_ready_p99'')
            ''transport p99'') (\<lambda>tr.
     bnd (finite_nonnegative (dget stage ''consumer_compute_p99'') ''consumer p99'') (\<lambda>co.
     bnd (finite_nonnegative (dget stage ''output_verification_p99'') ''verification p99'') (\<lambda>ve.
       Inr \<lparr>producer_us = pr, transport_us = tr, consumer_us = co, verification_us = ve\<rparr>)))))"

text \<open>\<open>profile.get("end_to_end_us", {}).get("p99")\<close>.\<close>

definition end_to_end_p99 :: "pydict \<Rightarrow> pyval res" where
  "end_to_end_p99 profile = vget (dget_default profile ''end_to_end_us'' (VDict [])) ''p99''"

definition deadline_mode_of :: "pydict \<Rightarrow> pyval \<Rightarrow> string res" where
  "deadline_mode_of profile validation_excluded =
     (let mode = (case dget profile ''deadline_mode'' of
                    VNone \<Rightarrow> VStr (if validation_excluded \<noteq> VNone then ''validation-excluded'' else ''wall'')
                  | v \<Rightarrow> v)
      in if \<not> hashable mode then Inl TypeError
         else case mode of VStr s \<Rightarrow>
             if s \<in> {''wall'', ''validation-excluded''} then Inr s
             else Inl (ValueError ''profile deadline mode is unsupported'')
           | _ \<Rightarrow> Inl (ValueError ''profile deadline mode is unsupported''))"

definition observed_p99 :: "pydict \<Rightarrow> pyval \<Rightarrow> string \<Rightarrow> pyfloat res" where
  "observed_p99 profile validation_excluded mode =
     bnd (if mode = ''validation-excluded'' then Inr validation_excluded else end_to_end_p99 profile)
       (\<lambda>v. finite_nonnegative v ''observed end-to-end p99'')"

datatype tail_method = JointRequestP99 | MeasuredProductionWallP99 | ExplicitRiskBudget | LegacyComponentSum

definition promotable :: "tail_method \<Rightarrow> bool" where
  "promotable m \<longleftrightarrow> m \<noteq> LegacyComponentSum"

text \<open>The joint tail, taken from the measured wall when the profile has no field of its own.\<close>

definition joint_tail_of :: "pydict \<Rightarrow> string \<Rightarrow> pyval res" where
  "joint_tail_of profile mode =
     (if dget profile ''joint_tail_p99_us'' = VNone \<and> mode = ''wall'' \<and>
         dget profile ''risk_budget_us'' = VNone \<and>
         dget profile ''pipeline'' \<in>
           {VStr ''resnet10-backbone-to-learned-detection-head'',
            VStr ''resnet50-backbone-to-classification-head''}
      then end_to_end_p99 profile else Inr (dget profile ''joint_tail_p99_us''))"

definition add_budget :: "string \<times> pyval \<Rightarrow> pyfloat \<Rightarrow> pyfloat res" where
  "add_budget entry acc =
     bnd (finite_nonnegative (snd entry) (''risk_budget_us.'' @ fst entry)) (\<lambda>x. Inr (fadd acc x))"

definition tail_bound ::
  "pydict \<Rightarrow> string \<Rightarrow> stage_latencies \<Rightarrow> pyfloat \<Rightarrow> (pyval \<times> pyfloat \<times> tail_method) res"
where
  "tail_bound profile mode lat margin =
     bnd (joint_tail_of profile mode) (\<lambda>joint.
       let risk = dget profile ''risk_budget_us''
       in if joint \<noteq> VNone \<and> risk \<noteq> VNone
          then Inl (ValueError ''profile cannot provide both joint tail and risk budget'')
          else if joint \<noteq> VNone
          then bnd (finite_nonnegative joint ''joint_tail_p99_us'') (\<lambda>j.
                 Inr (joint, fadd j margin,
                      if dget profile ''joint_tail_p99_us'' \<noteq> VNone then JointRequestP99
                      else MeasuredProductionWallP99))
          else case risk of
              VNone \<Rightarrow>
                Inr (joint,
                     fadd (fadd (fadd (fadd (producer_us lat) (transport_us lat)) (consumer_us lat))
                       (verification_us lat)) margin, LegacyComponentSum)
            | VDict (e # es) \<Rightarrow>
                bnd (fold_res add_budget (e # es) margin) (\<lambda>total. Inr (joint, total, ExplicitRiskBudget))
            | _ \<Rightarrow> Inl (ValueError ''risk_budget_us must be a nonempty object''))"

text \<open>\<open>validate_dag\<close> always returns (proved with \<open>DagContract\<close>), so its \<open>None\<close> is never met here.\<close>

definition checked_dag :: "pyval \<Rightarrow> contract res" where
  "checked_dag v = (case validate_dag v of Some r \<Rightarrow> r | None \<Rightarrow> Inl AssertionError)"

definition two_stage_dag :: "string \<times> string \<Rightarrow> int \<Rightarrow> pyval \<Rightarrow> stage_latencies \<Rightarrow> pyval" where
  "two_stage_dag names payload transport lat =
     VDict
       [(''stages'', VList
          [VDict [(''id'', VStr (fst names)), (''p99_us'', VFloat (producer_us lat))],
           VDict [(''id'', VStr (snd names)), (''p99_us'', VFloat (consumer_us lat))]]),
        (''edges'', VList
          [VDict [(''source'', VStr (fst names)), (''target'', VStr (snd names)),
                  (''payload_bytes'', VInt payload), (''transport'', transport),
                  (''p99_us'', VFloat (transport_us lat))]]),
        (''output_verification_p99_us'', VFloat (verification_us lat))]"

record plan_entry =
  entry_candidate :: candidate
  profile_sha256 :: string
  profile_iterations :: pyval
  dag :: pyval
  dag_contract :: contract
  tail_bound_method :: tail_method
  joint_tail_p99_us :: "pyfloat option"
  risk_budget_us :: pyval
  response_reservation_us :: pyfloat
  critical_lookahead_us :: pyfloat
  uncovered_guard_us :: pyfloat
  arrival_to_completion_us :: pyfloat
  observed_end_to_end_p99_us :: pyfloat
  payload_validation_excluded :: bool
  deadline_us :: pyfloat
  reserved_slack_us :: pyfloat
  feasible :: bool

definition optional_joint_tail :: "pyval \<Rightarrow> pyfloat option res" where
  "optional_joint_tail joint =
     (if joint = VNone then Inr None
      else bnd (finite_nonnegative joint ''joint_tail_p99_us'') (\<lambda>j. Inr (Some j)))"

definition make_entry ::
  "candidate \<Rightarrow> string \<Rightarrow> pydict \<Rightarrow> pyfloat \<Rightarrow> pyfloat \<Rightarrow> string \<Rightarrow> pyfloat \<Rightarrow> pyfloat \<Rightarrow> tail_method \<Rightarrow>
   pyval \<Rightarrow> contract \<Rightarrow> pyfloat option \<Rightarrow> plan_entry"
where
  "make_entry c sha profile deadline lookahead mode observed response tail graph contr joint =
     (let uncovered = fmax (Fin 0) (fsub (pre_release_guard_p99_us c) lookahead);
          arrival = fadd response uncovered
      in \<lparr>entry_candidate = c, profile_sha256 = sha,
          profile_iterations = dget profile ''iterations'', dag = graph,
          dag_contract = contr, tail_bound_method = tail, joint_tail_p99_us = joint,
          risk_budget_us = dget profile ''risk_budget_us'',
          response_reservation_us = response, critical_lookahead_us = lookahead,
          uncovered_guard_us = uncovered, arrival_to_completion_us = arrival,
          observed_end_to_end_p99_us = observed,
          payload_validation_excluded = (mode = ''validation-excluded''),
          deadline_us = deadline, reserved_slack_us = fsub deadline arrival,
          feasible = (fle arrival deadline \<and> fle observed deadline)\<rparr>)"

text \<open>The latencies and the deadline mode of the profile.\<close>

definition profile_timing :: "pydict \<Rightarrow> (stage_latencies \<times> string \<times> pyfloat) res" where
  "profile_timing profile =
     (case dget profile ''stage_latency_us'' of
       VDict stage \<Rightarrow>
         bnd (read_stage_latencies stage) (\<lambda>lat.
         let excluded = dget stage ''validation_excluded_end_to_end_p99'' in
         bnd (deadline_mode_of profile excluded) (\<lambda>mode.
         bnd (observed_p99 profile excluded mode) (\<lambda>observed. Inr (lat, mode, observed))))
     | _ \<Rightarrow> Inl (ValueError ''profile lacks stage_latency_us''))"

definition evaluate_profile ::
  "candidate \<Rightarrow> string \<Rightarrow> pydict \<Rightarrow> pyfloat \<Rightarrow> pyfloat \<Rightarrow> plan_entry res"
where
  "evaluate_profile c sha profile deadline lookahead =
     bnd (profile_stage_names profile) (\<lambda>names.
     bnd (profile_timing profile) (\<lambda>(lat, mode, observed).
     bnd (tail_bound profile mode lat (reservation_margin_us c)) (\<lambda>(joint, response, tail).
     bnd (positive_int (dget profile ''payload_bytes'') ''payload_bytes'') (\<lambda>payload.
     let graph = two_stage_dag names payload (dget profile ''transport'') lat in
     bnd (checked_dag graph) (\<lambda>contr.
     bnd (optional_joint_tail joint) (\<lambda>joint_value.
       Inr (make_entry c sha profile deadline lookahead mode observed response tail graph contr
              joint_value)))))))"

text \<open>
  What a path holds: nothing readable (an \<open>OSError\<close>), bytes that are not JSON (a \<open>ValueError\<close>), or
  a parsed value with the digest of its bytes.
\<close>

datatype profile_file = Unreadable | NotJson | Parsed string pyval

datatype load_error = ReadError | Raised pyerr

definition load_pipeline_profile ::
  "(string \<Rightarrow> profile_file) \<Rightarrow> candidate \<Rightarrow> pyfloat \<Rightarrow> pyfloat \<Rightarrow> load_error + plan_entry"
where
  "load_pipeline_profile files c deadline lookahead =
     (case files (profile_path c) of
        Unreadable \<Rightarrow> Inl ReadError
      | NotJson \<Rightarrow> Inl (Raised (ValueError ''not JSON''))
      | Parsed sha (VDict profile) \<Rightarrow> map_sum Raised id (evaluate_profile c sha profile deadline lookahead)
      | Parsed sha _ \<Rightarrow> Inl (Raised AttributeError))"

section \<open>Selecting a plan\<close>

datatype evaluated = Evaluated plan_entry | Rejected candidate

text \<open>The loop catches \<open>OSError\<close> and \<open>ValueError\<close>; any other exception leaves \<open>select_plan\<close>.\<close>

definition evaluate_candidate ::
  "(string \<Rightarrow> profile_file) \<Rightarrow> pyfloat \<Rightarrow> pyfloat \<Rightarrow> candidate \<Rightarrow> evaluated res"
where
  "evaluate_candidate files deadline lookahead c =
     (case load_pipeline_profile files c deadline lookahead of
        Inr e \<Rightarrow> Inr (Evaluated e)
      | Inl ReadError \<Rightarrow> Inr (Rejected c)
      | Inl (Raised (ValueError m)) \<Rightarrow> Inr (Rejected c)
      | Inl (Raised e) \<Rightarrow> Inl e)"

fun feasible_entry :: "evaluated \<Rightarrow> plan_entry option" where
  "feasible_entry (Evaluated e) = (if feasible e then Some e else None)"
| "feasible_entry (Rejected c) = None"

text \<open>The order of the keys \<open>(background_goodput_rps, reserved_slack_us)\<close>, compared as tuples.\<close>

definition better_entry :: "plan_entry \<Rightarrow> plan_entry \<Rightarrow> bool" where
  "better_entry a b =
     (let ga = background_goodput_rps (entry_candidate a); gb = background_goodput_rps (entry_candidate b)
      in if feq ga gb then flt (reserved_slack_us b) (reserved_slack_us a) else flt gb ga)"

definition choose_entry :: "evaluated list \<Rightarrow> plan_entry option" where
  "choose_entry evaluated = best_by better_entry (List.map_filter feasible_entry evaluated)"

definition search_status :: "candidate list \<Rightarrow> string" where
  "search_status cs =
     (if 2 \<le> length cs \<and> 2 \<le> length (remdups (map placement_variant cs))
      then ''multi-candidate-placement-and-quota-search''
      else if 2 \<le> length cs then ''multi-candidate-quota-search-only''
      else ''single-candidate-characterization'')"

definition check_candidate_search :: "pyval \<Rightarrow> candidate list \<Rightarrow> unit res" where
  "check_candidate_search search cs =
     (let variants = int (length (remdups (map placement_variant cs))) in
      case search of
        VNone \<Rightarrow> Inr ()
      | VDict d \<Rightarrow>
          if \<not> py_eq (dget d ''candidate_count'') (VInt (int (length cs)))
          then Inl (ValueError ''candidate_search count differs from candidates'')
          else if dget d ''multi_candidate_evaluated'' \<noteq> VBool (2 \<le> length cs)
          then Inl (ValueError ''candidate_search multi-candidate flag differs'')
          else if dget d ''claim_status'' \<noteq> VStr (search_status cs)
          then Inl (ValueError ''candidate_search claim status differs'')
          else if \<not> py_eq (dget d ''placement_variant_count'') (VInt variants)
          then Inl (ValueError ''candidate_search placement count differs'')
          else if dget d ''placement_search_evaluated'' \<noteq> VBool (2 \<le> variants)
          then Inl (ValueError ''candidate_search placement flag differs'')
          else Inr ()
      | _ \<Rightarrow> Inl (ValueError ''candidate_search must be an object''))"

definition deadline_lock_ok :: "pyval \<Rightarrow> bool" where
  "deadline_lock_ok v \<longleftrightarrow>
     (case v of VNone \<Rightarrow> True
      | VDict d \<Rightarrow> dkeys d = {''path'', ''sha256''} \<and> is_str (dget d ''path'') \<and>
          (case dget d ''sha256'' of VStr s \<Rightarrow> length s = 64 | _ \<Rightarrow> False)
      | _ \<Rightarrow> False)"

record selection =
  sel_deadline_us :: pyfloat
  sel_deadline_lock :: pyval
  sel_lookahead_us :: pyfloat
  sel_candidate_count :: nat
  sel_variant_count :: nat
  sel_claim_status :: string
  sel_selected :: bool
  selected_plan :: "plan_entry option"
  sel_candidates :: "evaluated list"

definition parse_candidates :: "(string \<Rightarrow> string) \<Rightarrow> pydict \<Rightarrow> candidate list res" where
  "parse_candidates resolve spec =
     (case dget spec ''candidates'' of
        VList (v # vs) \<Rightarrow>
          bnd (map_res (parse_candidate resolve) (v # vs)) (\<lambda>cs.
            if length (remdups (map candidate_id cs)) \<noteq> length cs
            then Inl (ValueError ''candidate_id values must be unique'') else Inr cs)
      | _ \<Rightarrow> Inl (ValueError ''at least one candidate is required''))"

definition select_plan ::
  "(string \<Rightarrow> profile_file) \<Rightarrow> (string \<Rightarrow> string) \<Rightarrow> pydict \<Rightarrow> selection res"
where
  "select_plan files resolve spec =
     (if \<not> py_eq (dget spec ''schema_version'') (VInt SCHEMA_VERSION)
      then Inl (ValueError ''unsupported QUIET planner schema'')
      else if dget spec ''system'' \<noteq> VStr SYSTEM_NAME
      then Inl (ValueError ''the only public proposed-system name is QUIET'')
      else bnd (finite_nonnegative (dget spec ''deadline_us'') ''deadline_us'') (\<lambda>deadline.
        if feq deadline (Fin 0) then Inl (ValueError ''deadline_us must be positive'')
        else if \<not> deadline_lock_ok (dget spec ''deadline_lock'')
        then Inl (ValueError ''deadline_lock provenance is malformed'')
        else bnd (finite_nonnegative (dget spec ''critical_lookahead_us'') ''critical_lookahead_us'') (\<lambda>lookahead.
        bnd (parse_candidates resolve spec) (\<lambda>cs.
        bnd (check_candidate_search (dget spec ''candidate_search'') cs) (\<lambda>_.
        bnd (map_res (evaluate_candidate files deadline lookahead) cs) (\<lambda>evals.
          Inr \<lparr>sel_deadline_us = deadline, sel_deadline_lock = dget spec ''deadline_lock'',
               sel_lookahead_us = lookahead, sel_candidate_count = length cs,
               sel_variant_count = length (remdups (map placement_variant cs)),
               sel_claim_status = search_status cs,
               sel_selected = (choose_entry evals \<noteq> None),
               selected_plan = choose_entry evals, sel_candidates = evals\<rparr>))))))"

section \<open>Binding a plan to resources\<close>

record launch_manifest =
  m_candidate_id :: pyval
  m_placement_variant :: string
  m_producer_uuid :: string
  m_consumer_uuid :: string
  m_transport :: string
  m_producer_quota :: int
  m_consumer_quota :: int
  m_background_quota :: int
  m_protection_scope :: pyval
  m_workload :: string
  m_tail_bound_method :: pyval
  m_tail_bound_promotable :: pyval
  m_best_effort_admitted :: bool

record launch_request =
  req_variant :: string
  req_transport :: pyval
  req_producer_quota :: int
  req_background_quota :: int
  req_scope :: string
  req_workload :: string
  req_dependency_mode :: string

definition expected_placement :: "slice_binding \<Rightarrow> int \<Rightarrow> pyval" where
  "expected_placement b quota =
     VDict [(''producer'', VStr (label_of (producer_slice b) quota)),
            (''consumer'', VStr (label_of (consumer_slice b) 100))]"

text \<open>The checks on placement and quotas; the quotas of producer, consumer and background.\<close>

definition bind_quotas ::
  "slice_binding \<Rightarrow> launch_request \<Rightarrow> pyval \<Rightarrow> string \<times> int \<Rightarrow> string \<times> int \<Rightarrow> (int \<times> int \<times> int) res"
where
  "bind_quotas b req cid p c =
     (if fst p \<noteq> producer_slice b \<or> fst c \<noteq> consumer_slice b \<or>
         snd p \<noteq> req_producer_quota req \<or> snd c \<noteq> 100
      then Inl (ValueError ''QUIET plan slice/quota binding differs from CLI'')
      else bnd (candidate_quotas cid) (\<lambda>q.
        if fst q \<noteq> req_producer_quota req \<or> snd q \<noteq> req_background_quota req
        then Inl (ValueError ''QUIET plan candidate quotas differ from CLI'')
        else Inr (snd p, snd c, snd q)))"

definition bind_placement :: "pydict \<Rightarrow> slice_binding \<Rightarrow> launch_request \<Rightarrow> (int \<times> int \<times> int) res" where
  "bind_placement selected b req =
     (case dget selected ''placement'' of
        VDict pl \<Rightarrow>
          if \<not> py_eq (VDict pl) (expected_placement b (req_producer_quota req))
          then Inl (ValueError ''QUIET plan placement/quota differs from CLI'')
          else if dget_default selected ''placement_variant'' (VStr (req_variant req)) \<noteq> VStr (req_variant req)
          then Inl (ValueError ''QUIET plan placement variant differs from CLI'')
          else bnd (placement_label (dget pl ''producer'') ''producer'') (\<lambda>p.
               bnd (placement_label (dget pl ''consumer'') ''consumer'') (\<lambda>c.
                 bind_quotas b req (dget selected ''candidate_id'') p c))
      | _ \<Rightarrow> Inl (ValueError ''QUIET plan placement/quota differs from CLI''))"

definition planned_transport :: "pydict \<Rightarrow> string res" where
  "planned_transport selected =
     bnd (vget (dget_default selected ''dag'' (VDict [])) ''edges'') (\<lambda>edges.
     case edges of
       VList [e] \<Rightarrow> bnd (vget e ''transport'') canonical_transport
     | _ \<Rightarrow> Inl (ValueError ''QUIET plan must have exactly one executable edge''))"

definition plan_object :: "pydict \<Rightarrow> pydict res" where
  "plan_object plan =
     (case dget plan ''selected_plan'' of
        VDict selected \<Rightarrow>
          if dget plan ''proposed_system'' \<noteq> VStr SYSTEM_NAME \<or> dget plan ''status'' \<noteq> VStr ''selected'' \<or>
             dget selected ''feasible'' \<noteq> VBool True
          then Inl (ValueError ''QUIET plan is not a selected feasible plan'') else Inr selected
      | _ \<Rightarrow> Inl (ValueError ''QUIET plan is not a selected feasible plan''))"

definition mig_uuid :: "(string \<times> string) list \<Rightarrow> string \<Rightarrow> string res" where
  "mig_uuid mig k = (case map_of mig k of Some u \<Rightarrow> Inr u | None \<Rightarrow> Inl (KeyError k))"

definition actuate_selected_plan ::
  "pydict \<Rightarrow> (string \<times> string) list \<Rightarrow> launch_request \<Rightarrow> launch_manifest res"
where
  "actuate_selected_plan plan mig req =
     (case map_of PLACEMENT_VARIANTS (req_variant req) of
        None \<Rightarrow> Inl (ValueError ''unknown QUIET placement variant'')
      | Some b \<Rightarrow>
          bnd (plan_object plan) (\<lambda>selected.
          bnd (bind_placement selected b req) (\<lambda>(pquota, cquota, bg).
          bnd (planned_transport selected) (\<lambda>transport.
          bnd (canonical_transport (req_transport req)) (\<lambda>cli.
          let scope = dget_default selected ''protection_scope'' (VStr ''producer'') in
          if transport \<noteq> cli then Inl (ValueError ''QUIET plan transport differs from CLI'')
          else if scope \<noteq> VStr (req_scope req)
          then Inl (ValueError ''QUIET plan protection scope differs from CLI'')
          else if req_dependency_mode req \<noteq> ''dependent''
          then Inl (ValueError ''QUIET plan actuation requires dependent mode'')
          else if req_workload req = [] then Inl (ValueError ''QUIET plan workload is missing'')
          else bnd (mig_uuid mig (producer_uuid_key b)) (\<lambda>pu.
               bnd (mig_uuid mig (consumer_uuid_key b)) (\<lambda>cu.
                 Inr \<lparr>m_candidate_id = dget selected ''candidate_id'',
                      m_placement_variant = req_variant req, m_producer_uuid = pu,
                      m_consumer_uuid = cu, m_transport = transport, m_producer_quota = pquota,
                      m_consumer_quota = cquota, m_background_quota = bg,
                      m_protection_scope = scope, m_workload = req_workload req,
                      m_tail_bound_method =
                        dget_default selected ''tail_bound_method'' (VStr ''legacy-component-p99-sum''),
                      m_tail_bound_promotable =
                        dget_default selected ''tail_bound_promotable'' (VBool False),
                      m_best_effort_admitted = (0 < bg)\<rparr>)))))))"

section \<open>The result as JSON\<close>

definition tail_method_name :: "tail_method \<Rightarrow> string" where
  "tail_method_name m =
     (case m of JointRequestP99 \<Rightarrow> ''joint-request-p99''
      | MeasuredProductionWallP99 \<Rightarrow> ''measured-production-wall-p99''
      | ExplicitRiskBudget \<Rightarrow> ''explicit-risk-budget''
      | LegacyComponentSum \<Rightarrow> ''legacy-component-p99-sum'')"

text \<open>The fields of a selected entry that actuation reads.\<close>

definition entry_value :: "plan_entry \<Rightarrow> pydict" where
  "entry_value e =
     [(''candidate_id'', VStr (candidate_id (entry_candidate e))),
      (''placement'', VDict (placement (entry_candidate e))),
      (''placement_variant'', VStr (placement_variant (entry_candidate e))),
      (''protection_scope'', VStr (protection_scope (entry_candidate e))),
      (''dag'', dag e),
      (''tail_bound_method'', VStr (tail_method_name (tail_bound_method e))),
      (''tail_bound_promotable'', VBool (promotable (tail_bound_method e))),
      (''feasible'', VBool (feasible e))]"

definition selection_value :: "selection \<Rightarrow> pydict" where
  "selection_value r =
     [(''proposed_system'', VStr SYSTEM_NAME),
      (''status'', VStr (if sel_selected r then ''selected'' else ''no-feasible-plan'')),
      (''selected_plan'', case selected_plan r of None \<Rightarrow> VNone | Some e \<Rightarrow> VDict (entry_value e))]"

section \<open>Reservations\<close>

lemma finite_nonnegative_value:
  "finite_nonnegative v label = Inr x \<Longrightarrow> \<exists>r. x = Fin r \<and> 0 \<le> r"
  by (auto simp: finite_nonnegative_def res_simps isfinite_Fin)

lemma add_budget_double: "add_budget e u = Inr v \<Longrightarrow> double v"
  by (auto simp: add_budget_def res_simps double_fadd)

lemma add_budgets_double:
  assumes "fold_res add_budget (e # es) margin = Inr t"
  shows "double t"
proof -
  from assms obtain u where u: "add_budget e margin = Inr u" "fold_res add_budget es u = Inr t"
    by (auto simp: res_simps)
  from u(2) add_budget_double [OF u(1)] show ?thesis
    by (rule fold_res_invariant) (rule add_budget_double)
qed

lemma tail_bound_double:
  assumes "tail_bound profile mode lat margin = Inr (joint, response, tail)"
  shows "double response"
  using assms
  by (auto simp: tail_bound_def Let_def res_simps double_fadd add_budgets_double
      split: if_splits pyval.splits list.splits simp del: fold_res.simps)

lemma fmax_zero: "fle (Fin 0) (fmax (Fin 0) x)"
  by (cases x) (auto simp: fmax_def fle_def feq_def)

text \<open>Adding a nonnegative float to a double does not go below it.\<close>

lemma fadd_ge_left:
  assumes "double a" and "fle (Fin 0) b" and "fle (fadd a b) (Fin d)"
  shows "fle a (Fin d)"
proof -
  have "fadd a b \<noteq> NaN" using assms(3) by (auto simp: fle_def feq_def)
  from fadd_increases [OF assms(1) this assms(2)] assms(3) show ?thesis by (blast intro: fle_trans)
qed

definition entry_ok :: "pyfloat \<Rightarrow> pyfloat \<Rightarrow> plan_entry \<Rightarrow> bool" where
  "entry_ok deadline lookahead e \<longleftrightarrow>
     plan_entry.deadline_us e = deadline \<and> double (response_reservation_us e) \<and>
     fle (Fin 0) (uncovered_guard_us e) \<and>
     uncovered_guard_us e = fmax (Fin 0) (fsub (pre_release_guard_p99_us (entry_candidate e)) lookahead) \<and>
     arrival_to_completion_us e = fadd (response_reservation_us e) (uncovered_guard_us e) \<and>
     reserved_slack_us e = fsub deadline (arrival_to_completion_us e) \<and>
     (feasible e \<longleftrightarrow>
        fle (arrival_to_completion_us e) deadline \<and> fle (observed_end_to_end_p99_us e) deadline)"

lemma make_entry_ok:
  "double response \<Longrightarrow>
   entry_ok deadline lookahead
     (make_entry c sha profile deadline lookahead mode observed response tail graph contr joint)"
  by (simp add: entry_ok_def make_entry_def Let_def fmax_zero)

lemma make_entry_sel [simp]:
  "entry_candidate (make_entry c sha profile deadline lookahead mode observed response tail graph contr joint) = c"
  "dag (make_entry c sha profile deadline lookahead mode observed response tail graph contr joint) = graph"
  "dag_contract (make_entry c sha profile deadline lookahead mode observed response tail graph contr joint) = contr"
  by (simp_all add: make_entry_def Let_def)

lemma evaluate_profile_parts:
  assumes "evaluate_profile c sha profile deadline lookahead = Inr e"
  shows "\<exists>names lat payload.
    profile_stage_names profile = Inr names \<and>
    dag e = two_stage_dag names payload (dget profile ''transport'') lat \<and>
    checked_dag (dag e) = Inr (dag_contract e) \<and>
    entry_candidate e = c \<and> entry_ok deadline lookahead e"
proof -
  obtain names lat mode observed joint response tail payload contr jv where
    parts: "profile_stage_names profile = Inr names"
    "tail_bound profile mode lat (reservation_margin_us c) = Inr (joint, response, tail)"
    "checked_dag (two_stage_dag names payload (dget profile ''transport'') lat) = Inr contr"
    and e: "make_entry c sha profile deadline lookahead mode observed response tail
      (two_stage_dag names payload (dget profile ''transport'') lat) contr jv = e"
    using assms unfolding evaluate_profile_def Let_def bnd_eq_Inr split_def by force
  from make_entry_ok [OF tail_bound_double [OF parts(2)]] have "entry_ok deadline lookahead e"
    unfolding e [symmetric] .
  with parts e show ?thesis by (metis make_entry_sel)
qed

lemma map_sum_Inr: "map_sum f id x = Inr y \<longleftrightarrow> x = Inr y"
  by (cases x) auto

lemma evaluate_candidate_Evaluated:
  assumes "evaluate_candidate files deadline lookahead c = Inr (Evaluated e)"
  shows "\<exists>sha profile. files (profile_path c) = Parsed sha (VDict profile) \<and>
    evaluate_profile c sha profile deadline lookahead = Inr e"
  using assms
  by (auto simp: evaluate_candidate_def load_pipeline_profile_def map_sum_Inr
      split: sum.splits load_error.splits pyerr.splits profile_file.splits pyval.splits)

lemma parse_candidate_Inr:
  assumes "parse_candidate resolve raw = Inr c"
  shows "\<exists>g. background_goodput_rps c = Fin g \<and> 0 \<le> g"
proof -
  from assms obtain d where "parse_candidate_object resolve d = Inr c"
    by (auto simp: parse_candidate_def split: pyval.splits if_splits)
  then obtain v l where "finite_nonnegative v l = Inr (background_goodput_rps c)"
    by (auto simp: parse_candidate_object_def res_simps)
  then show ?thesis by (rule finite_nonnegative_value)
qed

lemma select_plan_parts:
  assumes "select_plan files resolve spec = Inr r"
  shows "\<exists>d cs.
    sel_deadline_us r = Fin d \<and> 0 < d \<and>
    parse_candidates resolve spec = Inr cs \<and>
    map_res (evaluate_candidate files (sel_deadline_us r) (sel_lookahead_us r)) cs = Inr (sel_candidates r) \<and>
    selected_plan r = choose_entry (sel_candidates r) \<and> (sel_selected r \<longleftrightarrow> selected_plan r \<noteq> None)"
  using assms finite_nonnegative_value
  by (fastforce simp: select_plan_def res_simps feq_def)

lemma select_plan_entries:
  assumes "select_plan files resolve spec = Inr r" and "Evaluated e \<in> set (sel_candidates r)"
  shows "entry_ok (sel_deadline_us r) (sel_lookahead_us r) e \<and>
    (\<exists>g. background_goodput_rps (entry_candidate e) = Fin g \<and> 0 \<le> g)"
proof -
  obtain cs where cs: "parse_candidates resolve spec = Inr cs"
    "map_res (evaluate_candidate files (sel_deadline_us r) (sel_lookahead_us r)) cs = Inr (sel_candidates r)"
    using select_plan_parts [OF assms(1)] by blast
  from map_res_mem [OF cs(2) assms(2)] obtain c where c: "c \<in> set cs"
    "evaluate_candidate files (sel_deadline_us r) (sel_lookahead_us r) c = Inr (Evaluated e)"
    by blast
  from evaluate_candidate_Evaluated [OF c(2)] obtain sha profile where
    "evaluate_profile c sha profile (sel_deadline_us r) (sel_lookahead_us r) = Inr e" by blast
  from evaluate_profile_parts [OF this]
  have e: "entry_candidate e = c" "entry_ok (sel_deadline_us r) (sel_lookahead_us r) e" by auto
  from cs(1) c(1) obtain raw where "parse_candidate resolve raw = Inr c"
    by (auto simp: parse_candidates_def bnd_eq_Inr simp del: map_res.simps
        split: pyval.splits list.splits if_splits dest!: map_res_mem)
  with e parse_candidate_Inr show ?thesis by blast
qed

section \<open>The ranking of the feasible entries\<close>

definition rankable :: "plan_entry \<Rightarrow> bool" where
  "rankable e \<longleftrightarrow> background_goodput_rps (entry_candidate e) \<noteq> NaN \<and> reserved_slack_us e \<noteq> NaN"

lemma feq_eq: "a \<noteq> NaN \<Longrightarrow> feq a b \<longleftrightarrow> a = b"
  by (auto simp: feq_def)

lemma better_entry_rank:
  "rankable a \<Longrightarrow> rankable b \<Longrightarrow>
   better_entry a b \<longleftrightarrow>
     background_goodput_rps (entry_candidate b) < background_goodput_rps (entry_candidate a) \<or>
     (background_goodput_rps (entry_candidate a) = background_goodput_rps (entry_candidate b) \<and>
      reserved_slack_us b < reserved_slack_us a)"
  by (auto simp: better_entry_def rankable_def feq_eq flt_less Let_def)

interpretation best_plan: ranking better_entry rankable
  by unfold_locales (auto simp: better_entry_rank)

lemma feasible_rankable:
  assumes "entry_ok (Fin d) lookahead e" and "feasible e"
    and "background_goodput_rps (entry_candidate e) = Fin g"
  shows "rankable e \<and> fle (Fin 0) (reserved_slack_us e)"
proof -
  have le: "fle (arrival_to_completion_us e) (Fin d)"
    and sl: "reserved_slack_us e = fsub (Fin d) (arrival_to_completion_us e)"
    using assms by (auto simp: entry_ok_def)
  have "reserved_slack_us e \<noteq> NaN \<and> fle (Fin 0) (reserved_slack_us e)"
  proof (cases "arrival_to_completion_us e")
    case (Fin a)
    with le have "0 \<le> d - a" by simp
    from fl_nonneg [OF this] show ?thesis by (simp add: sl Fin fsub_def)
  qed (use le in \<open>auto simp: sl fsub_def fle_def feq_def\<close>)
  then show ?thesis using assms(3) by (simp add: rankable_def)
qed

lemma feasible_entries: "set (List.map_filter feasible_entry evals) = {e. Evaluated e \<in> set evals \<and> feasible e}"
proof -
  have "feasible_entry v = Some e \<longleftrightarrow> v = Evaluated e \<and> feasible e" for v e
    by (cases v) auto
  then show ?thesis by (induction evals) (auto simp: map_filter_simps split: option.splits)
qed

lemma choose_entry_best:
  assumes "choose_entry evals = Some e"
  shows "Evaluated e \<in> set evals \<and> feasible e"
  using best_by_in [of better_entry _ e] assms feasible_entries [of evals]
  by (auto simp: choose_entry_def)

section \<open>Properties\<close>

text \<open>
  C28: a plan that \<open>select_plan\<close> selects is one of the evaluated candidates and meets the deadline:
  the reservation from arrival to completion, the response reservation alone and the observed p99 do
  not exceed it, and the slack it reports is not negative (all in IEEE doubles).
\<close>

theorem selected_plan_meets_deadline:
  assumes "select_plan files resolve spec = Inr r" and "selected_plan r = Some e"
  shows "Evaluated e \<in> set (sel_candidates r) \<and> sel_selected r \<and>
    plan_entry.deadline_us e = sel_deadline_us r \<and>
    fle (arrival_to_completion_us e) (sel_deadline_us r) \<and>
    fle (response_reservation_us e) (sel_deadline_us r) \<and>
    fle (observed_end_to_end_p99_us e) (sel_deadline_us r) \<and> fle (Fin 0) (reserved_slack_us e)"
proof -
  obtain d where d: "sel_deadline_us r = Fin d" and sel: "choose_entry (sel_candidates r) = Some e" "sel_selected r"
    using select_plan_parts [OF assms(1)] assms(2) by auto
  note e = choose_entry_best [OF sel(1)]
  obtain g where ok: "entry_ok (sel_deadline_us r) (sel_lookahead_us r) e"
    "background_goodput_rps (entry_candidate e) = Fin g"
    using select_plan_entries [OF assms(1), of e] e by blast
  have arr: "fle (arrival_to_completion_us e) (Fin d)"
    "arrival_to_completion_us e = fadd (response_reservation_us e) (uncovered_guard_us e)"
    "double (response_reservation_us e)" "fle (Fin 0) (uncovered_guard_us e)"
    using ok(1) e unfolding entry_ok_def d by blast+
  have "fle (response_reservation_us e) (Fin d)"
    by (rule fadd_ge_left [OF arr(3,4)]) (use arr(1,2) in simp)
  with ok e sel d feasible_rankable [of d "sel_lookahead_us r" e g] show ?thesis
    by (auto simp: entry_ok_def)
qed

text \<open>A specification with two candidates: the second serves more background work, both fit.\<close>

definition demo_profile :: "int \<Rightarrow> pyval" where
  "demo_profile p99 =
     VDict
       [(''status'', VStr ''ok''), (''pipeline'', VStr ''resnet10-layer7-cov-to-control-mlp''),
        (''transport'', VStr ''registered-shared-sysmem-direct-binding''),
        (''payload_bytes'', VInt 14720), (''iterations'', VInt 100), (''checksum_failures'', VInt 0),
        (''unique_payload_checksums'', VInt 4), (''unique_policy_output_checksums'', VInt 4),
        (''end_to_end_us'', VDict [(''p99'', VInt p99)]), (''joint_tail_p99_us'', VInt p99),
        (''stage_latency_us'', VDict
           [(''producer_compute_p99'', VInt 300), (''transport_ready_p99'', VInt 40),
            (''consumer_compute_p99'', VInt 30), (''output_verification_p99'', VInt 10)])]"

definition demo_files :: "string \<Rightarrow> profile_file" where
  "demo_files path =
     (if path = ''/a.json'' then Parsed ''aa'' (demo_profile 610)
      else if path = ''/b.json'' then Parsed ''bb'' (demo_profile 620) else Unreadable)"

definition demo_candidate :: "string \<Rightarrow> string \<Rightarrow> int \<Rightarrow> int \<Rightarrow> pyval" where
  "demo_candidate cid path goodput quota =
     VDict
       [(''candidate_id'', VStr cid), (''profile_path'', VStr path),
        (''placement'', VDict [(''producer'', VStr (label_of ''1g'' quota)), (''consumer'', VStr ''2g-q100'')]),
        (''background_goodput_rps'', VInt goodput), (''pre_release_guard_p99_us'', VInt 50),
        (''reservation_margin_us'', VInt 10)]"

definition demo_spec :: pydict where
  "demo_spec =
     [(''schema_version'', VInt 1), (''system'', VStr ''QUIET''), (''deadline_us'', VInt 700),
      (''critical_lookahead_us'', VInt 30),
      (''candidates'', VList [demo_candidate ''cell-q50-q25'' ''/a.json'' 3 50,
         demo_candidate ''cell-q50-q75'' ''/b.json'' 8 50,
         demo_candidate ''lost-q50-q90'' ''/missing.json'' 9 50])]"

lemma str_eval [simp]:
  "str_of_int 10 = ''10''" "str_of_int 25 = ''25''" "str_of_int 50 = ''50''" "str_of_int 75 = ''75''"
  "str_of_int 90 = ''90''" "str_of_int 100 = ''100''"
  by code_simp+

lemmas candidate_eval = parse_candidate_def parse_candidate_object_def candidate_keys_ok_def
  candidate_fields_def candidate_metadata_def optional_fields_def placement_ok_def dkeys_def
  scope_of_def path_of_def finite_nonnegative_def float_of_int_def dget_def dget_default_def
  demo_candidate_def

lemmas profile_eval = evaluate_candidate_def load_pipeline_profile_def evaluate_profile_def
  profile_stage_names_def PIPELINES_def at_least_two_def positive_int_def profile_timing_def
  read_stage_latencies_def precise_transport_def deadline_mode_of_def observed_p99_def
  end_to_end_p99_def tail_bound_def joint_tail_of_def optional_joint_tail_def checked_dag_def
  two_stage_dag_def finite_nonnegative_def float_of_int_def dget_def dget_default_def
  make_entry_def demo_profile_def demo_files_def

definition demo_parsed :: "string \<Rightarrow> string \<Rightarrow> int \<Rightarrow> candidate" where
  "demo_parsed cid path goodput =
     \<lparr>candidate_id = cid, profile_path = path,
      placement = [(''producer'', VStr ''1g-q50''), (''consumer'', VStr ''2g-q100'')],
      placement_variant = ''fixed-1g-producer-2g-consumer'',
      background_goodput_rps = Fin (of_int goodput), pre_release_guard_p99_us = Fin 50,
      reservation_margin_us = Fin 10, protection_scope = ''producer''\<rparr>"

lemma demo_parse:
  "parse_candidate id (demo_candidate ''cell-q50-q25'' ''/a.json'' 3 50) = Inr (demo_parsed ''cell-q50-q25'' ''/a.json'' 3)"
  "parse_candidate id (demo_candidate ''cell-q50-q75'' ''/b.json'' 8 50) = Inr (demo_parsed ''cell-q50-q75'' ''/b.json'' 8)"
  "parse_candidate id (demo_candidate ''lost-q50-q90'' ''/missing.json'' 9 50) =
     Inr (demo_parsed ''lost-q50-q90'' ''/missing.json'' 9)"
  by (simp_all add: candidate_eval label_of_def fl_eval demo_parsed_def)

lemma demo_evaluate:
  "\<exists>e1 e2. map_res (evaluate_candidate demo_files (Fin 700) (Fin 30))
      [demo_parsed ''cell-q50-q25'' ''/a.json'' 3, demo_parsed ''cell-q50-q75'' ''/b.json'' 8,
       demo_parsed ''lost-q50-q90'' ''/missing.json'' 9] =
    Inr [Evaluated e1, Evaluated e2, Rejected (demo_parsed ''lost-q50-q90'' ''/missing.json'' 9)] \<and>
    feasible e1 \<and> feasible e2 \<and> entry_candidate e1 = demo_parsed ''cell-q50-q25'' ''/a.json'' 3 \<and>
    entry_candidate e2 = demo_parsed ''cell-q50-q75'' ''/b.json'' 8 \<and>
    planned_transport (entry_value e2) = Inr ''registered-direct''"
  by (simp add: profile_eval demo_parsed_def dag_eval fmax_def fsub_def fl_eval planned_transport_def
      entry_value_def canonical_transport_def TRANSPORT_ALIASES_def)

lemma demo_selected:
  "\<exists>r e. select_plan demo_files id demo_spec = Inr r \<and> selected_plan r = Some e \<and>
    entry_candidate e = demo_parsed ''cell-q50-q75'' ''/b.json'' 8 \<and>
    planned_transport (entry_value e) = Inr ''registered-direct''"
proof -
  obtain e1 e2 where evals: "map_res (evaluate_candidate demo_files (Fin 700) (Fin 30))
      [demo_parsed ''cell-q50-q25'' ''/a.json'' 3, demo_parsed ''cell-q50-q75'' ''/b.json'' 8,
       demo_parsed ''lost-q50-q90'' ''/missing.json'' 9] =
    Inr [Evaluated e1, Evaluated e2, Rejected (demo_parsed ''lost-q50-q90'' ''/missing.json'' 9)]"
    and e: "feasible e1" "feasible e2" "entry_candidate e1 = demo_parsed ''cell-q50-q25'' ''/a.json'' 3"
      "entry_candidate e2 = demo_parsed ''cell-q50-q75'' ''/b.json'' 8"
      "planned_transport (entry_value e2) = Inr ''registered-direct''"
    using demo_evaluate by blast
  have parsed: "parse_candidates id demo_spec =
      Inr [demo_parsed ''cell-q50-q25'' ''/a.json'' 3, demo_parsed ''cell-q50-q75'' ''/b.json'' 8,
       demo_parsed ''lost-q50-q90'' ''/missing.json'' 9]"
    by (simp add: parse_candidates_def demo_spec_def dget_def demo_parse) (simp add: demo_parsed_def)
  have "finite_nonnegative (VInt 700) l = Inr (Fin 700)" "finite_nonnegative (VInt 30) l = Inr (Fin 30)" for l
    by (simp_all add: finite_nonnegative_def float_of_int_def fl_eval)
  moreover have "choose_entry [Evaluated e1, Evaluated e2, Rejected c] = Some e2" for c
    using e by (simp add: choose_entry_def map_filter_simps best_by_def better_entry_def demo_parsed_def)
  ultimately show ?thesis
    using parsed evals e(4,5)
    by (simp add: select_plan_def demo_spec_def dget_def SCHEMA_VERSION_def SYSTEM_NAME_def
        deadline_lock_ok_def check_candidate_search_def del: map_res.simps)
qed

theorem selected_plan_meets_deadline_witness:
  "\<exists>r e. select_plan demo_files id demo_spec = Inr r \<and> selected_plan r = Some e \<and>
    fle (arrival_to_completion_us e) (sel_deadline_us r)"
  using demo_selected selected_plan_meets_deadline by blast

text \<open>
  C29: the selection is optimal and complete: a plan is selected exactly when some evaluated candidate
  is feasible, and no feasible candidate has more background goodput than the selected one, nor the
  same goodput with more reserved slack.
\<close>

theorem selection_is_optimal:
  assumes "select_plan files resolve spec = Inr r"
  shows "(selected_plan r = None \<longleftrightarrow> (\<forall>e. Evaluated e \<in> set (sel_candidates r) \<longrightarrow> \<not> feasible e)) \<and>
    (\<forall>e a. selected_plan r = Some e \<longrightarrow> Evaluated a \<in> set (sel_candidates r) \<longrightarrow> feasible a \<longrightarrow>
       background_goodput_rps (entry_candidate a) \<le> background_goodput_rps (entry_candidate e) \<and>
       (background_goodput_rps (entry_candidate a) = background_goodput_rps (entry_candidate e) \<longrightarrow>
        reserved_slack_us a \<le> reserved_slack_us e))"
proof (intro conjI allI impI)
  obtain d where d: "sel_deadline_us r = Fin d" and sel: "selected_plan r = choose_entry (sel_candidates r)"
    using select_plan_parts [OF assms] by auto
  show "selected_plan r = None \<longleftrightarrow> (\<forall>e. Evaluated e \<in> set (sel_candidates r) \<longrightarrow> \<not> feasible e)"
    unfolding sel choose_entry_def best_by_eq_None set_empty [symmetric] feasible_entries by blast
  fix e a
  assume e: "selected_plan r = Some e" and a: "Evaluated a \<in> set (sel_candidates r)" "feasible a"
  have rank: "rankable x" if "Evaluated x \<in> set (sel_candidates r)" "feasible x" for x
    using select_plan_entries [OF assms that(1)] feasible_rankable that(2) d by auto
  have "\<not> better_entry a e"
  proof (rule best_plan.best_by_unbeaten)
    show "best_by better_entry (List.map_filter feasible_entry (sel_candidates r)) = Some e"
      using e by (simp add: sel choose_entry_def)
    show "\<forall>x \<in> set (List.map_filter feasible_entry (sel_candidates r)). rankable x"
      using rank feasible_entries by blast
    show "a \<in> set (List.map_filter feasible_entry (sel_candidates r))"
      using a feasible_entries by blast
  qed
  moreover have "rankable a" "rankable e"
    using rank a choose_entry_best [of "sel_candidates r" e] e by (auto simp: sel)
  ultimately show "background_goodput_rps (entry_candidate a) \<le> background_goodput_rps (entry_candidate e)"
    and "background_goodput_rps (entry_candidate a) = background_goodput_rps (entry_candidate e) \<Longrightarrow>
      reserved_slack_us a \<le> reserved_slack_us e"
    by (auto simp: better_entry_rank)
qed


theorem selection_is_optimal_witness:
  "\<exists>r e. select_plan demo_files id demo_spec = Inr r \<and> selected_plan r = Some e \<and>
    (\<forall>a. Evaluated a \<in> set (sel_candidates r) \<longrightarrow> feasible a \<longrightarrow>
      background_goodput_rps (entry_candidate a) \<le> background_goodput_rps (entry_candidate e))"
  using demo_selected selection_is_optimal by blast

text \<open>
  The graph the planner builds from any supported pipeline's profile passes \<open>validate_dag\<close> and is
  classified as a two-stage chain in pipeline order, whatever the measured latencies, payload size
  and transport are.
\<close>

lemma planner_graph_is_valid_chain:
  "list_all (\<lambda>(pipeline, names). checked_dag (two_stage_dag names payload transport lat) =
     Inr \<lparr>stage_count = 2, edge_count = 1, stage_ids = [fst names, snd names],
          topological_order = [fst names, snd names], topology_class = TwoStageChain,
          multi_stage_validated = False, source_count = 1, sink_count = 1\<rparr>) PIPELINES"
  by (simp add: PIPELINES_def checked_dag_def two_stage_dag_def dag_eval)

section \<open>Actuation\<close>

lemma placement_label_Inr:
  assumes "placement_label v l = Inr (slice, quota)"
  shows "v = VStr (label_of slice quota) \<and> slice \<in> {''1g'', ''2g''} \<and> quota \<in> set QUOTAS"
  using assms by (auto simp: placement_label_def split: pyval.splits option.splits dest!: find_SomeD)

lemma search_quotas_QUOTAS:
  "search_quotas s = Some (a, b) \<Longrightarrow> a \<in> set QUOTAS \<and> b \<in> set QUOTAS"
proof (induction s)
  case (Cons c cs)
  then show ?case
    by (auto split: option.splits dest!: find_SomeD)
qed simp

lemma label_of_inject:
  "label_of s q = label_of s' q' \<Longrightarrow> s \<in> {''1g'', ''2g''} \<Longrightarrow> s' \<in> {''1g'', ''2g''} \<Longrightarrow> q \<in> set QUOTAS \<Longrightarrow>
   q' \<in> set QUOTAS \<Longrightarrow> s = s' \<and> q = q'"
  by (auto simp: label_of_def QUOTAS_def)

lemma placement_label_of:
  assumes "slice \<in> {''1g'', ''2g''}" and "quota \<in> set QUOTAS"
  shows "placement_label (VStr (label_of slice quota)) l = Inr (slice, quota)"
  using assms by (auto simp: placement_label_def QUOTAS_def label_of_def)

lemma variant_slices:
  "map_of PLACEMENT_VARIANTS v = Some b \<Longrightarrow>
   {producer_slice b, consumer_slice b} = {''1g'', ''2g''} \<and>
   {producer_uuid_key b, consumer_uuid_key b} = {''JDG_MIG_SMALL_UUID'', ''JDG_MIG_BIG_UUID''} \<and>
   (producer_uuid_key b = ''JDG_MIG_SMALL_UUID'' \<longleftrightarrow> producer_slice b = ''1g'')"
  by (auto simp: PLACEMENT_VARIANTS_def split: if_splits)

lemma canonical_transport_class:
  "canonical_transport v = Inr t \<Longrightarrow> t \<in> {''registered-direct'', ''pinned-bounce'', ''pageable-bounce''}"
  by (auto simp: canonical_transport_def TRANSPORT_ALIASES_def split: pyval.splits option.splits if_splits)

lemma bind_quotas_Inr:
  assumes "bind_quotas b req cid p c = Inr (pq, cq, bg)"
  shows "pq = req_producer_quota req \<and> cq = 100 \<and> bg = req_background_quota req \<and>
    {pq, bg} \<subseteq> set QUOTAS"
proof -
  obtain q where q: "candidate_quotas cid = Inr q"
    and r: "pq = req_producer_quota req" "cq = 100" "fst q = pq" "bg = req_background_quota req" "snd q = bg"
    using assms by (cases "candidate_quotas cid") (auto simp: bind_quotas_def split: if_splits)
  from q have "{fst q, snd q} \<subseteq> set QUOTAS"
    by (cases q) (auto simp: candidate_quotas_def split: pyval.splits option.splits dest: search_quotas_QUOTAS)
  with r show ?thesis by simp
qed

lemma bind_placement_Inr:
  assumes "bind_placement selected b req = Inr (pq, cq, bg)"
  shows "pq = req_producer_quota req \<and> cq = 100 \<and> bg = req_background_quota req \<and>
    {pq, bg} \<subseteq> set QUOTAS"
proof -
  obtain p c where "bind_quotas b req (dget selected ''candidate_id'') p c = Inr (pq, cq, bg)"
    using assms unfolding bind_placement_def
    by (cases "dget selected ''placement''"; simp only: pyval.case res_simps; simp; blast)
  then show ?thesis by (rule bind_quotas_Inr)
qed

lemma mig_uuid_eq [res_simps]: "mig_uuid mig k = Inr u \<longleftrightarrow> map_of mig k = Some u"
  by (simp add: mig_uuid_def split: option.splits)

lemma actuate_parts:
  assumes "actuate_selected_plan plan mig req = Inr m"
  shows "\<exists>b selected. map_of PLACEMENT_VARIANTS (req_variant req) = Some b \<and>
    plan_object plan = Inr selected \<and>
    bind_placement selected b req = Inr (m_producer_quota m, m_consumer_quota m, m_background_quota m) \<and>
    planned_transport selected = Inr (m_transport m) \<and>
    canonical_transport (req_transport req) = Inr (m_transport m) \<and>
    map_of mig (producer_uuid_key b) = Some (m_producer_uuid m) \<and>
    map_of mig (consumer_uuid_key b) = Some (m_consumer_uuid m) \<and>
    m_best_effort_admitted m = (0 < m_background_quota m)"
proof -
  obtain b where b: "map_of PLACEMENT_VARIANTS (req_variant req) = Some b"
    using assms by (cases "map_of PLACEMENT_VARIANTS (req_variant req)") (auto simp: actuate_selected_plan_def)
  with assms obtain selected pq cq bg where sel: "plan_object plan = Inr selected"
    "bind_placement selected b req = Inr (pq, cq, bg)"
    unfolding actuate_selected_plan_def by (auto simp: bnd_eq_Inr)
  obtain t t' where t: "planned_transport selected = Inr t" "canonical_transport (req_transport req) = Inr t'"
    using assms b sel by (auto simp: actuate_selected_plan_def bnd_eq_Inr)
  from assms b sel t show ?thesis
    by (auto simp: actuate_selected_plan_def Let_def res_simps)
qed

text \<open>
  Actuation binds what the command line asks for and nothing else: a launch manifest carries the
  requested producer and background quotas (both in the calibrated set), the full consumer quota, the
  canonical form of the requested transport, and for the producer and the consumer the UUIDs of the
  two different MIG instances that the variant names. Best-effort work is admitted in every manifest.
\<close>

lemma actuation_binds_request:
  assumes "actuate_selected_plan plan mig req = Inr m"
  shows "m_producer_quota m = req_producer_quota req \<and> m_background_quota m = req_background_quota req \<and>
    {m_producer_quota m, m_background_quota m} \<subseteq> set QUOTAS \<and> m_consumer_quota m = 100 \<and>
    canonical_transport (req_transport req) = Inr (m_transport m) \<and>
    m_best_effort_admitted m \<and>
    (\<exists>b. map_of PLACEMENT_VARIANTS (req_variant req) = Some b \<and>
       {producer_slice b, consumer_slice b} = {''1g'', ''2g''} \<and>
       map_of mig (if producer_slice b = ''1g'' then ''JDG_MIG_SMALL_UUID'' else ''JDG_MIG_BIG_UUID'') =
         Some (m_producer_uuid m) \<and>
       map_of mig (if consumer_slice b = ''1g'' then ''JDG_MIG_SMALL_UUID'' else ''JDG_MIG_BIG_UUID'') =
         Some (m_consumer_uuid m))"
proof -
  from actuate_parts [OF assms] obtain b selected where
    parts: "map_of PLACEMENT_VARIANTS (req_variant req) = Some b"
    "bind_placement selected b req = Inr (m_producer_quota m, m_consumer_quota m, m_background_quota m)"
    "canonical_transport (req_transport req) = Inr (m_transport m)"
    "map_of mig (producer_uuid_key b) = Some (m_producer_uuid m)"
    "map_of mig (consumer_uuid_key b) = Some (m_consumer_uuid m)"
    "m_best_effort_admitted m = (0 < m_background_quota m)"
    by blast
  note bind = bind_placement_Inr [OF parts(2)]
  have "0 < m_background_quota m" using bind by (auto simp: QUOTAS_def)
  moreover have keys: "producer_uuid_key b =
      (if producer_slice b = ''1g'' then ''JDG_MIG_SMALL_UUID'' else ''JDG_MIG_BIG_UUID'')"
    "consumer_uuid_key b = (if consumer_slice b = ''1g'' then ''JDG_MIG_SMALL_UUID'' else ''JDG_MIG_BIG_UUID'')"
    using parts(1) by (auto simp: PLACEMENT_VARIANTS_def split: if_splits)
  have "map_of mig (if producer_slice b = ''1g'' then ''JDG_MIG_SMALL_UUID'' else ''JDG_MIG_BIG_UUID'') =
      Some (m_producer_uuid m)"
    "map_of mig (if consumer_slice b = ''1g'' then ''JDG_MIG_SMALL_UUID'' else ''JDG_MIG_BIG_UUID'') =
      Some (m_consumer_uuid m)"
    unfolding keys [symmetric] by (rule parts(4), rule parts(5))
  moreover have "{req_producer_quota req, req_background_quota req} \<subseteq> set QUOTAS" using bind by auto
  moreover have "{producer_slice b, consumer_slice b} = {''1g'', ''2g''}"
    using variant_slices [OF parts(1)] by blast
  ultimately show ?thesis
    using parts(1,3,6) bind by (intro conjI exI [of _ b]) (simp_all only: conj_commute)
qed

definition demo_request :: launch_request where
  "demo_request =
     \<lparr>req_variant = ''fixed-1g-producer-2g-consumer'', req_transport = VStr ''registered-direct'',
      req_producer_quota = 50, req_background_quota = 75, req_scope = ''producer'',
      req_workload = ''dependent-control'', req_dependency_mode = ''dependent''\<rparr>"

definition demo_mig :: "(string \<times> string) list" where
  "demo_mig = [(''JDG_MIG_SMALL_UUID'', ''MIG-small''), (''JDG_MIG_BIG_UUID'', ''MIG-big'')]"

definition demo_plan :: pydict where
  "demo_plan =
     [(''proposed_system'', VStr ''QUIET''), (''status'', VStr ''selected''),
      (''selected_plan'', VDict
         [(''candidate_id'', VStr ''c-q50-q75@x''), (''feasible'', VBool True),
          (''placement'', VDict [(''producer'', VStr ''1g-q50''), (''consumer'', VStr ''2g-q100'')]),
          (''dag'', VDict [(''edges'', VList [VDict [(''transport'', VStr ''registered-direct'')]])])])]"

lemma demo_quotas:
  "candidate_quotas (VStr ''cell-q50-q75'') = Inr (50, 75)"
  "candidate_quotas (VStr ''c-q50-q75@x'') = Inr (50, 75)"
  by (simp_all add: candidate_quotas_def QUOTAS_def quotas_match_def quotas_end_def)

lemma actuation_binds_request_witness:
  "\<exists>m. actuate_selected_plan demo_plan demo_mig demo_request = Inr m \<and> m_background_quota m = 75 \<and>
    m_best_effort_admitted m"
proof -
  have "\<exists>m. actuate_selected_plan demo_plan demo_mig demo_request = Inr m"
    by (simp add: actuate_selected_plan_def demo_request_def PLACEMENT_VARIANTS_def demo_plan_def
        plan_object_def bind_placement_def bind_quotas_def expected_placement_def label_of_def
        placement_label_def QUOTAS_def demo_quotas planned_transport_def canonical_transport_def
        TRANSPORT_ALIASES_def dget_def dget_default_def demo_mig_def mig_uuid_def SYSTEM_NAME_def)
  then obtain m where m: "actuate_selected_plan demo_plan demo_mig demo_request = Inr m" by blast
  from actuation_binds_request [OF m] m show ?thesis by (auto simp: demo_request_def)
qed

text \<open>
  C30: what \<open>select_plan\<close> emits can be actuated: if the selected candidate's placement, quotas,
  variant, scope and transport are the ones of the launch request, the actuation of the emitted JSON
  succeeds, and the manifest names that candidate and reports its tail bound.
\<close>

theorem select_then_actuate:
  assumes "select_plan files resolve spec = Inr r" and "selected_plan r = Some e"
    and "map_of PLACEMENT_VARIANTS (req_variant req) = Some b"
    and "placement_variant (entry_candidate e) = req_variant req"
    and "placement (entry_candidate e) =
      [(''producer'', VStr (label_of (producer_slice b) (req_producer_quota req))),
       (''consumer'', VStr (label_of (consumer_slice b) 100))]"
    and "candidate_quotas (VStr (candidate_id (entry_candidate e))) =
      Inr (req_producer_quota req, req_background_quota req)"
    and "planned_transport (entry_value e) = canonical_transport (req_transport req)"
    and "canonical_transport (req_transport req) = Inr t"
    and "protection_scope (entry_candidate e) = req_scope req"
    and "req_dependency_mode req = ''dependent''" and "req_workload req \<noteq> []"
    and "map_of mig ''JDG_MIG_SMALL_UUID'' = Some small" and "map_of mig ''JDG_MIG_BIG_UUID'' = Some big"
  shows "\<exists>m. actuate_selected_plan (selection_value r) mig req = Inr m \<and>
    m_candidate_id m = VStr (candidate_id (entry_candidate e)) \<and> m_transport m = t \<and>
    m_tail_bound_promotable m = VBool (promotable (tail_bound_method e))"
proof -
  have quota: "req_producer_quota req \<in> set QUOTAS"
    using assms(6) by (auto simp: candidate_quotas_def split: option.splits dest: search_quotas_QUOTAS)
  have "sel_selected r" "feasible e"
    using select_plan_parts [OF assms(1)] assms(2) choose_entry_best by auto
  then have plan: "plan_object (selection_value r) = Inr (entry_value e)"
    using assms(2) by (simp add: plan_object_def selection_value_def entry_value_def dget_def)
  have slices: "producer_slice b \<in> {''1g'', ''2g''}" "consumer_slice b \<in> {''1g'', ''2g''}"
    using variant_slices [OF assms(3)] by blast+
  have hundred: "100 \<in> set QUOTAS" by (simp add: QUOTAS_def)
  have "bind_placement (entry_value e) b req =
      Inr (req_producer_quota req, 100, req_background_quota req)"
    using placement_label_of [OF slices(1) quota] placement_label_of [OF slices(2) hundred] assms(4-6)
    by (simp add: bind_placement_def bind_quotas_def entry_value_def expected_placement_def dget_def dget_default_def)
  moreover have "\<exists>u. map_of mig (producer_uuid_key b) = Some u" "\<exists>u. map_of mig (consumer_uuid_key b) = Some u"
    using variant_slices [OF assms(3)] assms(12,13) by (auto simp: doubleton_eq_iff)
  moreover have "dget_default (entry_value e) ''protection_scope'' d = VStr (req_scope req)"
    "dget (entry_value e) ''candidate_id'' = VStr (candidate_id (entry_candidate e))"
    "dget_default (entry_value e) ''tail_bound_promotable'' d = VBool (promotable (tail_bound_method e))" for d
    using assms(9) by (simp_all add: entry_value_def dget_def dget_default_def)
  moreover have "planned_transport (entry_value e) = Inr t" using assms(7,8) by simp
  ultimately show ?thesis
    using plan assms(3,8,10,11) by (auto simp: actuate_selected_plan_def Let_def mig_uuid_def)
qed

theorem select_then_actuate_witness:
  "\<exists>r m. select_plan demo_files id demo_spec = Inr r \<and>
    actuate_selected_plan (selection_value r) demo_mig demo_request = Inr m \<and>
    m_transport m = ''registered-direct''"
proof -
  obtain r e where r: "select_plan demo_files id demo_spec = Inr r" "selected_plan r = Some e"
    "entry_candidate e = demo_parsed ''cell-q50-q75'' ''/b.json'' 8"
    "planned_transport (entry_value e) = Inr ''registered-direct''"
    using demo_selected by blast
  have t: "canonical_transport (VStr ''registered-direct'') = Inr ''registered-direct''"
    by (simp add: canonical_transport_def TRANSPORT_ALIASES_def)
  have "\<exists>m. actuate_selected_plan (selection_value r) demo_mig demo_request = Inr m \<and>
      m_candidate_id m = VStr (candidate_id (entry_candidate e)) \<and> m_transport m = ''registered-direct'' \<and>
      m_tail_bound_promotable m = VBool (promotable (tail_bound_method e))"
    by (rule select_then_actuate [OF r(1,2), where b = "\<lparr>producer_slice = ''1g'', consumer_slice = ''2g'',
        producer_uuid_key = ''JDG_MIG_SMALL_UUID'', consumer_uuid_key = ''JDG_MIG_BIG_UUID''\<rparr>"])
      (simp_all add: demo_request_def PLACEMENT_VARIANTS_def r(3,4) demo_parsed_def label_of_def
        demo_quotas t demo_mig_def)
  with r(1) show ?thesis by blast
qed

end
