(* ===== verification/Controllers.thy ===== *)
theory Controllers
  imports Prelude
begin

text \<open>
  The contract shared by the feedback controllers of \<open>runtime/\<close>: each keeps a record with an
  admission level and a counter of consecutive safe epochs, lowers the level at once when an epoch
  is bad, and raises it by at most one after \<open>hold\<close> safe epochs.
\<close>

lemma int_div_less:
  assumes "0 < (h :: int)" and "x < m * h"
  shows "x div h < m"
proof (rule ccontr)
  assume "\<not> x div h < m"
  then have "m * h \<le> (x div h) * h" using assms(1) by (intro mult_right_mono) auto
  also have "\<dots> \<le> x" using assms(1) by (simp add: minus_mod_eq_div_mult [symmetric])
  finally show False using assms(2) by simp
qed

locale feedback_controller =
  fixes step :: "'r \<Rightarrow> 's \<Rightarrow> 's" and init :: 's
    and inv :: "'s \<Rightarrow> bool" and level :: "'s \<Rightarrow> int" and calm :: "'s \<Rightarrow> int"
    and hold :: int and bad :: "'r \<Rightarrow> bool"
  assumes inv_init: "inv init"
    and inv_step: "inv s \<Longrightarrow> inv (step r s)"
    and hold_pos: "0 < hold"
    and calm_nonneg: "inv s \<Longrightarrow> 0 \<le> calm s"
    and pace: "inv s \<Longrightarrow> hold * level (step r s) + calm (step r s) \<le> hold * level s + calm s + 1"
    and reclaim: "inv s \<Longrightarrow> bad r \<Longrightarrow> level (step r s) \<le> level s \<and> calm (step r s) = 0"
begin

lemma inv_run: "inv s \<Longrightarrow> inv (fold step rs s)"
  by (induction rs arbitrary: s) (auto intro: inv_step)

lemma inv_reachable: "inv (fold step rs init)"
  by (rule inv_run [OF inv_init])

lemma pace_run:
  "inv s \<Longrightarrow>
   hold * level (fold step rs s) + calm (fold step rs s) \<le> hold * level s + calm s + int (length rs)"
proof (induction rs arbitrary: s)
  case (Cons r rs)
  have "fold step (r # rs) s = fold step rs (step r s)" by simp
  moreover have "int (length (r # rs)) = int (length rs) + 1" by simp
  ultimately show ?case
    using Cons.IH [OF inv_step [OF Cons.prems, of r]] pace [OF Cons.prems, of r] by presburger
qed simp

text \<open>Recovery is slow: \<open>n\<close> epochs raise the level by at most \<open>(n + calm) / hold\<close>.\<close>

lemma recovery_bound:
  assumes "inv s"
  shows "level (fold step rs s) \<le> level s + (calm s + int (length rs)) div hold"
proof -
  have "hold * level (fold step rs s) \<le> hold * level s + (calm s + int (length rs))"
    using pace_run [OF assms, of rs] calm_nonneg [OF inv_run [OF assms, of rs]] by simp
  then have "hold * (level (fold step rs s) - level s) \<le> calm s + int (length rs)"
    by (simp add: algebra_simps)
  then have "(hold * (level (fold step rs s) - level s)) div hold \<le> (calm s + int (length rs)) div hold"
    using hold_pos by (intro zdiv_mono1) auto
  then show ?thesis using hold_pos by simp
qed

text \<open>After a bad epoch, the level cannot exceed its old value for the next \<open>hold - 1\<close> epochs.\<close>

lemma cooldown:
  assumes "inv s" and "bad r" and "int (length rs) < hold"
  shows "level (fold step rs (step r s)) \<le> level s"
proof -
  have rec: "level (fold step rs (step r s)) \<le>
      level (step r s) + (calm (step r s) + int (length rs)) div hold"
    by (rule recovery_bound [OF inv_step [OF assms(1)]])
  moreover have "(calm (step r s) + int (length rs)) div hold = 0"
    using reclaim [OF assms(1,2)] assms(3) by (simp add: div_pos_pos_trivial)
  ultimately show ?thesis using reclaim [OF assms(1,2)] by simp
qed

end

text \<open>
  A controller that also gives capacity back: a good epoch makes progress by one step of \<open>hold\<close>
  towards the next unit until the level is \<open>full\<close>, where it stays.
\<close>

locale recovering_controller = feedback_controller +
  fixes full :: int and good :: "'r \<Rightarrow> bool"
  assumes level_le_full: "inv s \<Longrightarrow> level s \<le> full"
    and calm_below_hold: "inv s \<Longrightarrow> level s < full \<Longrightarrow> calm s < hold"
    and progress: "inv s \<Longrightarrow> good r \<Longrightarrow> level s < full \<Longrightarrow>
      hold * level s + calm s + 1 \<le> hold * level (step r s) + calm (step r s)"
    and stays_full: "inv s \<Longrightarrow> good r \<Longrightarrow> level s = full \<Longrightarrow> level (step r s) = full"
begin

lemma full_run:
  "inv s \<Longrightarrow> level s = full \<Longrightarrow> \<forall>r \<in> set rs. good r \<Longrightarrow> level (fold step rs s) = full"
  by (induction rs arbitrary: s) (simp_all add: inv_step stays_full)

lemma progress_run:
  "inv s \<Longrightarrow> \<forall>r \<in> set rs. good r \<Longrightarrow> level (fold step rs s) < full \<Longrightarrow>
   hold * level s + calm s + int (length rs) \<le> hold * level (fold step rs s) + calm (fold step rs s)"
proof (induction rs arbitrary: s)
  case (Cons r rs)
  have "level s < full"
    using full_run [of s "r # rs"] Cons.prems level_le_full [of s] by (cases "level s = full") auto
  then have "hold * level s + calm s + 1 \<le> hold * level (step r s) + calm (step r s)"
    using progress Cons.prems by simp
  moreover have "hold * level (step r s) + calm (step r s) + int (length rs) \<le>
      hold * level (fold step rs (step r s)) + calm (fold step rs (step r s))"
    using Cons.IH [of "step r s"] Cons.prems inv_step by simp
  moreover have "int (length (r # rs)) = int (length rs) + 1" by simp
  moreover have "fold step (r # rs) s = fold step rs (step r s)" by simp
  ultimately show ?case by presburger
qed simp

text \<open>The exact level after a run of good epochs.\<close>

lemma recovery_exact:
  assumes "inv s" and "\<forall>r \<in> set rs. good r" and "level s < full"
  shows "level (fold step rs s) = min full (level s + (calm s + int (length rs)) div hold)"
proof (cases "level (fold step rs s) < full")
  case True
  let ?e = "fold step rs s"
  have "hold * level s + calm s + int (length rs) \<le> hold * level ?e + calm ?e"
    by (rule progress_run [OF assms(1,2) True])
  moreover have "calm ?e < hold" by (rule calm_below_hold [OF inv_run [OF assms(1)] True])
  ultimately have "calm s + int (length rs) < hold * (level ?e - level s + 1)"
    by (simp add: algebra_simps)
  then have "(calm s + int (length rs)) div hold < level ?e - level s + 1"
    using hold_pos by (intro int_div_less) (auto simp: mult.commute)
  with recovery_bound [OF assms(1), of rs] True show ?thesis by simp
next
  case False
  with level_le_full [OF inv_run [OF assms(1)]] recovery_bound [OF assms(1), of rs] show ?thesis
    by (simp add: not_less min_def) (meson order_antisym order_trans)
qed

end

end
