(* ===== verification/SlackGovernor.thy ===== *)
theory SlackGovernor
  imports PyText Controllers
begin

text \<open>
  \<open>runtime/mig_slack_governor.py\<close>, the control part: which workers an epoch runs and where
  (\<open>plan_for\<close>), how long the critical task is guarded (\<open>guard_for\<close>), how the feedback state moves
  (\<open>update_feedback\<close>, \<open>fail_closed_feedback\<close>), and the decision that \<open>run_policy\<close> takes after each
  measured epoch. Policies, modalities and placements are the strings of the source.
\<close>

section \<open>Constants and state\<close>

definition RESIDENT_QUOTAS :: "int list" where
  "RESIDENT_QUOTAS = [25, 50, 100]"

definition MODALITIES :: "string list" where
  "MODALITIES = [''language'', ''audio'']"

definition MULTIMODAL_SCENARIO_TRACE :: "string list list" where
  "MULTIMODAL_SCENARIO_TRACE =
     [[''audio'', ''language''],
      [''audio'', ''language'', ''audio'', ''language''],
      [''audio'', ''language'', ''audio'', ''language'', ''audio'', ''language''],
      [''audio'', ''language''],
      [''audio'', ''language'', ''audio'', ''language''],
      [''audio'', ''language'', ''audio'', ''language'', ''audio'', ''language'']]"

definition POLICIES :: "string list" where
  "POLICIES = [''static-mig'', ''resident-full-gate'', ''same-mig'', ''uncoordinated-borrow'',
     ''fixed-borrow'', ''fixed-full-gate'', ''mig-governor'']"

record worker_action =
  tenant_id :: int
  modality :: string
  placement :: string
  quota_percent :: int

record placement_plan =
  residents :: "worker_action list"
  borrowers :: "worker_action list"

record feedback =
  resident_admission_limit :: int
  resident_quota_index :: int
  borrower_limit :: int
  guard_adjustment_ms :: pyfloat
  safe_epochs :: int

definition initial_feedback :: feedback where
  "initial_feedback =
     \<lparr>resident_admission_limit = 6, resident_quota_index = int (length RESIDENT_QUOTAS) - 1,
      borrower_limit = 6, guard_adjustment_ms = Fin 0, safe_epochs = 0\<rparr>"

definition resident_quota_percent :: "feedback \<Rightarrow> int res" where
  "resident_quota_percent s = py_index RESIDENT_QUOTAS (resident_quota_index s)"

definition scenario_trace :: "string \<Rightarrow> string list list option" where
  "scenario_trace name =
     (if name \<in> {''independent'', ''dependent''} then Some MULTIMODAL_SCENARIO_TRACE else None)"

definition offered_for_epoch :: "int \<Rightarrow> string \<Rightarrow> string list res" where
  "offered_for_epoch epoch scenario =
     (if epoch < 0 then Inl (ValueError ''epoch index must be non-negative'')
      else case scenario_trace scenario of
          None \<Rightarrow> Inl (ValueError ''unknown workload scenario'')
        | Some trace \<Rightarrow> py_index trace (epoch mod int (length trace)))"

section \<open>Placement\<close>

definition worker :: "string \<Rightarrow> int \<Rightarrow> int \<Rightarrow> string \<Rightarrow> worker_action" where
  "worker place quota i m =
     \<lparr>tenant_id = i, modality = m, placement = place, quota_percent = quota\<rparr>"

definition plan_shares :: "string \<Rightarrow> int \<Rightarrow> feedback \<Rightarrow> (int \<times> int) res" where
  \<comment> \<open>resident quota and borrower count\<close>
  "plan_shares policy admitted s =
     (if policy = ''same-mig'' then Inr (100, admitted)
      else if policy \<in> {''uncoordinated-borrow'', ''fixed-borrow'', ''fixed-full-gate''}
      then Inr (100, admitted div 2)
      else if policy = ''mig-governor''
      then bnd (resident_quota_percent s) (\<lambda>q. Inr (q, min (admitted div 2) (borrower_limit s)))
      else if policy \<in> {''static-mig'', ''resident-full-gate''} then Inr (100, 0)
      else Inl (ValueError ''unknown policy''))"

definition plan_for :: "string \<Rightarrow> string list \<Rightarrow> feedback \<Rightarrow> int \<Rightarrow> placement_plan res" where
  "plan_for policy offered s borrower_quota =
     (let admitted = min (int (length offered)) (resident_admission_limit s)
      in bnd (plan_shares policy admitted s) (\<lambda>(quota, borrower_count).
         let resident_count = admitted - borrower_count
         in bnd (map_res (\<lambda>i. bnd (py_index offered i) (\<lambda>m. Inr (worker ''borrower-2g'' borrower_quota i m)))
                  [resident_count..admitted - 1])
              (\<lambda>bs. Inr \<lparr>residents =
                   map2 (worker ''resident-1g'' quota) [0..int (length offered)] (py_take resident_count offered),
                 borrowers = bs\<rparr>)))"

definition actions :: "placement_plan \<Rightarrow> worker_action list" where
  "actions p = residents p @ borrowers p"

section \<open>Guards\<close>

text \<open>
  A guard profile maps placement, quota and modality to milliseconds; the flat form kept for
  exploration maps a modality directly to a number.
\<close>

datatype guard_entry = Flat pyfloat | ByQuota "int \<rightharpoonup> string \<rightharpoonup> pyfloat"

type_synonym guard_profile = "string \<rightharpoonup> guard_entry"

definition legacy_guard_profile :: "pyfloat \<Rightarrow> pyfloat \<Rightarrow> guard_profile" where
  "legacy_guard_profile language_ms audio_ms =
     (let modalities = [''language'' \<mapsto> language_ms, ''audio'' \<mapsto> audio_ms]
      in [''resident-1g'' \<mapsto> ByQuota (\<lambda>q. if q \<in> set RESIDENT_QUOTAS then Some modalities else None),
          ''borrower-2g'' \<mapsto> ByQuota [100 \<mapsto> modalities]])"

definition profile_lookup :: "guard_profile \<Rightarrow> worker_action \<Rightarrow> pyfloat option" where
  "profile_lookup profile a =
     (case profile (modality a) of
        Some (Flat v) \<Rightarrow> Some v
      | _ \<Rightarrow> (case profile (placement a) of
                Some (ByQuota f) \<Rightarrow>
                  (case f (quota_percent a) of None \<Rightarrow> None | Some g \<Rightarrow> g (modality a))
              | _ \<Rightarrow> None))"

definition guard_value_ms :: "guard_profile \<Rightarrow> worker_action \<Rightarrow> pyfloat res" where
  "guard_value_ms profile a =
     (case profile_lookup profile a of
        None \<Rightarrow> Inl (ValueError ''guard profile does not cover the action'')
      | Some v \<Rightarrow> if \<not> isfinite v \<or> fle v (Fin 0)
                  then Inl (ValueError ''guard profile values must be finite and positive'')
                  else Inr v)"

definition gated_placements :: "string \<Rightarrow> string list" where
  "gated_placements policy =
     (if policy = ''fixed-borrow'' then [''borrower-2g'']
      else if policy = ''resident-full-gate'' then [''resident-1g'']
      else if policy \<in> {''fixed-full-gate'', ''mig-governor''} then [''resident-1g'', ''borrower-2g'']
      else [])"

fun add_guard :: "string \<Rightarrow> pyfloat \<Rightarrow> (string \<times> pyfloat) list \<Rightarrow> (string \<times> pyfloat) list" where
  "add_guard k v [] = [(k, fadd (Fin 0) v)]"
| "add_guard k v ((k', w) # d) = (if k = k' then (k', fadd w v) # d else (k', w) # add_guard k v d)"

definition guard_totals ::
  "guard_profile \<Rightarrow> worker_action list \<Rightarrow> (string \<times> pyfloat) list res"
where
  "guard_totals profile as =
     fold_res (\<lambda>a d. bnd (guard_value_ms profile a) (\<lambda>v. Inr (add_guard (placement a) v d))) as []"

definition guard_for ::
  "string \<Rightarrow> placement_plan \<Rightarrow> guard_profile \<Rightarrow> pyfloat option \<Rightarrow> pyfloat res"
where
  "guard_for policy plan profile override_ms =
     (let as = filter (\<lambda>a. placement a \<in> set (gated_placements policy)) (actions plan)
      in if as = [] then Inr (Fin 0)
         else case override_ms of Some v \<Rightarrow> Inr v
              | None \<Rightarrow> bnd (guard_totals profile as) (\<lambda>d.
                  case map snd d of [] \<Rightarrow> Inl (ValueError ''max() arg is an empty sequence'')
                  | v # vs \<Rightarrow> Inr (foldl fmax v vs)))"

text \<open>The largest one-worker guard of a placement at a quota, over the modalities.\<close>

definition modality_max :: "guard_profile \<Rightarrow> string \<Rightarrow> int \<Rightarrow> pyfloat res" where
  "modality_max profile place quota =
     bnd (guard_value_ms profile (worker place quota 0 ''language'')) (\<lambda>l.
     bnd (guard_value_ms profile (worker place quota 0 ''audio'')) (\<lambda>a. Inr (fmax l a)))"

definition maximum_profiled_guard_ms :: "guard_profile \<Rightarrow> pyfloat res" where
  "maximum_profiled_guard_ms profile =
     bnd (modality_max profile ''resident-1g'' 25) (\<lambda>r25.
     bnd (modality_max profile ''resident-1g'' 50) (\<lambda>r50.
     bnd (modality_max profile ''resident-1g'' 100) (\<lambda>r100.
     bnd (modality_max profile ''borrower-2g'' 100) (\<lambda>b.
       Inr (foldl fmax (fmul (Fin 6) r100)
         (map (\<lambda>r. fmax (fmul (Fin 3) r) (fmul (Fin 3) b)) [r25, r50, r100]))))))"

section \<open>Feedback\<close>

datatype controller_action =
    DrainReclaim | ResidualReclaim | HoldNearDeadline | HoldHysteresis
  | RecoverResidentQuota | RecoverAdmission | RecoverBorrower | HoldFullCapacity
  | TelemetryFailClosed | NotApplicable

definition update_feedback ::
  "bool \<Rightarrow> pyfloat \<Rightarrow> pyfloat \<Rightarrow> bool \<Rightarrow> bool \<Rightarrow> int \<Rightarrow> feedback \<Rightarrow> controller_action \<times> feedback"
where
  "update_feedback violated critical_p99_ms deadline_ms drain_near_overrun residual_pressure
     maximum_tenants s =
     (if drain_near_overrun then
        (DrainReclaim,
         s\<lparr>borrower_limit := max 0 (borrower_limit s - 1),
           resident_admission_limit := max 1 (resident_admission_limit s - 1),
           safe_epochs := 0\<rparr>)
      else if violated \<or> residual_pressure then
        (ResidualReclaim,
         if 0 < resident_quota_index s
         then s\<lparr>borrower_limit := max 0 (borrower_limit s - 1),
                resident_quota_index := resident_quota_index s - 1, safe_epochs := 0\<rparr>
         else s\<lparr>borrower_limit := max 0 (borrower_limit s - 1),
                resident_admission_limit := max 1 (resident_admission_limit s - 1),
                safe_epochs := 0\<rparr>)
      else if fle (fmul deadline_ms (fl (9 / 10))) critical_p99_ms then
        (HoldNearDeadline, s\<lparr>safe_epochs := 0\<rparr>)
      else if safe_epochs s + 1 < 3 then
        (HoldHysteresis, s\<lparr>safe_epochs := safe_epochs s + 1\<rparr>)
      else if resident_quota_index s < int (length RESIDENT_QUOTAS) - 1 then
        (RecoverResidentQuota,
         s\<lparr>resident_quota_index := resident_quota_index s + 1, safe_epochs := 0\<rparr>)
      else if resident_admission_limit s < maximum_tenants then
        (RecoverAdmission,
         s\<lparr>resident_admission_limit := resident_admission_limit s + 1, safe_epochs := 0\<rparr>)
      else if borrower_limit s < maximum_tenants then
        (RecoverBorrower, s\<lparr>borrower_limit := borrower_limit s + 1, safe_epochs := 0\<rparr>)
      else (HoldFullCapacity, s\<lparr>safe_epochs := 0\<rparr>))"

definition fail_closed_feedback :: "feedback \<Rightarrow> feedback" where
  "fail_closed_feedback s =
     s\<lparr>resident_admission_limit := 1, resident_quota_index := 0, borrower_limit := 0,
       safe_epochs := 0\<rparr>"

section \<open>The epoch loop of \<open>run_policy\<close>\<close>

text \<open>
  The experiment's settings, what one epoch's benchmark and telemetry report, and the record of the
  decision. Starting the processes and collecting the report is the environment's part.
\<close>

record settings =
  scenario :: string
  borrower_quota :: int
  period_ms :: pyfloat
  deadline_ms :: pyfloat
  dmr_target :: pyfloat
  guard_override_ms :: "pyfloat option"
  thermal_target_c :: "pyfloat option"
  thermal_tolerance_c :: pyfloat
  thermal_hard_limit_c :: pyfloat

record epoch_report =
  p99_ms :: pyfloat
  miss_rate :: pyfloat
  telemetry_healthy :: bool
  safety_max_c :: pyfloat
  stability_max_c :: "pyfloat option"
  drain_max_ms :: pyfloat

record epoch_record =
  plan :: placement_plan
  guard_ms :: pyfloat
  state_before :: feedback
  state_after :: feedback
  controller_action :: controller_action
  violated :: bool
  drain_near_overrun :: bool
  thermal_high :: bool

text \<open>The start of an epoch: the plan and its guard, which must fit the period.\<close>

definition prepare_epoch ::
  "string \<Rightarrow> settings \<Rightarrow> guard_profile \<Rightarrow> int \<Rightarrow> feedback \<Rightarrow> (placement_plan \<times> pyfloat) res"
where
  "prepare_epoch policy c profile epoch s =
     bnd (offered_for_epoch epoch (scenario c)) (\<lambda>offered.
     bnd (plan_for policy offered s (borrower_quota c)) (\<lambda>pl.
     bnd (guard_for policy pl profile (guard_override_ms c)) (\<lambda>g.
       if fle (period_ms c) g then Inl (RuntimeError ''guard does not fit period'')
       else Inr (pl, g))))"

text \<open>The end of an epoch: the violation test, the safety limit and the controller's move.\<close>

definition epoch_violated :: "settings \<Rightarrow> epoch_report \<Rightarrow> bool" where
  "epoch_violated c r \<longleftrightarrow> flt (deadline_ms c) (p99_ms r) \<or> flt (dmr_target c) (miss_rate r)"

definition drain_utilization :: "pyfloat \<Rightarrow> epoch_report \<Rightarrow> pyfloat res" where
  "drain_utilization g r = (if flt (Fin 0) g then fdiv (drain_max_ms r) g else Inr (Fin 0))"

definition residual_pressure :: "settings \<Rightarrow> epoch_report \<Rightarrow> bool" where
  "residual_pressure c r =
     (case thermal_target_c c of None \<Rightarrow> False
      | Some target \<Rightarrow>
          telemetry_healthy r \<and>
          (case stability_max_c r of None \<Rightarrow> False
           | Some v \<Rightarrow> flt (fadd target (thermal_tolerance_c c)) v))"

definition controller_move ::
  "string \<Rightarrow> settings \<Rightarrow> epoch_report \<Rightarrow> bool \<Rightarrow> bool \<Rightarrow> bool \<Rightarrow> feedback \<Rightarrow> controller_action \<times> feedback"
where
  "controller_move policy c r viol near high s =
     (if policy \<noteq> ''mig-governor'' then (NotApplicable, s)
      else if \<not> telemetry_healthy r then (TelemetryFailClosed, fail_closed_feedback s)
      else update_feedback viol (p99_ms r) (deadline_ms c) near high 6 s)"

definition conclude_epoch ::
  "string \<Rightarrow> settings \<Rightarrow> placement_plan \<Rightarrow> pyfloat \<Rightarrow> epoch_report \<Rightarrow> feedback \<Rightarrow> epoch_record res"
where
  "conclude_epoch policy c pl g r s =
     (if telemetry_healthy r \<and> fle (thermal_hard_limit_c c) (safety_max_c r)
      then Inl (RuntimeError ''reached the thermal hard limit'')
      else bnd (drain_utilization g r) (\<lambda>utilization.
        let viol = epoch_violated c r;
            near = flt (Fin 0) g \<and> fle (fl (8 / 10)) utilization;
            high = residual_pressure c r;
            move = controller_move policy c r viol near high s
        in Inr \<lparr>plan = pl, guard_ms = g, state_before = s, state_after = snd move,
                controller_action = fst move, violated = viol, drain_near_overrun = near,
                thermal_high = high\<rparr>))"

fun run_epochs ::
  "string \<Rightarrow> settings \<Rightarrow> guard_profile \<Rightarrow> int \<Rightarrow> epoch_report list \<Rightarrow> feedback \<Rightarrow> epoch_record list res"
where
  "run_epochs policy c profile epoch [] s = Inr []"
| "run_epochs policy c profile epoch (r # rs) s =
     bnd (prepare_epoch policy c profile epoch s) (\<lambda>(pl, g).
     bnd (conclude_epoch policy c pl g r s) (\<lambda>e.
     bnd (run_epochs policy c profile (epoch + 1) rs (state_after e)) (\<lambda>es. Inr (e # es))))"

section \<open>The controller invariant\<close>

definition feedback_inv :: "feedback \<Rightarrow> bool" where
  "feedback_inv s \<longleftrightarrow>
     1 \<le> resident_admission_limit s \<and> resident_admission_limit s \<le> 6 \<and>
     0 \<le> resident_quota_index s \<and> resident_quota_index s \<le> 2 \<and>
     0 \<le> borrower_limit s \<and> borrower_limit s \<le> 6 \<and>
     0 \<le> safe_epochs s \<and> safe_epochs s \<le> 2"

lemma feedback_inv_initial: "feedback_inv initial_feedback"
  by (simp add: feedback_inv_def initial_feedback_def RESIDENT_QUOTAS_def)

text \<open>One report as the controller sees it.\<close>

record signal =
  sig_healthy :: bool
  sig_violated :: bool
  sig_p99 :: pyfloat
  sig_near :: bool
  sig_high :: bool

definition governor_step :: "pyfloat \<Rightarrow> signal \<Rightarrow> feedback \<Rightarrow> feedback" where
  "governor_step deadline r s =
     (if \<not> sig_healthy r then fail_closed_feedback s
      else snd (update_feedback (sig_violated r) (sig_p99 r) deadline (sig_near r) (sig_high r) 6 s))"

definition capacity :: "feedback \<Rightarrow> int" where
  "capacity s = resident_admission_limit s + resident_quota_index s + borrower_limit s"

definition distress :: "signal \<Rightarrow> bool" where
  "distress r \<longleftrightarrow> \<not> sig_healthy r \<or> sig_near r \<or> sig_violated r \<or> sig_high r"

lemma governor_step_inv: "feedback_inv s \<Longrightarrow> feedback_inv (governor_step d r s)"
  by (auto simp: feedback_inv_def governor_step_def update_feedback_def fail_closed_feedback_def
      RESIDENT_QUOTAS_def)

lemma governor_step_pace:
  "feedback_inv s \<Longrightarrow>
   3 * capacity (governor_step d r s) + safe_epochs (governor_step d r s) \<le>
   3 * capacity s + safe_epochs s + 1"
  by (auto simp: feedback_inv_def governor_step_def update_feedback_def fail_closed_feedback_def
      capacity_def RESIDENT_QUOTAS_def max_def)

lemma governor_step_reclaim:
  "feedback_inv s \<Longrightarrow> distress r \<Longrightarrow>
   capacity (governor_step d r s) \<le> capacity s \<and> safe_epochs (governor_step d r s) = 0"
  by (auto simp: feedback_inv_def governor_step_def update_feedback_def fail_closed_feedback_def
      capacity_def distress_def max_def)

interpretation slack: feedback_controller "governor_step d" initial_feedback feedback_inv
  capacity safe_epochs 3 distress for d
proof unfold_locales
  show "feedback_inv initial_feedback" by (rule feedback_inv_initial)
  show "0 \<le> safe_epochs s" if "feedback_inv s" for s using that by (simp add: feedback_inv_def)
qed (simp_all add: governor_step_inv governor_step_pace governor_step_reclaim)

text \<open>A quiet epoch: healthy, no distress, and the critical p99 below 90 percent of the deadline.\<close>

definition quiet :: "pyfloat \<Rightarrow> signal \<Rightarrow> bool" where
  "quiet deadline r \<longleftrightarrow> \<not> distress r \<and> \<not> fle (fmul deadline (fl (9 / 10))) (sig_p99 r)"

interpretation slack_recovery: recovering_controller "governor_step d" initial_feedback feedback_inv
  capacity safe_epochs 3 distress 14 "quiet d" for d
proof unfold_locales
  show "capacity s \<le> 14" if "feedback_inv s" for s
    using that by (auto simp: feedback_inv_def capacity_def)
  show "safe_epochs s < 3" if "feedback_inv s" for s
    using that by (auto simp: feedback_inv_def)
  show "3 * capacity s + safe_epochs s + 1 \<le>
      3 * capacity (governor_step d r s) + safe_epochs (governor_step d r s)"
    if "feedback_inv s" "quiet d r" "capacity s < 14" for s r d
    using that by (auto simp: feedback_inv_def capacity_def governor_step_def update_feedback_def
        quiet_def distress_def RESIDENT_QUOTAS_def)
  show "capacity (governor_step d r s) = 14" if "feedback_inv s" "quiet d r" "capacity s = 14" for s r d
    using that by (auto simp: feedback_inv_def capacity_def governor_step_def update_feedback_def
        quiet_def distress_def RESIDENT_QUOTAS_def)
qed

text \<open>The signal \<open>run_policy\<close> derives from a report, and the epoch loop as a controller run.\<close>

definition epoch_signal :: "settings \<Rightarrow> pyfloat \<Rightarrow> epoch_report \<Rightarrow> epoch_record \<Rightarrow> signal" where
  "epoch_signal c g r e =
     \<lparr>sig_healthy = telemetry_healthy r, sig_violated = violated e, sig_p99 = p99_ms r,
      sig_near = drain_near_overrun e, sig_high = thermal_high e\<rparr>"

lemma conclude_epoch_step:
  assumes "conclude_epoch policy c pl g r s = Inr e"
  shows "state_before e = s \<and> plan e = pl \<and> guard_ms e = g \<and>
    state_after e =
      (if policy = ''mig-governor'' then governor_step (deadline_ms c) (epoch_signal c g r e) s else s)"
  using assms
  by (cases "drain_utilization g r")
    (auto simp: conclude_epoch_def Let_def controller_move_def epoch_signal_def governor_step_def
      split: if_splits)

lemma run_epochs_inv:
  assumes "run_epochs policy c profile n rs s = Inr es" and "feedback_inv s" and "e \<in> set es"
  shows "feedback_inv (state_before e) \<and> feedback_inv (state_after e)"
  using assms
proof (induction rs arbitrary: n s es)
  case (Cons r rs)
  obtain pl g e1 es1 where run: "conclude_epoch policy c pl g r s = Inr e1"
    "run_epochs policy c profile (n + 1) rs (state_after e1) = Inr es1" "es = e1 # es1"
    using Cons.prems(1) by (auto simp: res_simps)
  have "feedback_inv (state_before e1)" "feedback_inv (state_after e1)"
    using conclude_epoch_step [OF run(1)] Cons.prems(2) by (auto intro: governor_step_inv)
  with Cons run show ?case by auto
qed simp

lemma run_epochs_plans:
  assumes "run_epochs policy c profile n rs s = Inr es" and "i < length es"
  shows "prepare_epoch policy c profile (n + int i) (state_before (es ! i)) =
      Inr (plan (es ! i), guard_ms (es ! i))"
  using assms
proof (induction rs arbitrary: n s es i)
  case (Cons r rs)
  obtain pl g e1 es1 where run: "prepare_epoch policy c profile n s = Inr (pl, g)"
    "conclude_epoch policy c pl g r s = Inr e1"
    "run_epochs policy c profile (n + 1) rs (state_after e1) = Inr es1" "es = e1 # es1"
    using Cons.prems(1) by (auto simp: res_simps)
  show ?case
  proof (cases i)
    case 0
    with run conclude_epoch_step [OF run(2)] show ?thesis by simp
  next
    case (Suc j)
    with Cons.IH [OF run(3), of j] Cons.prems(2) run(4) show ?thesis
      by (simp add: algebra_simps)
  qed
qed simp
section \<open>The plan in closed form\<close>

lemma map_res_index_range:
  assumes "0 \<le> a" and "b \<le> int (length xs)"
  shows "map_res (\<lambda>i. bnd (py_index xs i) (\<lambda>m. Inr (f i m))) [a..b - 1] =
    Inr (map (\<lambda>i. f (int i) (xs ! i)) [nat a..<nat b])"
proof -
  have "map_res (\<lambda>i. bnd (py_index xs i) (\<lambda>m. Inr (f i m))) [a..b - 1] =
      map_res (\<lambda>i. Inr (f i (xs ! nat i))) [a..b - 1]"
    using assms by (intro map_res_cong) (auto simp: py_index_def)
  also have "\<dots> = Inr (map (\<lambda>i. f i (xs ! nat i)) [a..b - 1])" by (rule map_res_Inr)
  also have "map (\<lambda>i. f i (xs ! nat i)) [a..b - 1] = map (\<lambda>i. f (int i) (xs ! i)) [nat a..<nat b]"
    using assms(1) by (auto simp: list_eq_iff_nth_eq nat_add_distrib nat_diff_distrib')
  finally show ?thesis .
qed

lemma map2_enumerate_take:
  assumes "n \<le> length xs"
  shows "map2 f [0..int (length xs)] (take n xs) = map (\<lambda>i. f (int i) (xs ! i)) [0..<n]"
  using assms by (intro nth_equalityI) auto

definition plan_of :: "string list \<Rightarrow> int \<Rightarrow> int \<Rightarrow> nat \<Rightarrow> nat \<Rightarrow> placement_plan" where
  "plan_of offered quota bq nr n =
     \<lparr>residents = map (\<lambda>i. worker ''resident-1g'' quota (int i) (offered ! i)) [0..<nr],
      borrowers = map (\<lambda>i. worker ''borrower-2g'' bq (int i) (offered ! i)) [nr..<n]\<rparr>"

lemma plan_for_closed:
  assumes "plan_shares policy (int n) s = Inr (quota, int nb)"
    and "int n = min (int (length offered)) (resident_admission_limit s)" and "nb \<le> n"
  shows "plan_for policy offered s bq = Inr (plan_of offered quota bq (n - nb) n)"
proof -
  have n: "n \<le> length offered" using assms(2) by linarith
  have rc: "int n - int nb = int (n - nb)" using assms(3) by linarith
  have "map_res (\<lambda>i. bnd (py_index offered i) (\<lambda>m. Inr (worker ''borrower-2g'' bq i m)))
      [int (n - nb)..int n - 1] =
    Inr (map (\<lambda>i. worker ''borrower-2g'' bq (int i) (offered ! i)) [n - nb..<n])"
    using map_res_index_range [of "int (n - nb)" "int n" offered "worker ''borrower-2g'' bq"] n
    by simp
  moreover have "map2 (worker ''resident-1g'' quota) [0..int (length offered)]
      (py_take (int (n - nb)) offered) =
    map (\<lambda>i. worker ''resident-1g'' quota (int i) (offered ! i)) [0..<n - nb]"
    unfolding py_take_nat by (rule map2_enumerate_take) (use n in simp)
  ultimately show ?thesis
    unfolding plan_for_def Let_def assms(2) [symmetric] assms(1)
    by (simp only: bnd_Inr prod.case rc plan_of_def)
qed

lemma resident_quota_percent_inv:
  assumes "feedback_inv s"
  shows "resident_quota_percent s = Inr (RESIDENT_QUOTAS ! nat (resident_quota_index s))"
proof -
  have "resident_quota_index s \<in> {0, 1, 2}" using assms by (auto simp: feedback_inv_def)
  then show ?thesis by (auto simp: resident_quota_percent_def py_index_def RESIDENT_QUOTAS_def)
qed

text \<open>What each policy gives to the residents' quota and to the borrowers.\<close>

definition share_quota :: "string \<Rightarrow> feedback \<Rightarrow> int" where
  "share_quota policy s =
     (if policy = ''mig-governor'' then RESIDENT_QUOTAS ! nat (resident_quota_index s) else 100)"

definition share_borrowers :: "string \<Rightarrow> feedback \<Rightarrow> nat \<Rightarrow> nat" where
  "share_borrowers policy s n =
     (if policy = ''same-mig'' then n
      else if policy \<in> {''uncoordinated-borrow'', ''fixed-borrow'', ''fixed-full-gate''} then n div 2
      else if policy = ''mig-governor'' then min (n div 2) (nat (borrower_limit s))
      else 0)"

lemma share_borrowers_le: "share_borrowers policy s n \<le> n"
  by (auto simp: share_borrowers_def)

lemma share_borrowers_half: "policy \<noteq> ''same-mig'' \<Longrightarrow> share_borrowers policy s n \<le> n div 2"
  by (auto simp: share_borrowers_def)

lemma plan_shares_inv:
  assumes "feedback_inv s" and "policy \<in> set POLICIES"
  shows "plan_shares policy (int n) s = Inr (share_quota policy s, int (share_borrowers policy s n))"
proof -
  have bor: "min (int n div 2) (borrower_limit s) = int (min (n div 2) (nat (borrower_limit s)))"
    using assms(1) by (auto simp: feedback_inv_def min_def)
  consider "policy = ''same-mig''" | "policy = ''mig-governor''"
    | "policy \<in> {''uncoordinated-borrow'', ''fixed-borrow'', ''fixed-full-gate''}"
    | "policy \<in> {''static-mig'', ''resident-full-gate''}"
    using assms(2) by (simp only: POLICIES_def list.set insert_iff empty_iff) argo
  then show ?thesis
  proof cases
    case 1
    then show ?thesis by (simp add: plan_shares_def share_quota_def share_borrowers_def)
  next
    case 2
    then have "plan_shares policy (int n) s =
        Inr (RESIDENT_QUOTAS ! nat (resident_quota_index s), min (int n div 2) (borrower_limit s))"
      using resident_quota_percent_inv [OF assms(1)] by (simp add: plan_shares_def)
    with 2 bor show ?thesis by (simp only: share_quota_def share_borrowers_def) simp
  next
    case 3
    then show ?thesis
      by (auto simp: plan_shares_def share_quota_def share_borrowers_def zdiv_int)
  next
    case 4
    then show ?thesis by (auto simp: plan_shares_def share_quota_def share_borrowers_def)
  qed
qed

definition admitted_count :: "string list \<Rightarrow> feedback \<Rightarrow> nat" where
  "admitted_count offered s = min (length offered) (nat (resident_admission_limit s))"

lemma plan_for_inv:
  assumes "feedback_inv s" and "policy \<in> set POLICIES"
  shows "plan_for policy offered s bq =
    (let n = admitted_count offered s; nb = share_borrowers policy s n
     in Inr (plan_of offered (share_quota policy s) bq (n - nb) n))"
proof -
  have "int (admitted_count offered s) = min (int (length offered)) (resident_admission_limit s)"
    using assms(1) by (auto simp: admitted_count_def feedback_inv_def min_def)
  then show ?thesis
    using plan_for_closed [OF plan_shares_inv [OF assms] _ share_borrowers_le]
    by (simp add: Let_def)
qed

section \<open>The loop as a controller run\<close>

lemma run_epochs_chain:
  assumes "run_epochs policy c profile n rs s = Inr es" and "Suc i < length es"
  shows "state_before (es ! Suc i) = state_after (es ! i)"
  using assms
proof (induction rs arbitrary: n s es i)
  case (Cons r rs)
  obtain pl g e1 es1 where run: "conclude_epoch policy c pl g r s = Inr e1"
    "run_epochs policy c profile (n + 1) rs (state_after e1) = Inr es1" "es = e1 # es1"
    using Cons.prems(1) by (auto simp: res_simps)
  show ?case
  proof (cases i)
    case 0
    from Cons.prems(2) run(3) obtain e2 es2 where es1: "es1 = e2 # es2" by (cases es1) auto
    with run(2) obtain r2 rs2 pl2 g2 where "conclude_epoch policy c pl2 g2 r2 (state_after e1) = Inr e2"
      by (cases rs) (auto simp: res_simps)
    from conclude_epoch_step [OF this] es1 run(3) 0 show ?thesis by simp
  next
    case (Suc j)
    with Cons.IH [OF run(2), of j] Cons.prems(2) run(3) show ?thesis by simp
  qed
qed simp

lemma run_epochs_first:
  "run_epochs policy c profile n rs s = Inr es \<Longrightarrow> es \<noteq> [] \<Longrightarrow> state_before (es ! 0) = s"
  by (cases rs) (auto simp: res_simps dest: conclude_epoch_step)

lemma run_epochs_length: "run_epochs policy c profile n rs s = Inr es \<Longrightarrow> length es = length rs"
  by (induction rs arbitrary: n s es) (auto simp: res_simps)

lemma run_epochs_nth:
  assumes "run_epochs policy c profile n rs s = Inr es" and "i < length es"
  shows "conclude_epoch policy c (plan (es ! i)) (guard_ms (es ! i)) (rs ! i) (state_before (es ! i)) =
    Inr (es ! i)"
  using assms
proof (induction rs arbitrary: n s es i)
  case (Cons r rs)
  obtain pl g e1 es1 where run: "conclude_epoch policy c pl g r s = Inr e1"
    "run_epochs policy c profile (n + 1) rs (state_after e1) = Inr es1" "es = e1 # es1"
    using Cons.prems(1) by (auto simp: res_simps)
  with Cons conclude_epoch_step [OF run(1)] show ?case by (cases i) auto
qed simp

text \<open>From any epoch \<open>i\<close> to a later one the state is a run of \<open>governor_step\<close>.\<close>

lemma run_epochs_fold:
  assumes "run_epochs ''mig-governor'' c profile n rs s = Inr es" and "i + k < length es"
  shows "\<exists>sigs. length sigs = k \<and>
    state_before (es ! (i + k)) = fold (governor_step (deadline_ms c)) sigs (state_before (es ! i))"
  using assms(2)
proof (induction k)
  case (Suc k)
  then obtain sigs where sigs: "length sigs = k"
    "state_before (es ! (i + k)) = fold (governor_step (deadline_ms c)) sigs (state_before (es ! i))"
    by auto
  from Suc.prems have "i + k < length es" by simp
  from conclude_epoch_step [OF run_epochs_nth [OF assms(1) this]] obtain sg where
    "state_after (es ! (i + k)) = governor_step (deadline_ms c) sg (state_before (es ! (i + k)))"
    by auto
  with sigs run_epochs_chain [OF assms(1), of "i + k"] Suc.prems
  have "state_before (es ! (i + Suc k)) =
      fold (governor_step (deadline_ms c)) (sigs @ [sg]) (state_before (es ! i))"
    by simp
  with sigs(1) show ?case by (intro exI [of _ "sigs @ [sg]"]) simp
qed simp

lemma run_epochs_state_inv:
  assumes "run_epochs policy c profile n rs initial_feedback = Inr es" and "i < length es"
  shows "feedback_inv (state_before (es ! i))"
  using run_epochs_inv [OF assms(1) feedback_inv_initial] assms(2) by simp

section \<open>Guards as sums\<close>

lemma map_of_add_guard:
  "map_of (add_guard k v d) =
    (map_of d)(k \<mapsto> fadd (case map_of d k of None \<Rightarrow> Fin 0 | Some w \<Rightarrow> w) v)"
  by (induction k v d rule: add_guard.induct) (auto simp: fun_eq_iff)

lemma keys_add_guard: "fst ` set (add_guard k v d) = insert k (fst ` set d)"
  by (induction k v d rule: add_guard.induct) auto

lemma distinct_add_guard: "distinct (map fst d) \<Longrightarrow> distinct (map fst (add_guard k v d))"
  by (induction k v d rule: add_guard.induct) (auto simp: keys_add_guard)

text \<open>The workers of one placement and the values the profile gives them.\<close>

definition placement_values :: "guard_profile \<Rightarrow> worker_action list \<Rightarrow> string \<Rightarrow> pyfloat list" where
  "placement_values profile as k =
     map (\<lambda>a. projr (guard_value_ms profile a)) (filter (\<lambda>a. placement a = k) as)"

lemma guard_totals_sums:
  assumes "guard_totals profile as = Inr d"
  shows "distinct (map fst d) \<and> (\<forall>a \<in> set as. \<exists>v. guard_value_ms profile a = Inr v) \<and>
    (\<forall>k. map_of d k =
      (if placement_values profile as k = [] then None
       else Some (foldl fadd (Fin 0) (placement_values profile as k))))"
  using assms
proof (induction as arbitrary: d rule: rev_induct)
  case Nil
  then show ?case by (simp add: guard_totals_def placement_values_def)
next
  case (snoc a as)
  obtain d0 v where d0: "guard_totals profile as = Inr d0" and v: "guard_value_ms profile a = Inr v"
    and d: "d = add_guard (placement a) v d0"
    using snoc.prems by (auto simp: guard_totals_def fold_res_append res_simps)
  from snoc.IH [OF d0] v show ?case
    unfolding d by (auto simp: distinct_add_guard map_of_add_guard placement_values_def)
qed

lemma guard_value_ms_pos: "guard_value_ms profile a = Inr v \<Longrightarrow> \<exists>r. v = Fin r \<and> 0 < r"
  by (auto simp: guard_value_ms_def isfinite_Fin split: option.splits if_splits)

lemma worker_sel [simp]:
  "tenant_id (worker place quota i mo) = i" "modality (worker place quota i mo) = mo"
  "placement (worker place quota i mo) = place" "quota_percent (worker place quota i mo) = quota"
  by (simp_all add: worker_def)

definition profile_doubles :: "guard_profile \<Rightarrow> bool" where
  "profile_doubles profile \<longleftrightarrow> (\<forall>a v. profile_lookup profile a = Some v \<longrightarrow> double v)"

lemma guard_value_double: "profile_doubles profile \<Longrightarrow> guard_value_ms profile a = Inr v \<Longrightarrow> double v"
  by (auto simp: profile_doubles_def guard_value_ms_def split: option.splits if_splits)

lemma modality_max_bound:
  assumes "modality_max profile place quota = Inr x" and "profile_doubles profile"
  shows "\<exists>r. x = Fin r \<and> 0 \<le> r \<and> double x \<and>
    (\<forall>mo \<in> set MODALITIES. \<forall>i v. guard_value_ms profile (worker place quota i mo) = Inr v \<longrightarrow> fle v x)"
proof -
  obtain l a where la: "guard_value_ms profile (worker place quota 0 ''language'') = Inr l"
    "guard_value_ms profile (worker place quota 0 ''audio'') = Inr a" "x = fmax l a"
    using assms(1) by (auto simp: modality_max_def res_simps)
  have same: "guard_value_ms profile (worker place quota i mo) =
      guard_value_ms profile (worker place quota 0 mo)" for i mo
    unfolding guard_value_ms_def profile_lookup_def worker_sel by (rule refl)
  obtain l' a' where fin: "l = Fin l'" "a = Fin a'" "0 < l'" "0 < a'"
    using la guard_value_ms_pos by blast
  have "double l" "double a" using la assms(2) guard_value_double by blast+
  then show ?thesis
    using la fin same [of _ "''language''"] same [of _ "''audio''"]
    by (auto simp: fmax_def MODALITIES_def)
qed

lemma maximum_profiled_bounds:
  assumes "maximum_profiled_guard_ms profile = Inr m" and "profile_doubles profile"
  shows "(\<forall>q \<in> set RESIDENT_QUOTAS. \<exists>x. modality_max profile ''resident-1g'' q = Inr x \<and>
      fle (fmul (Fin 3) x) m) \<and>
    (\<exists>x. modality_max profile ''borrower-2g'' 100 = Inr x \<and> fle (fmul (Fin 3) x) m)"
proof -
  obtain r25 r50 r100 b where mm: "modality_max profile ''resident-1g'' 25 = Inr r25"
    "modality_max profile ''resident-1g'' 50 = Inr r50"
    "modality_max profile ''resident-1g'' 100 = Inr r100"
    "modality_max profile ''borrower-2g'' 100 = Inr b"
    and m: "m = foldl fmax (fmul (Fin 6) r100)
      (map (\<lambda>r. fmax (fmul (Fin 3) r) (fmul (Fin 3) b)) [r25, r50, r100])"
    using assms(1) by (auto simp: maximum_profiled_guard_ms_def res_simps)
  have fin: "\<exists>r. y = Fin r" if "modality_max profile pl q = Inr y" for pl q y
    using modality_max_bound [OF that assms(2)] by blast
  have nan: "fmul (Fin k) y \<noteq> NaN" if "modality_max profile pl q = Inr y" for k pl q y
    using fin [OF that] by auto
  have nn: "fmax (fmul (Fin 3) r) (fmul (Fin 3) b) \<noteq> NaN" if "r \<in> {r25, r50, r100}" for r
    using that nan [OF mm(1)] nan [OF mm(2)] nan [OF mm(3)] nan [OF mm(4)] fmax_ge by blast
  then have "NaN \<notin> set (map (\<lambda>r. fmax (fmul (Fin 3) r) (fmul (Fin 3) b)) [r25, r50, r100])"
    by (metis (no_types, lifting) imageE list.set_map list.simps(15) set_empty2 empty_set)
  then have ge: "fle (fmax (fmul (Fin 3) r) (fmul (Fin 3) b)) m" if "r \<in> {r25, r50, r100}" for r
    unfolding m using that nan [OF mm(3)] by (intro foldl_fmax_ge) auto
  have "fle (fmul (Fin 3) r) m \<and> fle (fmul (Fin 3) b) m" if "r \<in> {r25, r50, r100}" for r
    using ge [OF that] that fmax_ge [of "fmul (Fin 3) r" "fmul (Fin 3) b"] fle_trans
      nan [OF mm(1)] nan [OF mm(2)] nan [OF mm(3)] nan [OF mm(4)] by blast
  then show ?thesis using mm by (auto simp: RESIDENT_QUOTAS_def)
qed

lemma placement_sum_bound:
  assumes "modality_max profile place quota = Inr x" and "profile_doubles profile"
    and "fle (fmul (Fin 3) x) m"
    and "\<forall>a \<in> set as. \<exists>v. guard_value_ms profile a = Inr v"
    and "\<forall>a \<in> set as. placement a = place \<longrightarrow>
      (\<exists>i mo. a = worker place quota i mo \<and> mo \<in> set MODALITIES)"
    and "length (placement_values profile as place) \<le> 3"
  shows "fle (foldl fadd (Fin 0) (placement_values profile as place)) m"
proof -
  obtain r where r: "x = Fin r" "0 \<le> r" "double x" and
    le: "\<And>mo i v. mo \<in> set MODALITIES \<Longrightarrow> guard_value_ms profile (worker place quota i mo) = Inr v \<Longrightarrow>
      fle v x"
    using modality_max_bound [OF assms(1,2)] by blast
  have "fle (foldl fadd (Fin 0) (placement_values profile as place)) (fmul (Fin 3) (Fin r))"
  proof (rule triple_sum)
    fix v assume "v \<in> set (placement_values profile as place)"
    then obtain a where a: "a \<in> set as" "placement a = place" "v = projr (guard_value_ms profile a)"
      by (auto simp: placement_values_def)
    with assms(4) have v: "guard_value_ms profile a = Inr v" by fastforce
    from a assms(5) obtain i mo where "a = worker place quota i mo" "mo \<in> set MODALITIES" by blast
    with v le r(1) have "fle v (Fin r)" by blast
    then show "double v \<and> isfinite v \<and> fle v (Fin r)"
      using guard_value_double [OF assms(2) v] guard_value_ms_pos [OF v] by auto
  qed (use assms(6) r in auto)
  with assms(3) r(1) fle_trans show ?thesis by blast
qed

text \<open>Every per-placement sum of at most three calibrated workers stays below the profiled maximum.\<close>

definition calibrated_actions :: "int \<Rightarrow> worker_action list \<Rightarrow> bool" where
  "calibrated_actions q as \<longleftrightarrow>
     (\<forall>a \<in> set as. \<exists>i. \<exists>mo \<in> set MODALITIES.
        a = worker ''resident-1g'' q i mo \<or> a = worker ''borrower-2g'' 100 i mo)"

lemma guard_totals_bound:
  assumes mx: "maximum_profiled_guard_ms profile = Inr m" and dbl: "profile_doubles profile"
    and q: "q \<in> set RESIDENT_QUOTAS" and as: "calibrated_actions q as"
    and len: "\<forall>k. length (filter (\<lambda>a. placement a = k) as) \<le> 3"
    and d: "guard_totals profile as = Inr d" and w: "w \<in> set (map snd d)"
  shows "fle w m"
proof -
  note sums = guard_totals_sums [OF d]
  from w obtain k where "(k, w) \<in> set d" by auto
  with sums have "map_of d k = Some w" by (meson map_of_eq_Some_iff)
  then have kw: "placement_values profile as k \<noteq> []"
    "w = foldl fadd (Fin 0) (placement_values profile as k)"
    using sums by (auto split: if_splits)
  then obtain a where "a \<in> set as" "placement a = k"
    by (auto simp: placement_values_def filter_empty_conv)
  then have "k = ''resident-1g'' \<or> k = ''borrower-2g''"
    using as by (auto simp: calibrated_actions_def)
  have len3: "length (placement_values profile as k) \<le> 3" for k
    using len by (simp add: placement_values_def)
  have res: "\<forall>a \<in> set as. placement a = ''resident-1g'' \<longrightarrow>
      (\<exists>i mo. a = worker ''resident-1g'' q i mo \<and> mo \<in> set MODALITIES)"
    using as by (fastforce simp: calibrated_actions_def)
  have bor: "\<forall>a \<in> set as. placement a = ''borrower-2g'' \<longrightarrow>
      (\<exists>i mo. a = worker ''borrower-2g'' 100 i mo \<and> mo \<in> set MODALITIES)"
    using as by (fastforce simp: calibrated_actions_def)
  from \<open>k = ''resident-1g'' \<or> k = ''borrower-2g''\<close> show ?thesis
  proof
    assume k: "k = ''resident-1g''"
    obtain x where "modality_max profile k q = Inr x" "fle (fmul (Fin 3) x) m"
      using maximum_profiled_bounds [OF mx dbl] q k by blast
    from placement_sum_bound [OF this(1) dbl this(2)] sums res len3 k kw(2)
    show ?thesis by blast
  next
    assume k: "k = ''borrower-2g''"
    obtain x where "modality_max profile k 100 = Inr x" "fle (fmul (Fin 3) x) m"
      using maximum_profiled_bounds [OF mx dbl] k by blast
    from placement_sum_bound [OF this(1) dbl this(2)] sums bor len3 k kw(2)
    show ?thesis by blast
  qed
qed

lemma maximum_profiled_nonneg:
  assumes "maximum_profiled_guard_ms profile = Inr m" and "profile_doubles profile"
  shows "fle (Fin 0) m"
proof -
  obtain x where x: "modality_max profile ''borrower-2g'' 100 = Inr x" "fle (fmul (Fin 3) x) m"
    using maximum_profiled_bounds [OF assms] by blast
  obtain r where "x = Fin r" "0 \<le> r" using modality_max_bound [OF x(1) assms(2)] by blast
  with x(2) fl_nonneg [of "3 * r"] show ?thesis using fle_trans by auto
qed

lemma filter_swap: "filter Q (filter P xs) = filter P (filter Q xs)"
  by (induction xs) auto

lemma guard_for_bound:
  assumes mx: "maximum_profiled_guard_ms profile = Inr m" and dbl: "profile_doubles profile"
    and q: "q \<in> set RESIDENT_QUOTAS" and as: "calibrated_actions q (actions p)"
    and len: "\<forall>k. length (filter (\<lambda>a. placement a = k) (actions p)) \<le> 3"
    and g: "guard_for policy p profile None = Inr g"
  shows "fle g m"
proof -
  let ?as = "filter (\<lambda>a. placement a \<in> set (gated_placements policy)) (actions p)"
  show ?thesis
  proof (cases "?as = []")
    case True
    with g maximum_profiled_nonneg [OF mx dbl] show ?thesis by (simp add: guard_for_def)
  next
    case False
    with g obtain d where gt: "guard_totals profile ?as = Inr d"
      and case_d: "(case map snd d of [] \<Rightarrow> Inl (ValueError ''max() arg is an empty sequence'')
        | v # vs \<Rightarrow> Inr (foldl fmax v vs)) = Inr g"
      by (auto simp: guard_for_def Let_def bnd_eq_Inr)
    from case_d obtain v vs where "map snd d = v # vs" "g = foldl fmax v vs"
      by (cases "map snd d") auto
    note d = gt this
    have "calibrated_actions q ?as" using as by (auto simp: calibrated_actions_def)
    moreover have "\<forall>k. length (filter (\<lambda>a. placement a = k) ?as) \<le> 3"
    proof
      fix k
      have "length (filter (\<lambda>a. placement a = k) ?as) \<le> length (filter (\<lambda>a. placement a = k) (actions p))"
        unfolding filter_swap [of "\<lambda>a. placement a = k"] by (rule length_filter_le)
      with len show "length (filter (\<lambda>a. placement a = k) ?as) \<le> 3" using le_trans by blast
    qed
    ultimately have "\<forall>w \<in> set (map snd d). fle w m"
      using guard_totals_bound [OF mx dbl q _ _ d(1)] by blast
    with d(2,3) show ?thesis by (auto intro: foldl_fmax_le)
  qed
qed

lemma plan_of_calibrated:
  assumes "set offered \<subseteq> set MODALITIES" and "n \<le> length offered" and "nr \<le> n"
  shows "calibrated_actions q (actions (plan_of offered q 100 nr n))"
proof -
  have "offered ! i \<in> set MODALITIES" if "i < n" for i
    using that assms(1,2) by (meson less_le_trans nth_mem subsetD)
  with assms(3) show ?thesis by (fastforce simp: calibrated_actions_def actions_def plan_of_def)
qed

lemma plan_of_three:
  assumes "nr \<le> 3" and "n - nr \<le> 3"
  shows "\<forall>k. length (filter (\<lambda>a. placement a = k) (actions (plan_of offered q bq nr n))) \<le> 3"
proof
  fix k
  show "length (filter (\<lambda>a. placement a = k) (actions (plan_of offered q bq nr n))) \<le> 3"
    using assms by (cases "k = ''resident-1g''"; cases "k = ''borrower-2g''")
      (simp_all add: actions_def plan_of_def filter_map comp_def)
qed

section \<open>Concrete runs\<close>

text \<open>
  A calibrated profile whose 25 percent residents take \<open>g\<close> ms to drain, a 20 ms period, and reports of
  a healthy epoch with a given critical p99 and drain.
\<close>

definition slow_profile :: "rat \<Rightarrow> guard_profile" where
  "slow_profile g =
     [''resident-1g'' \<mapsto> ByQuota
        [25 \<mapsto> [''language'' \<mapsto> Fin g, ''audio'' \<mapsto> Fin g],
         50 \<mapsto> [''language'' \<mapsto> Fin 2, ''audio'' \<mapsto> Fin 2],
         100 \<mapsto> [''language'' \<mapsto> Fin 1, ''audio'' \<mapsto> Fin 1]],
      ''borrower-2g'' \<mapsto> ByQuota [100 \<mapsto> [''language'' \<mapsto> Fin 1, ''audio'' \<mapsto> Fin 1]]]"

definition slow_q25_profile :: guard_profile where
  "slow_q25_profile = slow_profile 6"

definition period_20ms :: settings where
  "period_20ms =
     \<lparr>scenario = ''independent'', borrower_quota = 100, period_ms = Fin 20, deadline_ms = Fin 20,
      dmr_target = Fin 0, guard_override_ms = None, thermal_target_c = None,
      thermal_tolerance_c = Fin 1, thermal_hard_limit_c = Fin 90\<rparr>"

definition healthy_report :: "rat \<Rightarrow> rat \<Rightarrow> epoch_report" where
  "healthy_report p99 drain =
     \<lparr>p99_ms = Fin p99, miss_rate = Fin 0, telemetry_healthy = True, safety_max_c = Fin 50,
      stability_max_c = None, drain_max_ms = Fin drain\<rparr>"

definition overcommit_reports :: "epoch_report list" where
  "overcommit_reports =
     [healthy_report 5 1, healthy_report 5 2, healthy_report 5 0, healthy_report 5 0,
      healthy_report 5 0, healthy_report 5 0, healthy_report 5 0, healthy_report 5 0,
      healthy_report 25 0, healthy_report 25 0, healthy_report 19 0]"

definition silent_then_healthy :: "epoch_report list" where
  "silent_then_healthy =
     [(healthy_report 5 0)\<lparr>telemetry_healthy := False\<rparr>, healthy_report 5 0, healthy_report 5 0]"

lemmas plan_eval = plan_for_def plan_shares_def resident_quota_percent_def RESIDENT_QUOTAS_def
  py_index_def py_take_def worker_def actions_def upto_rec1

lemmas guard_rules = guard_for_def gated_placements_def guard_totals_def guard_value_ms_def
  profile_lookup_def fle_def feq_def fmax_def slow_profile_def

lemmas guard_eval = guard_rules fl_eval slow_q25_profile_def

lemmas epoch_eval = prepare_epoch_def offered_for_epoch_def scenario_trace_def
  MULTIMODAL_SCENARIO_TRACE_def conclude_epoch_def epoch_violated_def drain_utilization_def
  residual_pressure_def controller_move_def update_feedback_def fail_closed_feedback_def
  initial_feedback_def healthy_report_def period_20ms_def

lemma silent_then_healthy_runs:
  "\<exists>es. run_epochs ''mig-governor'' period_20ms slow_q25_profile 0 silent_then_healthy initial_feedback =
    Inr es"
  by (simp add: silent_then_healthy_def epoch_eval plan_eval guard_eval)

section \<open>Properties\<close>

lemma admitted_count_le: "admitted_count offered s \<le> length offered"
  by (simp add: admitted_count_def)

lemma plan_of_actions:
  assumes "nr \<le> n" and "n \<le> length offered"
  shows "map tenant_id (actions (plan_of offered q bq nr n)) = map int [0..<n] \<and>
    map modality (actions (plan_of offered q bq nr n)) = take n offered"
proof -
  have "[0..<n] = [0..<nr] @ [nr..<n]" using assms(1) upt_add_eq_append [of 0 nr "n - nr"] by simp
  moreover have "take n offered = map ((!) offered) [0..<n]"
    using assms(2) by (auto simp: list_eq_iff_nth_eq)
  ultimately show ?thesis by (simp add: actions_def plan_of_def worker_def comp_def)
qed



text \<open>
  C2: in a run of the governor, an epoch whose telemetry was not healthy is followed by an epoch that
  runs exactly one worker, the first offered tenant, as a resident at 25 percent, and lends nothing.
\<close>

theorem unhealthy_telemetry_fails_closed:
  assumes "run_epochs ''mig-governor'' c profile 0 rs initial_feedback = Inr es"
    and "Suc i < length es" and "\<not> telemetry_healthy (rs ! i)"
    and "offered_for_epoch (int (Suc i)) (scenario c) = Inr (m # ms)"
  shows "plan (es ! Suc i) = \<lparr>residents = [worker ''resident-1g'' 25 0 m], borrowers = []\<rparr>"
proof -
  have "state_after (es ! i) = fail_closed_feedback (state_before (es ! i))"
    using conclude_epoch_step [OF run_epochs_nth [OF assms(1), of i]] assms(2,3)
    by (simp add: governor_step_def epoch_signal_def)
  with run_epochs_chain [OF assms(1,2)]
  have st: "state_before (es ! Suc i) = fail_closed_feedback (state_before (es ! i))" by simp
  have "prepare_epoch ''mig-governor'' c profile (int (Suc i)) (state_before (es ! Suc i)) =
      Inr (plan (es ! Suc i), guard_ms (es ! Suc i))"
    using run_epochs_plans [OF assms(1,2)] by simp
  with assms(4) have "plan_for ''mig-governor'' (m # ms) (state_before (es ! Suc i)) (borrower_quota c) =
      Inr (plan (es ! Suc i))"
    by (auto simp: prepare_epoch_def res_simps simp del: of_nat_Suc)
  then show ?thesis
    by (simp add: st plan_for_def plan_shares_def fail_closed_feedback_def resident_quota_percent_def
        RESIDENT_QUOTAS_def py_index_def py_take_def min_def upto_rec1 split: if_splits)
qed

theorem unhealthy_telemetry_fails_closed_witness:
  "\<exists>es. run_epochs ''mig-governor'' period_20ms slow_q25_profile 0 silent_then_healthy
      initial_feedback = Inr es \<and>
    plan (es ! 1) = \<lparr>residents = [worker ''resident-1g'' 25 0 ''audio''], borrowers = []\<rparr>"
proof -
  obtain es where run: "run_epochs ''mig-governor'' period_20ms slow_q25_profile 0 silent_then_healthy
      initial_feedback = Inr es"
    using silent_then_healthy_runs by blast
  have "length es = 3" using run_epochs_length [OF run] by (simp add: silent_then_healthy_def)
  moreover have "\<not> telemetry_healthy (silent_then_healthy ! 0)"
    by (simp add: silent_then_healthy_def)
  moreover have "offered_for_epoch (int (Suc 0)) (scenario period_20ms) =
      Inr (''audio'' # [''language'', ''audio'', ''language''])"
    by (simp add: epoch_eval py_index_def)
  ultimately show ?thesis
    using unhealthy_telemetry_fails_closed
      [OF run, of 0 "''audio''" "[''language'', ''audio'', ''language'']"] run by auto
qed

text \<open>
  The governor gives capacity back slowly. Between two epochs of a run that are \<open>k\<close> apart, the sum of
  the admission limit, the quota index and the borrower limit grows by at most
  \<open>(safe epochs so far + k) div 3\<close>, whatever the reports are; so after any bad epoch (unhealthy
  telemetry, near overrun, violation or thermal pressure) it takes three more epochs before a single
  unit returns.
\<close>

lemma governor_recovery_bounded:
  assumes "run_epochs ''mig-governor'' c profile 0 rs initial_feedback = Inr es"
    and "i + k < length es"
  shows "capacity (state_before (es ! (i + k))) \<le>
    capacity (state_before (es ! i)) + (safe_epochs (state_before (es ! i)) + int k) div 3"
proof -
  obtain sigs where "length sigs = k"
    "state_before (es ! (i + k)) = fold (governor_step (deadline_ms c)) sigs (state_before (es ! i))"
    using run_epochs_fold [OF assms] by blast
  moreover have "feedback_inv (state_before (es ! i))"
    using run_epochs_state_inv [OF assms(1), of i] assms(2) by simp
  ultimately show ?thesis using slack.recovery_bound [of "state_before (es ! i)" "deadline_ms c" sigs] by simp
qed

text \<open>
  C4: the guard the governor runs an epoch with is covered by the bound that \<open>validate_args\<close> checks
  against the period, as long as neither instance holds more than three workers: then the sum over an
  instance, with every rounding of the float additions, does not exceed \<open>maximum_profiled_guard_ms\<close>.
\<close>

theorem guard_within_profiled_maximum:
  assumes "feedback_inv s" and "set offered \<subseteq> set MODALITIES" and "profile_doubles profile"
    and "plan_for ''mig-governor'' offered s 100 = Inr p"
    and "length (residents p) \<le> 3" and "length (borrowers p) \<le> 3"
    and "guard_for ''mig-governor'' p profile None = Inr g"
    and "maximum_profiled_guard_ms profile = Inr m"
  shows "fle g m"
proof -
  define n where "n = admitted_count offered s"
  define nb where "nb = share_borrowers ''mig-governor'' s n"
  define q where "q = share_quota ''mig-governor'' s"
  have "''mig-governor'' \<in> set POLICIES" by (simp add: POLICIES_def)
  from plan_for_inv [OF assms(1) this, of offered 100] assms(4)
  have p: "p = plan_of offered q 100 (n - nb) n" by (simp add: n_def nb_def q_def Let_def)
  have n: "n \<le> length offered" by (simp add: n_def admitted_count_le)
  have q: "q \<in> set RESIDENT_QUOTAS"
    using assms(1) by (auto simp: q_def share_quota_def RESIDENT_QUOTAS_def feedback_inv_def nth_Cons split: nat.splits)
  have cal: "calibrated_actions q (actions p)"
    using plan_of_calibrated [OF assms(2) n diff_le_self] by (simp add: p)
  have len: "\<forall>k. length (filter (\<lambda>a. placement a = k) (actions p)) \<le> 3"
    using assms(5,6) unfolding p by (intro plan_of_three) (simp_all add: plan_of_def)
  show ?thesis by (rule guard_for_bound [OF assms(8,3) q cal len assms(7)])
qed

lemma governor_recovery_bounded_witness:
  "\<exists>es. run_epochs ''mig-governor'' period_20ms slow_q25_profile 0 silent_then_healthy
      initial_feedback = Inr es \<and>
    capacity (state_before (es ! 2)) \<le>
      capacity (state_before (es ! 1)) + (safe_epochs (state_before (es ! 1)) + 1) div 3"
proof -
  obtain es where run: "run_epochs ''mig-governor'' period_20ms slow_q25_profile 0 silent_then_healthy
      initial_feedback = Inr es"
    using silent_then_healthy_runs by blast
  have "length es = 3" using run_epochs_length [OF run] by (simp add: silent_then_healthy_def)
  with governor_recovery_bounded [OF run, of 1 1] run show ?thesis by (simp add: numeral_2_eq_2)
qed

lemma slow_q25_doubles: "profile_doubles slow_q25_profile"
proof -
  have int: "double (Fin (of_int n))" if "\<bar>n\<bar> \<le> 2 ^ 53" for n
    using double_fl [of "of_int n"] fl_of_int [OF that] by simp
  have "double (Fin 6)" "double (Fin 2)" "double (Fin 1)" using int [of 6] int [of 2] int [of 1] by simp_all
  then show ?thesis
    by (auto simp: profile_doubles_def profile_lookup_def slow_q25_profile_def slow_profile_def split: if_splits option.splits)
qed

theorem guard_within_profiled_maximum_witness:
  "\<exists>p g m. plan_for ''mig-governor'' [''audio'', ''language''] initial_feedback 100 = Inr p \<and>
    guard_for ''mig-governor'' p slow_q25_profile None = Inr g \<and>
    maximum_profiled_guard_ms slow_q25_profile = Inr m \<and> fle g m"
proof -
  let ?p = "\<lparr>residents = [worker ''resident-1g'' 100 0 ''audio''],
    borrowers = [worker ''borrower-2g'' 100 1 ''language'']\<rparr>"
  have p: "plan_for ''mig-governor'' [''audio'', ''language''] initial_feedback 100 = Inr ?p"
    by (simp add: plan_eval initial_feedback_def)
  have g: "guard_for ''mig-governor'' ?p slow_q25_profile None = Inr (Fin 1)"
    by (simp add: plan_eval guard_eval)
  have m: "maximum_profiled_guard_ms slow_q25_profile = Inr (Fin 18)"
    by (simp add: maximum_profiled_guard_ms_def modality_max_def guard_eval worker_def)
  show ?thesis
    using guard_within_profiled_maximum [OF feedback_inv_initial _ slow_q25_doubles p _ _ g m] p g m
    by (simp add: MODALITIES_def)
qed

text \<open>The state an epoch hands to the next one, for evaluating a run epoch by epoch.\<close>

definition epoch_next ::
  "string \<Rightarrow> settings \<Rightarrow> guard_profile \<Rightarrow> int \<Rightarrow> epoch_report \<Rightarrow> feedback \<Rightarrow> feedback res"
where
  "epoch_next policy c profile n r s =
     bnd (prepare_epoch policy c profile n s) (\<lambda>(pl, g).
     bnd (conclude_epoch policy c pl g r s) (\<lambda>e. Inr (state_after e)))"

text \<open>The reports of the epochs from number \<open>n\<close> on take the run from one controller state to another.\<close>

definition reaches ::
  "string \<Rightarrow> settings \<Rightarrow> guard_profile \<Rightarrow> int \<Rightarrow> epoch_report list \<Rightarrow> feedback \<Rightarrow> feedback \<Rightarrow> bool"
where
  "reaches policy c profile n rs s t \<longleftrightarrow>
     (\<exists>es. run_epochs policy c profile n rs s = Inr es \<and> last (s # map state_after es) = t)"

lemma reaches_Nil: "reaches policy c profile n [] s s"
  by (simp add: reaches_def)

lemma reaches_Cons:
  "reaches policy c profile n (r # rs) s t \<longleftrightarrow>
   (\<exists>s'. epoch_next policy c profile n r s = Inr s' \<and> reaches policy c profile (n + 1) rs s' t)"
proof (cases "prepare_epoch policy c profile n s")
  case (Inr pair)
  obtain pl g where pair: "pair = (pl, g)" by force
  show ?thesis
  proof (cases "conclude_epoch policy c pl g r s")
    case concluded: (Inr e)
    show ?thesis
      by (cases "run_epochs policy c profile (n + 1) rs (state_after e)")
        (simp_all add: reaches_def epoch_next_def Inr pair concluded)
  qed (simp add: reaches_def epoch_next_def Inr pair)
qed (simp add: reaches_def epoch_next_def)

lemma reaches_first:
  "epoch_next policy c profile n r s = Inr s' \<Longrightarrow> n + 1 = m \<Longrightarrow> reaches policy c profile m rs s' t \<Longrightarrow>
   reaches policy c profile n (r # rs) s t"
  by (auto simp: reaches_Cons)

lemma reaches_then_fails:
  "reaches policy c profile n rs s t \<Longrightarrow>
   run_epochs policy c profile (n + int (length rs)) rs' t = Inl e \<Longrightarrow>
   run_epochs policy c profile n (rs @ rs') s = Inl e"
proof (induction rs arbitrary: n s)
  case Nil
  then show ?case by (simp add: reaches_def)
next
  case (Cons r rs)
  from Cons.prems(1) obtain s' where s': "epoch_next policy c profile n r s = Inr s'"
    "reaches policy c profile (n + 1) rs s' t"
    by (auto simp: reaches_Cons)
  have "run_epochs policy c profile (n + 1) (rs @ rs') s' = Inl e"
    by (rule Cons.IH [OF s'(2)]) (use Cons.prems(2) in \<open>simp add: algebra_simps\<close>)
  with s'(1) show ?case by (auto simp: epoch_next_def res_simps)
qed

definition capacity_state :: "int \<Rightarrow> int \<Rightarrow> int \<Rightarrow> int \<Rightarrow> feedback" where
  "capacity_state admission quota borrow calm =
     \<lparr>resident_admission_limit = admission, resident_quota_index = quota, borrower_limit = borrow,
      guard_adjustment_ms = Fin 0, safe_epochs = calm\<rparr>"

text \<open>
  Two near overruns, six calm epochs and two violations bring the governor to six admitted tenants, two
  borrowers and a quota of 25 percent; no worker has run at 25 percent until then.
\<close>

lemma overcommit_steps:
  "epoch_next ''mig-governor'' period_20ms (slow_profile g) 0 (healthy_report 5 1) (capacity_state 6 2 6 0) =
     Inr (capacity_state 5 2 5 0)"
  "epoch_next ''mig-governor'' period_20ms (slow_profile g) 1 (healthy_report 5 2) (capacity_state 5 2 5 0) =
     Inr (capacity_state 4 2 4 0)"
  "epoch_next ''mig-governor'' period_20ms (slow_profile g) 2 (healthy_report 5 0) (capacity_state 4 2 4 0) =
     Inr (capacity_state 4 2 4 1)"
  "epoch_next ''mig-governor'' period_20ms (slow_profile g) 3 (healthy_report 5 0) (capacity_state 4 2 4 1) =
     Inr (capacity_state 4 2 4 2)"
  "epoch_next ''mig-governor'' period_20ms (slow_profile g) 4 (healthy_report 5 0) (capacity_state 4 2 4 2) =
     Inr (capacity_state 5 2 4 0)"
  "epoch_next ''mig-governor'' period_20ms (slow_profile g) 5 (healthy_report 5 0) (capacity_state 5 2 4 0) =
     Inr (capacity_state 5 2 4 1)"
  "epoch_next ''mig-governor'' period_20ms (slow_profile g) 6 (healthy_report 5 0) (capacity_state 5 2 4 1) =
     Inr (capacity_state 5 2 4 2)"
  "epoch_next ''mig-governor'' period_20ms (slow_profile g) 7 (healthy_report 5 0) (capacity_state 5 2 4 2) =
     Inr (capacity_state 6 2 4 0)"
  "epoch_next ''mig-governor'' period_20ms (slow_profile g) 8 (healthy_report 25 0) (capacity_state 6 2 4 0) =
     Inr (capacity_state 6 1 3 0)"
  "epoch_next ''mig-governor'' period_20ms (slow_profile g) 9 (healthy_report 25 0) (capacity_state 6 1 3 0) =
     Inr (capacity_state 6 0 2 0)"
  by (simp_all add: epoch_next_def capacity_state_def epoch_eval plan_eval guard_eval)

text \<open>
  The bounds of two, three and four such residents, with the roundings of the three additions, and the
  bound of three that the argument check computes.
\<close>

lemma slow_guard_sums:
  assumes "double (Fin g)" and "5 \<le> g" and "g \<le> 6"
  shows "\<exists>g2 g3 g4 m. fl g = Fin g \<and> fl (g + g) = Fin g2 \<and> fl (g2 + g) = Fin g3 \<and> fl (g3 + g) = Fin g4 \<and>
    fl (3 * g) = Fin m \<and> 10 \<le> g2 \<and> g2 \<le> 12 \<and> 15 \<le> g3 \<and> g3 \<le> 18 \<and> 20 \<le> g4 \<and> 15 \<le> m \<and> m \<le> 18"
proof -
  have w: "fl 10 = Fin 10" "fl 12 = Fin 12" "fl 15 = Fin 15" "fl 18 = Fin 18" "fl 20 = Fin 20" "fl 24 = Fin 24"
    by (simp_all add: fl_eval)
  obtain g2 where g2: "fl (g + g) = Fin g2" "10 \<le> g2" "g2 \<le> 12"
    using fl_between [OF w(1,2), of "g + g"] assms(2,3) by auto
  obtain g3 where g3: "fl (g2 + g) = Fin g3" "15 \<le> g3" "g3 \<le> 18"
    using fl_between [OF w(3,4), of "g2 + g"] g2 assms(2,3) by auto
  obtain g4 where g4: "fl (g3 + g) = Fin g4" "20 \<le> g4"
    using fl_between [OF w(5,6), of "g3 + g"] g3 assms(2,3) by auto
  obtain m where "fl (3 * g) = Fin m" "15 \<le> m" "m \<le> 18"
    using fl_between [OF w(3,4), of "3 * g"] assms(2,3) by auto
  with g2 g3 g4 double_fl_id [OF assms(1)] show ?thesis by blast
qed

lemma overcommit_eleventh:
  assumes "double (Fin g)" and "5 \<le> g" and "g \<le> 6"
  shows "epoch_next ''mig-governor'' period_20ms (slow_profile g) 10 (healthy_report 19 0)
    (capacity_state 6 0 2 0) = Inr (capacity_state 6 0 2 0)"
proof -
  obtain g2 where "fl g = Fin g" "fl (g + g) = Fin g2" "10 \<le> g2" "g2 \<le> 12"
    using slow_guard_sums [OF assms] by blast
  moreover have "fl 0 = Fin 0" "fl 1 = Fin 1" "fl 2 = Fin 2" "fl (8 / 10) = Fin (rnd (8 / 10))" "0 < rnd (8 / 10)"
    "fl (20 * rnd (9 / 10)) = Fin 18" "fl (9 / 10) = Fin (rnd (9 / 10))"
    by (simp_all add: fl_eval)
  ultimately show ?thesis using assms(2,3)
    by (simp add: epoch_next_def capacity_state_def epoch_eval plan_eval guard_rules)
qed

text \<open>The twelfth epoch offers six tenants; the plan keeps four of them as residents at 25 percent.\<close>

definition four_slow_residents :: placement_plan where
  "four_slow_residents =
     \<lparr>residents = [worker ''resident-1g'' 25 0 ''audio'', worker ''resident-1g'' 25 1 ''language'',
        worker ''resident-1g'' 25 2 ''audio'', worker ''resident-1g'' 25 3 ''language''],
      borrowers = [worker ''borrower-2g'' 100 4 ''audio'', worker ''borrower-2g'' 100 5 ''language'']\<rparr>"

lemma overcommit_plan:
  "bnd (offered_for_epoch 11 (scenario period_20ms)) (\<lambda>offered.
     plan_for ''mig-governor'' offered (capacity_state 6 0 2 0) (borrower_quota period_20ms)) =
   Inr four_slow_residents"
  by (simp add: four_slow_residents_def capacity_state_def epoch_eval plan_eval)

lemma overcommit_guard:
  assumes "double (Fin g)" and "5 \<le> g" and "g \<le> 6"
  shows "\<exists>guard. guard_for ''mig-governor'' four_slow_residents (slow_profile g) None = Inr guard \<and>
    fle (Fin 20) guard"
proof -
  obtain g2 g3 g4 where "fl g = Fin g" "fl (g + g) = Fin g2" "fl (g2 + g) = Fin g3" "fl (g3 + g) = Fin g4" "20 \<le> g4"
    using slow_guard_sums [OF assms] by blast
  moreover have "fl 1 = Fin 1" "fl 2 = Fin 2" by (simp_all add: fl_eval)
  ultimately show ?thesis using assms(2,3)
    by (auto simp: guard_rules worker_def actions_def four_slow_residents_def)
qed

lemma overcommit_reached:
  assumes "double (Fin g)" and "5 \<le> g" and "g \<le> 6"
  shows "reaches ''mig-governor'' period_20ms (slow_profile g) 0 overcommit_reports initial_feedback
    (capacity_state 6 0 2 0)"
proof -
  have init: "initial_feedback = capacity_state 6 2 6 0"
    by (simp add: initial_feedback_def capacity_state_def RESIDENT_QUOTAS_def)
  show ?thesis
    unfolding overcommit_reports_def init
    by (rule overcommit_steps [THEN reaches_first] overcommit_eleventh [OF assms, THEN reaches_first], simp)+
      (rule reaches_Nil)
qed

lemma overcommit_maximum:
  assumes "double (Fin g)" and "5 \<le> g" and "g \<le> 6"
  shows "\<exists>m. maximum_profiled_guard_ms (slow_profile g) = Inr (Fin m) \<and> m < 20"
proof -
  obtain m where "fl (3 * g) = Fin m" "15 \<le> m" "m \<le> 18"
    using slow_guard_sums [OF assms] by blast
  moreover have "fl 3 = Fin 3" "fl 6 = Fin 6" by (simp_all add: fl_eval)
  ultimately show ?thesis using assms(2,3)
    by (simp add: maximum_profiled_guard_ms_def modality_max_def guard_rules worker_def)
qed



text \<open>
  C17: the governor does give everything back: after any run of quiet epochs (healthy telemetry, no
  violation, no drain or thermal pressure, p99 below 90 percent of the deadline) of length \<open>n\<close>, its
  capacity is exactly the old one plus one unit per three quiet epochs, up to the full 14 units
  (six admitted, quota index 2, six borrowers).
\<close>

theorem governor_recovery_exact:
  assumes "feedback_inv s" and "\<forall>r \<in> set rs. quiet d r" and "capacity s < 14"
  shows "capacity (fold (governor_step d) rs s) =
    min 14 (capacity s + (safe_epochs s + int (length rs)) div 3)"
  by (rule slack_recovery.recovery_exact [OF assms])

theorem governor_recovery_exact_witness:
  "capacity (fold (governor_step (Fin 20))
      (replicate 39 \<lparr>sig_healthy = True, sig_violated = False, sig_p99 = Fin 5, sig_near = False,
        sig_high = False\<rparr>) (fail_closed_feedback initial_feedback)) = 14"
proof -
  have "quiet (Fin 20) \<lparr>sig_healthy = True, sig_violated = False, sig_p99 = Fin 5, sig_near = False,
      sig_high = False\<rparr>"
    by (simp add: quiet_def distress_def fl_eval)
  then show ?thesis
    using governor_recovery_exact [of "fail_closed_feedback initial_feedback"
      "replicate 39 \<lparr>sig_healthy = True, sig_violated = False, sig_p99 = Fin 5, sig_near = False,
        sig_high = False\<rparr>" "Fin 20"]
    by (simp add: fail_closed_feedback_def initial_feedback_def feedback_inv_def capacity_def)
qed

end
