(* ===== verification/CpuList.thy ===== *)
theory CpuList
  imports PyText
begin

text \<open>
  The CPU list syntax of the governors (\<open>expand_cpu_list\<close> in four programs, \<open>format_cpu_list\<close> in
  \<open>mig_slack_governor.py\<close>), the environment files and the fields of a platform snapshot.
\<close>

section \<open>CPU lists\<close>

definition expand_item :: "string \<Rightarrow> int list res" where
  "expand_item item =
     (case split_once (CHR ''-'') item of
        (a, None) \<Rightarrow> bnd (int_of_string a) (\<lambda>n. Inr [n])
      | (a, Some b) \<Rightarrow>
          bnd (int_of_string a) (\<lambda>first. bnd (int_of_string b) (\<lambda>last.
            if last < first then Inl (ValueError ''invalid CPU range'') else Inr [first..last])))"

definition expand_cpu_list :: "string \<Rightarrow> int list res" where
  "expand_cpu_list specification =
     bnd (map_res expand_item (split_on (CHR '','') specification)) (\<lambda>parts.
       let cpus = concat parts
       in if cpus = [] \<or> length cpus \<noteq> length (remdups cpus)
          then Inl (ValueError ''CPU list must be non-empty and contain no duplicates'') else Inr cpus)"

text \<open>The slack governor's copy also tests for negative numbers.\<close>

definition expand_cpu_list_slack :: "string \<Rightarrow> int list res" where
  "expand_cpu_list_slack specification =
     bnd (map_res expand_item (split_on (CHR '','') specification)) (\<lambda>parts.
       let cpus = concat parts
       in if cpus = [] \<or> (\<exists>cpu \<in> set cpus. cpu < 0) \<or> length cpus \<noteq> length (remdups cpus)
          then Inl (ValueError ''CPU list must be non-empty and contain no duplicates'') else Inr cpus)"

definition range_text :: "int \<Rightarrow> int \<Rightarrow> string" where
  "range_text first previous =
     (if first = previous then str_of_int first else str_of_int first @ ''-'' @ str_of_int previous)"

fun format_runs :: "int \<Rightarrow> int \<Rightarrow> int list \<Rightarrow> string list" where
  "format_runs first previous [] = [range_text first previous]"
| "format_runs first previous (cpu # cpus) =
     (if cpu = previous + 1 then format_runs first cpu cpus
      else range_text first previous # format_runs cpu cpu cpus)"

definition format_cpu_list :: "int list \<Rightarrow> string res" where
  "format_cpu_list cpus =
     (case sort cpus of [] \<Rightarrow> Inl IndexError
      | first # rest \<Rightarrow> Inr (join_with '','' (format_runs first first rest)))"

section \<open>Environment files and snapshots\<close>

text \<open>\<open>load_env\<close> after \<open>splitlines\<close>: \<open>key=value\<close> lines, comments skipped, the last value of a key kept.\<close>

definition env_line :: "string \<Rightarrow> (string \<times> string) option res" where
  "env_line line =
     (if line = [] \<or> hd line = CHR ''#'' then Inr None
      else case split_once (CHR ''='') line of
          (k, Some v) \<Rightarrow> Inr (Some (k, v))
        | (k, None) \<Rightarrow> Inl (ValueError ''not enough values to unpack''))"

definition read_env :: "string list \<Rightarrow> (string \<rightharpoonup> string) res" where
  "read_env ls =
     bnd (map_res env_line ls) (\<lambda>entries.
       Inr (fold (\<lambda>e m. case e of None \<Rightarrow> m | Some (k, v) \<Rightarrow> m(k \<mapsto> v)) entries Map.empty))"

definition REQUIRED_ENV :: "string list" where
  "REQUIRED_ENV =
     [''JDG_MIG_BIG_UUID'', ''JDG_MIG_SMALL_UUID'', ''JDG_MPS_PIPE_DIRECTORY'', ''JDG_MPS_LOG_DIRECTORY'']"

definition load_env :: "string list \<Rightarrow> (string \<rightharpoonup> string) res" where
  "load_env ls =
     bnd (read_env ls) (\<lambda>values.
       if \<exists>k \<in> set REQUIRED_ENV. values k = None
       then Inl (ValueError ''MIG environment is missing a variable'') else Inr values)"

fun snapshot_field :: "string list \<Rightarrow> string \<Rightarrow> string res" where
  "snapshot_field [] name = Inl (ValueError ''platform snapshot lacks a field'')"
| "snapshot_field (line # ls) name =
     (case split_once (CHR '':'') line of
        (key, Some v) \<Rightarrow> if strip key = name then Inr (strip v) else snapshot_field ls name
      | (key, None) \<Rightarrow> snapshot_field ls name)"

section \<open>No negative CPU\<close>

lemma take_sign_nonneg: "CHR ''-'' \<notin> set s \<Longrightarrow> fst (take_sign s) = False"
  by (cases s) auto

lemma set_strip: "set (strip s) \<subseteq> set s"
  unfolding strip_def using set_dropWhileD by (metis set_rev subsetI)

lemma int_of_string_nonneg:
  assumes "int_of_string s = Inr n" and "CHR ''-'' \<notin> set s"
  shows "0 \<le> n"
proof -
  have "fst (take_sign (strip s)) = False"
    using assms(2) set_strip by (intro take_sign_nonneg) blast
  then show ?thesis
    using assms(1) by (auto simp: int_of_string_def Let_def split: prod.splits if_splits)
qed

lemma split_once_fst: "c \<notin> set (fst (split_once c s))"
  by (auto simp: split_once_def Let_def dest: set_takeWhileD)

lemma expand_item_nonneg:
  assumes "expand_item item = Inr cpus" and "x \<in> set cpus"
  shows "0 \<le> x"
proof -
  have "CHR ''-'' \<notin> set (fst (split_once (CHR ''-'') item))" by (rule split_once_fst)
  then show ?thesis
    using assms
    by (fastforce simp: expand_item_def res_simps split: prod.splits option.splits
        dest!: int_of_string_nonneg)
qed

text \<open>
  The slack governor's extra test for negative CPU numbers never decides anything: a minus sign is
  always read as the range separator, so its \<open>expand_cpu_list\<close> and the one of the other three
  governors agree on every string.
\<close>

lemma negative_cpu_check_redundant: "expand_cpu_list_slack s = expand_cpu_list s"
proof -
  have "\<not> (\<exists>cpu \<in> set (concat parts). cpu < 0)"
    if "map_res expand_item (split_on (CHR '','') s) = Inr parts" for parts
    using map_res_mem [OF that] expand_item_nonneg by (fastforce simp: not_less)
  then show ?thesis
    unfolding expand_cpu_list_slack_def expand_cpu_list_def
    by (cases "map_res expand_item (split_on (CHR '','') s)") (auto simp: Let_def)
qed

section \<open>Round trip\<close>

lemma str_of_int_nonneg: "0 \<le> n \<Longrightarrow> str_of_int n = str_of_nat (nat n)"
  by (simp add: str_of_int_def)

lemma str_of_int_no_char: "0 \<le> n \<Longrightarrow> \<not> is_digit c \<Longrightarrow> c \<notin> set (str_of_int n)"
  using str_of_nat_digits by (auto simp: str_of_int_nonneg)

lemma not_digit [simp]: "\<not> is_digit (CHR ''-'')" "\<not> is_digit (CHR '','')"
  by (simp_all add: is_digit_def code_def)

lemma int_of_str_of_int: "0 \<le> n \<Longrightarrow> int_of_string (str_of_int n) = Inr n"
  by (simp add: str_of_int_nonneg)

lemma expand_range_text:
  assumes "0 \<le> first" and "first \<le> final"
  shows "expand_item (range_text first final) = Inr [first..final]"
proof (cases "first = final")
  case True
  have "CHR ''-'' \<notin> set (str_of_int final)" using assms by (intro str_of_int_no_char) auto
  with True assms show ?thesis
    by (simp add: expand_item_def range_text_def split_once_none int_of_str_of_int)
next
  case False
  have "CHR ''-'' \<notin> set (str_of_int first)" using assms by (intro str_of_int_no_char) auto
  with False assms show ?thesis
    by (simp add: expand_item_def range_text_def split_once_some int_of_str_of_int)
qed

lemma range_text_no_comma: "0 \<le> first \<Longrightarrow> 0 \<le> final \<Longrightarrow> CHR '','' \<notin> set (range_text first final)"
  by (auto simp: range_text_def dest: str_of_int_no_char [of _ "CHR '',''"])

lemma format_runs_expand:
  assumes "0 \<le> first" and "first \<le> previous" and "sorted (previous # cpus)" and "distinct (previous # cpus)"
  shows "\<exists>parts. map_res expand_item (format_runs first previous cpus) = Inr parts \<and>
    concat parts = [first..previous] @ cpus \<and> (\<forall>p \<in> set (format_runs first previous cpus). CHR '','' \<notin> set p)"
  using assms
proof (induction cpus arbitrary: first previous)
  case Nil
  then show ?case by (simp add: expand_range_text range_text_no_comma)
next
  case (Cons cpu cpus)
  have lt: "previous < cpu" using Cons.prems(3,4) by auto
  show ?case
  proof (cases "cpu = previous + 1")
    case True
    have "[first..cpu] = [first..previous] @ [cpu]"
      using True Cons.prems(2) upto_rec2 [of first cpu] by simp
    with Cons.IH [of first cpu] Cons.prems lt True show ?thesis by auto
  next
    case False
    with Cons.IH [of cpu cpu] Cons.prems lt show ?thesis
      by (auto simp: expand_range_text range_text_no_comma)
  qed
qed

lemma format_runs_not_Nil: "format_runs first previous cpus \<noteq> []"
  by (induction cpus arbitrary: first previous) auto

text \<open>
  Formatting and expanding CPU lists round-trips: for any nonempty list of distinct nonnegative CPU
  numbers, \<open>format_cpu_list\<close> succeeds and \<open>expand_cpu_list\<close> of the text returns the numbers in order.
\<close>

lemma expand_format_roundtrip:
  assumes "cpus \<noteq> []" and "distinct cpus" and "\<forall>cpu \<in> set cpus. 0 \<le> cpu"
  shows "\<exists>text. format_cpu_list cpus = Inr text \<and> expand_cpu_list text = Inr (sort cpus)"
proof -
  obtain first rest where s: "sort cpus = first # rest"
    using assms(1) by (metis list.exhaust set_empty set_sort)
  have "0 \<le> first" using assms(3) s by (metis list.set_intros(1) set_sort)
  moreover have "sorted (first # rest)" by (metis s sorted_sort)
  moreover have d: "distinct (first # rest)" by (metis assms(2) distinct_sort s)
  ultimately obtain parts where parts:
    "map_res expand_item (format_runs first first rest) = Inr parts" "concat parts = first # rest"
    "\<forall>p \<in> set (format_runs first first rest). CHR '','' \<notin> set p"
    using format_runs_expand [of first first rest] by auto
  let ?text = "join_with '','' (format_runs first first rest)"
  have "split_on (CHR '','') ?text = format_runs first first rest"
    by (rule split_on_join [OF format_runs_not_Nil parts(3)])
  moreover have "remdups (first # rest) = first # rest" by (rule distinct_remdups_id [OF d])
  ultimately have "expand_cpu_list ?text = Inr (first # rest)"
    using parts(1,2) by (simp only: expand_cpu_list_def Let_def bnd_Inr list.distinct) simp
  then show ?thesis by (simp add: format_cpu_list_def s)
qed

end
