(* ===== verification/Workers.thy ===== *)
theory Workers
  imports PyValue CpuList
begin

text \<open>
  What the multimodal governors share (\<open>multimodal_governor.py\<close>, \<open>full_gpu_governor.py\<close>): the traces
  of offered work, the assignment of pressure workers to CPUs, and the shutdown protocol of
  \<open>stop_pressures\<close>. A child process is represented by what the parent can observe of it.
\<close>

section \<open>Offered work\<close>

definition MODALITY_TRACE :: "string list list" where
  "MODALITY_TRACE =
     [[''language''], [''audio''], [''language'', ''audio''],
      [''language'', ''audio'', ''language'', ''audio''],
      [''audio'', ''audio'', ''audio'', ''audio'', ''audio'', ''audio''],
      [''language'', ''language'', ''language'', ''language'', ''language'', ''language'']]"

definition offered_at :: "nat \<Rightarrow> string list" where
  "offered_at epoch = MODALITY_TRACE ! (epoch mod length MODALITY_TRACE)"

lemma offered_at_facts:
  "offered_at n \<noteq> [] \<and> length (offered_at n) \<le> 6 \<and> set (offered_at n) \<subseteq> {''language'', ''audio''}"
proof -
  have "n mod 6 \<in> {0, 1, 2, 3, 4, 5}" by auto
  then show ?thesis by (auto simp: offered_at_def MODALITY_TRACE_def)
qed

section \<open>Starting workers\<close>

text \<open>A worker is started for each action on the CPUs in turn; the process it asks for.\<close>

record spawn =
  sp_modality :: string
  sp_quota :: int
  sp_cpu :: int

definition start_pressures :: "(string \<times> int) list \<Rightarrow> string \<Rightarrow> spawn list res" where
  "start_pressures actions cpu_list =
     bnd (expand_cpu_list cpu_list) (\<lambda>cpus.
       Inr (map (\<lambda>(i, m, q). \<lparr>sp_modality = m, sp_quota = q, sp_cpu = cpus ! (i mod length cpus)\<rparr>)
              (enumerate 0 actions)))"

section \<open>Stopping workers\<close>

text \<open>
  \<open>communicate\<close> either returns the exit code and the output (parsed, or not JSON) or times out. After
  it returns the process is gone. \<open>late_alive\<close> is the answer of \<open>poll\<close> for a process that has not been
  waited for when an exception is handled.
\<close>

datatype worker_output = NotParsed | ParsedOutput pydict

datatype communicated = TimedOut | Exited int worker_output

record worker =
  w_modality :: string
  w_quota :: int
  early_alive :: bool
  late_alive :: bool
  outcome :: communicated

definition worker_result :: "bool \<Rightarrow> worker \<Rightarrow> pydict res" where
  "worker_result check_schema w =
     (case outcome w of
        TimedOut \<Rightarrow> Inl SubprocessError
      | Exited status out \<Rightarrow>
          if status \<noteq> 0 then Inl (RuntimeError ''pressure worker failed'')
          else case out of
              NotParsed \<Rightarrow> Inl (ValueError ''not JSON'')
            | ParsedOutput d \<Rightarrow>
                if check_schema \<and> \<not> py_eq (dget d ''schema_version'') (VInt 1)
                then Inl (RuntimeError ''pressure worker returned an unsupported schema'')
                else Inr ((''modality'', VStr (w_modality w)) # (''quota_percent'', VInt (w_quota w)) #
                          filter (\<lambda>(k, v). k \<noteq> ''modality'' \<and> k \<noteq> ''quota_percent'') d))"

definition reaped :: "worker \<Rightarrow> bool" where
  "reaped w \<longleftrightarrow> outcome w \<noteq> TimedOut"

text \<open>The collection loop; on an exception, the workers that are still running are killed and reaped.\<close>

fun collect :: "bool \<Rightarrow> worker list \<Rightarrow> pydict list res \<times> worker list" where
  "collect check [] = (Inr [], [])"
| "collect check (w # ws) =
     (case worker_result check w of
        Inl e \<Rightarrow> (Inl e, (if reaped w then [] else [w]) @ filter late_alive ws)
      | Inr d \<Rightarrow> (case collect check ws of (r, killed) \<Rightarrow> (bnd r (\<lambda>ds. Inr (d # ds)), killed)))"

record shutdown =
  interrupted :: "worker list"
  killed_workers :: "worker list"
  outputs :: "pydict list res"

definition stop_pressures :: "bool \<Rightarrow> worker list \<Rightarrow> shutdown" where
  "stop_pressures check ws =
     (case collect check ws of (r, killed) \<Rightarrow>
        \<lparr>interrupted = filter early_alive ws, killed_workers = killed, outputs = r\<rparr>)"

lemma collect_ok:
  "collect check ws = (Inr ds, killed) \<Longrightarrow>
   killed = [] \<and> list_all2 (\<lambda>w d. worker_result check w = Inr d) ws ds"
  by (induction ws arbitrary: ds killed) (auto simp: res_simps split: sum.splits prod.splits)

lemma collect_killed:
  "collect check ws = (Inl e, killed) \<Longrightarrow> w \<in> set ws \<Longrightarrow> \<not> reaped w \<Longrightarrow> late_alive w \<Longrightarrow> w \<in> set killed"
proof (induction ws arbitrary: killed)
  case (Cons v ws)
  show ?case
  proof (cases "worker_result check v")
    case (Inl e')
    with Cons.prems show ?thesis by auto
  next
    case (Inr d)
    obtain r k where c: "collect check ws = (r, k)" by (cases "collect check ws")
    with Cons.prems(1) Inr have rk: "r = Inl e" "k = killed" by (cases r; simp)+
    have "v \<noteq> w" using Inr Cons.prems(3) by (auto simp: worker_result_def reaped_def)
    with Cons.prems c rk Cons.IH show ?thesis by simp
  qed
qed simp

text \<open>
  \<open>stop_pressures\<close> leaves no worker behind: either every worker exited with status 0 and its output
  comes back in order, tagged with its own modality and quota, and nothing is killed; or an error is
  raised and each worker that is still running and was not reaped has been killed.
\<close>

lemma stop_pressures_leaves_none:
  "(\<exists>ds. outputs (stop_pressures check ws) = Inr ds \<and> killed_workers (stop_pressures check ws) = [] \<and>
      length ds = length ws \<and>
      (\<forall>i < length ws. reaped (ws ! i) \<and> dget (ds ! i) ''modality'' = VStr (w_modality (ws ! i)) \<and>
         dget (ds ! i) ''quota_percent'' = VInt (w_quota (ws ! i)))) \<or>
   (\<exists>e. outputs (stop_pressures check ws) = Inl e \<and>
      (\<forall>w \<in> set ws. reaped w \<or> \<not> late_alive w \<or> w \<in> set (killed_workers (stop_pressures check ws))))"
proof (cases "outputs (stop_pressures check ws)")
  case (Inl e)
  then show ?thesis
    using collect_killed [of check ws e] by (auto simp: stop_pressures_def split: prod.splits)
next
  case (Inr ds)
  then have c: "collect check ws = (Inr ds, killed_workers (stop_pressures check ws))"
    by (auto simp: stop_pressures_def split: prod.splits)
  note all = collect_ok [OF c]
  have "reaped w \<and> dget d ''modality'' = VStr (w_modality w) \<and> dget d ''quota_percent'' = VInt (w_quota w)"
    if "worker_result check w = Inr d" for w d
    using that by (auto simp: worker_result_def reaped_def dget_def split: communicated.splits worker_output.splits if_splits)
  with all Inr show ?thesis by (auto simp: list_all2_conv_all_nth)
qed

definition two_workers :: "worker list" where
  "two_workers =
     [\<lparr>w_modality = ''audio'', w_quota = 25, early_alive = True, late_alive = True, outcome = TimedOut\<rparr>,
      \<lparr>w_modality = ''language'', w_quota = 25, early_alive = True, late_alive = True,
       outcome = Exited 0 (ParsedOutput [])\<rparr>]"

lemma stop_pressures_leaves_none_witness:
  "\<exists>e. outputs (stop_pressures False two_workers) = Inl e \<and>
    (\<forall>w \<in> set two_workers. w \<in> set (killed_workers (stop_pressures False two_workers)) \<or> reaped w)"
  using stop_pressures_leaves_none [of False two_workers]
  by (auto simp: two_workers_def stop_pressures_def worker_result_def reaped_def)

text \<open>Counting a worker's completed requests.\<close>

definition pressure_completed :: "pydict \<Rightarrow> int res" where
  "pressure_completed d =
     (case map_of d ''completed_launches'' of
        Some v \<Rightarrow> to_pyint v
      | None \<Rightarrow>
          (case map_of d ''completed_requests'' of
             Some v \<Rightarrow> to_pyint v
           | None \<Rightarrow> Inl (KeyError ''pressure result missing completed_launches/completed_requests'')))"

end
