(* ===== verification/FullGpuGovernor.thy ===== *)
theory FullGpuGovernor
  imports Workers Controllers
begin

text \<open>
  \<open>runtime/full_gpu_governor.py\<close>: policies, drain guards, the feedback state and the epoch loop of the
  governor without MIG, its argument checks, and the parser of \<open>nvidia-smi dmon\<close> rows.
\<close>

section \<open>State and operations\<close>

definition FULL_POLICIES :: "string list" where
  "FULL_POLICIES =
     [''static-q5'', ''static-q25'', ''priority-q25'', ''conservative-guard'', ''profiled-guard'',
      ''joint-governor'']"

record full_state =
  admission_limit :: int
  full_adjustment_ms :: pyfloat
  full_safe_epochs :: int

definition full_initial :: full_state where
  "full_initial = \<lparr>admission_limit = 6, full_adjustment_ms = Fin (1 / 4), full_safe_epochs = 0\<rparr>"

definition policy_action :: "string \<Rightarrow> string list \<Rightarrow> full_state \<Rightarrow> (string \<times> int) list" where
  "policy_action policy offered s =
     (let quota = (if policy = ''static-q5'' then 5 else 25);
          limit = (if policy = ''joint-governor'' then admission_limit s else int (length offered))
      in map (\<lambda>m. (m, quota)) (py_take limit offered))"

text \<open>\<open>max(profile[modality] for modality, _ in actions)\<close>.\<close>

definition max_profile :: "(string \<rightharpoonup> pyfloat) \<Rightarrow> (string \<times> int) list \<Rightarrow> pyfloat res" where
  "max_profile profile actions =
     bnd (map_res (\<lambda>(m, q). case profile m of Some v \<Rightarrow> Inr v | None \<Rightarrow> Inl (KeyError m)) actions) (\<lambda>vs.
       case vs of [] \<Rightarrow> Inl (ValueError ''max() arg is an empty sequence'')
       | v # rest \<Rightarrow> Inr (foldl fmax v rest))"

definition full_guard_for ::
  "string \<Rightarrow> (string \<times> int) list \<Rightarrow> full_state \<Rightarrow> (string \<rightharpoonup> pyfloat) \<Rightarrow> pyfloat option \<Rightarrow> pyfloat res"
where
  "full_guard_for policy actions s profile override_ms =
     (case (override_ms, policy \<in> {''conservative-guard'', ''profiled-guard'', ''joint-governor''}) of
        (Some v, True) \<Rightarrow> Inr v
      | _ \<Rightarrow>
          if policy = ''conservative-guard'' then Inr (Fin 6)
          else if policy \<in> {''profiled-guard'', ''joint-governor''}
          then bnd (max_profile profile actions) (\<lambda>profiled.
                 Inr (fadd profiled
                   (if policy = ''joint-governor'' then full_adjustment_ms s else Fin (1 / 2))))
          else Inr (Fin 0))"

definition full_update_feedback :: "bool \<Rightarrow> pyfloat \<Rightarrow> pyfloat \<Rightarrow> full_state \<Rightarrow> full_state" where
  "full_update_feedback violated critical_p99_ms deadline_ms s =
     (if violated then
        \<lparr>admission_limit = max 1 (admission_limit s - 1),
         full_adjustment_ms = fmin (Fin 2) (fadd (full_adjustment_ms s) (Fin (1 / 2))),
         full_safe_epochs = 0\<rparr>
      else if flt critical_p99_ms (fmul deadline_ms (fl (95 / 100))) then
        (if 2 \<le> full_safe_epochs s + 1 then
           \<lparr>admission_limit = min 6 (admission_limit s + 1),
            full_adjustment_ms = fmax (Fin 0) (fsub (full_adjustment_ms s) (Fin (1 / 4))),
            full_safe_epochs = 0\<rparr>
         else s\<lparr>full_safe_epochs := full_safe_epochs s + 1\<rparr>)
      else s\<lparr>full_safe_epochs := 0\<rparr>)"

section \<open>Telemetry rows\<close>

definition dmon_rows :: "string list \<Rightarrow> string list list" where
  "dmon_rows ls =
     filter (\<lambda>fields. 6 \<le> length fields)
       (map (\<lambda>line. py_words [] (strip line))
         (filter (\<lambda>line. strip line \<noteq> [] \<and> hd (strip line) \<noteq> CHR ''#'') ls))"

definition dmon_values :: "nat \<Rightarrow> string list list \<Rightarrow> pyfloat list res" where
  "dmon_values i rows = map_res float_of_string (filter (\<lambda>v. v \<noteq> ''-'') (map (\<lambda>row. row ! i) rows))"

definition mean_or_none :: "pyfloat list \<Rightarrow> pyfloat option res" where
  "mean_or_none xs = (if xs = [] then Inr None else bnd (fmean xs) (\<lambda>m. Inr (Some m)))"

definition max_or_none :: "pyfloat list \<Rightarrow> pyfloat option" where
  "max_or_none xs = (case xs of [] \<Rightarrow> None | x # rest \<Rightarrow> Some (foldl fmax x rest))"

record dmon =
  dmon_samples :: nat
  power_w_mean :: "pyfloat option"
  power_w_max :: "pyfloat option"
  temperature_c_max :: "pyfloat option"
  sm_utilization_mean :: "pyfloat option"
  memory_utilization_mean :: "pyfloat option"

definition parse_dmon :: "string list \<Rightarrow> dmon res" where
  "parse_dmon ls =
     (let rows = dmon_rows ls in
      bnd (dmon_values 1 rows) (\<lambda>power.
      bnd (dmon_values 2 rows) (\<lambda>temperature.
      bnd (dmon_values 4 rows) (\<lambda>sm.
      bnd (dmon_values 5 rows) (\<lambda>memory.
      bnd (mean_or_none power) (\<lambda>power_mean.
      bnd (mean_or_none sm) (\<lambda>sm_mean.
      bnd (mean_or_none memory) (\<lambda>memory_mean.
        Inr \<lparr>dmon_samples = length rows, power_w_mean = power_mean, power_w_max = max_or_none power,
             temperature_c_max = max_or_none temperature, sm_utilization_mean = sm_mean,
             memory_utilization_mean = memory_mean\<rparr>))))))))"

section \<open>The epoch loop\<close>

record full_args =
  fa_epochs :: int
  fa_samples :: int
  fa_warmup :: int
  fa_burst_size :: int
  fa_period_ms :: pyfloat
  fa_dmr_target :: pyfloat
  fa_calibration_repeats :: int
  fa_guard_override_ms :: "pyfloat option"
  fa_language_guard_ms :: pyfloat
  fa_audio_guard_ms :: pyfloat
  fa_policy_order :: string

text \<open>The checks at the start of \<open>main\<close>; \<open>policy_order\<close> is split at the commas.\<close>

definition full_validate_args :: "full_args \<Rightarrow> string list res" where
  "full_validate_args a =
     (if fa_epochs a \<le> 0 \<or> fa_samples a \<le> 0 \<or> fa_warmup a < 0 \<or> fa_burst_size a \<le> 0 \<or>
         fa_samples a mod fa_burst_size a \<noteq> 0 \<or> fle (fa_period_ms a) (Fin 0) \<or>
         fle (fa_dmr_target a) (Fin 0) \<or> fle (Fin 1) (fa_dmr_target a) \<or> fa_calibration_repeats a \<le> 0 \<or>
         (case fa_guard_override_ms a of None \<Rightarrow> False | Some g \<Rightarrow> flt g (Fin 0)) \<or>
         fle (fa_language_guard_ms a) (Fin 0) \<or> fle (fa_audio_guard_ms a) (Fin 0) \<or>
         fle (fa_period_ms a) (fadd (fmax (fa_language_guard_ms a) (fa_audio_guard_ms a)) (Fin 2)) \<or>
         (case fa_guard_override_ms a of None \<Rightarrow> False | Some g \<Rightarrow> fle (fa_period_ms a) g)
      then Inl (SystemExit ''invalid experiment dimensions'')
      else let requested = split_on (CHR '','') (fa_policy_order a)
           in if length requested \<noteq> length (remdups requested) \<or> \<not> set requested \<subseteq> set FULL_POLICIES
              then Inl (SystemExit ''policy-order must contain unique, known policies'')
              else Inr requested)"

definition full_profile :: "full_args \<Rightarrow> string \<rightharpoonup> pyfloat" where
  "full_profile a = [''language'' \<mapsto> fa_language_guard_ms a, ''audio'' \<mapsto> fa_audio_guard_ms a]"

record full_report =
  fr_p99_ms :: pyfloat
  fr_deadline_misses :: int
  fr_miss_rate :: pyfloat
  fr_completed :: int

record full_epoch =
  fe_offered :: nat
  fe_admitted :: nat
  fe_guard_ms :: pyfloat
  fe_p99_ms :: pyfloat
  fe_misses :: int
  fe_violated :: bool
  fe_completed :: int

definition full_epoch_step ::
  "string \<Rightarrow> full_args \<Rightarrow> pyfloat \<Rightarrow> nat \<Rightarrow> full_report \<Rightarrow> full_state \<Rightarrow> (full_epoch \<times> full_state) res"
where
  "full_epoch_step policy a deadline_ms n r s =
     (let offered = offered_at n; actions = policy_action policy offered s in
      bnd (full_guard_for policy actions s (full_profile a) (fa_guard_override_ms a)) (\<lambda>g.
        let viol = flt deadline_ms (fr_p99_ms r) \<or> flt (fa_dmr_target a) (fr_miss_rate r);
            s' = (if policy = ''joint-governor''
                  then full_update_feedback viol (fr_p99_ms r) deadline_ms s else s)
        in Inr (\<lparr>fe_offered = length offered, fe_admitted = length actions, fe_guard_ms = g,
                 fe_p99_ms = fr_p99_ms r, fe_misses = fr_deadline_misses r, fe_violated = viol,
                 fe_completed = fr_completed r\<rparr>, s')))"

fun full_run_epochs ::
  "string \<Rightarrow> full_args \<Rightarrow> pyfloat \<Rightarrow> nat \<Rightarrow> full_report list \<Rightarrow> full_state \<Rightarrow> full_epoch list res"
where
  "full_run_epochs policy a deadline_ms n [] s = Inr []"
| "full_run_epochs policy a deadline_ms n (r # rs) s =
     bnd (full_epoch_step policy a deadline_ms n r s) (\<lambda>(e, s').
     bnd (full_run_epochs policy a deadline_ms (Suc n) rs s') (\<lambda>es. Inr (e # es)))"

record full_summary =
  fs_deadline_miss_rate :: pyfloat
  fs_violation_epoch_rate :: pyfloat
  fs_p99_ms_max :: pyfloat
  fs_pressure_completed :: int
  fs_rejected_tenants :: int
  fs_epochs :: "full_epoch list"

definition full_run_policy :: "string \<Rightarrow> full_args \<Rightarrow> pyfloat \<Rightarrow> full_report list \<Rightarrow> full_summary res" where
  "full_run_policy policy a deadline_ms reports =
     bnd (full_run_epochs policy a deadline_ms 0 (take (nat (fa_epochs a)) reports) full_initial) (\<lambda>es.
     bnd (int_truediv (sum_list (map fe_misses es)) (fa_epochs a * fa_samples a)) (\<lambda>miss.
     bnd (int_truediv (int (length (filter fe_violated es))) (fa_epochs a)) (\<lambda>viol.
     case map fe_p99_ms es of
       [] \<Rightarrow> Inl (ValueError ''max() iterable argument is empty'')
     | p # ps \<Rightarrow>
         Inr \<lparr>fs_deadline_miss_rate = miss, fs_violation_epoch_rate = viol,
              fs_p99_ms_max = foldl fmax p ps,
              fs_pressure_completed = sum_list (map fe_completed es),
              fs_rejected_tenants = sum_list (map (\<lambda>e. int (fe_offered e) - int (fe_admitted e)) es),
              fs_epochs = es\<rparr>)))"

section \<open>The controller\<close>

text \<open>The adjustment stays on the grid of quarter milliseconds, where float addition is exact.\<close>

definition full_inv :: "full_state \<Rightarrow> bool" where
  "full_inv s \<longleftrightarrow>
     1 \<le> admission_limit s \<and> admission_limit s \<le> 6 \<and> 0 \<le> full_safe_epochs s \<and> full_safe_epochs s \<le> 1 \<and>
     (\<exists>k. 0 \<le> k \<and> k \<le> 8 \<and> full_adjustment_ms s = Fin (of_int k / 4))"

lemma fl_quarter: "\<bar>k\<bar> \<le> 100 \<Longrightarrow> fl (of_int k / 4) = Fin (of_int k / 4)"
proof -
  assume k: "\<bar>k\<bar> \<le> 100"
  have "representable (of_int k / 4)"
    unfolding representable_def
    by (rule exI [of _ k], rule exI [of _ "-2"]) (use k in \<open>simp add: pow2_def\<close>)
  moreover have "\<bar>of_int k / 4 :: rat\<bar> < 2 ^ 1024"
  proof -
    have "(of_int \<bar>k\<bar> :: rat) \<le> of_int 100" using k by (rule of_int_le_iff [THEN iffD2])
    then show ?thesis by simp
  qed
  ultimately show ?thesis by (rule fl_representable)
qed

lemma quarter_up:
  assumes "0 \<le> k" "k \<le> 8"
  shows "\<exists>j. 0 \<le> j \<and> j \<le> 8 \<and> fmin (Fin 2) (fadd (Fin (of_int k / 4)) (Fin (1 / 2))) = Fin (of_int j / 4)"
proof -
  have "fadd (Fin (of_int k / 4)) (Fin (1 / 2)) = fl (of_int (k + 2) / 4)" by (simp add: field_simps)
  then have "fadd (Fin (of_int k / 4)) (Fin (1 / 2)) = Fin (of_int (k + 2) / 4)"
    using fl_quarter [of "k + 2"] assms by simp
  then show ?thesis
    using assms by (intro exI [of _ "min 8 (k + 2)"]) (auto simp: fmin_def min_def)
qed

lemma quarter_down:
  assumes "0 \<le> k" "k \<le> 8"
  shows "\<exists>j. 0 \<le> j \<and> j \<le> 8 \<and> fmax (Fin 0) (fsub (Fin (of_int k / 4)) (Fin (1 / 4))) = Fin (of_int j / 4)"
proof -
  have "fsub (Fin (of_int k / 4)) (Fin (1 / 4)) = fl (of_int (k - 1) / 4)"
    by (simp add: fsub_def field_simps)
  then have "fsub (Fin (of_int k / 4)) (Fin (1 / 4)) = Fin (of_int (k - 1) / 4)"
    using fl_quarter [of "k - 1"] assms by simp
  then show ?thesis
    using assms by (intro exI [of _ "max 0 (k - 1)"]) (auto simp: fmax_def max_def)
qed

lemma full_inv_initial: "full_inv full_initial"
  unfolding full_inv_def full_initial_def by (auto intro: exI [of _ 1])

record full_signal =
  fsig_violated :: bool
  fsig_p99 :: pyfloat

definition full_step :: "pyfloat \<Rightarrow> full_signal \<Rightarrow> full_state \<Rightarrow> full_state" where
  "full_step deadline r = full_update_feedback (fsig_violated r) (fsig_p99 r) deadline"

lemma full_step_inv:
  assumes "full_inv s"
  shows "full_inv (full_step d r s)"
proof -
  obtain k where k: "0 \<le> k" "k \<le> 8" "full_adjustment_ms s = Fin (of_int k / 4)"
    using assms by (auto simp: full_inv_def)
  with assms quarter_up [OF k(1,2)] quarter_down [OF k(1,2)] show ?thesis
    by (auto simp: full_inv_def full_step_def full_update_feedback_def simp del: fadd.simps)
qed

interpretation full: feedback_controller "full_step d" full_initial full_inv
  admission_limit full_safe_epochs 2 fsig_violated for d
proof unfold_locales
  show "full_inv full_initial" by (rule full_inv_initial)
  show "0 \<le> full_safe_epochs s" if "full_inv s" for s using that by (simp add: full_inv_def)
  show "2 * admission_limit (full_step d r s) + full_safe_epochs (full_step d r s)
      \<le> 2 * admission_limit s + full_safe_epochs s + 1" if "full_inv s" for s r d
    using that by (auto simp: full_inv_def full_step_def full_update_feedback_def max_def min_def)
  show "admission_limit (full_step d r s) \<le> admission_limit s \<and> full_safe_epochs (full_step d r s) = 0"
    if "full_inv s" "fsig_violated r" for s r d
    using that by (auto simp: full_inv_def full_step_def full_update_feedback_def)
qed (simp_all add: full_step_inv)

lemma policy_action_limit:
  assumes "full_inv s" and "offered \<noteq> []"
  shows "\<exists>k q. policy_action policy offered s = map (\<lambda>m. (m, q)) (take (Suc k) offered)"
proof -
  have "policy_action policy offered s = map (\<lambda>m. (m, if policy = ''static-q5'' then 5 else 25))
      (take (if policy = ''joint-governor'' then nat (admission_limit s) else length offered) offered)"
    using assms(1) by (simp add: policy_action_def Let_def py_take_def full_inv_def)
  moreover have "0 < (if policy = ''joint-governor'' then nat (admission_limit s) else length offered)"
    using assms by (simp add: full_inv_def)
  ultimately show ?thesis by (metis Suc_pred')
qed

lemma policy_action_length:
  assumes "full_inv s" and "offered \<noteq> []"
  shows "policy_action policy offered s \<noteq> [] \<and>
    fst ` set (policy_action policy offered s) \<subseteq> set offered \<and>
    length (policy_action policy offered s) \<le> length offered"
proof -
  obtain k q where k: "policy_action policy offered s = map (\<lambda>m. (m, q)) (take (Suc k) offered)"
    using policy_action_limit [OF assms] by blast
  show ?thesis unfolding k using assms(2) by (auto dest: in_set_takeD)
qed

definition profile_value :: "full_args \<Rightarrow> string \<times> int \<Rightarrow> pyfloat" where
  "profile_value a p = the (full_profile a (fst p))"

lemma max_profile_ok:
  assumes "actions \<noteq> []" and "\<forall>p \<in> set actions. fst p \<in> {''language'', ''audio''}"
  shows "\<exists>v. max_profile (full_profile a) actions = Inr v \<and>
    v \<in> {fa_language_guard_ms a, fa_audio_guard_ms a}"
proof -
  have "map_res (\<lambda>(m, q). case full_profile a m of Some v \<Rightarrow> Inr v | None \<Rightarrow> Inl (KeyError m)) actions =
      map_res (\<lambda>p. Inr (profile_value a p)) actions"
    using assms(2) by (intro map_res_cong) (auto simp: full_profile_def profile_value_def)
  then have vs: "map_res (\<lambda>(m, q). case full_profile a m of Some v \<Rightarrow> Inr v | None \<Rightarrow> Inl (KeyError m)) actions =
      Inr (map (profile_value a) actions)"
    by (simp only: map_res_Inr)
  have val: "profile_value a p \<in> {fa_language_guard_ms a, fa_audio_guard_ms a}" if "p \<in> set actions" for p
    using assms(2) that by (fastforce simp: full_profile_def profile_value_def)
  obtain p ps where ps: "actions = p # ps" using assms(1) by (cases actions) auto
  have "max_profile (full_profile a) actions =
      Inr (foldl fmax (profile_value a p) (map (profile_value a) ps))"
    unfolding max_profile_def vs by (simp add: ps)
  moreover have "foldl fmax (profile_value a p) (map (profile_value a) ps) \<in> profile_value a ` set actions"
    using foldl_fmax_in [of "profile_value a p" "map (profile_value a) ps"] ps by auto
  ultimately show ?thesis using val by (metis (no_types, lifting) imageE)
qed

section \<open>Properties\<close>

lemma full_guard_fits:
  assumes "full_validate_args a = Inr requested"
    and "policy \<in> {''profiled-guard'', ''joint-governor''}" and "full_inv s"
    and "fa_period_ms a \<noteq> NaN" and "fa_language_guard_ms a \<noteq> NaN" and "fa_audio_guard_ms a \<noteq> NaN"
    and "\<forall>g. fa_guard_override_ms a = Some g \<longrightarrow> g \<noteq> NaN"
  shows "\<exists>g. full_guard_for policy (policy_action policy (offered_at n) s) s (full_profile a)
      (fa_guard_override_ms a) = Inr g \<and> flt g (fa_period_ms a)"
proof (cases "fa_guard_override_ms a")
  case (Some g)
  then have "\<not> fle (fa_period_ms a) g" "g \<noteq> NaN"
    using assms(1,7) by (auto simp: full_validate_args_def split: if_splits)
  with Some assms(2,4) show ?thesis
    by (auto simp: full_guard_for_def not_flt [symmetric])
next
  case None
  let ?m = "fmax (fa_language_guard_ms a) (fa_audio_guard_ms a)"
  have nfle: "\<not> fle (fa_period_ms a) (fadd ?m (Fin 2))"
    and pos: "\<not> fle (fa_language_guard_ms a) (Fin 0)" "\<not> fle (fa_audio_guard_ms a) (Fin 0)"
    using assms(1) by (auto simp: full_validate_args_def split: if_splits)
  note mx = fmax_ge [OF assms(5,6)]
  have fin: "isfinite ?m"
    using nfle pos mx assms(4-6)
    by (cases "fa_language_guard_ms a"; cases "fa_audio_guard_ms a"; cases "fa_period_ms a")
      (auto simp: fmax_def fle_def feq_def)
  then have fin2: "isfinite (fa_language_guard_ms a)" "isfinite (fa_audio_guard_ms a)"
    using pos mx assms(5,6)
    by (cases "fa_language_guard_ms a"; cases "fa_audio_guard_ms a"; auto simp: fmax_def fle_def feq_def)+
  have off: "offered_at n \<noteq> []" "set (offered_at n) \<subseteq> {''language'', ''audio''}"
    using offered_at_facts [of n] by auto
  note acts = policy_action_length [OF assms(3) off(1), of policy]
  obtain v where v: "max_profile (full_profile a) (policy_action policy (offered_at n) s) = Inr v"
    "v \<in> {fa_language_guard_ms a, fa_audio_guard_ms a}"
    using max_profile_ok [of "policy_action policy (offered_at n) s" a] acts off(2) by blast
  obtain k where k: "0 \<le> k" "k \<le> 8" "full_adjustment_ms s = Fin (of_int k / 4)"
    using assms(3) by (auto simp: full_inv_def)
  define adj where "adj = (if policy = ''joint-governor'' then full_adjustment_ms s else Fin (1 / 2))"
  have "(of_int k :: rat) \<le> of_int 8" using k(2) by (rule of_int_le_iff [THEN iffD2])
  then have "isfinite adj" "fle adj (Fin 2)" using k(3) by (auto simp: adj_def)
  then have "fle (fadd v adj) (fadd ?m (Fin 2))"
    using v(2) fin fin2 mx by (intro fadd_mono) auto
  moreover have "flt (fadd ?m (Fin 2)) (fa_period_ms a)"
    using nfle assms(4) fin by (auto simp: not_flt [symmetric] isfinite_Fin)
  ultimately have "flt (fadd v adj) (fa_period_ms a)" by (rule fle_flt_trans)
  moreover have "full_guard_for policy (policy_action policy (offered_at n) s) s (full_profile a) None =
      Inr (fadd v adj)"
    using assms(2) v(1) by (auto simp: full_guard_for_def adj_def)
  ultimately show ?thesis using None by simp
qed

text \<open>
  With arguments that \<open>main\<close> accepts (and none of them NaN), the drain guard of the guarded adaptive
  policies is defined in every reachable state and is shorter than the period, so that a critical
  release is always left some time: admission never drops to zero and the feedback adjustment never
  passes the 2 ms that the check allows for.
\<close>

lemma full_guard_fits_period:
  assumes "full_validate_args a = Inr requested"
    and "policy \<in> {''profiled-guard'', ''joint-governor''}" and "full_inv s"
    and "fa_period_ms a \<noteq> NaN" and "fa_language_guard_ms a \<noteq> NaN" and "fa_audio_guard_ms a \<noteq> NaN"
    and "\<forall>g. fa_guard_override_ms a = Some g \<longrightarrow> g \<noteq> NaN"
  shows "\<exists>g. full_guard_for policy (policy_action policy (offered_at n) s) s (full_profile a)
      (fa_guard_override_ms a) = Inr g \<and> flt g (fa_period_ms a)"
  by (rule full_guard_fits [OF assms])

definition main_args :: full_args where
  "main_args =
     \<lparr>fa_epochs = 12, fa_samples = 800, fa_warmup = 100, fa_burst_size = 8, fa_period_ms = Fin 5,
      fa_dmr_target = Fin (1 / 2048), fa_calibration_repeats = 3, fa_guard_override_ms = None,
      fa_language_guard_ms = Fin (3 / 2), fa_audio_guard_ms = Fin 2,
      fa_policy_order = ''conservative-guard,joint-governor''\<rparr>"

lemma main_args_valid:
  "full_validate_args main_args = Inr [''conservative-guard'', ''joint-governor'']"
  by (simp add: full_validate_args_def main_args_def FULL_POLICIES_def fmax_def fl_eval)

lemma full_guard_fits_period_witness:
  "\<exists>g. full_guard_for ''joint-governor'' (policy_action ''joint-governor'' (offered_at 3) full_initial)
      full_initial (full_profile main_args) None = Inr g \<and> flt g (Fin 5)"
  using full_guard_fits_period
    [OF main_args_valid, of "''joint-governor''" full_initial 3] full_inv_initial
  by (auto simp: main_args_def)

text \<open>
  The fixed 6 ms guard of the conservative policy is not covered by the argument check: a 5 ms
  period with the default profile is accepted, and the policy then runs with a guard longer than the
  whole period.
\<close>

lemma conservative_guard_unchecked:
  "full_validate_args main_args = Inr [''conservative-guard'', ''joint-governor''] \<and>
   full_guard_for ''conservative-guard'' acts s (full_profile main_args) (fa_guard_override_ms main_args) =
     Inr (Fin 6) \<and> flt (fa_period_ms main_args) (Fin 6)"
  by (rule conjI [OF main_args_valid]) (simp add: full_guard_for_def main_args_def)

section \<open>The run\<close>

lemma full_epoch_step_parts:
  assumes "full_epoch_step policy a d n r s = Inr (e, s')"
  shows "fe_offered e = length (offered_at n) \<and>
    fe_admitted e = length (policy_action policy (offered_at n) s) \<and>
    full_guard_for policy (policy_action policy (offered_at n) s) s (full_profile a) (fa_guard_override_ms a) =
      Inr (fe_guard_ms e) \<and>
    s' = (if policy = ''joint-governor''
          then full_step d \<lparr>fsig_violated = fe_violated e, fsig_p99 = fr_p99_ms r\<rparr> s else s)"
  using assms by (auto simp: full_epoch_step_def Let_def res_simps full_step_def)

lemma full_run_epochs_facts:
  assumes "full_run_epochs policy a d n rs s = Inr es" and "full_inv s" and "i < length es"
  shows "\<exists>si. full_inv si \<and> fe_offered (es ! i) = length (offered_at (n + i)) \<and>
    fe_admitted (es ! i) = length (policy_action policy (offered_at (n + i)) si) \<and>
    full_guard_for policy (policy_action policy (offered_at (n + i)) si) si (full_profile a)
      (fa_guard_override_ms a) = Inr (fe_guard_ms (es ! i))"
  using assms
proof (induction rs arbitrary: n s es i)
  case (Cons r rs)
  obtain e s' es' where run: "full_epoch_step policy a d n r s = Inr (e, s')"
    "full_run_epochs policy a d (Suc n) rs s' = Inr es'" "es = e # es'"
    using Cons.prems(1) by (auto simp: res_simps)
  note parts = full_epoch_step_parts [OF run(1)]
  have "full_inv s'" using parts Cons.prems(2) full_step_inv by auto
  then show ?case
    using Cons.IH [OF run(2), of "i - 1"] Cons.prems(2,3) run(3) parts by (cases i) auto
qed simp

text \<open>
  In every run of the full-GPU governor that \<open>main\<close> can start, each epoch admits at least one and at
  most all of the offered tenants, and under the guarded adaptive policies its guard is shorter than
  the period.
\<close>

lemma full_run_admits_and_fits:
  assumes "full_validate_args a = Inr requested"
    and "full_run_epochs policy a d 0 rs full_initial = Inr es" and "e \<in> set es"
    and "fa_period_ms a \<noteq> NaN" and "fa_language_guard_ms a \<noteq> NaN" and "fa_audio_guard_ms a \<noteq> NaN"
    and "\<forall>g. fa_guard_override_ms a = Some g \<longrightarrow> g \<noteq> NaN"
  shows "1 \<le> fe_admitted e \<and> fe_admitted e \<le> fe_offered e \<and>
    (policy \<in> {''profiled-guard'', ''joint-governor''} \<longrightarrow> flt (fe_guard_ms e) (fa_period_ms a))"
proof -
  obtain i where i: "i < length es" "e = es ! i" using assms(3) by (auto simp: in_set_conv_nth)
  obtain si where si: "full_inv si" "fe_offered e = length (offered_at i)"
    "fe_admitted e = length (policy_action policy (offered_at i) si)"
    "full_guard_for policy (policy_action policy (offered_at i) si) si (full_profile a)
      (fa_guard_override_ms a) = Inr (fe_guard_ms e)"
    using full_run_epochs_facts [OF assms(2) full_inv_initial i(1)] i(2) by auto
  note off = offered_at_facts [of i]
  have "1 \<le> fe_admitted e \<and> fe_admitted e \<le> fe_offered e"
    using policy_action_length [OF si(1), of "offered_at i" policy] off si(2,3) by (simp add: Suc_le_eq)
  moreover have "flt (fe_guard_ms e) (fa_period_ms a)" if "policy \<in> {''profiled-guard'', ''joint-governor''}"
    using full_guard_fits [OF assms(1) that si(1) assms(4-7), of i] si(4) by simp
  ultimately show ?thesis by blast
qed

lemma full_run_admits_and_fits_witness:
  "\<exists>e. full_run_epochs ''joint-governor'' main_args (Fin 4) 0
      [\<lparr>fr_p99_ms = Fin 3, fr_deadline_misses = 0, fr_miss_rate = Fin 0, fr_completed = 7\<rparr>] full_initial =
    Inr [e] \<and> 1 \<le> fe_admitted e \<and> flt (fe_guard_ms e) (Fin 5)"
proof -
  have "\<exists>e. full_run_epochs ''joint-governor'' main_args (Fin 4) 0
      [\<lparr>fr_p99_ms = Fin 3, fr_deadline_misses = 0, fr_miss_rate = Fin 0, fr_completed = 7\<rparr>] full_initial = Inr [e]"
    by (simp add: full_epoch_step_def Let_def policy_action_def full_initial_def py_take_def
        offered_at_def MODALITY_TRACE_def full_guard_for_def max_profile_def full_profile_def main_args_def
        del: fadd.simps)
  then obtain e where run: "full_run_epochs ''joint-governor'' main_args (Fin 4) 0
      [\<lparr>fr_p99_ms = Fin 3, fr_deadline_misses = 0, fr_miss_rate = Fin 0, fr_completed = 7\<rparr>] full_initial = Inr [e]"
    by blast
  from full_run_admits_and_fits [OF main_args_valid run] run show ?thesis by (auto simp: main_args_def)
qed

end
