(* ===== verification/ModalityGovernors.thy ===== *)
theory ModalityGovernors
  imports Workers Controllers
begin

text \<open>
  The two governors of a single MIG instance: \<open>runtime/multimodal_governor.py\<close> (TensorRT workers by
  modality) and \<open>runtime/mig_governor.py\<close> (synthetic compute and memory pressure): policies, feedback
  and epoch loops over the reports of the benchmark.
\<close>

section \<open>The multimodal governor\<close>

definition PROFILED_QUOTA :: "string \<rightharpoonup> int" where
  "PROFILED_QUOTA = [''language'' \<mapsto> 50, ''audio'' \<mapsto> 100]"

definition MULTI_POLICIES :: "string list" where
  "MULTI_POLICIES = [''static-q25'', ''static-q100'', ''time-division'', ''profiled'', ''joint-governor'']"

record multi_state =
  multi_limit :: int
  multi_safe_epochs :: int

definition multi_initial :: multi_state where
  "multi_initial = \<lparr>multi_limit = 4, multi_safe_epochs = 0\<rparr>"

definition profiled_actions :: "string list \<Rightarrow> (string \<times> int) list res" where
  "profiled_actions ms =
     map_res (\<lambda>m. case PROFILED_QUOTA m of Some q \<Rightarrow> Inr (m, q) | None \<Rightarrow> Inl (KeyError m)) ms"

definition multi_policy_action :: "string \<Rightarrow> string list \<Rightarrow> multi_state \<Rightarrow> (string \<times> int) list res" where
  "multi_policy_action policy offered s =
     (if policy = ''static-q25'' then Inr (map (\<lambda>m. (m, 25)) offered)
      else if policy \<in> {''static-q100'', ''time-division''} then Inr (map (\<lambda>m. (m, 100)) offered)
      else if policy = ''profiled'' then profiled_actions (py_take 2 offered)
      else if policy = ''joint-governor'' then profiled_actions (py_take (multi_limit s) offered)
      else Inl (ValueError ''unknown policy''))"

definition multi_update_feedback :: "bool \<Rightarrow> int \<Rightarrow> multi_state \<Rightarrow> multi_state" where
  "multi_update_feedback violated maximum_limit s =
     (if violated then \<lparr>multi_limit = max 0 (multi_limit s - 1), multi_safe_epochs = 0\<rparr>
      else if 2 \<le> multi_safe_epochs s + 1 \<and> multi_limit s < maximum_limit
      then \<lparr>multi_limit = multi_limit s + 1, multi_safe_epochs = 0\<rparr>
      else s\<lparr>multi_safe_epochs := multi_safe_epochs s + 1\<rparr>)"

record bench_report =
  br_p99_ms :: pyfloat
  br_misses :: int
  br_miss_rate :: pyfloat
  br_completed :: int

record multi_epoch =
  me_offered :: nat
  me_actions :: "(string \<times> int) list"
  me_p99_ms :: pyfloat
  me_misses :: int
  me_violated :: bool
  me_completed :: int

definition bench_violated :: "pyfloat \<Rightarrow> bench_report \<Rightarrow> bool" where
  "bench_violated deadline_ms r \<longleftrightarrow> flt deadline_ms (br_p99_ms r) \<or> flt (fl (1 / 100)) (br_miss_rate r)"

fun multi_run_epochs ::
  "string \<Rightarrow> pyfloat \<Rightarrow> nat \<Rightarrow> bench_report list \<Rightarrow> multi_state \<Rightarrow> multi_epoch list res"
where
  "multi_run_epochs policy deadline_ms n [] s = Inr []"
| "multi_run_epochs policy deadline_ms n (r # rs) s =
     bnd (multi_policy_action policy (offered_at n) s) (\<lambda>actions.
       let viol = bench_violated deadline_ms r;
           s' = (if policy = ''joint-governor'' then multi_update_feedback viol 6 s else s);
           e = \<lparr>me_offered = length (offered_at n), me_actions = actions, me_p99_ms = br_p99_ms r,
                me_misses = br_misses r, me_violated = viol, me_completed = br_completed r\<rparr>
       in bnd (multi_run_epochs policy deadline_ms (Suc n) rs s') (\<lambda>es. Inr (e # es)))"

record multi_summary =
  ms_deadline_miss_rate :: pyfloat
  ms_violation_epoch_rate :: pyfloat
  ms_p99_ms_max :: pyfloat
  ms_pressure_completed :: int
  ms_rejected_tenants :: int

definition multi_run_policy ::
  "string \<Rightarrow> int \<Rightarrow> int \<Rightarrow> pyfloat \<Rightarrow> bench_report list \<Rightarrow> multi_summary res"
where
  "multi_run_policy policy epochs samples deadline_ms reports =
     bnd (multi_run_epochs policy deadline_ms 0 (take (nat epochs) reports) multi_initial) (\<lambda>es.
     bnd (int_truediv (sum_list (map me_misses es)) (epochs * samples)) (\<lambda>miss.
     bnd (int_truediv (int (length (filter me_violated es))) epochs) (\<lambda>viol.
     case map me_p99_ms es of
       [] \<Rightarrow> Inl (ValueError ''max() iterable argument is empty'')
     | p # ps \<Rightarrow>
         Inr \<lparr>ms_deadline_miss_rate = miss, ms_violation_epoch_rate = viol, ms_p99_ms_max = foldl fmax p ps,
              ms_pressure_completed = sum_list (map me_completed es),
              ms_rejected_tenants = sum_list (map (\<lambda>e. int (me_offered e) - int (length (me_actions e))) es)\<rparr>)))"

definition multi_inv :: "multi_state \<Rightarrow> bool" where
  "multi_inv s \<longleftrightarrow> 0 \<le> multi_limit s \<and> multi_limit s \<le> 6 \<and> 0 \<le> multi_safe_epochs s \<and>
     (multi_limit s < 6 \<longrightarrow> multi_safe_epochs s < 2)"

definition multi_step :: "bool \<Rightarrow> multi_state \<Rightarrow> multi_state" where
  "multi_step violated = multi_update_feedback violated 6"

interpretation multi: recovering_controller multi_step multi_initial multi_inv
  multi_limit multi_safe_epochs 2 "\<lambda>v. v" 6 Not
  by unfold_locales
    (auto simp: multi_inv_def multi_step_def multi_update_feedback_def multi_initial_def max_def)

section \<open>The pressure governor\<close>

definition MIG_QUOTAS :: "int list" where
  "MIG_QUOTAS = [25, 50, 75, 100]"

definition PRESSURE_TRACE :: "(string \<times> int) list" where
  "PRESSURE_TRACE =
     [(''compute'', 1), (''memory'', 2), (''memory'', 4), (''compute'', 4), (''memory'', 6), (''compute'', 2)]"

definition profiled_action :: "string \<Rightarrow> int \<Rightarrow> int \<Rightarrow> (int \<times> int) res" where
  "profiled_action mode offered_tenants memory_admission_limit =
     (if mode = ''memory'' then Inr (25, min offered_tenants memory_admission_limit)
      else if offered_tenants = 0 then Inl ZeroDivisionError
      else let fair_share = max 25 (100 div offered_tenants)
           in case best_by (key_greater id) (filter (\<lambda>c. c \<le> fair_share) MIG_QUOTAS) of
                None \<Rightarrow> Inl (ValueError ''max() iterable argument is empty'')
              | Some quota \<Rightarrow> Inr (quota, offered_tenants))"

record memory_state =
  memory_limit :: int
  memory_safe_epochs :: int

definition memory_initial :: memory_state where
  "memory_initial = \<lparr>memory_limit = 1, memory_safe_epochs = 0\<rparr>"

definition memory_update :: "bool \<Rightarrow> memory_state \<Rightarrow> memory_state" where
  "memory_update violated s =
     (if violated then \<lparr>memory_limit = max 0 (memory_limit s - 1), memory_safe_epochs = 0\<rparr>
      else if 2 \<le> memory_safe_epochs s + 1 \<and> memory_limit s < 1
      then \<lparr>memory_limit = memory_limit s + 1, memory_safe_epochs = 0\<rparr>
      else s\<lparr>memory_safe_epochs := memory_safe_epochs s + 1\<rparr>)"

record pressure_epoch =
  pe_mode :: string
  pe_offered :: int
  pe_admitted :: int
  pe_quota :: int
  pe_p99_ms :: pyfloat
  pe_misses :: int
  pe_violated :: bool
  pe_launches :: int

fun pressure_run ::
  "bool \<Rightarrow> pyfloat \<Rightarrow> nat \<Rightarrow> bench_report list \<Rightarrow> int \<Rightarrow> memory_state \<Rightarrow> pressure_epoch list res"
where
  "pressure_run adaptive deadline_ms n [] quota s = Inr []"
| "pressure_run adaptive deadline_ms n (r # rs) quota s =
     (let (mode, offered) = PRESSURE_TRACE ! (n mod length PRESSURE_TRACE) in
      bnd (if adaptive then profiled_action mode offered (memory_limit s) else Inr (quota, offered))
        (\<lambda>(quota', admitted).
          let viol = bench_violated deadline_ms r;
              s' = (if adaptive \<and> mode = ''memory'' then memory_update viol s else s);
              e = \<lparr>pe_mode = mode, pe_offered = offered, pe_admitted = admitted, pe_quota = quota',
                   pe_p99_ms = br_p99_ms r, pe_misses = br_misses r, pe_violated = viol,
                   pe_launches = br_completed r\<rparr>
          in bnd (pressure_run adaptive deadline_ms (Suc n) rs quota' s') (\<lambda>es. Inr (e # es))))"

definition memory_inv :: "memory_state \<Rightarrow> bool" where
  "memory_inv s \<longleftrightarrow> 0 \<le> memory_limit s \<and> memory_limit s \<le> 1 \<and> 0 \<le> memory_safe_epochs s \<and>
     (memory_limit s < 1 \<longrightarrow> memory_safe_epochs s < 2)"

interpretation memory: recovering_controller memory_update memory_initial memory_inv
  memory_limit memory_safe_epochs 2 "\<lambda>v. v" 1 Not
  by unfold_locales (auto simp: memory_inv_def memory_update_def memory_initial_def)

section \<open>Properties\<close>

text \<open>
  The multimodal feedback: whatever the violations, the admission limit stays between 0 and 6, and
  from any reachable state a run of violation-free epochs raises it by exactly one per two epochs until
  it is 6 again, even from a limit of zero at which nothing is admitted.
\<close>

lemma multi_feedback_recovers:
  assumes "s = fold multi_step violations multi_initial"
  shows "0 \<le> multi_limit s \<and> multi_limit s \<le> 6 \<and>
    (multi_limit s < 6 \<longrightarrow> multi_limit (fold multi_step (replicate n False) s) =
       min 6 (multi_limit s + (multi_safe_epochs s + int n) div 2))"
proof -
  have inv: "multi_inv s" unfolding assms by (rule multi.inv_reachable)
  with multi.recovery_exact [OF inv, of "replicate n False"] show ?thesis
    by (auto simp: multi_inv_def)
qed

lemma multi_feedback_recovers_witness:
  "multi_limit (fold multi_step (replicate 12 False)
      (fold multi_step [True, True, True, True, True] multi_initial)) = 6"
  using multi_feedback_recovers [OF refl, of "[True, True, True, True, True]" 12]
  by (simp add: multi_step_def multi_update_feedback_def multi_initial_def)

lemma profiled_actions_ok:
  assumes "set ms \<subseteq> {''language'', ''audio''}"
  shows "profiled_actions ms = Inr (map (\<lambda>m. (m, the (PROFILED_QUOTA m))) ms)"
proof -
  have "profiled_actions ms = map_res (\<lambda>m. Inr (m, the (PROFILED_QUOTA m))) ms"
    unfolding profiled_actions_def using assms by (intro map_res_cong) (auto simp: PROFILED_QUOTA_def)
  then show ?thesis by (simp add: map_res_Inr)
qed

lemma multi_actions_ok:
  assumes "policy \<in> set MULTI_POLICIES" and "0 \<le> multi_limit s"
  shows "\<exists>acts. multi_policy_action policy (offered_at n) s = Inr acts \<and>
    map fst acts = take (if policy = ''joint-governor'' then nat (multi_limit s)
      else if policy = ''profiled'' then 2 else length (offered_at n)) (offered_at n)"
proof -
  have prof: "\<exists>acts. profiled_actions (take k (offered_at n)) = Inr acts \<and> map fst acts = take k (offered_at n)" for k
  proof -
    have "set (take k (offered_at n)) \<subseteq> {''language'', ''audio''}"
      using offered_at_facts [of n] by (auto dest: in_set_takeD)
    from profiled_actions_ok [OF this] show ?thesis by (simp add: comp_def)
  qed
  have "policy = ''static-q25'' \<or> policy = ''static-q100'' \<or> policy = ''time-division'' \<or>
      policy = ''profiled'' \<or> policy = ''joint-governor''"
    using assms(1) by (simp only: MULTI_POLICIES_def list.set insert_iff empty_iff) argo
  then show ?thesis
    using prof [of 2] prof [of "nat (multi_limit s)"] assms(2)
    by (elim disjE) (simp_all add: multi_policy_action_def comp_def py_take_def)
qed

lemma multi_run_ok:
  assumes "policy \<in> set MULTI_POLICIES" and "multi_inv s"
  shows "\<exists>es. multi_run_epochs policy d n rs s = Inr es \<and> length es = length rs \<and>
    (\<forall>i < length es.
       me_violated (es ! i) = bench_violated d (rs ! i) \<and>
       map fst (me_actions (es ! i)) =
         take (if policy = ''joint-governor''
               then nat (multi_limit (fold multi_step (map (bench_violated d) (take i rs)) s))
               else if policy = ''profiled'' then 2 else length (offered_at (n + i))) (offered_at (n + i)))"
  using assms(2)
proof (induction rs arbitrary: n s)
  case (Cons r rs)
  obtain acts where acts: "multi_policy_action policy (offered_at n) s = Inr acts"
    "map fst acts = take (if policy = ''joint-governor'' then nat (multi_limit s)
      else if policy = ''profiled'' then 2 else length (offered_at n)) (offered_at n)"
    using multi_actions_ok [OF assms(1), of s n] Cons.prems by (auto simp: multi_inv_def)
  define s' where "s' = (if policy = ''joint-governor'' then multi_step (bench_violated d r) s else s)"
  have "multi_inv s'" using Cons.prems multi.inv_step by (simp add: s'_def)
  from Cons.IH [OF this, of "Suc n"] obtain es where es:
    "multi_run_epochs policy d (Suc n) rs s' = Inr es" "length es = length rs"
    "\<forall>i < length es. me_violated (es ! i) = bench_violated d (rs ! i) \<and>
       map fst (me_actions (es ! i)) =
         take (if policy = ''joint-governor''
               then nat (multi_limit (fold multi_step (map (bench_violated d) (take i rs)) s'))
               else if policy = ''profiled'' then 2 else length (offered_at (Suc n + i))) (offered_at (Suc n + i))"
    by blast
  define e where "e = \<lparr>me_offered = length (offered_at n), me_actions = acts, me_p99_ms = br_p99_ms r,
      me_misses = br_misses r, me_violated = bench_violated d r, me_completed = br_completed r\<rparr>"
  have "multi_run_epochs policy d n (r # rs) s = Inr (e # es)"
    using acts(1) es(1) by (auto simp: Let_def e_def s'_def multi_step_def split: if_splits)
  moreover have "me_violated ((e # es) ! i) = bench_violated d ((r # rs) ! i) \<and>
       map fst (me_actions ((e # es) ! i)) =
         take (if policy = ''joint-governor''
               then nat (multi_limit (fold multi_step (map (bench_violated d) (take i (r # rs))) s))
               else if policy = ''profiled'' then 2 else length (offered_at (n + i))) (offered_at (n + i))"
    if "i < length (e # es)" for i
  proof (cases i)
    case 0
    then show ?thesis using acts(2) by (simp add: e_def)
  next
    case (Suc j)
    then show ?thesis using es(3) that by (simp add: s'_def)
  qed
  ultimately show ?case using es(2) by (intro exI [of _ "e # es"]) simp
qed simp

text \<open>
  Under each of the five policies every run of the multimodal governor completes: no epoch raises,
  the violation flag is the one of the report, and the workers started are the prefix of the offered
  work that the policy allows; for the joint governor its length is the limit that the feedback over
  the earlier epochs' violations has left.
\<close>

lemma multi_run_total:
  assumes "policy \<in> set MULTI_POLICIES"
  shows "\<exists>es. multi_run_epochs policy d 0 rs multi_initial = Inr es \<and> length es = length rs \<and>
    (\<forall>i < length es.
       me_violated (es ! i) = bench_violated d (rs ! i) \<and>
       map fst (me_actions (es ! i)) =
         take (if policy = ''joint-governor''
               then nat (multi_limit (fold multi_step (map (bench_violated d) (take i rs)) multi_initial))
               else if policy = ''profiled'' then 2 else length (offered_at i)) (offered_at i))"
proof -
  have "multi_inv multi_initial" by (simp add: multi_inv_def multi_initial_def)
  from multi_run_ok [OF assms this, of d 0 rs] show ?thesis by (simp only: add_0)
qed

lemma multi_run_total_witness:
  "\<exists>es. multi_run_epochs ''joint-governor'' (Fin 5) 0
      (replicate 5 \<lparr>br_p99_ms = Fin 6, br_misses = 1, br_miss_rate = Fin 0, br_completed = 3\<rparr>)
      multi_initial = Inr es \<and> length es = 5"
  using multi_run_total [of "''joint-governor''" "Fin 5"
    "replicate 5 \<lparr>br_p99_ms = Fin 6, br_misses = 1, br_miss_rate = Fin 0, br_completed = 3\<rparr>"]
  by (auto simp: MULTI_POLICIES_def)

lemma profiled_action_compute:
  assumes "1 \<le> n" and "n \<le> 4"
  shows "\<exists>q. profiled_action ''compute'' n limit = Inr (q, n) \<and> q \<in> set MIG_QUOTAS \<and> n * q \<le> 100 \<and>
    (\<forall>c \<in> set MIG_QUOTAS. n * c \<le> 100 \<longrightarrow> c \<le> q)"
proof -
  have "n \<in> {1, 2, 3, 4}" using assms by auto
  then show ?thesis
    by (auto simp: profiled_action_def MIG_QUOTAS_def best_by_def key_greater_def)
qed

lemma pressure_trace_entry:
  "\<exists>mode k. PRESSURE_TRACE ! (n mod length PRESSURE_TRACE) = (mode, k) \<and> 1 \<le> k \<and>
    (mode = ''memory'' \<or> (mode = ''compute'' \<and> k \<le> 4))"
proof -
  have "n mod 6 \<in> {0, 1, 2, 3, 4, 5}" by auto
  then show ?thesis by (auto simp: PRESSURE_TRACE_def)
qed

lemma pressure_run_ok:
  assumes "memory_inv s"
  shows "\<exists>es. pressure_run True d n rs q s = Inr es \<and> length es = length rs \<and>
    (\<forall>e \<in> set es. pe_quota e \<in> set MIG_QUOTAS \<and> 0 \<le> pe_admitted e \<and> pe_admitted e * pe_quota e \<le> 100 \<and>
       (pe_mode e \<noteq> ''memory'' \<longrightarrow> pe_admitted e = pe_offered e))"
  using assms
proof (induction rs arbitrary: n q s)
  case (Cons r rs)
  obtain mode k where tr: "PRESSURE_TRACE ! (n mod length PRESSURE_TRACE) = (mode, k)" "1 \<le> k"
    "mode = ''memory'' \<or> (mode = ''compute'' \<and> k \<le> 4)"
    using pressure_trace_entry by blast
  have "\<exists>q' adm. profiled_action mode k (memory_limit s) = Inr (q', adm) \<and> q' \<in> set MIG_QUOTAS \<and>
      0 \<le> adm \<and> adm * q' \<le> 100 \<and> (mode \<noteq> ''memory'' \<longrightarrow> adm = k)"
  proof (cases "mode = ''memory''")
    case True
    then show ?thesis using Cons.prems tr(2)
      by (auto simp: profiled_action_def MIG_QUOTAS_def memory_inv_def min_def)
  next
    case False
    with tr profiled_action_compute [of k "memory_limit s"] show ?thesis by auto
  qed
  then obtain q' adm where act: "profiled_action mode k (memory_limit s) = Inr (q', adm)"
    "q' \<in> set MIG_QUOTAS" "0 \<le> adm" "adm * q' \<le> 100" "mode \<noteq> ''memory'' \<longrightarrow> adm = k" by blast
  define s' where "s' = (if mode = ''memory'' then memory_update (bench_violated d r) s else s)"
  have "memory_inv s'" using Cons.prems memory.inv_step by (simp add: s'_def)
  from Cons.IH [OF this, of "Suc n" q'] obtain es where es: "pressure_run True d (Suc n) rs q' s' = Inr es"
    "length es = length rs"
    "\<forall>e \<in> set es. pe_quota e \<in> set MIG_QUOTAS \<and> 0 \<le> pe_admitted e \<and> pe_admitted e * pe_quota e \<le> 100 \<and>
       (pe_mode e \<noteq> ''memory'' \<longrightarrow> pe_admitted e = pe_offered e)" by blast
  then show ?case using tr(1) act by (simp add: Let_def s'_def [symmetric])
qed simp

text \<open>
  A run of the adaptive pressure governor always completes and never oversubscribes the instance: in
  every epoch the number of admitted tenants times their compute quota is at most 100 percent, compute
  tenants are all admitted, and memory tenants run one at a time at most.
\<close>

lemma pressure_never_oversubscribed:
  "\<exists>es. pressure_run True d 0 rs 100 memory_initial = Inr es \<and> length es = length rs \<and>
    list_all (\<lambda>e. pe_quota e \<in> set MIG_QUOTAS \<and> 0 \<le> pe_admitted e \<and> pe_admitted e * pe_quota e \<le> 100 \<and>
       (if pe_mode e = ''memory'' then True else pe_admitted e = pe_offered e)) es"
proof -
  have "memory_inv memory_initial" by (simp add: memory_inv_def memory_initial_def)
  from pressure_run_ok [OF this, of d 0 rs 100] show ?thesis by (auto simp: list_all_iff)
qed

end
