(* ===== verification/PyRegex.thy ===== *)
theory PyRegex
  imports PyText
begin

text \<open>
  The part of Python's \<open>re\<close> that the telemetry parser uses: a backtracking matcher whose result is
  the list of all matches in the order in which the engine tries them, so that its head is the match
  Python reports. A position is the text already passed (reversed) and the text to come.
\<close>

section \<open>Expressions and matching\<close>

datatype rx =
    Eps
  | Chr "char \<Rightarrow> bool"
  | Rep nat "char \<Rightarrow> bool"
  | Cat rx rx
  | Or rx rx
  | Opt rx
  | Grp string rx
  | WordBoundary
  | NotBehind "char \<Rightarrow> bool"
  | AtEnd

type_synonym pos = "string \<times> string"
type_synonym groups = "(string \<times> string) list"

definition is_word :: "char \<Rightarrow> bool" where
  "is_word c \<longleftrightarrow> is_digit c \<or> (65 \<le> code c \<and> code c \<le> 90) \<or> (97 \<le> code c \<and> code c \<le> 122) \<or> c = CHR ''_''"

definition word_at :: "string \<Rightarrow> bool" where
  "word_at s = (case s of [] \<Rightarrow> False | c # _ \<Rightarrow> is_word c)"

definition advance :: "nat \<Rightarrow> pos \<Rightarrow> pos" where
  "advance k p = (rev (take k (snd p)) @ fst p, drop k (snd p))"

definition consumed :: "pos \<Rightarrow> pos \<Rightarrow> string" where
  "consumed p q = take (length (snd p) - length (snd q)) (snd p)"

fun rmatch :: "rx \<Rightarrow> pos \<Rightarrow> (pos \<times> groups) list" where
  "rmatch Eps p = [(p, [])]"
| "rmatch (Chr f) p = (case snd p of [] \<Rightarrow> [] | c # _ \<Rightarrow> if f c then [(advance 1 p, [])] else [])"
| "rmatch (Rep n f) p =
     map (\<lambda>k. (advance k p, [])) (rev [n..<Suc (length (takeWhile f (snd p)))])"
| "rmatch (Cat a b) p = concat (map (\<lambda>(q, g). map (\<lambda>(r, h). (r, g @ h)) (rmatch b q)) (rmatch a p))"
| "rmatch (Or a b) p = rmatch a p @ rmatch b p"
| "rmatch (Opt a) p = rmatch a p @ [(p, [])]"
| "rmatch (Grp n a) p = map (\<lambda>(q, g). (q, (n, consumed p q) # g)) (rmatch a p)"
| "rmatch WordBoundary p = (if word_at (fst p) \<noteq> word_at (snd p) then [(p, [])] else [])"
| "rmatch (NotBehind f) p = (case fst p of [] \<Rightarrow> [(p, [])] | c # _ \<Rightarrow> if f c then [] else [(p, [])])"
| "rmatch AtEnd p = (if snd p = [] \<or> snd p = [CHR 0x0A] then [(p, [])] else [])"

text \<open>\<open>match.group(name)\<close>, \<open>None\<close> when the group did not take part.\<close>

definition group :: "groups \<Rightarrow> string \<Rightarrow> string option" where
  "group g n = map_of g n"

text \<open>\<open>re.search\<close>, \<open>re.fullmatch\<close> and \<open>re.finditer\<close> (an empty match advances by one character).\<close>

fun search_from :: "rx \<Rightarrow> string \<Rightarrow> string \<Rightarrow> (pos \<times> pos \<times> groups) option" where
  "search_from r pre [] =
     (case rmatch r (pre, []) of [] \<Rightarrow> None | (q, g) # _ \<Rightarrow> Some ((pre, []), q, g))"
| "search_from r pre (c # cs) =
     (case rmatch r (pre, c # cs) of
        [] \<Rightarrow> search_from r (c # pre) cs
      | (q, g) # _ \<Rightarrow> Some ((pre, c # cs), q, g))"

definition re_search :: "rx \<Rightarrow> string \<Rightarrow> groups option" where
  "re_search r s = map_option (\<lambda>(p, q, g). g) (search_from r [] s)"

definition re_fullmatch :: "rx \<Rightarrow> string \<Rightarrow> groups option" where
  "re_fullmatch r s = map_option snd (find (\<lambda>(q, g). snd q = []) (rmatch r ([], s)))"

lemma advance_length: "length (snd (advance k p)) \<le> length (snd p)"
  by (simp add: advance_def)

lemma rmatch_length: "(q, g) \<in> set (rmatch r p) \<Longrightarrow> length (snd q) \<le> length (snd p)"
proof (induction r arbitrary: p q g)
  case (Cat a b)
  from Cat.prems obtain q1 g1 g2 where "(q1, g1) \<in> set (rmatch a p)" "(q, g2) \<in> set (rmatch b q1)"
    by auto
  with Cat.IH(1) Cat.IH(2) show ?case by (meson order_trans)
qed (auto simp: advance_def split: list.splits if_splits)

lemma search_from_length:
  "search_from r pre s = Some (p, q, g) \<Longrightarrow> length (snd q) \<le> length (snd p) \<and> length (snd p) \<le> length s"
proof (induction s arbitrary: pre)
  case Nil
  then show ?case using rmatch_length [of q g r "(pre, [])"] by (auto split: list.splits)
next
  case (Cons c cs)
  show ?case
  proof (cases "rmatch r (pre, c # cs)")
    case Nil
    with Cons show ?thesis by fastforce
  next
    case (Cons x xs)
    then have "x \<in> set (rmatch r (pre, c # cs))" by simp
    with Cons Cons.prems rmatch_length [of q g r "(pre, c # cs)"] show ?thesis by (cases x) auto
  qed
qed

function find_all :: "rx \<Rightarrow> pos \<Rightarrow> groups list" where
  "find_all r p =
     (case search_from r (fst p) (snd p) of
        None \<Rightarrow> []
      | Some (p', q, g) \<Rightarrow>
          if snd q = [] then [g]
          else g # find_all r (if length (snd q) < length (snd p') then q else advance 1 q))"
  by pat_completeness auto
termination
proof (relation "measure (\<lambda>(r, p). length (snd p))", goal_cases)
  case (2 r p x p' y q g)
  then have "search_from r (fst p) (snd p) = Some (p', q, g)" by simp
  from search_from_length [OF this] 2(4) show ?case
    by (cases "snd q") (auto simp: advance_def)
qed simp

definition re_finditer :: "rx \<Rightarrow> string \<Rightarrow> groups list" where
  "re_finditer r s = find_all r ([], s)"

section \<open>First matches\<close>

text \<open>The match that Python reports at a position, and how it is composed.\<close>

definition first :: "rx \<Rightarrow> pos \<Rightarrow> pos \<Rightarrow> groups \<Rightarrow> bool" where
  "first r p q g \<longleftrightarrow> (\<exists>rest. rmatch r p = (q, g) # rest)"

lemma first_Eps: "first Eps p p []"
  by (simp add: first_def)

lemma first_Cat:
  assumes "first a p q g" and "first b q r h"
  shows "first (Cat a b) p r (g @ h)"
  using assms by (auto simp: first_def)

lemma first_Or1: "first a p q g \<Longrightarrow> first (Or a b) p q g"
  by (auto simp: first_def)

lemma first_Or2: "rmatch a p = [] \<Longrightarrow> first b p q g \<Longrightarrow> first (Or a b) p q g"
  by (auto simp: first_def)

lemma first_Opt: "first a p q g \<Longrightarrow> first (Opt a) p q g"
  by (auto simp: first_def)

lemma first_Opt_none: "rmatch a p = [] \<Longrightarrow> first (Opt a) p p []"
  by (auto simp: first_def)

lemma first_Grp:
  assumes "first a (pre, s @ t) (pre', t) g"
  shows "first (Grp n a) (pre, s @ t) (pre', t) ((n, s) # g)"
  using assms by (auto simp: first_def consumed_def)

lemma first_Chr: "f c \<Longrightarrow> first (Chr f) (pre, c # s) (c # pre, s) []"
  by (simp add: first_def advance_def)

lemma takeWhile_stop: "(\<forall>c \<in> set s. f c) \<Longrightarrow> (t = [] \<or> \<not> f (hd t)) \<Longrightarrow> takeWhile f (s @ t) = s"
  by (induction s) (auto simp: takeWhile_eq_Nil_iff)

lemma first_Rep:
  assumes "\<forall>c \<in> set s. f c" and "t = [] \<or> \<not> f (hd t)" and "n \<le> length s"
  shows "first (Rep n f) (pre, s @ t) (rev s @ pre, t) []"
proof -
  have "takeWhile f (s @ t) = s" using assms(1,2) by (rule takeWhile_stop)
  moreover have "rev [n..<Suc (length s)] = length s # rev [n..<length s]" using assms(3) by simp
  ultimately show ?thesis by (simp add: first_def advance_def)
qed

lemma first_boundary:
  "word_at pre \<noteq> word_at s \<Longrightarrow> first WordBoundary (pre, s) (pre, s) []"
  by (simp add: first_def)

lemma search_from_first:
  "first r (pre, s) q g \<Longrightarrow> search_from r pre s = Some ((pre, s), q, g)"
  by (cases s) (auto simp: first_def)

lemma re_search_first: "first r ([], s) q g \<Longrightarrow> re_search r s = Some g"
  by (simp add: re_search_def search_from_first)

end
