(* ===== verification/TelemetryParse.thy ===== *)
theory TelemetryParse
  imports PyValue PyRegex "HOL-Library.AList"
begin

text \<open>
  The first half of \<open>runtime/tegrastats_telemetry.py\<close>: the records of a telemetry line, the regular
  expressions, and \<open>parse_tegrastats_line\<close>. A mapping built by a comprehension or by assignments is an
  association list in which a repeated key keeps its first position and its last value.
\<close>

section \<open>Patterns\<close>

definition lit :: "string \<Rightarrow> rx" where
  "lit s = foldr (\<lambda>c r. Cat (Chr (\<lambda>x. x = c)) r) s Eps"

definition digits1 :: rx where
  "digits1 = Rep 1 is_digit"

definition spaces1 :: rx where
  "spaces1 = Rep 1 is_space"

definition spaces0 :: rx where
  "spaces0 = Rep 0 is_space"

definition NUMBER :: rx where
  "NUMBER =
     Cat (Opt (lit ''-''))
       (Or (Cat digits1 (Opt (Cat (lit ''.'') (Rep 0 is_digit)))) (Cat (lit ''.'') digits1))"

definition RAM_RE :: rx where
  "RAM_RE =
     Cat WordBoundary (Cat (lit ''RAM'') (Cat spaces1 (Cat (Grp ''used'' NUMBER) (Cat (lit ''/'')
       (Cat (Grp ''total'' NUMBER) (Cat (lit ''MB'')
         (Opt (Cat spaces1 (Cat (lit ''(lfb'') (Cat spaces1 (Cat (Grp ''count'' digits1) (Cat (lit ''x'')
           (Cat (Grp ''size'' NUMBER) (lit ''MB)''))))))))))))))"

definition SWAP_RE :: rx where
  "SWAP_RE =
     Cat WordBoundary (Cat (lit ''SWAP'') (Cat spaces1 (Cat (Grp ''used'' NUMBER) (Cat (lit ''/'')
       (Cat (Grp ''total'' NUMBER) (Cat (lit ''MB'')
         (Opt (Cat spaces1 (Cat (lit ''(cached'') (Cat spaces1 (Cat (Grp ''cached'' NUMBER)
           (lit ''MB)''))))))))))))"

definition CPU_RE :: rx where
  "CPU_RE =
     Cat WordBoundary (Cat (lit ''CPU'') (Cat spaces1 (Cat (lit ''['')
       (Cat (Grp ''cores'' (Rep 0 (\<lambda>c. c \<noteq> CHR '']''))) (Cat (lit '']'')
         (Opt (Cat spaces0 (Cat (lit ''@'') (Grp ''common_freq'' NUMBER)))))))))"

definition CPU_CORE_RE :: rx where
  "CPU_CORE_RE =
     Cat (Grp ''util'' NUMBER) (Cat (lit ''%'') (Cat (Opt (Cat (lit ''@'') (Grp ''freq'' NUMBER))) AtEnd))"

definition EMC_RE :: rx where
  "EMC_RE =
     Cat WordBoundary (Cat (lit ''EMC_FREQ'') (Cat spaces1
       (Cat (Opt (Cat (Grp ''util'' NUMBER) (lit ''%''))) (Opt (Cat (lit ''@'') (Grp ''freq'' NUMBER))))))"

definition GR3D_RE :: rx where
  "GR3D_RE =
     Cat WordBoundary (Cat (lit ''GR3D_FREQ'') (Cat spaces1
       (Cat (Opt (Cat (Grp ''util'' NUMBER) (lit ''%'')))
         (Opt (Or (Cat (lit ''@['') (Cat (Grp ''freqs'' (Rep 0 (\<lambda>c. c \<noteq> CHR '']''))) (lit '']'')))
                  (Cat (lit ''@'') (Grp ''single_freq'' NUMBER)))))))"

definition is_letter :: "char \<Rightarrow> bool" where
  "is_letter c \<longleftrightarrow> (65 \<le> code c \<and> code c \<le> 90) \<or> (97 \<le> code c \<and> code c \<le> 122)"

definition is_name_char :: "char \<Rightarrow> bool" where
  "is_name_char c \<longleftrightarrow> is_letter c \<or> is_digit c \<or> c \<in> {CHR ''_'', CHR ''.'', CHR ''-''}"

definition TEMPERATURE_RE :: rx where
  "TEMPERATURE_RE =
     Cat (NotBehind is_name_char) (Cat (Grp ''name'' (Cat (Chr is_letter) (Rep 0 is_name_char)))
       (Cat (lit ''@'') (Cat (Grp ''current'' NUMBER) (Cat (lit ''C'')
         (Opt (Cat (lit ''/'') (Cat NUMBER (lit ''C''))))))))"

definition is_rail_char :: "char \<Rightarrow> bool" where
  "is_rail_char c \<longleftrightarrow> (65 \<le> code c \<and> code c \<le> 90) \<or> is_digit c \<or> c = CHR ''_''"

definition POWER_RE :: rx where
  "POWER_RE =
     Cat WordBoundary (Cat (Grp ''name'' (Cat (Or (lit ''VDD'') (lit ''VIN'')) (Rep 0 is_rail_char)))
       (Cat spaces1 (Cat (Grp ''current'' NUMBER) (Cat (lit ''mW'')
         (Cat (Opt (Cat (lit ''/'') (Cat (Grp ''extra1'' NUMBER) (lit ''mW''))))
           (Opt (Cat (lit ''/'') (Cat (Grp ''extra2'' NUMBER) (lit ''mW'')))))))))"

section \<open>Records\<close>

record cpu_core =
  utilization_pct :: "pyfloat option"
  frequency_mhz :: "pyfloat option"
  online :: "bool option"

record ram_sample =
  used_mb :: pyfloat
  total_mb :: pyfloat
  largest_free_block_count :: "int option"
  largest_free_block_mb :: "pyfloat option"

record swap_sample =
  swap_used_mb :: pyfloat
  swap_total_mb :: pyfloat
  cached_mb :: "pyfloat option"

record clock_activity =
  clock_utilization_pct :: "pyfloat option"
  frequencies_mhz :: "pyfloat list"

record power_sample =
  current_mw :: pyfloat
  reported_extra_mw :: "pyfloat list"

record parsed_line =
  ram :: "ram_sample option"
  swap :: "swap_sample option"
  cpu :: "cpu_core list"
  temperatures_c :: "(string \<times> pyfloat) list"
  power :: "(string \<times> power_sample) list"
  emc :: "clock_activity option"
  gr3d :: "clock_activity option"

section \<open>Numbers\<close>

definition to_number :: "pyfloat option \<Rightarrow> string option \<Rightarrow> pyfloat option" where
  "to_number minimum text =
     (case text of None \<Rightarrow> None
      | Some s \<Rightarrow>
          (case float_of_string s of Inl _ \<Rightarrow> None
           | Inr v \<Rightarrow>
               if \<not> isfinite v \<or> (case minimum of None \<Rightarrow> False | Some m \<Rightarrow> flt v m) then None else Some v))"

abbreviation nonnegative_number :: "string option \<Rightarrow> pyfloat option" where
  "nonnegative_number \<equiv> to_number (Some (Fin 0))"

definition utilization :: "string option \<Rightarrow> pyfloat option" where
  "utilization text =
     (case nonnegative_number text of None \<Rightarrow> None
      | Some v \<Rightarrow> if flt (Fin 100) v then None else Some v)"

section \<open>The parser\<close>

definition parse_core :: "pyfloat option \<Rightarrow> string \<Rightarrow> cpu_core" where
  "parse_core common core =
     (if py_lower core = ''off''
      then \<lparr>utilization_pct = None, frequency_mhz = None, online = Some False\<rparr>
      else case re_fullmatch CPU_CORE_RE core of
          None \<Rightarrow> \<lparr>utilization_pct = None, frequency_mhz = None, online = None\<rparr>
        | Some g \<Rightarrow>
            \<lparr>utilization_pct = utilization (group g ''util''),
             frequency_mhz =
               (case nonnegative_number (group g ''freq'') of None \<Rightarrow> common | Some f \<Rightarrow> Some f),
             online = (if utilization (group g ''util'') \<noteq> None then Some True else None)\<rparr>)"

definition parse_cpu :: "groups option \<Rightarrow> cpu_core list" where
  "parse_cpu m =
     (case m of None \<Rightarrow> []
      | Some g \<Rightarrow>
          map (parse_core (nonnegative_number (group g ''common_freq'')))
            (filter (\<lambda>core. core \<noteq> [])
              (map strip (split_on (CHR '','') (case group g ''cores'' of Some s \<Rightarrow> s | None \<Rightarrow> [])))))"

definition activity :: "pyfloat option \<Rightarrow> pyfloat list \<Rightarrow> clock_activity option" where
  "activity util freqs =
     (if util = None \<and> freqs = [] then None
      else Some \<lparr>clock_utilization_pct = util, frequencies_mhz = freqs\<rparr>)"

definition parse_clock :: "groups option \<Rightarrow> clock_activity option" where
  "parse_clock m =
     (case m of None \<Rightarrow> None
      | Some g \<Rightarrow>
          activity (utilization (group g ''util''))
            (case nonnegative_number (group g ''freq'') of None \<Rightarrow> [] | Some f \<Rightarrow> [f]))"

definition parse_gr3d :: "groups option \<Rightarrow> clock_activity option" where
  "parse_gr3d m =
     (case m of None \<Rightarrow> None
      | Some g \<Rightarrow>
          activity (utilization (group g ''util''))
            (case group g ''freqs'' of
               Some s \<Rightarrow> List.map_filter (\<lambda>t. nonnegative_number (Some (strip t))) (split_on (CHR '','') s)
             | None \<Rightarrow> (case nonnegative_number (group g ''single_freq'') of None \<Rightarrow> [] | Some f \<Rightarrow> [f])))"

text \<open>The count group holds digits only, on which \<open>int\<close> does not fail.\<close>

definition parse_ram :: "groups option \<Rightarrow> ram_sample option" where
  "parse_ram m =
     (case m of None \<Rightarrow> None
      | Some g \<Rightarrow>
          (case (nonnegative_number (group g ''used''), nonnegative_number (group g ''total'')) of
             (Some u, Some t) \<Rightarrow>
               if fle u t
               then Some \<lparr>used_mb = u, total_mb = t,
                          largest_free_block_count =
                            (case group g ''count'' of None \<Rightarrow> None
                             | Some s \<Rightarrow> (case int_of_string s of Inr n \<Rightarrow> Some n | Inl _ \<Rightarrow> None)),
                          largest_free_block_mb = nonnegative_number (group g ''size'')\<rparr>
               else None
           | _ \<Rightarrow> None))"

definition parse_swap :: "groups option \<Rightarrow> swap_sample option" where
  "parse_swap m =
     (case m of None \<Rightarrow> None
      | Some g \<Rightarrow>
          (case (nonnegative_number (group g ''used''), nonnegative_number (group g ''total'')) of
             (Some u, Some t) \<Rightarrow>
               if fle u t
               then Some \<lparr>swap_used_mb = u, swap_total_mb = t,
                          cached_mb = nonnegative_number (group g ''cached'')\<rparr>
               else None
           | _ \<Rightarrow> None))"

definition group_text :: "groups \<Rightarrow> string \<Rightarrow> string" where
  "group_text g n = (case group g n of None \<Rightarrow> [] | Some s \<Rightarrow> s)"

definition add_temperature :: "groups \<Rightarrow> (string \<times> pyfloat) list \<Rightarrow> (string \<times> pyfloat) list" where
  "add_temperature g d =
     (case to_number None (group g ''current'') of None \<Rightarrow> d
      | Some v \<Rightarrow> AList.update (py_lower (group_text g ''name'')) v d)"

definition add_power :: "groups \<Rightarrow> (string \<times> power_sample) list \<Rightarrow> (string \<times> power_sample) list" where
  "add_power g d =
     (case nonnegative_number (group g ''current'') of None \<Rightarrow> d
      | Some v \<Rightarrow>
          AList.update (group_text g ''name'')
            \<lparr>current_mw = v,
             reported_extra_mw =
               List.map_filter nonnegative_number [group g ''extra1'', group g ''extra2'']\<rparr> d)"

definition parse_tegrastats_line :: "string \<Rightarrow> parsed_line" where
  "parse_tegrastats_line line =
     \<lparr>ram = parse_ram (re_search RAM_RE line), swap = parse_swap (re_search SWAP_RE line),
      cpu = parse_cpu (re_search CPU_RE line),
      temperatures_c = fold add_temperature (re_finditer TEMPERATURE_RE line) [],
      power = fold add_power (re_finditer POWER_RE line) [],
      emc = parse_clock (re_search EMC_RE line), gr3d = parse_gr3d (re_search GR3D_RE line)\<rparr>"

text \<open>The available memory, from the lines of \<open>/proc/meminfo\<close>.\<close>

fun read_mem_available_mb :: "string list \<Rightarrow> pyfloat res" where
  "read_mem_available_mb [] = Inl (ValueError ''MemAvailable is missing or invalid'')"
| "read_mem_available_mb (line # ls) =
     (case py_words [] line of
        key # rest \<Rightarrow>
          if rest \<noteq> [] \<and> key = ''MemAvailable:''
          then (case rest of
                  v # unit # _ \<Rightarrow>
                    (case (unit = ''kB'', nonnegative_number (Some v)) of
                       (True, Some kb) \<Rightarrow> fdiv kb (Fin 1024)
                     | _ \<Rightarrow> Inl (ValueError ''MemAvailable is missing or invalid''))
                | _ \<Rightarrow> Inl (ValueError ''MemAvailable is missing or invalid''))
          else read_mem_available_mb ls
      | [] \<Rightarrow> read_mem_available_mb ls)"

section \<open>What every parsed line satisfies\<close>

definition nonneg_finite :: "pyfloat \<Rightarrow> bool" where
  "nonneg_finite v \<longleftrightarrow> isfinite v \<and> fle (Fin 0) v"

definition percentage :: "pyfloat \<Rightarrow> bool" where
  "percentage v \<longleftrightarrow> nonneg_finite v \<and> fle v (Fin 100)"

definition clock_ok :: "clock_activity \<Rightarrow> bool" where
  "clock_ok c \<longleftrightarrow>
     pred_option percentage (clock_utilization_pct c) \<and> list_all nonneg_finite (frequencies_mhz c) \<and>
     (clock_utilization_pct c \<noteq> None \<or> frequencies_mhz c \<noteq> [])"

definition core_ok :: "cpu_core \<Rightarrow> bool" where
  "core_ok c \<longleftrightarrow>
     pred_option percentage (utilization_pct c) \<and> pred_option nonneg_finite (frequency_mhz c) \<and>
     (online c = Some True \<longleftrightarrow> utilization_pct c \<noteq> None)"

definition parsed_ok :: "parsed_line \<Rightarrow> bool" where
  "parsed_ok p \<longleftrightarrow>
     pred_option (\<lambda>r. nonneg_finite (used_mb r) \<and> nonneg_finite (total_mb r) \<and> fle (used_mb r) (total_mb r) \<and>
       pred_option nonneg_finite (largest_free_block_mb r)) (ram p) \<and>
     pred_option (\<lambda>r. nonneg_finite (swap_used_mb r) \<and> nonneg_finite (swap_total_mb r) \<and>
       fle (swap_used_mb r) (swap_total_mb r) \<and> pred_option nonneg_finite (cached_mb r)) (swap p) \<and>
     list_all core_ok (cpu p) \<and>
     distinct (map fst (temperatures_c p)) \<and>
     list_all (\<lambda>(k, v). py_lower k = k \<and> isfinite v) (temperatures_c p) \<and>
     distinct (map fst (power p)) \<and>
     list_all (\<lambda>(k, v). nonneg_finite (current_mw v) \<and> list_all nonneg_finite (reported_extra_mw v)) (power p) \<and>
     pred_option clock_ok (emc p) \<and> pred_option clock_ok (gr3d p)"

lemma nonnegative_number_ok: "nonnegative_number t = Some v \<Longrightarrow> nonneg_finite v"
  by (auto simp: to_number_def nonneg_finite_def isfinite_Fin split: option.splits sum.splits if_splits)

lemma pred_nonnegative_number: "pred_option nonneg_finite (nonnegative_number t)"
  by (cases "nonnegative_number t") (simp_all add: nonnegative_number_ok)

lemma utilization_ok: "pred_option percentage (utilization t)"
  using nonnegative_number_ok [of t]
  by (auto simp: utilization_def percentage_def nonneg_finite_def isfinite_Fin split: option.splits)

lemma to_number_finite: "to_number m t = Some v \<Longrightarrow> isfinite v"
  by (auto simp: to_number_def split: option.splits sum.splits if_splits)

lemma map_filter_nonneg: "list_all nonneg_finite (List.map_filter (\<lambda>x. nonnegative_number (f x)) xs)"
  by (induction xs) (auto simp: map_filter_simps nonnegative_number_ok split: option.splits)

lemma activity_ok:
  assumes "pred_option percentage u" and "list_all nonneg_finite fs"
  shows "pred_option clock_ok (activity u fs)"
  using assms by (auto simp: activity_def clock_ok_def)

lemma parse_clock_ok: "pred_option clock_ok (parse_clock m)"
  by (auto simp: parse_clock_def nonnegative_number_ok intro!: activity_ok utilization_ok split: option.splits)

lemma parse_gr3d_ok: "pred_option clock_ok (parse_gr3d m)"
  using map_filter_nonneg [of "\<lambda>t. Some (strip t)"]
  by (auto simp: parse_gr3d_def nonnegative_number_ok intro!: activity_ok utilization_ok split: option.splits)

lemma parse_core_ok: "pred_option nonneg_finite common \<Longrightarrow> core_ok (parse_core common core)"
  using utilization_ok pred_nonnegative_number
  by (auto simp: parse_core_def core_ok_def nonnegative_number_ok split: option.splits)

lemma parse_cpu_ok: "list_all core_ok (parse_cpu m)"
  using parse_core_ok [OF pred_nonnegative_number]
  by (auto simp: parse_cpu_def list_all_iff split: option.splits)

lemma py_lower_idem: "py_lower (py_lower s) = py_lower s"
proof -
  have "lower_char (lower_char c) = lower_char c" for c
  proof (cases "65 \<le> code c \<and> code c \<le> 90")
    case True
    then have "code (char_of (code c + 32)) = code c + 32" by (intro code_char_of) simp
    with True show ?thesis by (simp add: lower_char_def)
  qed (auto simp: lower_char_def)
  then show ?thesis by (simp add: py_lower_def)
qed

lemma fold_update_ok:
  assumes "distinct (map fst d)" and "list_all P d"
    and "\<And>g e. distinct (map fst e) \<Longrightarrow> list_all P e \<Longrightarrow> distinct (map fst (f g e)) \<and> list_all P (f g e)"
  shows "distinct (map fst (fold f gs d)) \<and> list_all P (fold f gs d)"
  using assms by (induction gs arbitrary: d) auto

lemma update_all: "list_all P d \<Longrightarrow> P (k, v) \<Longrightarrow> list_all P (AList.update k v d)"
  by (induction d) auto

lemma temperatures_ok:
  "distinct (map fst (fold add_temperature gs [])) \<and>
   list_all (\<lambda>(k, v). py_lower k = k \<and> isfinite v) (fold add_temperature gs [])"
  by (rule fold_update_ok)
    (auto simp: add_temperature_def distinct_update update_all py_lower_idem to_number_finite split: option.splits)

lemma powers_ok:
  "distinct (map fst (fold add_power gs [])) \<and>
   list_all (\<lambda>(k, v). nonneg_finite (current_mw v) \<and> list_all nonneg_finite (reported_extra_mw v))
     (fold add_power gs [])"
  using map_filter_nonneg [of id]
  by (intro fold_update_ok)
    (auto simp: add_power_def distinct_update update_all nonnegative_number_ok split: option.splits)

text \<open>
  C38: whatever the text of a \<open>tegrastats\<close> line, the parsed sample is well formed: utilizations are
  percentages, frequencies and powers finite and nonnegative, used memory does not exceed the total,
  temperatures are finite and keyed by distinct lower-case names, a core is online exactly when it
  reports a utilization, and a clock entry is never empty.
\<close>

theorem parsed_line_well_formed: "parsed_ok (parse_tegrastats_line line)"
proof -
  have ram: "pred_option (\<lambda>r. nonneg_finite (used_mb r) \<and> nonneg_finite (total_mb r) \<and>
      fle (used_mb r) (total_mb r) \<and> pred_option nonneg_finite (largest_free_block_mb r)) (parse_ram m)" for m
    using nonnegative_number_ok pred_nonnegative_number by (auto simp: parse_ram_def split: option.splits)
  have swap: "pred_option (\<lambda>r. nonneg_finite (swap_used_mb r) \<and> nonneg_finite (swap_total_mb r) \<and>
      fle (swap_used_mb r) (swap_total_mb r) \<and> pred_option nonneg_finite (cached_mb r)) (parse_swap m)" for m
    using nonnegative_number_ok pred_nonnegative_number by (auto simp: parse_swap_def split: option.splits)
  show ?thesis
    unfolding parsed_ok_def parse_tegrastats_line_def
    by (simp add: ram swap parse_cpu_ok temperatures_ok powers_ok parse_clock_ok parse_gr3d_ok)
qed

section \<open>Round trip of the memory counters\<close>

lemma rmatch_lit_fail: "s = [] \<or> hd s \<noteq> c \<Longrightarrow> rmatch (lit (c # cs)) (pre, s) = []"
  by (cases s) (auto simp: lit_def)

lemma rmatch_Cat_fail: "rmatch a p = [] \<Longrightarrow> rmatch (Cat a b) p = []"
  by simp

lemma first_lit: "first (lit w) (pre, w @ s) (rev w @ pre, s) []"
proof (induction w arbitrary: pre)
  case Nil
  then show ?case by (simp add: lit_def first_Eps)
next
  case (Cons c w)
  have "first (Chr (\<lambda>x. x = c)) (pre, c # (w @ s)) (c # pre, w @ s) []" by (rule first_Chr) simp
  from first_Cat [OF this Cons.IH [of "c # pre"]] show ?case by (simp add: lit_def)
qed

lemma first_number:
  assumes "w \<noteq> []" and "\<forall>c \<in> set w. is_digit c" and "s = [] \<or> (\<not> is_digit (hd s) \<and> hd s \<noteq> CHR ''.'')"
  shows "first NUMBER (pre, w @ s) (rev w @ pre, s) []"
proof -
  have "hd (w @ s) \<noteq> CHR ''-''" using assms(1,2) by (cases w) auto
  then have minus: "first (Opt (lit ''-'')) (pre, w @ s) (pre, w @ s) []"
    by (intro first_Opt_none rmatch_lit_fail) simp
  have "first digits1 (pre, w @ s) (rev w @ pre, s) []"
    unfolding digits1_def using assms by (intro first_Rep) (auto simp: Suc_le_eq)
  moreover have "first (Opt (Cat (lit ''.'') (Rep 0 is_digit))) (rev w @ pre, s) (rev w @ pre, s) []"
    using assms(3) by (intro first_Opt_none rmatch_Cat_fail rmatch_lit_fail) auto
  ultimately have "first (Cat digits1 (Opt (Cat (lit ''.'') (Rep 0 is_digit)))) (pre, w @ s) (rev w @ pre, s) ([] @ [])"
    by (rule first_Cat)
  from first_Cat [OF minus first_Or1 [OF this]] show ?thesis by (simp add: NUMBER_def)
qed

lemma first_number_group:
  assumes "w \<noteq> []" and "\<forall>c \<in> set w. is_digit c" and "s = [] \<or> (\<not> is_digit (hd s) \<and> hd s \<noteq> CHR ''.'')"
  shows "first (Grp n NUMBER) (pre, w @ s) (rev w @ pre, s) [(n, w)]"
  using first_Grp [OF first_number [OF assms]] by simp

lemma first_spaces: "s = [] \<or> \<not> is_space (hd s) \<Longrightarrow> first spaces1 (pre, CHR '' '' # s) (CHR '' '' # pre, s) []"
  using first_Rep [of "[CHR '' '']" is_space s 1 pre] by (simp add: spaces1_def is_space_def code_def)

lemma float_of_digits:
  assumes "n \<le> 2 ^ 53"
  shows "float_of_string (str_of_nat n) = Inr (Fin (of_nat n))"
proof -
  obtain c cs where s: "str_of_nat n = c # cs" by (cases "str_of_nat n") auto
  then have c: "is_digit c" using str_of_nat_digits [of c n] by simp
  have dig: "is_digit (last (str_of_nat n))" using str_of_nat_digits [of "last (str_of_nat n)" n] by simp
  have st: "strip (str_of_nat n) = str_of_nat n" using c dig s by (intro strip_id) auto
  have sign: "take_sign (str_of_nat n) = (False, str_of_nat n)" using s c by simp
  have run: "digits_run (str_of_nat n) = (digits_of n, [])"
    unfolding str_of_nat_def by (rule digits_run_chars [OF digits_of_small])
  have "lower_char d = d" if "d \<in> set (str_of_nat n)" for d
    using str_of_nat_digits [OF that] by (simp add: lower_char_def is_digit_def)
  then have low: "py_lower (str_of_nat n) = str_of_nat n"
    unfolding py_lower_def by (rule map_idI)
  have "str_of_nat n \<notin> {''inf'', ''infinity'', ''nan''}"
    using s c by (auto simp: is_digit_def code_def)
  moreover have "parse_decimal (str_of_nat n) = Some (fl (of_nat n))"
    by (simp add: parse_decimal_def run scale10_def)
  moreover have "fl (of_nat n) = Fin (of_nat n)"
    using fl_of_int [of "int n"] assms by simp
  ultimately show ?thesis by (simp add: float_of_string_def st sign low)
qed

lemma nonnegative_number_digits:
  "n \<le> 2 ^ 53 \<Longrightarrow> nonnegative_number (Some (str_of_nat n)) = Some (Fin (of_nat n))"
  by (simp add: to_number_def float_of_digits)

lemma not_digit_slash [simp]: "\<not> is_digit (CHR ''/'')" "\<not> is_digit (CHR ''M'')"
  by (simp_all add: is_digit_def code_def)

lemma ram_groups:
  "re_search RAM_RE (''RAM '' @ str_of_nat u @ ''/'' @ str_of_nat t @ ''MB'') =
   Some [(''used'', str_of_nat u), (''total'', str_of_nat t)]"
proof -
  have digits: "str_of_nat n \<noteq> []" "\<forall>c \<in> set (str_of_nat n). is_digit c" for n
    using str_of_nat_digits by auto
  have hd: "\<not> is_space (hd (str_of_nat u @ r))" for r
    using digits [of u] by (cases "str_of_nat u") auto
  let ?s1 = "str_of_nat u @ ''/'' @ str_of_nat t @ ''MB''"
  let ?p1 = "rev ''RAM''" let ?p2 = "CHR '' '' # ?p1" let ?p3 = "rev (str_of_nat u) @ ?p2"
  let ?p4 = "rev ''/'' @ ?p3" let ?p5 = "rev (str_of_nat t) @ ?p4" let ?p6 = "rev ''MB'' @ ?p5"
  have b: "first WordBoundary ([], ''RAM'' @ '' '' @ ?s1) ([], ''RAM'' @ '' '' @ ?s1) []"
    by (rule first_boundary) (simp add: word_at_def is_word_def code_def)
  have l: "first (lit ''RAM'') ([], ''RAM'' @ '' '' @ ?s1) (?p1, '' '' @ ?s1) []"
    using first_lit [of "''RAM''" "[]" "'' '' @ ?s1"] by simp
  have sp: "first spaces1 (?p1, '' '' @ ?s1) (?p2, ?s1) []"
    using first_spaces [of ?s1 ?p1] hd by simp
  have g1: "first (Grp ''used'' NUMBER) (?p2, ?s1) (?p3, ''/'' @ str_of_nat t @ ''MB'') [(''used'', str_of_nat u)]"
    by (rule first_number_group) (use digits in auto)
  have sl: "first (lit ''/'') (?p3, ''/'' @ str_of_nat t @ ''MB'') (?p4, str_of_nat t @ ''MB'') []"
    by (rule first_lit)
  have g2: "first (Grp ''total'' NUMBER) (?p4, str_of_nat t @ ''MB'') (?p5, ''MB'') [(''total'', str_of_nat t)]"
    by (rule first_number_group) (use digits in auto)
  have mb: "first (lit ''MB'') (?p5, ''MB'') (?p6, []) []"
    using first_lit [of "''MB''" ?p5 "[]"] by simp
  have opt: "first (Opt (Cat spaces1 r)) (?p6, []) (?p6, []) []" for r
    by (rule first_Opt_none) (simp add: spaces1_def)
  from first_Cat [OF b first_Cat [OF l first_Cat [OF sp first_Cat [OF g1 first_Cat [OF sl
      first_Cat [OF g2 first_Cat [OF mb opt]]]]]]]
  have "first RAM_RE ([], ''RAM'' @ '' '' @ ?s1) (?p6, []) [(''used'', str_of_nat u), (''total'', str_of_nat t)]"
    unfolding RAM_RE_def by simp
  from re_search_first [OF this] show ?thesis by simp
qed

text \<open>
  The memory counters round-trip: parsing a line that reports \<open>u\<close> of \<open>t\<close> megabytes used gives
  exactly those two numbers, for all \<open>u <= t\<close> up to the 53 bits of a double.
\<close>

lemma ram_counters_roundtrip:
  assumes "u \<le> t" and "t \<le> 2 ^ 53"
  shows "ram (parse_tegrastats_line (''RAM '' @ str_of_nat u @ ''/'' @ str_of_nat t @ ''MB'')) =
    Some \<lparr>used_mb = Fin (of_nat u), total_mb = Fin (of_nat t), largest_free_block_count = None,
          largest_free_block_mb = None\<rparr>"
proof -
  have "nonnegative_number (Some (str_of_nat u)) = Some (Fin (of_nat u))"
    "nonnegative_number (Some (str_of_nat t)) = Some (Fin (of_nat t))"
    using assms by (simp_all only: nonnegative_number_digits order_trans [OF assms])
  then show ?thesis
    using assms(1) unfolding parse_tegrastats_line_def
    by (simp only: parsed_line.select_convs ram_groups)
      (simp add: parse_ram_def group_def to_number_def [of _ None])
qed

lemma ram_counters_roundtrip_witness:
  "ram (parse_tegrastats_line (''RAM '' @ str_of_nat 3152 @ ''/'' @ str_of_nat 124546 @ ''MB'')) =
    Some \<lparr>used_mb = Fin 3152, total_mb = Fin 124546, largest_free_block_count = None,
          largest_free_block_mb = None\<rparr>"
  using ram_counters_roundtrip [of 3152 124546] by simp

end
