(* ===== verification/TelemetryStats.thy ===== *)
theory TelemetryStats
  imports TelemetryParse "HOL-Library.List_Lexorder" "HOL-Library.Char_ord"
begin

text \<open>
  The second part of \<open>runtime/tegrastats_telemetry.py\<close>: validated samples, the test of required
  fields, the numeric summaries and \<open>aggregate_samples\<close>, the health assessment of an interval of
  telemetry.
\<close>

section \<open>Validators and samples\<close>

definition validated_monotonic_ns :: "pyval \<Rightarrow> int res" where
  "validated_monotonic_ns v =
     (case genuine_int v of
        None \<Rightarrow> Inl (ValueError ''monotonic_ns must be a non-negative integer'')
      | Some n \<Rightarrow> if n < 0 then Inl (ValueError ''monotonic_ns must be a non-negative integer'') else Inr n)"

text \<open>Only \<open>TypeError\<close> and \<open>ValueError\<close> of \<open>float(value)\<close> are translated; an overflow passes through.\<close>

definition validated_mem_available_mb :: "pyval \<Rightarrow> pyfloat res" where
  "validated_mem_available_mb v =
     (case to_float v of
        Inl TypeError \<Rightarrow> Inl (ValueError ''MemAvailable must be numeric'')
      | Inl (ValueError m) \<Rightarrow> Inl (ValueError ''MemAvailable must be numeric'')
      | Inl e \<Rightarrow> Inl e
      | Inr x \<Rightarrow>
          if \<not> isfinite x \<or> flt x (Fin 0)
          then Inl (ValueError ''MemAvailable must be finite and non-negative'') else Inr x)"

text \<open>The field \<open>ident\<close> is the identity of the object, which the monitor compares with \<open>id\<close>.\<close>

record telemetry_sample =
  ident :: nat
  monotonic_ns :: int
  raw :: string
  parsed :: parsed_line
  mem_available_mb :: "pyfloat option"
  collection_errors :: "string list"

definition new_sample ::
  "nat \<Rightarrow> int \<Rightarrow> string \<Rightarrow> parsed_line \<Rightarrow> pyfloat option \<Rightarrow> string list \<Rightarrow> telemetry_sample res" where
  "new_sample i ns line p mem errors =
     bnd (validated_monotonic_ns (VInt ns)) (\<lambda>_.
     bnd (case mem of None \<Rightarrow> Inr (Fin 0) | Some v \<Rightarrow> validated_mem_available_mb (VFloat v)) (\<lambda>_.
       Inr \<lparr>ident = i, monotonic_ns = ns, raw = line, parsed = p, mem_available_mb = mem,
            collection_errors = errors\<rparr>))"

section \<open>Required fields\<close>

definition starts_with :: "string \<Rightarrow> string \<Rightarrow> bool" where
  "starts_with p s \<longleftrightarrow> take (length p) s = p"

definition after_colon :: "string \<Rightarrow> string" where
  "after_colon s = (case snd (split_once (CHR '':'') s) of None \<Rightarrow> [] | Some r \<Rightarrow> r)"

text \<open>The chain of tests on the field's name selects one predicate on samples.\<close>

definition field_test :: "string \<Rightarrow> (telemetry_sample \<Rightarrow> bool) option" where
  "field_test field =
     (if field = ''ram'' then Some (\<lambda>s. ram (parsed s) \<noteq> None)
      else if field = ''mem_available'' then Some (\<lambda>s. mem_available_mb s \<noteq> None)
      else if field = ''cpu'' then Some (\<lambda>s. list_ex (\<lambda>c. utilization_pct c \<noteq> None) (cpu (parsed s)))
      else if field = ''temperature'' then Some (\<lambda>s. temperatures_c (parsed s) \<noteq> [])
      else if starts_with ''temperature:'' field
      then Some (\<lambda>s. map_of (temperatures_c (parsed s)) (py_lower (after_colon field)) \<noteq> None)
      else if field = ''power'' then Some (\<lambda>s. power (parsed s) \<noteq> [])
      else if starts_with ''power:'' field
      then Some (\<lambda>s. map_of (power (parsed s)) (py_upper (after_colon field)) \<noteq> None)
      else if field = ''emc'' then Some (\<lambda>s. emc (parsed s) \<noteq> None)
      else if field = ''emc_utilization''
      then Some (\<lambda>s. case emc (parsed s) of None \<Rightarrow> False | Some c \<Rightarrow> clock_utilization_pct c \<noteq> None)
      else if field = ''emc_frequency''
      then Some (\<lambda>s. case emc (parsed s) of None \<Rightarrow> False | Some c \<Rightarrow> frequencies_mhz c \<noteq> [])
      else if field = ''gr3d'' then Some (\<lambda>s. gr3d (parsed s) \<noteq> None)
      else if field = ''gr3d_utilization''
      then Some (\<lambda>s. case gr3d (parsed s) of None \<Rightarrow> False | Some c \<Rightarrow> clock_utilization_pct c \<noteq> None)
      else if field = ''gr3d_frequency''
      then Some (\<lambda>s. case gr3d (parsed s) of None \<Rightarrow> False | Some c \<Rightarrow> frequencies_mhz c \<noteq> [])
      else None)"

definition field_present :: "telemetry_sample \<Rightarrow> string \<Rightarrow> bool res" where
  "field_present s field =
     (case field_test field of
        None \<Rightarrow> Inl (ValueError ''unknown required telemetry field'')
      | Some p \<Rightarrow> Inr (p s))"

text \<open>\<open>all(_field_present(sample, field) for field in required)\<close> stops at the first absent field.\<close>

fun all_present :: "telemetry_sample \<Rightarrow> string list \<Rightarrow> bool res" where
  "all_present s [] = Inr True"
| "all_present s (f # fs) = bnd (field_present s f) (\<lambda>b. if b then all_present s fs else Inr False)"

text \<open>The same tests once every field name has been checked.\<close>

definition has_field :: "telemetry_sample \<Rightarrow> string \<Rightarrow> bool" where
  "has_field s field = (case field_test field of None \<Rightarrow> False | Some p \<Rightarrow> p s)"

definition complete :: "string list \<Rightarrow> telemetry_sample \<Rightarrow> bool" where
  "complete required s \<longleftrightarrow> list_all (has_field s) required"

definition known_field :: "string \<Rightarrow> bool" where
  "known_field field \<longleftrightarrow> field_test field \<noteq> None"

lemma all_present_known:
  "list_all known_field fs \<Longrightarrow> all_present s fs = Inr (complete fs s)"
  by (induction fs) (auto simp: field_present_def known_field_def complete_def has_field_def)

lemma all_present_True: "all_present s fs = Inr True \<Longrightarrow> complete fs s"
  by (induction fs)
    (auto simp: bnd_eq_Inr field_present_def complete_def has_field_def split: option.splits if_splits)

section \<open>Numeric summaries\<close>

record numeric_summary_record =
  count :: nat
  mean :: pyfloat
  smallest :: pyfloat
  p50 :: pyfloat
  p95 :: pyfloat
  largest :: pyfloat

definition percentile_of :: "pyfloat list \<Rightarrow> pyfloat \<Rightarrow> pyfloat res" where
  "percentile_of ordered fraction =
     (if length ordered = 1 then Inr (ordered ! 0)
      else
        bnd (float_of_int (int (length ordered) - 1)) (\<lambda>n.
        let position = fmul fraction n in
        bnd (math_floor position) (\<lambda>lower.
        bnd (math_ceil position) (\<lambda>upper.
          if lower = upper then py_index ordered lower
          else
            bnd (float_of_int lower) (\<lambda>fl_lower.
            let weight = fsub position fl_lower in
            bnd (py_index ordered lower) (\<lambda>a.
            bnd (py_index ordered upper) (\<lambda>b.
              Inr (fadd (fmul a (fsub (Fin 1) weight)) (fmul b weight)))))))))"

definition numeric_summary :: "pyfloat list \<Rightarrow> numeric_summary_record option res" where
  "numeric_summary values =
     (let ordered = sort (filter isfinite values) in
      if ordered = [] then Inr None
      else
        bnd (fmean ordered) (\<lambda>m.
        bnd (percentile_of ordered (fl (1 / 2))) (\<lambda>median.
        bnd (percentile_of ordered (fl (95 / 100))) (\<lambda>high.
          Inr (Some \<lparr>count = length ordered, mean = m, smallest = hd ordered, p50 = median,
                     p95 = high, largest = last ordered\<rparr>)))))"

section \<open>Aggregates\<close>

record core_summary =
  core :: nat
  core_utilization :: "numeric_summary_record option"
  core_frequency :: "numeric_summary_record option"
  online_samples :: nat
  off_samples :: nat
  unknown_samples :: nat

record cpu_summary =
  mean_across_online_cores_pct :: "numeric_summary_record option"
  cores :: "core_summary list"

definition count_if :: "('a \<Rightarrow> bool) \<Rightarrow> 'a list \<Rightarrow> nat" where
  "count_if p xs = length (filter p xs)"

definition max_length :: "nat list \<Rightarrow> nat" where
  "max_length ns = foldr max ns 0"

definition summarize_core :: "telemetry_sample list \<Rightarrow> nat \<Rightarrow> core_summary res" where
  "summarize_core samples index =
     (let entries = map (\<lambda>s. cpu (parsed s) ! index) (filter (\<lambda>s. index < length (cpu (parsed s))) samples) in
      bnd (numeric_summary (List.map_filter utilization_pct entries)) (\<lambda>util.
      bnd (numeric_summary (List.map_filter frequency_mhz entries)) (\<lambda>freq.
        Inr \<lparr>core = index, core_utilization = util, core_frequency = freq,
             online_samples = count_if (\<lambda>e. online e = Some True) entries,
             off_samples = count_if (\<lambda>e. online e = Some False) entries,
             unknown_samples = count_if (\<lambda>e. online e = None) entries\<rparr>)))"

definition per_cpu_aggregate :: "telemetry_sample list \<Rightarrow> cpu_summary res" where
  "per_cpu_aggregate samples =
     bnd (map_res (summarize_core samples) [0..<max_length (map (\<lambda>s. length (cpu (parsed s))) samples)]) (\<lambda>cs.
     bnd (map_res fmean
            (filter (\<lambda>vs. vs \<noteq> []) (map (\<lambda>s. List.map_filter utilization_pct (cpu (parsed s))) samples))) (\<lambda>means.
     bnd (numeric_summary means) (\<lambda>m.
       Inr \<lparr>mean_across_online_cores_pct = m, cores = cs\<rparr>)))"

definition mapping_aggregate ::
  "(telemetry_sample \<Rightarrow> (string \<times> pyfloat) list) \<Rightarrow> telemetry_sample list \<Rightarrow>
   (string \<times> numeric_summary_record option) list res" where
  "mapping_aggregate getter samples =
     map_res
       (\<lambda>name. bnd (numeric_summary (List.map_filter (\<lambda>s. map_of (getter s) name) samples)) (\<lambda>v. Inr (name, v)))
       (sort (uniq (map fst (concat (map getter samples)))))"

record clock_summary =
  utilization_summary :: "numeric_summary_record option"
  frequency_summaries :: "numeric_summary_record option list"

definition clock_aggregate ::
  "(telemetry_sample \<Rightarrow> clock_activity option) \<Rightarrow> telemetry_sample list \<Rightarrow> clock_summary option res" where
  "clock_aggregate getter samples =
     (let clocks = List.map_filter getter samples in
      if clocks = [] then Inr None
      else
        bnd (numeric_summary (List.map_filter clock_utilization_pct clocks)) (\<lambda>util.
        bnd (map_res
              (\<lambda>index. numeric_summary
                 (map (\<lambda>c. frequencies_mhz c ! index) (filter (\<lambda>c. index < length (frequencies_mhz c)) clocks)))
              [0..<max_length (map (\<lambda>c. length (frequencies_mhz c)) clocks)]) (\<lambda>freqs.
          Inr (Some \<lparr>utilization_summary = util, frequency_summaries = freqs\<rparr>))))"

section \<open>The health assessment of an interval\<close>

record aggregate_options =
  required_fields :: "string list"
  minimum_valid_samples :: pyval
  require_all_samples_valid :: bool
  reference_ns :: pyval
  stale_after_ns :: pyval
  maximum_valid_gap_ns :: pyval
  end_inclusive :: pyval

record interval_request =
  start_at :: int
  end_at :: int
  inclusive :: bool
  minimum_valid :: int
  strict_completeness :: bool
  stale_limit :: "int option"
  gap_limit :: "int option"
  reference_at :: int
  required :: "string list"

definition optional_ns :: "pyval \<Rightarrow> int option res" where
  "optional_ns v =
     (if v = VNone then Inr None else bnd (validated_monotonic_ns v) (\<lambda>n. Inr (Some n)))"

definition check_request :: "pyval \<Rightarrow> pyval \<Rightarrow> aggregate_options \<Rightarrow> interval_request res" where
  "check_request start_ns end_ns opts =
     bnd (validated_monotonic_ns start_ns) (\<lambda>start.
     bnd (validated_monotonic_ns end_ns) (\<lambda>stop.
       if stop \<le> start then Inl (ValueError ''the telemetry interval must be positive'')
       else case end_inclusive opts of
         VBool incl \<Rightarrow>
           (case genuine_int (minimum_valid_samples opts) of
              None \<Rightarrow> Inl (ValueError ''minimum_valid_samples must be positive'')
            | Some minimum \<Rightarrow>
                if minimum \<le> 0 then Inl (ValueError ''minimum_valid_samples must be positive'')
                else
                  bnd (optional_ns (stale_after_ns opts)) (\<lambda>stale.
                  bnd (optional_ns (maximum_valid_gap_ns opts)) (\<lambda>gap.
                    if gap = Some 0 then Inl (ValueError ''maximum_valid_gap_ns must be positive'')
                    else
                      bnd (optional_ns (reference_ns opts)) (\<lambda>ref.
                      let reference = (case ref of None \<Rightarrow> stop | Some r \<Rightarrow> r) in
                        if reference < stop
                        then Inl (ValueError ''reference_ns must be at or after the interval end'')
                        else if \<not> list_all known_field (uniq (required_fields opts))
                        then Inl (ValueError ''unknown required telemetry field'')
                        else
                          Inr \<lparr>start_at = start, end_at = stop, inclusive = incl, minimum_valid = minimum,
                               strict_completeness = require_all_samples_valid opts, stale_limit = stale,
                               gap_limit = gap, reference_at = reference,
                               required = uniq (required_fields opts)\<rparr>))))
       | _ \<Rightarrow> Inl (ValueError ''end_inclusive must be boolean'')))"

definition in_interval :: "int \<Rightarrow> int \<Rightarrow> bool \<Rightarrow> telemetry_sample \<Rightarrow> bool" where
  "in_interval start stop incl s \<longleftrightarrow>
     start \<le> monotonic_ns s \<and> (monotonic_ns s < stop \<or> (incl \<and> monotonic_ns s = stop))"

definition selected_samples :: "interval_request \<Rightarrow> telemetry_sample list \<Rightarrow> telemetry_sample list" where
  "selected_samples r samples =
     sort_key monotonic_ns (filter (in_interval (start_at r) (end_at r) (inclusive r)) samples)"

definition observed_samples :: "interval_request \<Rightarrow> telemetry_sample list \<Rightarrow> telemetry_sample list" where
  "observed_samples r samples =
     sort_key monotonic_ns (filter (\<lambda>s. monotonic_ns s \<le> reference_at r) samples)"

definition last_ns :: "telemetry_sample list \<Rightarrow> int option" where
  "last_ns xs = (if xs = [] then None else Some (monotonic_ns (last xs)))"

definition older_than :: "int \<Rightarrow> int option \<Rightarrow> int option \<Rightarrow> bool" where
  "older_than reference limit latest =
     (case limit of None \<Rightarrow> False
      | Some n \<Rightarrow> (case latest of None \<Rightarrow> True | Some t \<Rightarrow> n < reference - t))"

definition observed_gap :: "int \<Rightarrow> int \<Rightarrow> int list \<Rightarrow> int" where
  "observed_gap start stop ts =
     (if ts = [] then stop - start
      else foldl max (hd ts - start) ((stop - last ts) # map (\<lambda>(a, b). b - a) (adjacent ts)))"

record telemetry_health =
  healthy :: bool
  reasons :: "string list"
  health_required :: "string list"
  health_strict :: bool
  missing_counts :: "(string \<times> nat) list"
  incomplete_samples :: nat
  last_interval_sample_ns :: "int option"
  last_sample_ns :: "int option"
  last_valid_sample_ns :: "int option"
  stale :: bool
  valid_sample_stale :: bool
  health_gap_limit :: "int option"
  observed_maximum_valid_gap_ns :: "int option"
  valid_gap_exceeded :: bool
  collection_error_samples :: nat

definition assess_health ::
  "interval_request \<Rightarrow> telemetry_sample list \<Rightarrow> int option \<Rightarrow> int option \<Rightarrow> telemetry_health" where
  "assess_health r selected latest latest_valid =
     (let valid = filter (complete (required r)) selected;
          is_stale = older_than (reference_at r) (stale_limit r) latest;
          valid_stale = older_than (reference_at r) (stale_limit r) latest_valid;
          gap = (case gap_limit r of None \<Rightarrow> None
                 | Some _ \<Rightarrow> Some (observed_gap (start_at r) (end_at r) (map monotonic_ns valid)));
          exceeded = (case (gap_limit r, gap) of (Some limit, Some g) \<Rightarrow> limit < g | _ \<Rightarrow> False);
          why =
            (if selected = [] then [''no_samples''] else []) @
            (if int (length valid) < minimum_valid r then [''insufficient_valid_samples''] else []) @
            (if strict_completeness r \<and> length valid \<noteq> length selected then [''incomplete_samples''] else []) @
            (if is_stale then [''stale_stream''] else []) @
            (if valid_stale \<and> \<not> is_stale then [''stale_valid_sample''] else []) @
            (if exceeded then [''valid_sample_gap_exceeded''] else [])
      in \<lparr>healthy = (why = []), reasons = why, health_required = required r,
          health_strict = strict_completeness r,
          missing_counts = map (\<lambda>f. (f, count_if (\<lambda>s. \<not> has_field s f) selected)) (required r),
          incomplete_samples = length selected - length valid,
          last_interval_sample_ns = last_ns selected, last_sample_ns = latest,
          last_valid_sample_ns = latest_valid, stale = is_stale, valid_sample_stale = valid_stale,
          health_gap_limit = gap_limit r, observed_maximum_valid_gap_ns = gap,
          valid_gap_exceeded = exceeded,
          collection_error_samples = count_if (\<lambda>s. collection_errors s \<noteq> []) selected\<rparr>)"

record ram_summary =
  ram_used_mb :: "numeric_summary_record option"
  ram_total_mb :: "numeric_summary_record option"
  ram_headroom_mb :: "numeric_summary_record option"
  ram_block_count :: "numeric_summary_record option"
  ram_block_mb :: "numeric_summary_record option"

definition ram_aggregate :: "telemetry_sample list \<Rightarrow> ram_summary res" where
  "ram_aggregate valid =
     (let rams = List.map_filter (\<lambda>s. ram (parsed s)) valid in
      bnd (numeric_summary (map used_mb rams)) (\<lambda>used.
      bnd (numeric_summary (map total_mb rams)) (\<lambda>total.
      bnd (numeric_summary (map (\<lambda>r. fsub (total_mb r) (used_mb r)) rams)) (\<lambda>headroom.
      bnd (map_res float_of_int (List.map_filter largest_free_block_count rams)) (\<lambda>counts.
      bnd (numeric_summary counts) (\<lambda>count_summary.
      bnd (numeric_summary (List.map_filter largest_free_block_mb rams)) (\<lambda>blocks.
        Inr \<lparr>ram_used_mb = used, ram_total_mb = total, ram_headroom_mb = headroom,
             ram_block_count = count_summary, ram_block_mb = blocks\<rparr>)))))))"

record retention_record =
  bounded :: bool
  max_samples :: "nat option"
  dropped_samples :: nat
  last_dropped_sample_ns :: "int option"
  earliest_retained_sample_ns :: "int option"
  interval_complete :: bool

text \<open>The monitor adds the retention record to what \<open>aggregate_samples\<close> returns.\<close>

record telemetry_aggregate =
  interval_start_ns :: int
  interval_end_ns :: int
  interval_end_inclusive :: bool
  total_samples :: nat
  valid_samples :: nat
  health :: telemetry_health
  ram_stats :: ram_summary
  mem_available_stats :: "numeric_summary_record option"
  cpu_stats :: cpu_summary
  temperature_stats :: "(string \<times> numeric_summary_record option) list"
  power_stats :: "(string \<times> numeric_summary_record option) list"
  emc_stats :: "clock_summary option"
  gr3d_stats :: "clock_summary option"
  retention :: "retention_record option"

definition build_aggregate ::
  "interval_request \<Rightarrow> telemetry_sample list \<Rightarrow> int option \<Rightarrow> int option \<Rightarrow> telemetry_aggregate res" where
  "build_aggregate r selected latest latest_valid =
     (let valid = filter (complete (required r)) selected in
      bnd (ram_aggregate valid) (\<lambda>ram_part.
      bnd (numeric_summary (List.map_filter mem_available_mb valid)) (\<lambda>mem_part.
      bnd (per_cpu_aggregate valid) (\<lambda>cpu_part.
      bnd (mapping_aggregate (\<lambda>s. temperatures_c (parsed s)) valid) (\<lambda>temperature_part.
      bnd (mapping_aggregate (\<lambda>s. map (\<lambda>(n, p). (n, current_mw p)) (power (parsed s))) valid) (\<lambda>power_part.
      bnd (clock_aggregate (\<lambda>s. emc (parsed s)) valid) (\<lambda>emc_part.
      bnd (clock_aggregate (\<lambda>s. gr3d (parsed s)) valid) (\<lambda>gr3d_part.
        Inr \<lparr>interval_start_ns = start_at r, interval_end_ns = end_at r,
             interval_end_inclusive = inclusive r, total_samples = length selected,
             valid_samples = length valid, health = assess_health r selected latest latest_valid,
             ram_stats = ram_part, mem_available_stats = mem_part, cpu_stats = cpu_part,
             temperature_stats = temperature_part, power_stats = power_part, emc_stats = emc_part,
             gr3d_stats = gr3d_part, retention = None\<rparr>))))))))"

definition aggregate_samples ::
  "telemetry_sample list \<Rightarrow> pyval \<Rightarrow> pyval \<Rightarrow> aggregate_options \<Rightarrow> telemetry_aggregate res" where
  "aggregate_samples samples start_ns end_ns opts =
     bnd (check_request start_ns end_ns opts) (\<lambda>r.
       build_aggregate r (selected_samples r samples) (last_ns (observed_samples r samples))
         (last_ns (filter (complete (required r)) (observed_samples r samples))))"

section \<open>What a healthy verdict means\<close>

lemma optional_ns_eq: "optional_ns v = Inr n \<longleftrightarrow>
    (v = VNone \<and> n = None) \<or> (\<exists>k. v = VInt k \<and> 0 \<le> k \<and> n = Some k)"
  by (auto simp: optional_ns_def validated_monotonic_ns_def res_simps split: option.splits)

lemma set_observed [simp]:
  "set (observed_samples r xs) = {s \<in> set xs. monotonic_ns s \<le> reference_at r}"
  by (simp add: observed_samples_def)

lemma set_selected [simp]:
  "set (selected_samples r xs) = {s \<in> set xs. in_interval (start_at r) (end_at r) (inclusive r) s}"
  by (simp add: selected_samples_def)

lemma sorted_selected: "sorted (map monotonic_ns (selected_samples r xs))"
  by (simp add: selected_samples_def)

lemma sorted_map_filter: "sorted (map f xs) \<Longrightarrow> sorted (map f (filter P xs))"
  by (induction xs) auto

lemma foldl_max_le: "foldl max (b :: 'a :: linorder) xs \<le> m \<longleftrightarrow> b \<le> m \<and> (\<forall>x \<in> set xs. x \<le> m)"
  by (induction xs arbitrary: b) auto

lemma observed_gap_le:
  "ts \<noteq> [] \<Longrightarrow> observed_gap start stop ts \<le> m \<longleftrightarrow>
   hd ts - start \<le> m \<and> stop - last ts \<le> m \<and> (\<forall>(a, b) \<in> set (adjacent ts). b - a \<le> m)"
  by (auto simp: observed_gap_def foldl_max_le)

text \<open>A list whose steps are at most \<open>m\<close> crosses every point between its ends within \<open>m\<close>.\<close>

lemma adjacent_crossing:
  assumes "ts \<noteq> []" and "hd ts < (t :: int)" and "t \<le> last ts"
    and "\<forall>(a, b) \<in> set (adjacent ts). b - a \<le> m"
  shows "\<exists>u \<in> set ts. t \<le> u \<and> u \<le> t + m"
  using assms
proof (induction ts rule: adjacent.induct)
  case (1 x y ys)
  show ?case
  proof (cases "t \<le> y")
    case True
    have "y - x \<le> m" using 1(5) by simp
    with 1(3) have "y \<le> t + m" by simp
    with True show ?thesis by auto
  next
    case False
    with 1 have "\<exists>u \<in> set (y # ys). t \<le> u \<and> u \<le> t + m" by (intro 1(1)) auto
    then show ?thesis by auto
  qed
qed auto

lemma gap_covers:
  assumes "observed_gap start stop ts \<le> m" and "start \<le> t" and "t + m \<le> stop" and "ts \<noteq> [] \<or> m < stop - start"
  shows "\<exists>u \<in> set ts. t \<le> u \<and> u \<le> t + m"
proof (cases "ts = []")
  case True
  with assms show ?thesis by (simp add: observed_gap_def)
next
  case False
  note g = assms(1) [unfolded observed_gap_le [OF False]]
  show ?thesis
  proof (cases "hd ts < t")
    case True
    have "t \<le> last ts" using g assms(3) by simp
    with False True g show ?thesis by (intro adjacent_crossing) auto
  next
    case hd: False
    then have "t \<le> hd ts" "hd ts \<le> t + m" using g assms(2) by simp_all
    with False show ?thesis by (intro bexI [of _ "hd ts"]) auto
  qed
qed

lemma last_ns_recent:
  "\<not> older_than ref (Some n) (last_ns xs) \<Longrightarrow> \<exists>s \<in> set xs. ref - monotonic_ns s \<le> n"
  by (auto simp: older_than_def last_ns_def split: if_splits intro: bexI [of _ "last xs"])

lemma build_aggregate_health:
  "build_aggregate r selected latest lv = Inr a \<Longrightarrow>
   health a = assess_health r selected latest lv \<and> total_samples a = length selected \<and>
   valid_samples a = length (filter (complete (required r)) selected)"
  by (auto simp: build_aggregate_def Let_def bnd_eq_Inr)

lemma healthy_facts:
  assumes "healthy (assess_health r selected latest lv)"
  defines "valid \<equiv> filter (complete (required r)) selected"
  shows "minimum_valid r \<le> int (length valid)" and "selected \<noteq> []"
    and "strict_completeness r \<Longrightarrow> length valid = length selected"
    and "\<not> older_than (reference_at r) (stale_limit r) lv"
    and "gap_limit r = Some m \<Longrightarrow> observed_gap (start_at r) (end_at r) (map monotonic_ns valid) \<le> m"
  using assms
  by (auto simp: assess_health_def Let_def split: if_splits option.splits)

lemma check_request_cases:
  assumes "check_request (VInt start) (VInt stop) opts = Inr r"
  obtains incl minimum stale gap ref where
    "end_inclusive opts = VBool incl" and "minimum_valid_samples opts = VInt minimum" and "0 < minimum"
    and "start < stop" and "optional_ns (stale_after_ns opts) = Inr stale"
    and "optional_ns (maximum_valid_gap_ns opts) = Inr gap" and "optional_ns (reference_ns opts) = Inr ref"
    and "stop \<le> (case ref of None \<Rightarrow> stop | Some k \<Rightarrow> k)" and "list_all known_field (uniq (required_fields opts))"
    and "r = \<lparr>start_at = start, end_at = stop, inclusive = incl, minimum_valid = minimum,
              strict_completeness = require_all_samples_valid opts, stale_limit = stale, gap_limit = gap,
              reference_at = (case ref of None \<Rightarrow> stop | Some k \<Rightarrow> k), required = uniq (required_fields opts)\<rparr>"
proof -
  have ns: "validated_monotonic_ns (VInt k) = Inr v \<longleftrightarrow> v = k \<and> 0 \<le> k" for k v
    by (auto simp: validated_monotonic_ns_def)
  obtain incl where incl: "end_inclusive opts = VBool incl"
    using assms by (cases "end_inclusive opts") (auto simp: check_request_def res_simps)
  obtain minimum where minimum: "minimum_valid_samples opts = VInt minimum"
    using assms incl
    by (cases "minimum_valid_samples opts") (auto simp: check_request_def res_simps)
  show thesis
    using assms that incl minimum by (auto simp: check_request_def res_simps ns Let_def)
qed

lemma check_request_Inr:
  assumes "check_request (VInt start) (VInt stop) opts = Inr r"
  shows "start_at r = start" and "end_at r = stop" and "start < stop"
    and "required r = uniq (required_fields opts)" and "list_all known_field (required r)"
    and "end_inclusive opts = VBool (inclusive r)"
    and "strict_completeness r = require_all_samples_valid opts" and "0 < minimum_valid r"
    and "maximum_valid_gap_ns opts = VInt m \<Longrightarrow> gap_limit r = Some m"
    and "stale_after_ns opts = VInt n \<Longrightarrow> stale_limit r = Some n"
    and "reference_at r = (case reference_ns opts of VInt k \<Rightarrow> k | _ \<Rightarrow> stop)" and "stop \<le> reference_at r"
  by (rule check_request_cases [OF assms]; auto simp: optional_ns_eq)+

lemma complete_uniq [simp]: "complete (uniq fs) = complete fs"
  by (rule ext) (simp add: complete_def list_all_iff)

text \<open>
  C33: a healthy verdict means the interval is covered. It holds a complete sample; with a gap bound
  \<open>m\<close>, every stretch of length \<open>m\<close> inside the interval contains a complete sample; with a staleness
  bound \<open>n\<close>, some complete sample was taken no later than the reference time (the given one, or else the
  end of the interval) and at most \<open>n\<close> before it; under strict completeness every sample of the interval has all required fields.
\<close>

theorem healthy_interval_is_covered:
  assumes "aggregate_samples samples (VInt start) (VInt stop) opts = Inr a" and "healthy (health a)"
    and "end_inclusive opts = VBool incl"
  shows "(\<exists>s \<in> set samples. in_interval start stop incl s \<and> complete (required_fields opts) s) \<and>
    (\<forall>m t. maximum_valid_gap_ns opts = VInt m \<and> start \<le> t \<and> t + m \<le> stop \<longrightarrow>
       (\<exists>s \<in> set samples. complete (required_fields opts) s \<and> t \<le> monotonic_ns s \<and> monotonic_ns s \<le> t + m)) \<and>
    (\<forall>n. stale_after_ns opts = VInt n \<longrightarrow>
       (\<exists>s \<in> set samples. complete (required_fields opts) s \<and>
          monotonic_ns s \<le> (case reference_ns opts of VInt k \<Rightarrow> k | _ \<Rightarrow> stop) \<and>
          (case reference_ns opts of VInt k \<Rightarrow> k | _ \<Rightarrow> stop) - monotonic_ns s \<le> n)) \<and>
    (require_all_samples_valid opts \<longrightarrow>
       (\<forall>s \<in> set samples. in_interval start stop incl s \<longrightarrow> complete (required_fields opts) s))"
proof -
  obtain r where r: "check_request (VInt start) (VInt stop) opts = Inr r"
    and b: "build_aggregate r (selected_samples r samples) (last_ns (observed_samples r samples))
         (last_ns (filter (complete (required r)) (observed_samples r samples))) = Inr a"
    using assms(1) by (auto simp: aggregate_samples_def bnd_eq_Inr)
  note req = check_request_Inr [OF r]
  have incl: "inclusive r = incl" and fields: "complete (required r) = complete (required_fields opts)"
    using req(4,6) assms(3) by simp_all
  note h = healthy_facts [OF assms(2) [unfolded build_aggregate_health [OF b, THEN conjunct1]]]
  let ?sel = "selected_samples r samples" and ?ok = "complete (required_fields opts)"
  have sel: "s \<in> set ?sel \<longleftrightarrow> s \<in> set samples \<and> in_interval start stop incl s" for s
    using req(1,2) incl by simp
  have some: "filter ?ok ?sel \<noteq> []" using h(1) req(8) fields by auto
  have 1: "\<exists>s \<in> set samples. in_interval start stop incl s \<and> ?ok s"
    using some sel by (metis filter_False)
  have 2: "\<exists>s \<in> set samples. ?ok s \<and> t \<le> monotonic_ns s \<and> monotonic_ns s \<le> t + m"
    if "maximum_valid_gap_ns opts = VInt m" "start \<le> t" "t + m \<le> stop" for m t
  proof -
    have "observed_gap start stop (map monotonic_ns (filter ?ok ?sel)) \<le> m"
      using h(5) [OF req(9) [OF that(1)]] req(1,2) fields by simp
    from gap_covers [OF this that(2,3)] some sel show ?thesis by fastforce
  qed
  have 3: "\<exists>s \<in> set samples. ?ok s \<and> monotonic_ns s \<le> reference_at r \<and> reference_at r - monotonic_ns s \<le> n"
    if "stale_after_ns opts = VInt n" for n
    using last_ns_recent [of "reference_at r" n "filter ?ok (observed_samples r samples)"] h(4) req(10) [OF that]
      fields by auto
  have 4: "?ok s" if "require_all_samples_valid opts" "s \<in> set samples" "in_interval start stop incl s" for s
    using h(3) req(7) fields that sel length_filter_less [of s ?sel ?ok] by fastforce
  from 1 2 3 4 req(11) show ?thesis by auto
qed

definition example_sample :: "int \<Rightarrow> telemetry_sample" where
  "example_sample t =
     \<lparr>ident = 0, monotonic_ns = t, raw = [],
      parsed = \<lparr>ram = None, swap = None, cpu = [], temperatures_c = [], power = [],
                emc = Some \<lparr>clock_utilization_pct = None, frequencies_mhz = []\<rparr>, gr3d = None\<rparr>,
      mem_available_mb = None, collection_errors = []\<rparr>"

definition example_options :: aggregate_options where
  "example_options =
     \<lparr>required_fields = [''emc''], minimum_valid_samples = VInt 1,
      require_all_samples_valid = True, reference_ns = VNone, stale_after_ns = VInt 6,
      maximum_valid_gap_ns = VInt 6, end_inclusive = VBool False\<rparr>"

theorem healthy_interval_is_covered_witness:
  "(\<exists>s \<in> set [example_sample 5, example_sample 11]. complete [''emc''] s \<and> 2 \<le> monotonic_ns s \<and> monotonic_ns s \<le> 2 + 6) \<and>
   (\<exists>s \<in> set [example_sample 5, example_sample 11]. complete [''emc''] s \<and> monotonic_ns s \<le> 10 \<and> 10 - monotonic_ns s \<le> 6)"
proof -
  have "\<exists>a. aggregate_samples [example_sample 5, example_sample 11] (VInt 0) (VInt 10) example_options = Inr a \<and> healthy (health a)"
  proof -
    have "case aggregate_samples [example_sample 5, example_sample 11] (VInt 0) (VInt 10) example_options of
        Inr a \<Rightarrow> healthy (health a) | Inl _ \<Rightarrow> False" by code_simp
    then show ?thesis by (auto split: sum.splits)
  qed
  then obtain a where a: "aggregate_samples [example_sample 5, example_sample 11] (VInt 0) (VInt 10) example_options = Inr a"
    "healthy (health a)" by blast
  have opts: "end_inclusive example_options = VBool False" "maximum_valid_gap_ns example_options = VInt 6"
    "required_fields example_options = [''emc'']" "stale_after_ns example_options = VInt 6"
    "reference_ns example_options = VNone" by (simp_all add: example_options_def)
  note covered = healthy_interval_is_covered [OF a opts(1)]
  from covered [THEN conjunct2, THEN conjunct1, rule_format, of 6 2] opts(2,3)
    covered [THEN conjunct2, THEN conjunct2, THEN conjunct1, rule_format, of 6] opts(4,5)
  show ?thesis by simp
qed

end
