(* ===== verification/TelemetryMonitor.thy ===== *)
theory TelemetryMonitor
  imports TelemetryStats "HOL-Library.Sublist"
begin

text \<open>
  The stateful part of \<open>runtime/tegrastats_telemetry.py\<close>: \<open>JsonlTelemetryWriter\<close> and
  \<open>TegrastatsMonitor\<close>. Every public operation runs under the object's lock, so an operation is one
  step; what it reads from outside (the clock, the memory reader, whether the stream accepts a write
  or a flush) is the argument \<open>surroundings\<close>. An operation returns the new state with its result, also
  when it raises.
\<close>

section \<open>The writer\<close>

record telemetry_marker =
  marker_ns :: int
  marker_name :: string
  marker_metadata :: pydict

datatype trecord = SampleRec telemetry_sample | MarkerRec telemetry_marker

fun record_ns :: "trecord \<Rightarrow> int" where
  "record_ns (SampleRec s) = monotonic_ns s"
| "record_ns (MarkerRec k) = marker_ns k"

definition blank_name :: "string \<Rightarrow> bool" where
  "blank_name name \<longleftrightarrow> name = [] \<or> list_all is_space name"

definition new_marker :: "int \<Rightarrow> string \<Rightarrow> pydict \<Rightarrow> telemetry_marker res" where
  "new_marker ns name meta =
     bnd (validated_monotonic_ns (VInt ns)) (\<lambda>_.
       if blank_name name then Inl (ValueError ''marker name must be non-empty'')
       else Inr \<lparr>marker_ns = ns, marker_name = name, marker_metadata = meta\<rparr>)"

text \<open>\<open>json.dumps(..., allow_nan=False)\<close> refuses a float that is not finite anywhere in the payload.\<close>

fun json_finite :: "pyval \<Rightarrow> bool" where
  "json_finite (VFloat x) = isfinite x"
| "json_finite (VList vs) = list_all json_finite vs"
| "json_finite (VDict d) = list_all (\<lambda>(k, v). json_finite v) d"
| "json_finite _ = True"

definition clock_floats :: "clock_activity option \<Rightarrow> pyfloat list" where
  "clock_floats c =
     (case c of None \<Rightarrow> []
      | Some a \<Rightarrow> (case clock_utilization_pct a of None \<Rightarrow> [] | Some u \<Rightarrow> [u]) @ frequencies_mhz a)"

definition option_list :: "'a option \<Rightarrow> 'a list" where
  "option_list v = (case v of None \<Rightarrow> [] | Some x \<Rightarrow> [x])"

definition payload_floats :: "telemetry_sample \<Rightarrow> pyfloat list" where
  "payload_floats s =
     (let p = parsed s in
      (case ram p of None \<Rightarrow> [] | Some r \<Rightarrow> [used_mb r, total_mb r] @ option_list (largest_free_block_mb r)) @
      (case swap p of None \<Rightarrow> [] | Some r \<Rightarrow> [swap_used_mb r, swap_total_mb r] @ option_list (cached_mb r)) @
      concat (map (\<lambda>c. option_list (utilization_pct c) @ option_list (frequency_mhz c)) (cpu p)) @
      map snd (temperatures_c p) @
      concat (map (\<lambda>(n, w). current_mw w # reported_extra_mw w) (power p)) @
      clock_floats (emc p) @ clock_floats (gr3d p) @ option_list (mem_available_mb s))"

fun encodable :: "trecord \<Rightarrow> bool" where
  "encodable (SampleRec s) = list_all isfinite (payload_floats s)"
| "encodable (MarkerRec k) = list_all (\<lambda>(n, v). json_finite v) (marker_metadata k)"

text \<open>What the stream does with one write and one flush.\<close>

datatype stream_outcome = StreamOk | WriteFails | FlushFails

record writer =
  written :: "trecord list"
  flushed :: nat
  flush_each :: bool
  flush_every :: "int option"
  records_since_flush :: nat
  writer_closed :: bool
  writer_last_ns :: "int option"

definition new_writer :: "string \<Rightarrow> bool \<Rightarrow> pyval \<Rightarrow> writer res" where
  "new_writer mode flush every =
     (if mode \<notin> {''w'', ''x''} then Inl (ValueError ''mode must be 'w' or 'x'; JSONL append is unsafe'')
      else if every \<noteq> VNone \<and> (case genuine_int every of None \<Rightarrow> True | Some n \<Rightarrow> n \<le> 0)
      then Inl (ValueError ''flush_every must be a positive integer'')
      else Inr \<lparr>written = [], flushed = 0, flush_each = flush, flush_every = genuine_int every,
                records_since_flush = 0, writer_closed = False, writer_last_ns = None\<rparr>)"

definition regresses :: "int option \<Rightarrow> int \<Rightarrow> bool" where
  "regresses latest ns = (case latest of None \<Rightarrow> False | Some t \<Rightarrow> ns < t)"

fun is_marker :: "trecord \<Rightarrow> bool" where
  "is_marker (MarkerRec _) = True" | "is_marker (SampleRec _) = False"

definition flush_due :: "writer \<Rightarrow> trecord \<Rightarrow> nat \<Rightarrow> bool" where
  "flush_due w rec since \<longleftrightarrow>
     flush_each w \<or> is_marker rec \<or>
     (case flush_every w of None \<Rightarrow> False | Some k \<Rightarrow> k \<le> int since)"

definition writer_write :: "stream_outcome \<Rightarrow> trecord \<Rightarrow> writer \<Rightarrow> writer \<times> unit res" where
  "writer_write io rec w =
     (if \<not> encodable rec then (w, Inl (ValueError ''Out of range float values are not JSON compliant''))
      else if writer_closed w then (w, Inl (RuntimeError ''telemetry writer is closed''))
      else case validated_monotonic_ns (VInt (record_ns rec)) of
        Inl e \<Rightarrow> (w, Inl e)
      | Inr ns \<Rightarrow>
          if regresses (writer_last_ns w) ns
          then (w, Inl (ValueError ''telemetry timestamps must not regress''))
          else if io = WriteFails then (w, Inl (OSError ''write''))
          else
            let w1 = w\<lparr>written := written w @ [rec], records_since_flush := Suc (records_since_flush w)\<rparr> in
            if flush_due w1 rec (records_since_flush w1)
            then if io = FlushFails then (w1, Inl (OSError ''flush''))
                 else (w1\<lparr>flushed := length (written w1), records_since_flush := 0,
                          writer_last_ns := Some ns\<rparr>, Inr ())
            else (w1\<lparr>writer_last_ns := Some ns\<rparr>, Inr ()))"

definition writer_close :: "stream_outcome \<Rightarrow> writer \<Rightarrow> writer \<times> unit res" where
  "writer_close io w =
     (if writer_closed w then (w, Inr ())
      else if io = FlushFails then (w, Inl (OSError ''flush''))
      else (w\<lparr>flushed := length (written w), writer_closed := True\<rparr>, Inr ()))"

section \<open>The monitor\<close>

record monitor =
  log_writer :: writer
  retained :: "telemetry_sample list"
  retention_limit :: "nat option"
  markers :: "telemetry_marker list"
  monitor_closed :: bool
  monitor_last_ns :: "int option"
  dropped_count :: nat
  last_dropped_ns :: "int option"
  next_ident :: nat

definition new_monitor :: "writer \<Rightarrow> int option \<Rightarrow> monitor res" where
  "new_monitor w limit =
     (if (case limit of None \<Rightarrow> False | Some n \<Rightarrow> n \<le> 0) then Inl (ValueError ''max_samples must be positive'')
      else Inr \<lparr>log_writer = w, retained = [], retention_limit = map_option nat limit, markers = [],
                monitor_closed = False, monitor_last_ns = None, dropped_count = 0, last_dropped_ns = None,
                next_ident = 0\<rparr>)"

record surroundings =
  clock_value :: pyval
  reader_result :: "pyval res"
  stream :: stream_outcome

definition timestamp_of :: "surroundings \<Rightarrow> pyval \<Rightarrow> int res" where
  "timestamp_of env explicit = validated_monotonic_ns (if explicit = VNone then clock_value env else explicit)"

text \<open>The argument \<open>mem_available_mb\<close>: left out, \<open>None\<close>, or a value.\<close>

datatype mem_argument = MemUnset | MemNone | MemGiven pyval

fun caught_name :: "pyerr \<Rightarrow> string option" where
  "caught_name (OSError _) = Some ''OSError''"
| "caught_name TypeError = Some ''TypeError''"
| "caught_name (ValueError _) = Some ''ValueError''"
| "caught_name _ = None"

definition available_memory :: "pyval res \<Rightarrow> mem_argument \<Rightarrow> (pyfloat option \<times> string list) res" where
  "available_memory reader arg =
     (case arg of
        MemUnset \<Rightarrow>
          (case bnd reader validated_mem_available_mb of
             Inr v \<Rightarrow> Inr (Some v, [])
           | Inl e \<Rightarrow>
               (case caught_name e of
                  None \<Rightarrow> Inl e
                | Some n \<Rightarrow> Inr (None, [''mem_available:'' @ n])))
      | MemNone \<Rightarrow> Inr (None, [])
      | MemGiven v \<Rightarrow> bnd (validated_mem_available_mb v) (\<lambda>x. Inr (Some x, [])))"

definition rstrip_newlines :: "string \<Rightarrow> string" where
  "rstrip_newlines s = rev (dropWhile (\<lambda>c. code c = 13 \<or> code c = 10) (rev s))"

text \<open>\<open>deque.append\<close> with a maximal length discards the oldest element of a full queue.\<close>

definition retain :: "telemetry_sample \<Rightarrow> monitor \<Rightarrow> monitor" where
  "retain s m =
     (if retention_limit m = Some (length (retained m))
      then m\<lparr>retained := tl (retained m) @ [s], dropped_count := Suc (dropped_count m),
             last_dropped_ns := Some (monotonic_ns (hd (retained m)))\<rparr>
      else m\<lparr>retained := retained m @ [s]\<rparr>)"

definition record_line ::
  "surroundings \<Rightarrow> string \<Rightarrow> pyval \<Rightarrow> mem_argument \<Rightarrow> monitor \<Rightarrow> monitor \<times> telemetry_sample res" where
  "record_line env line explicit arg m =
     (case timestamp_of env explicit of
        Inl e \<Rightarrow> (m, Inl e)
      | Inr ns \<Rightarrow>
          if monitor_closed m then (m, Inl (RuntimeError ''telemetry monitor is closed''))
          else if regresses (monitor_last_ns m) ns
          then (m, Inl (ValueError ''telemetry timestamps must not regress''))
          else case bnd (available_memory (reader_result env) arg) (\<lambda>(available, errors).
                new_sample (next_ident m) ns (rstrip_newlines line) (parse_tegrastats_line line) available errors) of
            Inl e \<Rightarrow> (m, Inl e)
          | Inr s \<Rightarrow>
              (case writer_write (stream env) (SampleRec s) (log_writer m) of
                 (w, Inl e) \<Rightarrow> (m\<lparr>log_writer := w\<rparr>, Inl e)
               | (w, Inr _) \<Rightarrow>
                   ((retain s m)\<lparr>log_writer := w, monitor_last_ns := Some ns, next_ident := Suc (next_ident m)\<rparr>,
                    Inr s)))"

text \<open>\<open>record_stream\<close> stops at the first line that raises; the lines before it stay recorded.\<close>

fun record_stream :: "(surroundings \<times> string) list \<Rightarrow> monitor \<Rightarrow> monitor \<times> nat res" where
  "record_stream [] m = (m, Inr 0)"
| "record_stream ((env, line) # rest) m =
     (case record_line env line VNone MemUnset m of
        (m1, Inl e) \<Rightarrow> (m1, Inl e)
      | (m1, Inr _) \<Rightarrow> (case record_stream rest m1 of (m2, r) \<Rightarrow> (m2, bnd r (\<lambda>n. Inr (Suc n)))))"

definition mark :: "surroundings \<Rightarrow> string \<Rightarrow> pydict \<Rightarrow> pyval \<Rightarrow> monitor \<Rightarrow> monitor \<times> telemetry_marker res" where
  "mark env name meta explicit m =
     (if blank_name name then (m, Inl (ValueError ''marker name must be non-empty''))
      else case timestamp_of env explicit of
        Inl e \<Rightarrow> (m, Inl e)
      | Inr ns \<Rightarrow>
          if monitor_closed m then (m, Inl (RuntimeError ''telemetry monitor is closed''))
          else if regresses (monitor_last_ns m) ns
          then (m, Inl (ValueError ''telemetry timestamps must not regress''))
          else case new_marker ns name meta of
            Inl e \<Rightarrow> (m, Inl e)
          | Inr k \<Rightarrow>
              (case writer_write (stream env) (MarkerRec k) (log_writer m) of
                 (w, Inl e) \<Rightarrow> (m\<lparr>log_writer := w\<rparr>, Inl e)
               | (w, Inr _) \<Rightarrow>
                   (m\<lparr>log_writer := w, markers := markers m @ [k], monitor_last_ns := Some ns\<rparr>, Inr k)))"

definition monitor_close :: "stream_outcome \<Rightarrow> monitor \<Rightarrow> monitor \<times> unit res" where
  "monitor_close io m =
     (if monitor_closed m then (m, Inr ())
      else case writer_close io (log_writer m) of
        (w, Inl e) \<Rightarrow> (m\<lparr>log_writer := w\<rparr>, Inl e)
      | (w, Inr _) \<Rightarrow> (m\<lparr>log_writer := w, monitor_closed := True\<rparr>, Inr ()))"

section \<open>Queries\<close>

text \<open>The scan from the newest sample, with its two exits.\<close>

fun scan_window ::
  "int \<Rightarrow> int \<Rightarrow> bool \<Rightarrow> int option \<Rightarrow> telemetry_sample list \<Rightarrow> telemetry_sample list \<Rightarrow>
   telemetry_sample list \<times> bool" where
  "scan_window start stop incl limit acc [] = (acc, False)"
| "scan_window start stop incl limit acc (s # ss) =
     (if stop < monotonic_ns s \<or> (monotonic_ns s = stop \<and> \<not> incl) then scan_window start stop incl limit acc ss
      else if monotonic_ns s < start then (acc, False)
      else if limit = Some (int (length acc)) then (acc, True)
      else scan_window start stop incl limit (acc @ [s]) ss)"

record sample_window_record =
  window_samples :: "telemetry_sample list"
  limit_reached :: bool
  window_retention :: retention_record

definition sample_window_locked ::
  "int \<Rightarrow> int \<Rightarrow> bool \<Rightarrow> bool \<Rightarrow> int option \<Rightarrow> monitor \<Rightarrow> sample_window_record" where
  "sample_window_locked start stop incl reverse limit m =
     (let (found, reached) = scan_window start stop incl limit [] (rev (retained m));
          truncated = (case last_dropped_ns m of None \<Rightarrow> False | Some t \<Rightarrow> start \<le> t)
      in \<lparr>window_samples = (if reverse then found else rev found), limit_reached = reached,
          window_retention =
            \<lparr>bounded = (retention_limit m \<noteq> None), max_samples = retention_limit m,
             dropped_samples = dropped_count m, last_dropped_sample_ns = last_dropped_ns m,
             earliest_retained_sample_ns =
               (case retained m of [] \<Rightarrow> None | s # _ \<Rightarrow> Some (monotonic_ns s)),
             interval_complete = (\<not> truncated)\<rparr>\<rparr>)"

definition sample_window ::
  "pyval \<Rightarrow> pyval \<Rightarrow> bool \<Rightarrow> bool \<Rightarrow> pyval \<Rightarrow> monitor \<Rightarrow> sample_window_record res" where
  "sample_window start_ns end_ns incl reverse limit m =
     bnd (validated_monotonic_ns start_ns) (\<lambda>start.
     bnd (validated_monotonic_ns end_ns) (\<lambda>stop.
       if stop < start then Inl (ValueError ''the telemetry query interval must not regress'')
       else if limit \<noteq> VNone \<and> (case genuine_int limit of None \<Rightarrow> True | Some n \<Rightarrow> n \<le> 0)
       then Inl (ValueError ''sample query limit must be positive'')
       else Inr (sample_window_locked start stop incl reverse (genuine_int limit) m)))"

text \<open>The freshness scan of \<open>aggregate\<close>: the newest observed and the newest complete sample.\<close>

fun freshness_scan ::
  "int \<Rightarrow> string list \<Rightarrow> telemetry_sample option \<Rightarrow> telemetry_sample option \<Rightarrow> telemetry_sample list \<Rightarrow>
   (telemetry_sample option \<times> telemetry_sample option) res" where
  "freshness_scan ref required_names lo lv [] = Inr (lo, lv)"
| "freshness_scan ref required_names lo lv (s # ss) =
     (if ref < monotonic_ns s then freshness_scan ref required_names lo lv ss
      else
        let lo' = (if lo = None then Some s else lo) in
        bnd (if lv = None then bnd (all_present s required_names) (\<lambda>b. Inr (if b then Some s else None)) else Inr lv) (\<lambda>lv'.
          if lo' \<noteq> None \<and> lv' \<noteq> None then Inr (lo', lv') else freshness_scan ref required_names lo' lv' ss))"

fun add_missing :: "telemetry_sample option list \<Rightarrow> nat list \<Rightarrow> telemetry_sample list" where
  "add_missing [] ids = []"
| "add_missing (None # rest) ids = add_missing rest ids"
| "add_missing (Some s # rest) ids =
     (if ident s \<in> set ids then add_missing rest ids else s # add_missing rest (ident s # ids))"

definition with_retention :: "retention_record \<Rightarrow> telemetry_aggregate \<Rightarrow> telemetry_aggregate" where
  "with_retention r a =
     (let a1 = a\<lparr>retention := Some r\<rparr> in
      if interval_complete r then a1
      else a1\<lparr>health := (health a1)\<lparr>healthy := False, reasons := reasons (health a1) @ [''retention_truncated'']\<rparr>\<rparr>)"

text \<open>The keyword \<open>reference_ns\<close> may be left out; the other keywords are in \<open>opts\<close>.\<close>

definition call_options :: "pyval option \<Rightarrow> aggregate_options \<Rightarrow> aggregate_options" where
  "call_options ref opts = opts\<lparr>reference_ns := (case ref of None \<Rightarrow> VNone | Some v \<Rightarrow> v)\<rparr>"

definition monitor_aggregate ::
  "pyval \<Rightarrow> pyval \<Rightarrow> pyval option \<Rightarrow> aggregate_options \<Rightarrow> monitor \<Rightarrow> telemetry_aggregate res" where
  "monitor_aggregate start_ns end_ns ref opts m =
     bnd (validated_monotonic_ns start_ns) (\<lambda>start.
     bnd (validated_monotonic_ns end_ns) (\<lambda>stop.
       case end_inclusive opts of
         VBool incl \<Rightarrow>
           bnd (validated_monotonic_ns (case ref of None \<Rightarrow> VInt stop | Some v \<Rightarrow> v)) (\<lambda>reference.
           let window = sample_window_locked start stop incl False None m in
           bnd (freshness_scan reference (uniq (required_fields opts)) None None (rev (retained m))) (\<lambda>(lo, lv).
           let freshness = add_missing [lo, lv] (map ident (window_samples window)) in
           bnd (aggregate_samples (window_samples window @ freshness) (VInt start) (VInt stop)
                 (call_options ref opts)) (\<lambda>a.
             Inr (with_retention (window_retention window) a))))
       | _ \<Rightarrow> Inl (ValueError ''end_inclusive must be boolean'')))"

section \<open>Reachable states\<close>

text \<open>
  \<open>monitored m accepted\<close>: the monitor can be in state \<open>m\<close> after calls whose accepted samples, the ones
  \<open>record_line\<close> returned, are \<open>accepted\<close> in order. Calls that raise are steps too.
\<close>

inductive monitored :: "monitor \<Rightarrow> telemetry_sample list \<Rightarrow> bool" where
  fresh: "new_writer mode flush every = Inr w \<Longrightarrow> new_monitor w limit = Inr m \<Longrightarrow> monitored m []"
| accepted: "monitored m xs \<Longrightarrow> record_line env line explicit arg m = (m', Inr s) \<Longrightarrow> monitored m' (xs @ [s])"
| refused: "monitored m xs \<Longrightarrow> record_line env line explicit arg m = (m', Inl e) \<Longrightarrow> monitored m' xs"
| marked: "monitored m xs \<Longrightarrow> mark env name meta explicit m = (m', r) \<Longrightarrow> monitored m' xs"
| closed: "monitored m xs \<Longrightarrow> monitor_close io m = (m', r) \<Longrightarrow> monitored m' xs"

definition not_after :: "telemetry_sample list \<Rightarrow> int option \<Rightarrow> bool" where
  "not_after xs latest \<longleftrightarrow> (\<forall>s \<in> set xs. \<exists>t. latest = Some t \<and> monotonic_ns s \<le> t)"

definition retention_ok :: "monitor \<Rightarrow> telemetry_sample list \<Rightarrow> bool" where
  "retention_ok m xs \<longleftrightarrow>
     dropped_count m \<le> length xs \<and> retained m = drop (dropped_count m) xs \<and>
     last_dropped_ns m =
       (if dropped_count m = 0 then None else Some (monotonic_ns (xs ! (dropped_count m - 1)))) \<and>
     sorted (map monotonic_ns xs) \<and> not_after xs (monitor_last_ns m) \<and>
     distinct (map ident xs) \<and> (\<forall>s \<in> set xs. ident s < next_ident m) \<and>
     (\<forall>n. retention_limit m = Some n \<longrightarrow> 0 < n \<and> length (retained m) \<le> n) \<and>
     (retention_limit m = None \<longrightarrow> dropped_count m = 0)"

definition writer_ok :: "writer \<Rightarrow> bool" where
  "writer_ok w \<longleftrightarrow> flushed w \<le> length (written w) \<and>
     records_since_flush w = length (written w) - flushed w"

lemma new_sample_Inr:
  "new_sample i ns line p mem errors = Inr s \<Longrightarrow>
   s = \<lparr>ident = i, monotonic_ns = ns, raw = line, parsed = p, mem_available_mb = mem, collection_errors = errors\<rparr>"
  by (auto simp: new_sample_def res_simps)

lemma writer_write_facts:
  assumes "writer_write io rec w = (w', r)"
  shows "writer_ok w \<Longrightarrow> writer_ok w'"
    and "\<exists>ys. written w' = written w @ ys \<and> set ys \<subseteq> {rec}"
    and "r = Inr () \<Longrightarrow> written w' = written w @ [rec]"
  using assms
  by (auto simp: writer_write_def writer_ok_def Let_def split: if_splits sum.splits)

lemma record_line_cases:
  assumes "record_line env line explicit arg m = (m', r)"
  obtains
    (unchanged) e where "m' = m" and "r = Inl e"
  | (log_failed) s w e where "writer_write (stream env) (SampleRec s) (log_writer m) = (w, Inl e)"
      and "m' = m\<lparr>log_writer := w\<rparr>" and "r = Inl e"
  | (stored) s w ns where "writer_write (stream env) (SampleRec s) (log_writer m) = (w, Inr ())"
      and "m' = (retain s m)\<lparr>log_writer := w, monitor_last_ns := Some ns, next_ident := Suc (next_ident m)\<rparr>"
      and "r = Inr s" and "ident s = next_ident m" and "monotonic_ns s = ns"
      and "\<not> regresses (monitor_last_ns m) ns"
proof (cases "timestamp_of env explicit")
  case (Inl e)
  with assms show ?thesis by (intro unchanged [of e]) (simp_all add: record_line_def)
next
  case ts: (Inr ns)
  show ?thesis
  proof (cases "monitor_closed m \<or> regresses (monitor_last_ns m) ns")
    case True
    with ts assms have "m' = m \<and> (\<exists>e. r = Inl e)" by (auto simp: record_line_def split: if_splits)
    then show ?thesis by (elim conjE exE) (rule unchanged)
  next
    case ready: False
    let ?s = "bnd (available_memory (reader_result env) arg) (\<lambda>(available, errors).
      new_sample (next_ident m) ns (rstrip_newlines line) (parse_tegrastats_line line) available errors)"
    show ?thesis
    proof (cases ?s)
      case (Inl e)
      with ts ready assms show ?thesis by (intro unchanged [of e]) (simp_all add: record_line_def)
    next
      case (Inr s)
      then have s: "ident s = next_ident m" "monotonic_ns s = ns"
        by (auto simp: bnd_eq_Inr dest!: new_sample_Inr)
      obtain w q where w: "writer_write (stream env) (SampleRec s) (log_writer m) = (w, q)" by fastforce
      show ?thesis
      proof (cases q)
        case (Inl e)
        with ts ready Inr w assms show ?thesis by (intro log_failed [of s w e]) (simp_all add: record_line_def)
      next
        case (Inr u)
        with ts ready \<open>?s = Inr s\<close> w assms s show ?thesis
          by (intro stored [of s w ns]) (simp_all add: record_line_def)
      qed
    qed
  qed
qed

lemma mark_cases:
  assumes "mark env name meta explicit m = (m', r)"
  obtains
    (unchanged) "m' = m"
  | (log_failed) k w e where "writer_write (stream env) (MarkerRec k) (log_writer m) = (w, Inl e)"
      and "m' = m\<lparr>log_writer := w\<rparr>"
  | (stored) k w ns where "writer_write (stream env) (MarkerRec k) (log_writer m) = (w, Inr ())"
      and "m' = m\<lparr>log_writer := w, markers := markers m @ [k], monitor_last_ns := Some ns\<rparr>"
      and "\<not> regresses (monitor_last_ns m) ns"
proof (cases "m' = m")
  case False
  then obtain ns k where k: "\<not> regresses (monitor_last_ns m) ns" "new_marker ns name meta = Inr k"
      "timestamp_of env explicit = Inr ns" "\<not> blank_name name" "\<not> monitor_closed m"
    using assms by (auto simp: mark_def split: if_splits sum.splits)
  obtain w q where w: "writer_write (stream env) (MarkerRec k) (log_writer m) = (w, q)" by fastforce
  show ?thesis
  proof (cases q)
    case (Inl e)
    with k w assms show ?thesis by (intro log_failed [of k w e]) (simp_all add: mark_def)
  next
    case (Inr u)
    with k w assms show ?thesis by (intro stored [of k w ns]) (simp_all add: mark_def)
  qed
qed (rule unchanged)

lemma monitor_close_cases:
  assumes "monitor_close io m = (m', r)"
  obtains (unchanged) "m' = m"
  | (closing) w q b where "writer_close io (log_writer m) = (w, q)"
      and "m' = m\<lparr>log_writer := w, monitor_closed := b\<rparr>"
proof (cases "m' = m")
  case False
  obtain w q where w: "writer_close io (log_writer m) = (w, q)" by fastforce
  show ?thesis
  proof (cases q)
    case (Inl e)
    with False w assms show ?thesis
      by (intro closing [of w q "monitor_closed m"]) (auto simp: monitor_close_def split: if_splits)
  next
    case (Inr u)
    with False w assms show ?thesis
      by (intro closing [of w q True]) (auto simp: monitor_close_def split: if_splits)
  qed
qed (rule unchanged)

lemma not_after_extend:
  "not_after xs latest \<Longrightarrow> \<not> regresses latest ns \<Longrightarrow> not_after xs (Some ns)"
  by (fastforce simp: not_after_def regresses_def)

lemma retention_not_after: "retention_ok m xs \<Longrightarrow> not_after xs (monitor_last_ns m)"
  unfolding retention_ok_def by blast

lemma retention_ok_keep:
  assumes "retention_ok m xs" and "retained m' = retained m" and "dropped_count m' = dropped_count m"
    and "last_dropped_ns m' = last_dropped_ns m" and "retention_limit m' = retention_limit m"
    and "next_ident m' = next_ident m" and "not_after xs (monitor_last_ns m')"
  shows "retention_ok m' xs"
  unfolding retention_ok_def assms(2-6)
  using assms(1) [unfolded retention_ok_def] assms(7) by blast

lemma retention_ok_retain:
  assumes ok: "retention_ok m xs" and i: "ident s = next_ident m"
    and t: "\<not> regresses (monitor_last_ns m) (monotonic_ns s)"
  shows "retention_ok ((retain s m)\<lparr>log_writer := w, monitor_last_ns := Some (monotonic_ns s),
      next_ident := Suc (next_ident m)\<rparr>) (xs @ [s])"
proof -
  note ok' = ok [unfolded retention_ok_def]
  have le: "\<forall>x \<in> set xs. monotonic_ns x \<le> monotonic_ns s"
    using not_after_extend [of xs "monitor_last_ns m" "monotonic_ns s"] ok' t by (auto simp: not_after_def)
  then have common: "sorted (map monotonic_ns (xs @ [s]))" "not_after (xs @ [s]) (Some (monotonic_ns s))"
    "distinct (map ident (xs @ [s]))" "\<forall>x \<in> set (xs @ [s]). ident x < Suc (next_ident m)"
    using ok' i by (auto simp: sorted_append not_after_def)
  let ?d = "dropped_count m"
  let ?m = "(retain s m)\<lparr>log_writer := w, monitor_last_ns := Some (monotonic_ns s),
      next_ident := Suc (next_ident m)\<rparr>"
  have ret: "?d \<le> length xs" "retained m = drop ?d xs" using ok' by simp_all
  show ?thesis
  proof (cases "retention_limit m = Some (length (retained m))")
    case True
    then have "0 < length (retained m)" using ok' by blast
    then have lt: "?d < length xs" using ret by simp
    have "hd (retained m) = xs ! ?d" "tl (retained m) = drop (Suc ?d) xs"
      using ret lt by (simp_all add: hd_drop_conv_nth drop_Suc tl_drop)
    moreover have "length (drop (Suc ?d) xs @ [s]) = length (retained m)" using ret lt by simp
    ultimately have f: "retained ?m = drop (Suc ?d) (xs @ [s])" "dropped_count ?m = Suc ?d"
      "last_dropped_ns ?m = Some (monotonic_ns ((xs @ [s]) ! ?d))"
      "length (retained ?m) = length (retained m)" "retention_limit ?m = retention_limit m"
      using True lt by (simp_all add: retain_def nth_append)
    show ?thesis
      unfolding retention_ok_def f(2,4,5)
    proof (intro conjI)
      show "Suc ?d \<le> length (xs @ [s])" using lt by simp
      show "retained ?m = drop (Suc ?d) (xs @ [s])" by (rule f(1))
      show "last_dropped_ns ?m = (if Suc ?d = 0 then None
          else Some (monotonic_ns ((xs @ [s]) ! (Suc ?d - 1))))" using f(3) by simp
    qed (use common ok' True lt in simp_all)
  next
    case False
    have f: "retained ?m = drop ?d (xs @ [s])" "dropped_count ?m = ?d"
      "last_dropped_ns ?m = last_dropped_ns m" "retention_limit ?m = retention_limit m"
      "length (retained ?m) = Suc (length (retained m))"
      using False ret by (simp_all add: retain_def)
    have n: "(xs @ [s]) ! (?d - 1) = xs ! (?d - 1)" if "?d \<noteq> 0"
      using that ret by (simp add: nth_append)
    have lim: "0 < n \<and> Suc (length (retained m)) \<le> n" if "retention_limit m = Some n" for n
      using that ok' False by fastforce
    show ?thesis
      unfolding retention_ok_def f(2,3,4,5)
    proof (intro conjI)
      show "?d \<le> length (xs @ [s])" using ret by simp
      show "retained ?m = drop ?d (xs @ [s])" by (rule f(1))
      show "last_dropped_ns m = (if ?d = 0 then None
          else Some (monotonic_ns ((xs @ [s]) ! (?d - 1))))" using ok' n by simp
      show "\<forall>n. retention_limit m = Some n \<longrightarrow> 0 < n \<and> Suc (length (retained m)) \<le> n"
        using lim by blast
    qed (use common ok' in simp_all)
  qed
qed

lemma monitored_retention_ok: "monitored m xs \<Longrightarrow> retention_ok m xs"
proof (induction rule: monitored.induct)
  case (fresh mode flush every w limit m)
  then show ?case by (auto simp: new_monitor_def retention_ok_def not_after_def split: if_splits option.splits)
next
  case (accepted m xs env line explicit arg m' s)
  from accepted.hyps(2) show ?case
  proof (cases rule: record_line_cases)
    case (stored s' w ns)
    with accepted.IH retention_ok_retain [of m xs s' w] show ?thesis by simp
  qed simp_all
next
  case (refused m xs env line explicit arg m' e)
  from refused.hyps(2) show ?case
  proof (cases rule: record_line_cases)
    case (log_failed s w e')
    with refused.IH show ?thesis
      by (intro retention_ok_keep [OF refused.IH]) (simp_all add: retention_not_after)
  qed (use refused.IH in simp_all)
next
  case (marked m xs env name meta explicit m' r)
  from \<open>mark env name meta explicit m = (m', r)\<close> show ?case
  proof (cases rule: mark_cases)
    case (stored k w ns)
    then have "not_after xs (monitor_last_ns m')"
      using not_after_extend [OF retention_not_after [OF marked.IH]] by simp
    with stored show ?thesis by (intro retention_ok_keep [OF marked.IH]) simp_all
  next
    case (log_failed k w e)
    with marked.IH show ?thesis
      by (intro retention_ok_keep [OF marked.IH]) (simp_all add: retention_not_after)
  qed (use marked.IH in simp)
next
  case (closed m xs io m' r)
  from closed.hyps(2) show ?case
  proof (cases rule: monitor_close_cases)
    case (closing w q b)
    with closed.IH show ?thesis
      by (intro retention_ok_keep [OF closed.IH]) (simp_all add: retention_not_after)
  qed (use closed.IH in simp)
qed

section \<open>The log\<close>

lemma writer_close_facts:
  assumes "writer_close io w = (w', r)"
  shows "writer_ok w \<Longrightarrow> flushed w' \<le> length (written w')" and "written w' = written w"
  using assms by (auto simp: writer_close_def writer_ok_def split: if_splits)

lemma subseq_append_right: "subseq a b \<Longrightarrow> subseq a (b @ c)"
  by (metis append_Nil2 list_emb_append_mono list_emb_Nil)

text \<open>
  C34: every sample the monitor has accepted is in the log, in the order of acceptance, whatever calls
  failed in between; nothing that was logged is ever rewritten.
\<close>

theorem accepted_samples_are_logged:
  assumes "monitored m xs"
  shows "subseq (map SampleRec xs) (written (log_writer m))"
  using assms
proof (induction rule: monitored.induct)
  case (accepted m xs env line explicit arg m' s)
  from accepted.hyps(2) show ?case
  proof (cases rule: record_line_cases)
    case (stored s' w ns)
    with writer_write_facts(3) [OF stored(1)] have "written (log_writer m') = written (log_writer m) @ [SampleRec s]"
      by simp
    with accepted.IH show ?thesis by simp
  qed simp_all
next
  case (refused m xs env line explicit arg m' e)
  from refused.hyps(2) show ?case
  proof (cases rule: record_line_cases)
    case (log_failed s w e')
    then obtain ys where "written (log_writer m') = written (log_writer m) @ ys"
      using writer_write_facts(2) [OF log_failed(1)] by auto
    with refused.IH show ?thesis by (simp add: subseq_append_right)
  qed (use refused.IH in simp_all)
next
  case (marked m xs env name meta explicit m' r)
  have "\<exists>ys. written (log_writer m') = written (log_writer m) @ ys"
    using marked.hyps(2) by (cases rule: mark_cases) (use writer_write_facts(2) in fastforce)+
  with marked.IH show ?case by (auto simp: subseq_append_right)
next
  case (closed m xs io m' r)
  from closed.hyps(2) show ?case
  proof (cases rule: monitor_close_cases)
    case (closing w q b)
    with closed.IH writer_close_facts(2) [OF closing(1)] show ?thesis by simp
  qed (use closed.IH in simp)
qed simp

section \<open>Windows\<close>

definition descending :: "telemetry_sample list \<Rightarrow> bool" where
  "descending ss \<longleftrightarrow> sorted (rev (map monotonic_ns ss))"

lemma descending_Cons:
  "descending (s # ss) \<longleftrightarrow> descending ss \<and> (\<forall>x \<in> set ss. monotonic_ns x \<le> monotonic_ns s)"
  by (auto simp: descending_def sorted_append)

definition capped :: "int option \<Rightarrow> nat \<Rightarrow> 'a list \<Rightarrow> 'a list" where
  "capped limit used xs = (case limit of None \<Rightarrow> xs | Some n \<Rightarrow> take (nat n - used) xs)"

lemma scan_window_filter:
  assumes "descending ss" and "\<And>n. limit = Some n \<Longrightarrow> int (length acc) \<le> n"
  shows "scan_window start stop incl limit acc ss =
    (let found = filter (in_interval start stop incl) ss
     in (acc @ capped limit (length acc) found, length (capped limit (length acc) found) < length found))"
  using assms
proof (induction ss arbitrary: acc)
  case Nil
  then show ?case by (simp add: capped_def split: option.splits)
next
  case (Cons s ss)
  have d: "descending ss" and below: "\<forall>x \<in> set ss. monotonic_ns x \<le> monotonic_ns s"
    using Cons.prems(1) by (simp_all add: descending_Cons)
  consider (late) "stop < monotonic_ns s \<or> (monotonic_ns s = stop \<and> \<not> incl)"
    | (early) "\<not> (stop < monotonic_ns s \<or> (monotonic_ns s = stop \<and> \<not> incl))" "monotonic_ns s < start"
    | (inside) "\<not> (stop < monotonic_ns s \<or> (monotonic_ns s = stop \<and> \<not> incl))"
      "\<not> monotonic_ns s < start"
    by blast
  then show ?case
  proof cases
    case late
    then have "\<not> in_interval start stop incl s" by (auto simp: in_interval_def)
    with late Cons.IH [OF d Cons.prems(2)] show ?thesis by simp
  next
    case early
    then have "filter (in_interval start stop incl) (s # ss) = []"
      using below by (auto simp: in_interval_def filter_empty_conv)
    moreover have "scan_window start stop incl limit acc (s # ss) = (acc, False)" using early by auto
    moreover have "capped limit (length acc) ([] :: telemetry_sample list) = []"
      by (simp add: capped_def split: option.splits)
    ultimately show ?thesis by (simp only: Let_def append_Nil2 list.size less_irrefl)
  next
    case inside
    then have here: "in_interval start stop incl s" by (auto simp: in_interval_def)
    show ?thesis
    proof (cases "limit = Some (int (length acc))")
      case True
      with inside here show ?thesis by (auto simp: capped_def)
    next
      case False
      then have lim: "\<And>n. limit = Some n \<Longrightarrow> int (length (acc @ [s])) \<le> n"
        using Cons.prems(2) by fastforce
      have "scan_window start stop incl limit acc (s # ss) = scan_window start stop incl limit (acc @ [s]) ss"
        using inside False by auto
      moreover have "nat n - length acc = Suc (nat n - Suc (length acc))" if "limit = Some n" for n
        using lim [OF that] by simp
      ultimately show ?thesis
        using Cons.IH [OF d lim] here by (cases limit) (simp_all add: capped_def Let_def)
    qed
  qed
qed

lemma retained_descending: "retention_ok m xs \<Longrightarrow> descending (rev (retained m))"
proof -
  assume ok: "retention_ok m xs"
  then have "sorted (map monotonic_ns xs)" "retained m = drop (dropped_count m) xs"
    unfolding retention_ok_def by blast+
  then show ?thesis by (simp add: descending_def rev_map sorted_wrt_drop drop_map [symmetric])
qed

lemma complete_window_keeps_all:
  assumes ok: "retention_ok m xs" and "case last_dropped_ns m of None \<Rightarrow> True | Some t \<Rightarrow> t < start"
  shows "filter (in_interval start stop incl) (retained m) = filter (in_interval start stop incl) xs"
proof -
  let ?d = "dropped_count m"
  have f: "?d \<le> length xs" "retained m = drop ?d xs" "sorted (map monotonic_ns xs)"
    "last_dropped_ns m = (if ?d = 0 then None else Some (monotonic_ns (xs ! (?d - 1))))"
    using ok unfolding retention_ok_def by blast+
  have "\<not> in_interval start stop incl x" if "x \<in> set (take ?d xs)" for x
  proof -
    from that obtain i where i: "i < ?d" "x = xs ! i" by (auto simp: in_set_conv_nth)
    then have "monotonic_ns (xs ! i) \<le> monotonic_ns (xs ! (?d - 1))"
      using f(1,3) sorted_nth_mono [OF f(3), of i "?d - 1"] by simp
    with i f(4) assms(2) show ?thesis by (simp add: in_interval_def)
  qed
  then have "filter (in_interval start stop incl) (take ?d xs) = []" by (simp add: filter_empty_conv)
  with f(2) show ?thesis by (metis append_Nil append_take_drop_id filter_append)
qed

lemma locked_window:
  assumes "monitored m xs" and "\<And>n. limit = Some n \<Longrightarrow> 0 \<le> n"
    and "interval_complete (window_retention (sample_window_locked start stop incl reverse limit m))"
  shows "let found = rev (filter (in_interval start stop incl) xs);
             newest = capped limit 0 found;
             w = sample_window_locked start stop incl reverse limit m
         in window_samples w = (if reverse then newest else rev newest) \<and>
            limit_reached w = (length newest < length found)"
proof -
  note ok = monitored_retention_ok [OF assms(1)]
  have "case last_dropped_ns m of None \<Rightarrow> True | Some t \<Rightarrow> t < start"
    using assms(3) by (auto simp: sample_window_locked_def split_beta split: option.splits)
  note keep = complete_window_keeps_all [OF ok this, of stop incl]
  have "filter (in_interval start stop incl) (rev (retained m)) = rev (filter (in_interval start stop incl) xs)"
    by (simp only: rev_filter [symmetric] keep)
  with scan_window_filter [OF retained_descending [OF ok], of limit "[]" start stop incl] assms(2)
  show ?thesis by (simp add: sample_window_locked_def Let_def)
qed

lemma exact_window:
  assumes "monitored m xs" and "sample_window (VInt start) (VInt stop) incl reverse limit m = Inr w"
    and "interval_complete (window_retention w)"
  shows "let found = rev (filter (in_interval start stop incl) xs);
             newest = (case limit of VInt n \<Rightarrow> take (nat n) found | _ \<Rightarrow> found)
         in window_samples w = (if reverse then newest else rev newest) \<and>
            limit_reached w = (length newest < length found)"
proof -
  have w: "w = sample_window_locked start stop incl reverse (genuine_int limit) m"
    and lim: "limit = VNone \<or> (\<exists>n. limit = VInt n \<and> 0 < n)"
    using assms(2) by (auto simp: sample_window_def res_simps validated_monotonic_ns_def split: option.splits)
  have c: "interval_complete (window_retention (sample_window_locked start stop incl reverse (genuine_int limit) m))"
    using assms(3) w by simp
  have "\<And>n. genuine_int limit = Some n \<Longrightarrow> 0 \<le> n" using lim by auto
  note window = locked_window [OF assms(1) this c, folded w]
  from lim show ?thesis
  proof (elim disjE exE conjE)
    assume "limit = VNone"
    with window show ?thesis by (simp add: capped_def)
  next
    fix n
    assume "limit = VInt n"
    with window show ?thesis by (simp only: capped_def genuine_int.simps option.case pyval.case diff_zero Let_def simp_thms)
  qed
qed

text \<open>
  A window that reports itself complete is exact: it holds the samples of the interval among all
  samples ever accepted, the newest \<open>limit\<close> of them when a limit is given, in the requested order, and
  \<open>limit_reached\<close> says whether any was left out. Samples the bounded queue has discarded cannot be missing.
\<close>

lemma complete_window_is_exact:
  assumes "monitored m xs" and "sample_window (VInt start) (VInt stop) incl reverse limit m = Inr w"
    and "interval_complete (window_retention w)"
  shows "let found = rev (filter (in_interval start stop incl) xs);
             newest = (case limit of VInt n \<Rightarrow> take (nat n) found | _ \<Rightarrow> found)
         in window_samples w = (if reverse then newest else rev newest) \<and>
            limit_reached w = (length newest < length found)"
  by (rule exact_window [OF assms])

section \<open>Aggregation over the retained samples\<close>

lemma aggregate_unfold:
  "aggregate_samples xs a b opts = Inr r \<longleftrightarrow>
   (\<exists>q. check_request a b opts = Inr q \<and>
      build_aggregate q (selected_samples q xs) (last_ns (observed_samples q xs))
        (last_ns (filter (complete (required q)) (observed_samples q xs))) = Inr r)"
  by (simp add: aggregate_samples_def bnd_eq_Inr)

lemma last_ns_find: "last_ns (filter P xs) = map_option monotonic_ns (find P (rev xs))"
proof (induction xs rule: rev_induct)
  case (snoc x xs)
  then show ?case by (cases "P x") (simp_all add: last_ns_def [of "_ @ _"])
qed (simp add: last_ns_def)

lemma sorted_last_ge: "sorted (map f xs) \<Longrightarrow> y \<in> set xs \<Longrightarrow> f y \<le> f (last xs)"
  by (induction xs) auto

lemma last_ns_sort_key:
  assumes "x \<in> set ys" and "\<forall>y \<in> set ys. monotonic_ns y \<le> monotonic_ns x"
  shows "last_ns (sort_key monotonic_ns ys) = Some (monotonic_ns x)"
proof -
  let ?zs = "sort_key monotonic_ns ys"
  have ne: "?zs \<noteq> []" using assms(1) by (metis list.set(1) empty_iff set_sort)
  then have "last ?zs \<in> set ys" using last_in_set [OF ne] by simp
  moreover have "monotonic_ns x \<le> monotonic_ns (last ?zs)"
    by (rule sorted_last_ge) (use assms(1) in simp_all)
  ultimately show ?thesis using assms(2) ne by (simp add: last_ns_def) (meson order_antisym)
qed

lemma freshness_scan_find:
  assumes "list_all known_field fs"
  shows "freshness_scan ref fs lo lv ss =
    Inr (if lo = None then find (\<lambda>s. monotonic_ns s \<le> ref) ss else lo,
         if lv = None then find (\<lambda>s. monotonic_ns s \<le> ref \<and> complete fs s) ss else lv)"
proof (induction ss arbitrary: lo lv)
  case (Cons s ss)
  show ?case
    by (cases "ref < monotonic_ns s"; cases "complete fs s"; cases lo; cases lv)
      (simp_all add: Cons.IH all_present_known [OF assms] Let_def not_less)
qed simp

lemma add_missing_new:
  "set (add_missing os ids) \<subseteq> {s. Some s \<in> set os \<and> ident s \<notin> set ids}"
  by (induction os ids rule: add_missing.induct) (auto split: if_splits)

lemma add_missing_covers:
  "Some s \<in> set os \<Longrightarrow> ident s \<in> ident ` set (add_missing os ids) \<union> set ids"
proof (induction os ids rule: add_missing.induct)
  case (3 s' rest ids)
  then show ?case by (cases "ident s' \<in> set ids") auto
qed auto

lemma newest_is_found:
  assumes "set S \<subseteq> set R" and "sorted (map monotonic_ns R)"
    and "\<And>s. find P (rev R) = Some s \<Longrightarrow> s \<in> set S"
  shows "last_ns (sort_key monotonic_ns (filter P S)) = last_ns (filter P R)"
proof (cases "find P (rev R)")
  case None
  then have "filter P R = []" by (simp add: find_None_iff filter_empty_conv)
  moreover from this have "filter P S = []" using assms(1) by (auto simp: filter_empty_conv)
  ultimately show ?thesis by (simp add: last_ns_def)
next
  case (Some s)
  then have s: "P s" "s \<in> set (filter P S)"
    using find_SomeD [OF Some] assms(3) [OF Some] unfolding set_filter by blast+
  have eq: "last_ns (filter P R) = Some (monotonic_ns s)" using Some by (simp add: last_ns_find)
  have "monotonic_ns y \<le> monotonic_ns s" if "y \<in> set (filter P R)" for y
  proof -
    have "sorted (map monotonic_ns (filter P R))" using assms(2) by (rule sorted_map_filter)
    then have "monotonic_ns y \<le> monotonic_ns (last (filter P R))" using that by (rule sorted_last_ge)
    moreover have "filter P R \<noteq> []" using that by (metis list.set(1) empty_iff)
    ultimately show ?thesis using eq by (simp add: last_ns_def)
  qed
  then have "\<forall>y \<in> set (filter P S). monotonic_ns y \<le> monotonic_ns s" using assms(1) by auto
  from last_ns_sort_key [OF s(2) this] eq show ?thesis by simp
qed

definition retention_at :: "int \<Rightarrow> monitor \<Rightarrow> retention_record" where
  "retention_at start m = window_retention (sample_window_locked start start False False None m)"

lemma window_retention_at: "window_retention (sample_window_locked start stop incl rv k m) = retention_at start m"
  by (simp add: retention_at_def sample_window_locked_def split_beta Let_def)

lemma window_of_retained:
  assumes "retention_ok m xs"
  shows "window_samples (sample_window_locked start stop incl False None m) =
    filter (in_interval start stop incl) (retained m)"
  using scan_window_filter [OF retained_descending [OF assms], of None "[]" start stop incl]
  by (simp add: sample_window_locked_def capped_def Let_def rev_filter)

lemma retained_sorted: "retention_ok m xs \<Longrightarrow> sorted (map monotonic_ns (retained m))"
  using retained_descending by (simp add: descending_def rev_map)

lemma retained_distinct: "retention_ok m xs \<Longrightarrow> distinct (map ident (retained m))"
proof -
  assume "retention_ok m xs"
  then have "distinct (map ident xs)" "retained m = drop (dropped_count m) xs"
    unfolding retention_ok_def by blast+
  then show ?thesis by (simp add: drop_map [symmetric] distinct_drop)
qed

text \<open>The window with the two freshness samples stands for the whole queue.\<close>

lemma sufficient_samples:
  assumes R: "sorted (map monotonic_ns R)" and d: "distinct (map ident R)"
    and q: "list_all known_field (required q)"
  defines "W \<equiv> filter (in_interval (start_at q) (end_at q) (inclusive q)) R"
  defines "lo \<equiv> find (\<lambda>s. monotonic_ns s \<le> reference_at q) (rev R)"
    and "lv \<equiv> find (\<lambda>s. monotonic_ns s \<le> reference_at q \<and> complete (required q) s) (rev R)"
  defines "S \<equiv> W @ add_missing [lo, lv] (map ident W)"
  shows "selected_samples q S = W" and "selected_samples q R = W"
    and "last_ns (observed_samples q S) = last_ns (observed_samples q R)"
    and "last_ns (filter (complete (required q)) (observed_samples q S)) =
         last_ns (filter (complete (required q)) (observed_samples q R))"
proof -
  let ?in = "in_interval (start_at q) (end_at q) (inclusive q)"
  have inR: "Some s \<in> set [lo, lv] \<Longrightarrow> s \<in> set R" for s
    unfolding lo_def lv_def by (auto dest!: find_SomeD [OF sym] find_SomeD)
  have same: "ident s = ident t \<Longrightarrow> s \<in> set R \<Longrightarrow> t \<in> set R \<Longrightarrow> s = t" for s t
    using d by (meson distinct_map inj_onD)
  have W: "set W \<subseteq> set R" "sorted (map monotonic_ns W)" "filter ?in W = W"
    using sorted_map_filter [OF R] by (auto simp: W_def)
  let ?F = "add_missing [lo, lv] (map ident W)"
  have F: "s \<in> set R \<and> ident s \<notin> ident ` set W" if "s \<in> set ?F" for s
    using that add_missing_new [of "[lo, lv]" "map ident W"] inR by auto
  then have "filter ?in ?F = []" unfolding W_def by (auto simp: filter_empty_conv)
  then show "selected_samples q S = W"
    using W by (simp add: selected_samples_def S_def sort_key_id_if_sorted)
  show "selected_samples q R = W"
    using W(2) by (simp add: selected_samples_def W_def sort_key_id_if_sorted)
  have sub: "set S \<subseteq> set R" using W(1) F by (auto simp: S_def)
  have keep: "s \<in> set S" if "Some s \<in> set [lo, lv]" for s
  proof -
    have "ident s \<in> ident ` set S" using add_missing_covers [OF that, of "map ident W"] by (auto simp: S_def)
    then obtain t where "t \<in> set S" "ident t = ident s" by auto
    with same [of t s] sub inR [OF that] show ?thesis by auto
  qed
  have srtR: "observed_samples q R = filter (\<lambda>s. monotonic_ns s \<le> reference_at q) R"
    using sorted_map_filter [OF R] by (simp add: observed_samples_def sort_key_id_if_sorted)
  show "last_ns (observed_samples q S) = last_ns (observed_samples q R)"
    unfolding srtR observed_samples_def [of q S]
    by (rule newest_is_found [OF sub R]) (use keep lo_def in auto)
  have "last_ns (sort_key monotonic_ns (filter (\<lambda>s. monotonic_ns s \<le> reference_at q \<and> complete (required q) s) S)) =
      last_ns (filter (\<lambda>s. monotonic_ns s \<le> reference_at q \<and> complete (required q) s) R)"
    by (rule newest_is_found [OF sub R]) (use keep lv_def in auto)
  then show "last_ns (filter (complete (required q)) (observed_samples q S)) =
         last_ns (filter (complete (required q)) (observed_samples q R))"
    unfolding srtR observed_samples_def [of q S] filter_sort filter_filter .
qed

lemma monitor_aggregate_retained:
  assumes m: "monitored m xs" and i: "end_inclusive opts = VBool incl"
    and q: "check_request (VInt start) (VInt stop) (call_options ref opts) = Inr q"
    and ref: "ref \<noteq> Some VNone"
  shows "monitor_aggregate (VInt start) (VInt stop) ref opts m =
    bnd (aggregate_samples (retained m) (VInt start) (VInt stop) (call_options ref opts))
      (\<lambda>a. Inr (with_retention (retention_at start m) a))"
proof -
  note ok = monitored_retention_ok [OF m]
  note req = check_request_Inr [OF q]
  have qi: "inclusive q = incl" "required q = uniq (required_fields opts)" "start_at q = start" "end_at q = stop"
    using req(1,2,4,6) i by (simp_all add: call_options_def)
  have pos: "0 \<le> start" "0 \<le> stop" using q by (auto simp: check_request_def validated_monotonic_ns_def res_simps)
  have r: "validated_monotonic_ns (case ref of None \<Rightarrow> VInt stop | Some v \<Rightarrow> v) = Inr (reference_at q)"
  proof (cases ref)
    case None
    then show ?thesis using req(11) pos by (simp add: validated_monotonic_ns_def call_options_def)
  next
    case (Some v)
    then have "reference_ns (call_options ref opts) = v" by (simp add: call_options_def)
    then have "\<exists>k. optional_ns v = Inr k" using check_request_cases [OF q] by metis
    moreover have "v \<noteq> VNone" using Some ref by simp
    ultimately have "\<exists>n. v = VInt n \<and> 0 \<le> n" by (auto simp: optional_ns_eq)
    then obtain n where "v = VInt n" "0 \<le> n" by blast
    with Some show ?thesis using req(11) by (simp add: validated_monotonic_ns_def call_options_def)
  qed
  let ?R = "retained m" and ?F = "uniq (required_fields opts)"
  let ?W = "filter (in_interval start stop incl) ?R"
  let ?lo = "find (\<lambda>s. monotonic_ns s \<le> reference_at q) (rev ?R)"
  let ?lv = "find (\<lambda>s. monotonic_ns s \<le> reference_at q \<and> complete ?F s) (rev ?R)"
  let ?S = "?W @ add_missing [?lo, ?lv] (map ident ?W)"
  have scan: "freshness_scan (reference_at q) ?F None None (rev ?R) = Inr (?lo, ?lv)"
    using freshness_scan_find [of ?F] req(5) qi(2) by simp
  have "monitor_aggregate (VInt start) (VInt stop) ref opts m =
      bnd (aggregate_samples ?S (VInt start) (VInt stop) (call_options ref opts))
        (\<lambda>a. Inr (with_retention (retention_at start m) a))"
    using pos
    by (simp add: monitor_aggregate_def validated_monotonic_ns_def [of "VInt start"]
        validated_monotonic_ns_def [of "VInt stop"] i r scan window_of_retained [OF ok] window_retention_at Let_def)
  moreover have "aggregate_samples ?S (VInt start) (VInt stop) (call_options ref opts) =
      aggregate_samples ?R (VInt start) (VInt stop) (call_options ref opts)"
    using sufficient_samples [OF retained_sorted [OF ok] retained_distinct [OF ok] req(5)]
    unfolding aggregate_samples_def q bnd_Inr qi by simp
  ultimately show ?thesis by simp
qed

text \<open>
  C32: \<open>TegrastatsMonitor.aggregate\<close>, which looks only at the window and at two freshness samples, succeeds
  exactly when \<open>aggregate_samples\<close> over all retained samples does, with the same report; it adds the
  retention record and, for a truncated interval, the unhealthy verdict.
\<close>

theorem monitor_aggregate_equals_full_aggregate:
  assumes "monitored m xs" and "ref \<noteq> Some VNone"
  shows "monitor_aggregate (VInt start) (VInt stop) ref opts m = Inr r \<longleftrightarrow>
    (\<exists>a. aggregate_samples (retained m) (VInt start) (VInt stop) (call_options ref opts) = Inr a \<and>
         r = with_retention (retention_at start m) a)"
proof (cases "\<exists>q. check_request (VInt start) (VInt stop) (call_options ref opts) = Inr q")
  case True
  then obtain q where q: "check_request (VInt start) (VInt stop) (call_options ref opts) = Inr q" by blast
  have "end_inclusive opts = VBool (inclusive q)"
    using check_request_Inr(6) [OF q] by (simp add: call_options_def)
  from monitor_aggregate_retained [OF assms(1) this q assms(2)] show ?thesis
    by (auto simp: bnd_eq_Inr)
next
  case False
  then have no: "aggregate_samples ss (VInt start) (VInt stop) (call_options ref opts) \<noteq> Inr a" for ss a
    by (auto simp: aggregate_unfold)
  then have "monitor_aggregate (VInt start) (VInt stop) ref opts m \<noteq> Inr r"
    by (auto simp: monitor_aggregate_def bnd_eq_Inr validated_monotonic_ns_def Let_def
        split: pyval.splits if_splits)
  with no show ?thesis by blast
qed

lemma build_aggregate_other_latest:
  "build_aggregate q sel a b = Inr r \<Longrightarrow>
   build_aggregate q sel a' b' = Inr (r\<lparr>health := assess_health q sel a' b'\<rparr>)"
  by (auto simp: build_aggregate_def Let_def bnd_eq_Inr)

lemma build_aggregate_no_retention: "build_aggregate q sel a b = Inr r \<Longrightarrow> retention r = None"
  by (auto simp: build_aggregate_def Let_def bnd_eq_Inr)

lemma healthy_newer:
  assumes "healthy (assess_health q sel a b)"
    and "\<not> older_than (reference_at q) (stale_limit q) a \<Longrightarrow> \<not> older_than (reference_at q) (stale_limit q) a'"
    and "\<not> older_than (reference_at q) (stale_limit q) b \<Longrightarrow> \<not> older_than (reference_at q) (stale_limit q) b'"
  shows "healthy (assess_health q sel a' b')"
  using assms by (auto simp: assess_health_def Let_def split: if_splits)

lemma fresher_superset:
  assumes "set R \<subseteq> set xs" and "\<not> older_than t bd (last_ns (sort_key monotonic_ns R))"
  shows "\<not> older_than t bd (last_ns (sort_key monotonic_ns xs))"
proof (cases bd)
  case (Some n)
  then have ne: "sort_key monotonic_ns R \<noteq> []"
    and old: "t - monotonic_ns (last (sort_key monotonic_ns R)) \<le> n"
    using assms(2) by (auto simp: older_than_def last_ns_def split: if_splits)
  let ?l = "last (sort_key monotonic_ns R)" and ?x = "last (sort_key monotonic_ns xs)"
  have "?l \<in> set xs" using last_in_set [OF ne] assms(1) by auto
  then have "monotonic_ns ?l \<le> monotonic_ns ?x" by (intro sorted_last_ge) simp_all
  with old have "t - monotonic_ns ?x \<le> n" by simp
  moreover have "sort_key monotonic_ns xs \<noteq> []" using \<open>?l \<in> set xs\<close> by (metis empty_iff list.set(1) set_sort)
  ultimately show ?thesis using Some by (simp add: older_than_def last_ns_def)
qed (simp add: older_than_def)

lemma fresher_filter:
  "set R \<subseteq> set xs \<Longrightarrow> \<not> older_than t bd (last_ns (sort_key monotonic_ns (filter P R))) \<Longrightarrow>
   \<not> older_than t bd (last_ns (sort_key monotonic_ns (filter P xs)))"
  by (rule fresher_superset) auto

text \<open>
  C31: bounded retention is sound. When the monitor, after discarding samples, still calls an interval
  healthy, the aggregation over every sample ever accepted is healthy too, and all its statistics are
  the ones the monitor reported.
\<close>

theorem healthy_verdict_survives_discarding:
  assumes "monitored m xs" and "ref \<noteq> Some VNone"
    and "monitor_aggregate (VInt start) (VInt stop) ref opts m = Inr r" and "healthy (health r)"
  shows "\<exists>b. aggregate_samples xs (VInt start) (VInt stop) (call_options ref opts) = Inr b \<and>
    healthy (health b) \<and> r\<lparr>health := health b, retention := None\<rparr> = b"
proof -
  note ok = monitored_retention_ok [OF assms(1)]
  obtain a where a: "aggregate_samples (retained m) (VInt start) (VInt stop) (call_options ref opts) = Inr a"
    and r: "r = with_retention (retention_at start m) a"
    using assms(3) unfolding monitor_aggregate_equals_full_aggregate [OF assms(1,2)] by blast
  have c: "interval_complete (retention_at start m)"
    using assms(4) r by (auto simp: with_retention_def Let_def split: if_splits)
  then have ra: "r = a\<lparr>retention := Some (retention_at start m)\<rparr>" using r by (simp add: with_retention_def)
  obtain q where q: "check_request (VInt start) (VInt stop) (call_options ref opts) = Inr q"
    and b: "build_aggregate q (selected_samples q (retained m)) (last_ns (observed_samples q (retained m)))
        (last_ns (filter (complete (required q)) (observed_samples q (retained m)))) = Inr a"
    using a unfolding aggregate_unfold by blast
  have "case last_dropped_ns m of None \<Rightarrow> True | Some t \<Rightarrow> t < start_at q"
    using c check_request_Inr(1) [OF q]
    by (auto simp: retention_at_def sample_window_locked_def split_beta split: option.splits)
  from complete_window_keeps_all [OF ok this] have sel: "selected_samples q xs = selected_samples q (retained m)"
    by (simp add: selected_samples_def)
  have sub: "set (retained m) \<subseteq> set xs"
    using ok unfolding retention_ok_def by (metis set_drop_subset)
  let ?h = "assess_health q (selected_samples q xs) (last_ns (observed_samples q xs))
      (last_ns (filter (complete (required q)) (observed_samples q xs)))"
  have "healthy (assess_health q (selected_samples q xs) (last_ns (observed_samples q (retained m)))
      (last_ns (filter (complete (required q)) (observed_samples q (retained m)))))"
    using assms(4) build_aggregate_health [OF b] ra sel by simp
  then have h: "healthy ?h"
  proof (rule healthy_newer; unfold observed_samples_def filter_sort filter_filter)
  qed (erule fresher_filter [OF sub])+
  have "aggregate_samples xs (VInt start) (VInt stop) (call_options ref opts) = Inr (a\<lparr>health := ?h\<rparr>)"
    using build_aggregate_other_latest [OF b] q sel by (auto simp: aggregate_unfold)
  then show ?thesis using h ra build_aggregate_no_retention [OF b] by auto
qed

section \<open>A run with one discarded sample\<close>

definition example_surroundings :: surroundings where
  "example_surroundings = \<lparr>clock_value = VInt 0, reader_result = Inl (OSError []), stream = StreamOk\<rparr>"

definition example_start :: monitor where
  "example_start =
     \<lparr>log_writer = \<lparr>written = [], flushed = 0, flush_each = True, flush_every = None,
        records_since_flush = 0, writer_closed = False, writer_last_ns = None\<rparr>,
      retained = [], retention_limit = Some 1, markers = [], monitor_closed = False,
      monitor_last_ns = None, dropped_count = 0, last_dropped_ns = None, next_ident = 0\<rparr>"

definition example_step :: "int \<Rightarrow> monitor \<Rightarrow> monitor \<times> telemetry_sample res" where
  "example_step t m = record_line example_surroundings [] (VInt t) MemNone m"

definition example_line_sample :: "nat \<Rightarrow> int \<Rightarrow> telemetry_sample" where
  "example_line_sample i t =
     \<lparr>ident = i, monotonic_ns = t, raw = [],
      parsed = \<lparr>ram = None, swap = None, cpu = [], temperatures_c = [], power = [], emc = None, gr3d = None\<rparr>,
      mem_available_mb = None, collection_errors = []\<rparr>"

definition example_log :: "telemetry_sample list \<Rightarrow> writer" where
  "example_log xs =
     \<lparr>written = map SampleRec xs, flushed = length xs, flush_each = True, flush_every = None,
      records_since_flush = 0, writer_closed = False, writer_last_ns = last_ns xs\<rparr>"

definition example_end :: monitor where
  "example_end =
     \<lparr>log_writer = example_log [example_line_sample 0 5, example_line_sample 1 15],
      retained = [example_line_sample 1 15], retention_limit = Some 1, markers = [], monitor_closed = False,
      monitor_last_ns = Some 15, dropped_count = 1, last_dropped_ns = Some 5, next_ident = 2\<rparr>"

lemma example_empty_line:
  "parse_tegrastats_line [] =
   \<lparr>ram = None, swap = None, cpu = [], temperatures_c = [], power = [], emc = None, gr3d = None\<rparr>"
  by code_simp

lemma example_run:
  "monitored example_end [example_line_sample 0 5, example_line_sample 1 15]"
proof -
  have start: "monitored example_start []"
    by (rule monitored.fresh [of "''w''" True VNone _ "Some 1"]) (simp_all add: new_writer_def new_monitor_def example_start_def)
  let ?m = "fst (example_step 5 example_start)"
  note defs = example_step_def record_line_def example_empty_line timestamp_of_def example_surroundings_def
    example_start_def available_memory_def new_sample_def validated_monotonic_ns_def rstrip_newlines_def
    regresses_def writer_write_def payload_floats_def clock_floats_def option_list_def flush_due_def
    retain_def example_line_sample_def Let_def
  have 1: "example_step 5 example_start = (?m, Inr (example_line_sample 0 5))"
    by (simp add: defs)
  have 2: "example_step 15 ?m = (example_end, Inr (example_line_sample 1 15))"
    by (simp add: defs example_end_def example_log_def last_ns_def)
  show ?thesis
    using monitored.accepted [OF monitored.accepted [OF start 1 [unfolded example_step_def]]
        2 [unfolded example_step_def]]
    by (simp add: example_step_def)
qed

theorem accepted_samples_are_logged_witness:
  "subseq (map SampleRec [example_line_sample 0 5, example_line_sample 1 15]) (written (log_writer example_end))"
  by (rule accepted_samples_are_logged [OF example_run])

lemma complete_window_is_exact_witness:
  "window_samples (sample_window_locked 10 20 False True None example_end) = [example_line_sample 1 15]"
proof -
  have w: "sample_window (VInt 10) (VInt 20) False True VNone example_end =
      Inr (sample_window_locked 10 20 False True None example_end)"
    by (simp add: sample_window_def validated_monotonic_ns_def)
  have c: "interval_complete (window_retention (sample_window_locked 10 20 False True None example_end))"
    by (simp add: window_retention_at) (simp add: retention_at_def sample_window_locked_def example_end_def
        in_interval_def example_line_sample_def)
  from complete_window_is_exact [OF example_run w c] show ?thesis
    by (simp add: in_interval_def example_line_sample_def)
qed

definition example_query :: aggregate_options where
  "example_query =
     \<lparr>required_fields = [], minimum_valid_samples = VInt 1, require_all_samples_valid = True,
      reference_ns = VNone, stale_after_ns = VInt 6, maximum_valid_gap_ns = VInt 6,
      end_inclusive = VBool False\<rparr>"

lemma example_report:
  "\<exists>r. monitor_aggregate (VInt 10) (VInt 20) None example_query example_end = Inr r \<and> healthy (health r)"
proof -
  have "case monitor_aggregate (VInt 10) (VInt 20) None example_query example_end of
      Inr r \<Rightarrow> healthy (health r) | Inl _ \<Rightarrow> False" by code_simp
  then show ?thesis by (auto split: sum.splits)
qed

theorem monitor_aggregate_equals_full_aggregate_witness:
  "\<exists>a. aggregate_samples (retained example_end) (VInt 10) (VInt 20) (call_options None example_query) = Inr a"
  using example_report monitor_aggregate_equals_full_aggregate [OF example_run, of None 10 20 example_query] by auto

theorem healthy_verdict_survives_discarding_witness:
  "\<exists>b. aggregate_samples [example_line_sample 0 5, example_line_sample 1 15] (VInt 10) (VInt 20)
     (call_options None example_query) = Inr b \<and> healthy (health b)"
  using example_report healthy_verdict_survives_discarding [OF example_run, of None 10 20 example_query] by auto

end
