(* ===== verification/ThermalWindow.thy ===== *)
theory ThermalWindow
  imports TelemetryMonitor
begin

text \<open>
  The thermal windows of \<open>runtime/mig_slack_governor.py\<close>: how many telemetry samples an interval must
  hold, the trend of a temperature sensor over a window, the largest gap between its samples, and
  the tests that call a window stable. The monitor is the one of the telemetry theories; the branch
  for objects without \<open>sample_window\<close> serves test doubles and is left out.
\<close>

section \<open>Constants\<close>

definition TELEMETRY_REQUIRED_FIELDS :: "string list" where
  "TELEMETRY_REQUIRED_FIELDS =
     [''ram'', ''mem_available'', ''cpu'', ''temperature:soc012'', ''temperature:tj'', ''power:VIN'']"

definition TELEMETRY_INTERVAL_MS :: pyfloat where
  "TELEMETRY_INTERVAL_MS = Fin 100"

definition TELEMETRY_REQUIRED_FRACTION :: pyfloat where
  "TELEMETRY_REQUIRED_FRACTION = fl (8 / 10)"

definition TELEMETRY_STALE_AFTER_MS :: pyfloat where
  "TELEMETRY_STALE_AFTER_MS = Fin 300"

definition THERMAL_STABILITY_CHECKPOINT_MAX_LATENESS_SECONDS :: pyfloat where
  "THERMAL_STABILITY_CHECKPOINT_MAX_LATENESS_SECONDS = Fin 1"

definition THERMAL_STABILITY_SENSOR :: string where
  "THERMAL_STABILITY_SENSOR = ''soc012''"

definition THERMAL_SAFETY_SENSOR :: string where
  "THERMAL_SAFETY_SENSOR = ''tj''"

section \<open>Sample counts and checkpoints\<close>

text \<open>The quotient of an \<open>int\<close> and a \<open>float\<close> converts the \<open>int\<close> first.\<close>

definition int_over :: "int \<Rightarrow> pyfloat \<Rightarrow> pyfloat res" where
  "int_over n d = bnd (float_of_int n) (\<lambda>x. fdiv x d)"

definition minimum_telemetry_samples :: "int \<Rightarrow> int \<Rightarrow> pyfloat \<Rightarrow> pyfloat \<Rightarrow> int res" where
  "minimum_telemetry_samples start_ns end_ns interval_ms required_fraction =
     (let duration_ns = end_ns - start_ns in
      if duration_ns \<le> 0 \<or> fle interval_ms (Fin 0)
      then Inl (ValueError ''telemetry interval must be positive'')
      else
        bnd (int_over duration_ns (fmul interval_ms (Fin 1000000))) (\<lambda>ratio.
        bnd (math_floor ratio) (\<lambda>n.
        let expected = max 1 n in
        bnd (float_of_int expected) (\<lambda>e.
        bnd (math_floor (fmul e required_fraction)) (\<lambda>k. Inr (max 1 k))))))"

abbreviation minimum_samples :: "int \<Rightarrow> int \<Rightarrow> int res" where
  "minimum_samples start_ns end_ns \<equiv>
     minimum_telemetry_samples start_ns end_ns TELEMETRY_INTERVAL_MS TELEMETRY_REQUIRED_FRACTION"

definition thermal_stability_checkpoint_is_timely :: "pyfloat \<Rightarrow> pyfloat \<Rightarrow> bool" where
  "thermal_stability_checkpoint_is_timely actual scheduled \<longleftrightarrow>
     isfinite actual \<and> isfinite scheduled \<and> flt (Fin 0) scheduled \<and> fle scheduled actual \<and>
     fle (fsub actual scheduled) THERMAL_STABILITY_CHECKPOINT_MAX_LATENESS_SECONDS"

section \<open>The window of a sensor\<close>

record thermal_summary =
  thermal_samples :: nat
  thermal_window_seconds :: pyfloat
  observed_span_seconds :: pyfloat
  mean_c :: pyfloat
  min_c :: pyfloat
  max_c :: pyfloat
  latest_c :: pyfloat
  slope_c_per_minute :: pyfloat
  maximum_gap_seconds :: "pyfloat option"

text \<open>\<open>x ** 2\<close> on floats raises when a finite base overflows.\<close>

definition fsquare :: "pyfloat \<Rightarrow> pyfloat res" where
  "fsquare x = (if isfinite x \<and> \<not> isfinite (fmul x x) then Inl OverflowError else Inr (fmul x x))"

definition py_sum :: "pyfloat list \<Rightarrow> pyfloat" where
  "py_sum = foldl fadd (Fin 0)"

definition window_start :: "pyfloat \<Rightarrow> int \<Rightarrow> int option \<Rightarrow> int res" where
  "window_start window_seconds reference not_before =
     bnd (int_of_float (fmul window_seconds (Fin 1000000000))) (\<lambda>w.
       Inr (case not_before of None \<Rightarrow> reference - w | Some n \<Rightarrow> max (reference - w) n))"

definition sensor_points :: "string \<Rightarrow> telemetry_sample list \<Rightarrow> (int \<times> pyfloat) list" where
  "sensor_points sensor samples =
     List.map_filter (\<lambda>s. map_option (Pair (monotonic_ns s)) (map_of (temperatures_c (parsed s)) sensor)) samples"

definition trend :: "pyfloat \<Rightarrow> (int \<times> pyfloat) list \<Rightarrow> thermal_summary res" where
  "trend window_seconds points =
     (let t0 = fst (hd points); values = map snd points in
      bnd (map_res (\<lambda>(t, v). int_over (t - t0) (Fin 1000000000)) points) (\<lambda>times.
      bnd (fmean times) (\<lambda>mean_time.
      bnd (fmean values) (\<lambda>mean_value.
      bnd (map_res (\<lambda>t. fsquare (fsub t mean_time)) times) (\<lambda>squares.
      let denominator = py_sum squares;
          products = map (\<lambda>(t, v). fmul (fsub t mean_time) (fsub v mean_value)) (zip times values) in
      bnd (if flt (Fin 0) denominator
           then bnd (fdiv (py_sum products) denominator) (\<lambda>q. Inr (fmul q (Fin 60)))
           else Inr (Fin 0)) (\<lambda>slope.
        Inr \<lparr>thermal_samples = length values, thermal_window_seconds = window_seconds,
             observed_span_seconds = fsub (last times) (hd times), mean_c = mean_value,
             min_c = foldl fmin (hd values) (tl values), max_c = foldl fmax (hd values) (tl values),
             latest_c = last values, slope_c_per_minute = slope, maximum_gap_seconds = None\<rparr>))))))"

definition window_query :: "pyfloat \<Rightarrow> int \<Rightarrow> int option \<Rightarrow> monitor \<Rightarrow> (int \<times> telemetry_sample list) res" where
  "window_query window_seconds reference not_before m =
     (if fle window_seconds (Fin 0) then Inl (ValueError ''thermal window must be positive'')
      else
        bnd (window_start window_seconds reference not_before) (\<lambda>start.
        bnd (sample_window (VInt start) (VInt reference) True False VNone m) (\<lambda>w.
          Inr (start, window_samples w))))"

definition thermal_window_summary ::
  "string \<Rightarrow> pyfloat \<Rightarrow> int \<Rightarrow> int option \<Rightarrow> monitor \<Rightarrow> thermal_summary option res" where
  "thermal_window_summary sensor window_seconds reference not_before m =
     bnd (window_query window_seconds reference not_before m) (\<lambda>(start, samples).
       let points = sensor_points sensor samples in
       if length points < 2 then Inr None
       else bnd (trend window_seconds points) (\<lambda>s. Inr (Some s)))"

definition thermal_window_maximum_gap_seconds ::
  "string \<Rightarrow> pyfloat \<Rightarrow> int \<Rightarrow> int option \<Rightarrow> monitor \<Rightarrow> pyfloat option res" where
  "thermal_window_maximum_gap_seconds sensor window_seconds reference not_before m =
     bnd (window_query window_seconds reference not_before m) (\<lambda>(start, samples).
       let timestamps = map fst (sensor_points sensor samples) in
       if timestamps = [] then Inr None
       else bnd (int_over (observed_gap start reference timestamps) (Fin 1000000000)) (\<lambda>g. Inr (Some g)))"

section \<open>Stability\<close>

definition stale_after_seconds :: pyfloat where
  "stale_after_seconds = (case fdiv TELEMETRY_STALE_AFTER_MS (Fin 1000) of Inr v \<Rightarrow> v | Inl _ \<Rightarrow> NaN)"

text \<open>The two conditions every stability test puts on a window: enough span and no large gap.\<close>

definition span_covers :: "pyfloat \<Rightarrow> thermal_summary \<Rightarrow> bool" where
  "span_covers window_seconds s \<longleftrightarrow> fle (fmul window_seconds (fl (99 / 100))) (observed_span_seconds s)"

definition gap_bounded :: "pyfloat option \<Rightarrow> bool" where
  "gap_bounded gap = (case gap of None \<Rightarrow> False | Some g \<Rightarrow> isfinite g \<and> fle g stale_after_seconds)"

definition required_window_samples :: "pyfloat \<Rightarrow> int res" where
  "required_window_samples window_seconds =
     bnd (int_of_float (fmul window_seconds (Fin 1000000000))) (minimum_samples 0)"

definition thermal_window_is_stable ::
  "thermal_summary option \<Rightarrow> pyfloat \<Rightarrow> pyfloat \<Rightarrow> pyfloat \<Rightarrow> pyfloat \<Rightarrow> bool res" where
  "thermal_window_is_stable summary target_c tolerance_c window_seconds maximum_slope =
     (case summary of
        None \<Rightarrow> Inr False
      | Some s \<Rightarrow>
          bnd (required_window_samples window_seconds) (\<lambda>required.
            Inr (required \<le> int (thermal_samples s) \<and> span_covers window_seconds s \<and>
                 fle (fabs (fsub (mean_c s) target_c)) tolerance_c \<and>
                 fle (fabs (fsub (latest_c s) target_c)) tolerance_c \<and>
                 fle (fabs (slope_c_per_minute s)) maximum_slope \<and>
                 gap_bounded (maximum_gap_seconds s))))"

text \<open>The maximum of a sensor in an aggregate; the entry may be missing or hold no finite value.\<close>

definition sensor_maximum :: "string \<Rightarrow> telemetry_aggregate \<Rightarrow> pyfloat option" where
  "sensor_maximum sensor a =
     (case map_of (temperature_stats a) sensor of Some (Some s) \<Rightarrow> Some (largest s) | _ \<Rightarrow> None)"

definition thermal_pilot_checkpoint_is_stable ::
  "thermal_summary option \<Rightarrow> telemetry_aggregate \<Rightarrow> pyfloat \<Rightarrow> pyfloat \<Rightarrow> pyfloat \<Rightarrow> string \<Rightarrow> bool res" where
  "thermal_pilot_checkpoint_is_stable summary telemetry hard_limit_c window_seconds maximum_slope safety_sensor =
     (case (summary, sensor_maximum safety_sensor telemetry) of
        (Some s, Some hottest) \<Rightarrow>
          bnd (required_window_samples window_seconds) (\<lambda>required.
            Inr (healthy (health telemetry) \<and>
                 health_required (health telemetry) = TELEMETRY_REQUIRED_FIELDS \<and>
                 required \<le> int (valid_samples telemetry) \<and> required \<le> int (thermal_samples s) \<and>
                 span_covers window_seconds s \<and> gap_bounded (maximum_gap_seconds s) \<and>
                 fle (fabs (slope_c_per_minute s)) maximum_slope \<and> flt hottest hard_limit_c))
      | _ \<Rightarrow> Inr False)"

section \<open>Live telemetry\<close>

definition stale_after_ns :: int where
  "stale_after_ns = (case int_of_float (fmul TELEMETRY_STALE_AFTER_MS (Fin 1000000)) of Inr n \<Rightarrow> n | Inl _ \<Rightarrow> 0)"

definition thermal_options :: "int \<Rightarrow> bool \<Rightarrow> aggregate_options" where
  "thermal_options minimum strict =
     \<lparr>required_fields = TELEMETRY_REQUIRED_FIELDS, minimum_valid_samples = VInt minimum,
      require_all_samples_valid = strict, reference_ns = VNone, stale_after_ns = VInt stale_after_ns,
      maximum_valid_gap_ns = VInt stale_after_ns, end_inclusive = VBool True\<rparr>"

definition thermal_aggregate :: "int \<Rightarrow> int \<Rightarrow> int \<Rightarrow> int \<Rightarrow> bool \<Rightarrow> monitor \<Rightarrow> telemetry_aggregate res" where
  "thermal_aggregate start stop reference minimum strict m =
     monitor_aggregate (VInt start) (VInt stop) (Some (VInt reference)) (thermal_options minimum strict) m"

text \<open>\<open>telemetry["temperatures_c"][sensor]\<close> and \<open>float(entry["max"])\<close>.\<close>

definition sensor_entry_maximum :: "string \<Rightarrow> telemetry_aggregate \<Rightarrow> pyfloat res" where
  "sensor_entry_maximum sensor a =
     (case map_of (temperature_stats a) sensor of
        None \<Rightarrow> Inl (KeyError sensor)
      | Some None \<Rightarrow> Inl TypeError
      | Some (Some s) \<Rightarrow> Inr (largest s))"

definition require_live_thermal_telemetry ::
  "int \<Rightarrow> int \<Rightarrow> pyfloat \<Rightarrow> string \<Rightarrow> monitor \<Rightarrow> telemetry_aggregate res" where
  "require_live_thermal_telemetry start_ns reference hard_limit_c safety_sensor m =
     bnd (thermal_aggregate (max start_ns (reference - 1000000000)) reference reference 1 False m) (\<lambda>a.
       if \<not> healthy (health a) then Inl (RuntimeError ''thermal telemetry became unhealthy during'')
       else
         bnd (sensor_entry_maximum safety_sensor a) (\<lambda>hottest.
           if fle hard_limit_c hottest then Inl (RuntimeError ''thermal hard limit reached during'')
           else Inr a))"

end
