(* ===== verification/ThermalStart.thy ===== *)
theory ThermalStart
  imports ThermalWindow
begin

text \<open>
  The thermal start of a measurement in \<open>runtime/mig_slack_governor.py\<close>: the qualification of the
  first telemetry sample after cleanup, the evidence it writes, the validators of that evidence, the
  handoff clocks and the check of the actual start. Another thread feeds the monitor while these
  functions run, so the monitor of every call is an argument: the state that thread has reached.
\<close>

section \<open>Telemetry as a JSON value\<close>

definition option_value :: "('a \<Rightarrow> pyval) \<Rightarrow> 'a option \<Rightarrow> pyval" where
  "option_value f v = (case v of None \<Rightarrow> VNone | Some x \<Rightarrow> f x)"

abbreviation nat_value :: "nat \<Rightarrow> pyval" where
  "nat_value n \<equiv> VInt (int n)"

definition summary_value :: "numeric_summary_record option \<Rightarrow> pyval" where
  "summary_value = option_value (\<lambda>s. VDict [(''count'', nat_value (count s)), (''mean'', VFloat (mean s)),
     (''min'', VFloat (smallest s)), (''p50'', VFloat (p50 s)), (''p95'', VFloat (p95 s)),
     (''max'', VFloat (largest s))])"

definition core_value :: "core_summary \<Rightarrow> pyval" where
  "core_value c = VDict [(''core'', nat_value (core c)), (''utilization_pct'', summary_value (core_utilization c)),
     (''frequency_mhz'', summary_value (core_frequency c)), (''online_samples'', nat_value (online_samples c)),
     (''off_samples'', nat_value (off_samples c)), (''unknown_samples'', nat_value (unknown_samples c))]"

definition clock_value_of :: "clock_summary option \<Rightarrow> pyval" where
  "clock_value_of = option_value (\<lambda>c. VDict [(''utilization_pct'', summary_value (utilization_summary c)),
     (''frequencies_mhz'', VList (map summary_value (frequency_summaries c)))])"

definition health_value :: "telemetry_health \<Rightarrow> pyval" where
  "health_value h = VDict [(''healthy'', VBool (healthy h)), (''reasons'', VList (map VStr (reasons h))),
     (''required_fields'', VList (map VStr (health_required h))),
     (''require_all_samples_valid'', VBool (health_strict h)),
     (''missing_counts'', VDict (map (\<lambda>(f, n). (f, nat_value n)) (missing_counts h))),
     (''incomplete_samples'', nat_value (incomplete_samples h)),
     (''last_interval_sample_ns'', option_value VInt (last_interval_sample_ns h)),
     (''last_sample_ns'', option_value VInt (last_sample_ns h)),
     (''last_valid_sample_ns'', option_value VInt (last_valid_sample_ns h)), (''stale'', VBool (stale h)),
     (''valid_sample_stale'', VBool (valid_sample_stale h)),
     (''maximum_valid_gap_ns'', option_value VInt (health_gap_limit h)),
     (''observed_maximum_valid_gap_ns'', option_value VInt (observed_maximum_valid_gap_ns h)),
     (''valid_gap_exceeded'', VBool (valid_gap_exceeded h)),
     (''collection_error_samples'', nat_value (collection_error_samples h))]"

definition retention_value :: "retention_record \<Rightarrow> pyval" where
  "retention_value r = VDict [(''bounded'', VBool (bounded r)), (''max_samples'', option_value nat_value (max_samples r)),
     (''dropped_samples'', nat_value (dropped_samples r)),
     (''last_dropped_sample_ns'', option_value VInt (last_dropped_sample_ns r)),
     (''earliest_retained_sample_ns'', option_value VInt (earliest_retained_sample_ns r)),
     (''interval_complete'', VBool (interval_complete r))]"

definition ram_value :: "ram_summary \<Rightarrow> pyval" where
  "ram_value r = VDict [(''used_mb'', summary_value (ram_used_mb r)), (''total_mb'', summary_value (ram_total_mb r)),
     (''headroom_mb'', summary_value (ram_headroom_mb r)),
     (''largest_free_block_count'', summary_value (ram_block_count r)),
     (''largest_free_block_mb'', summary_value (ram_block_mb r))]"

definition aggregate_value :: "telemetry_aggregate \<Rightarrow> pyval" where
  "aggregate_value a = VDict (
     [(''schema_version'', VInt 1),
      (''interval'', VDict [(''start_ns'', VInt (interval_start_ns a)), (''end_ns'', VInt (interval_end_ns a)),
         (''duration_ns'', VInt (interval_end_ns a - interval_start_ns a)),
         (''end_inclusive'', VBool (interval_end_inclusive a))]),
      (''total_samples'', nat_value (total_samples a)), (''valid_samples'', nat_value (valid_samples a)),
      (''invalid_samples'', nat_value (total_samples a - valid_samples a)),
      (''health'', health_value (health a)), (''ram'', ram_value (ram_stats a)),
      (''mem_available_mb'', summary_value (mem_available_stats a)),
      (''cpu'', VDict [(''mean_across_online_cores_pct'', summary_value (mean_across_online_cores_pct (cpu_stats a))),
         (''cores'', VList (map core_value (cores (cpu_stats a))))]),
      (''temperatures_c'', VDict (map (\<lambda>(n, s). (n, summary_value s)) (temperature_stats a))),
      (''power_mw'', VDict (map (\<lambda>(n, s). (n, summary_value s)) (power_stats a))),
      (''emc'', clock_value_of (emc_stats a)), (''gr3d'', clock_value_of (gr3d_stats a))] @
     (case retention a of None \<Rightarrow> [] | Some r \<Rightarrow> [(''retention'', retention_value r)]))"

section \<open>Arguments and constants\<close>

record thermal_args =
  thermal_stability_sensor :: string
  thermal_safety_sensor :: string
  thermal_window_s :: pyfloat
  thermal_target_c :: pyfloat
  thermal_tolerance_c :: pyfloat
  thermal_hard_limit_c :: pyfloat
  thermal_max_slope :: pyfloat

definition THERMAL_HANDOFF_MAX_MS :: pyfloat where
  "THERMAL_HANDOFF_MAX_MS = Fin 500"

definition THERMAL_HANDOFF_BOUNDARY :: string where
  "THERMAL_HANDOFF_BOUNDARY = ''thermal_measurement_end''"

definition THERMAL_QUALIFICATION_MAX_ATTEMPTS :: int where
  "THERMAL_QUALIFICATION_MAX_ATTEMPTS = 3"

definition ms_between :: "int \<Rightarrow> int \<Rightarrow> pyfloat res" where
  "ms_between start stop = int_over (stop - start) (Fin 1000000)"

section \<open>Qualification of the first sample after cleanup\<close>

text \<open>
  The polling loop. A poll is what one iteration sees: the clock and the monitor. The result is None
  when the polls run out before the loop ends.
\<close>

fun await_sample :: "int \<Rightarrow> int \<Rightarrow> (int \<times> monitor) list \<Rightarrow> telemetry_sample option res option" where
  "await_sample cleanup_end deadline [] = None"
| "await_sample cleanup_end deadline ((now, m) # polls) =
     (case sample_window (VInt (cleanup_end + 1)) (VInt (max now (cleanup_end + 1))) True False VNone m of
        Inl e \<Rightarrow> Some (Inl e)
      | Inr w \<Rightarrow>
          if \<not> interval_complete (window_retention w)
          then Some (Inl (RuntimeError ''thermal qualification telemetry was truncated''))
          else (case window_samples w of
              s # _ \<Rightarrow> Some (Inr (Some s))
            | [] \<Rightarrow> if deadline \<le> now then Some (Inr None) else await_sample cleanup_end deadline polls))"

text \<open>The value of a sensor lies within the tolerance of the target; the hard limit is not reached.\<close>

definition in_band :: "thermal_args \<Rightarrow> telemetry_sample \<Rightarrow> bool" where
  "in_band args s =
     (case map_of (temperatures_c (parsed s)) (thermal_stability_sensor args) of
        None \<Rightarrow> False
      | Some v \<Rightarrow> isfinite v \<and> \<not> flt (thermal_tolerance_c args) (fabs (fsub v (thermal_target_c args))))"

definition below_limit :: "thermal_args \<Rightarrow> telemetry_sample \<Rightarrow> bool" where
  "below_limit args s =
     (case map_of (temperatures_c (parsed s)) (thermal_safety_sensor args) of
        None \<Rightarrow> False
      | Some v \<Rightarrow> isfinite v \<and> \<not> fle (thermal_hard_limit_c args) v)"

definition qualification_failure ::
  "thermal_args \<Rightarrow> string \<Rightarrow> telemetry_sample \<Rightarrow> telemetry_aggregate \<Rightarrow> pyfloat \<Rightarrow> pyfloat \<Rightarrow> string option" where
  "qualification_failure args label s a gap_ms age_ms =
     (if \<not> healthy (health a) then Some (label @ '' causal telemetry is unhealthy'')
      else if flt TELEMETRY_STALE_AFTER_MS gap_ms then Some (label @ '' causal telemetry arrived too late'')
      else if flt TELEMETRY_STALE_AFTER_MS age_ms then Some (label @ '' causal telemetry is stale'')
      else if \<not> in_band args s then Some (label @ '' stability sensor is outside the target band'')
      else if \<not> below_limit args s then Some (label @ '' thermal hard limit reached'')
      else None)"

definition sensor_value :: "string \<Rightarrow> telemetry_sample option \<Rightarrow> pyval" where
  "sensor_value sensor s =
     option_value VFloat (Option.bind s (\<lambda>x. map_of (temperatures_c (parsed x)) sensor))"

definition qualification_evidence ::
  "thermal_args \<Rightarrow> int \<Rightarrow> int \<Rightarrow> int \<Rightarrow> int \<Rightarrow> telemetry_sample option \<Rightarrow> pyfloat option \<Rightarrow>
   telemetry_aggregate option \<Rightarrow> string option \<Rightarrow> pydict" where
  "qualification_evidence args attempt boundary cleanup_end qualified s age a failure =
     [(''attempt'', VInt attempt), (''passed'', VBool (failure = None)),
      (''boundary'', VStr THERMAL_HANDOFF_BOUNDARY), (''boundary_monotonic_ns'', VInt boundary),
      (''cleanup_end_monotonic_ns'', VInt cleanup_end), (''qualification_monotonic_ns'', VInt qualified),
      (''sample_monotonic_ns'', option_value (\<lambda>x. VInt (monotonic_ns x)) s),
      (''sample_age_ms'', option_value VFloat age),
      (''stability_sensor'', VStr (thermal_stability_sensor args)),
      (''stability_value_c'', sensor_value (thermal_stability_sensor args) s),
      (''safety_sensor'', VStr (thermal_safety_sensor args)),
      (''safety_value_c'', sensor_value (thermal_safety_sensor args) s),
      (''target_c'', VFloat (thermal_target_c args)), (''tolerance_c'', VFloat (thermal_tolerance_c args)),
      (''telemetry'', option_value aggregate_value a), (''failure_reason'', option_value VStr failure)]"

section \<open>Validation of the evidence\<close>

definition qualification_keys :: "string list" where
  "qualification_keys =
     [''attempt'', ''passed'', ''boundary'', ''boundary_monotonic_ns'', ''cleanup_end_monotonic_ns'',
      ''qualification_monotonic_ns'', ''sample_monotonic_ns'', ''sample_age_ms'', ''stability_sensor'',
      ''stability_value_c'', ''safety_sensor'', ''safety_value_c'', ''target_c'', ''tolerance_c'',
      ''telemetry'', ''failure_reason'']"

definition finite_real :: "pyval \<Rightarrow> bool res" where
  "finite_real v = (if is_number v then bnd (to_float v) (\<lambda>x. Inr (isfinite x)) else Inr False)"

definition andalso :: "bool res \<Rightarrow> bool res \<Rightarrow> bool res" where
  "andalso a b = bnd a (\<lambda>x. if x then b else Inr False)"

definition qualification_clocks :: "pydict \<Rightarrow> (int \<times> int \<times> int) option" where
  "qualification_clocks d =
     (case (genuine_int (dget d ''boundary_monotonic_ns''), genuine_int (dget d ''cleanup_end_monotonic_ns''),
            genuine_int (dget d ''qualification_monotonic_ns'')) of
        (Some b, Some c, Some q) \<Rightarrow> if 0 \<le> b \<and> b < c \<and> c < q then Some (b, c, q) else None
      | _ \<Rightarrow> None)"

definition qualification_wellformed :: "pydict \<Rightarrow> int option \<Rightarrow> bool res" where
  "qualification_wellformed d expected_attempt =
     andalso
       (Inr ((case genuine_int (dget d ''attempt'') of
                None \<Rightarrow> False
              | Some n \<Rightarrow> 1 \<le> n \<and> n \<le> THERMAL_QUALIFICATION_MAX_ATTEMPTS \<and>
                  (case expected_attempt of None \<Rightarrow> True | Some e \<Rightarrow> n = e)) \<and>
             is_bool (dget d ''passed'') \<and> dget d ''boundary'' = VStr THERMAL_HANDOFF_BOUNDARY \<and>
             qualification_clocks d \<noteq> None \<and>
             dget d ''stability_sensor'' = VStr THERMAL_STABILITY_SENSOR \<and>
             dget d ''safety_sensor'' = VStr THERMAL_SAFETY_SENSOR))
       (andalso (finite_real (dget d ''target_c''))
         (andalso (finite_real (dget d ''tolerance_c''))
           (bnd (to_float (dget d ''tolerance_c'')) (\<lambda>x. Inr (\<not> flt x (Fin 0))))))"

definition sample_clock_ok :: "pydict \<Rightarrow> bool" where
  "sample_clock_ok d =
     (case (dget d ''sample_monotonic_ns'', qualification_clocks d) of
        (VNone, _) \<Rightarrow> True
      | (VInt s, Some (b, c, q)) \<Rightarrow> c < s \<and> s \<le> q
      | _ \<Rightarrow> False)"

definition success_ok :: "pydict \<Rightarrow> bool res" where
  "success_ok d =
     andalso (Inr (dget d ''failure_reason'' = VNone \<and> dget d ''sample_monotonic_ns'' \<noteq> VNone))
       (andalso (finite_real (dget d ''sample_age_ms''))
         (andalso (bnd (to_float (dget d ''sample_age_ms'')) (\<lambda>x. Inr (\<not> flt x (Fin 0) \<and> \<not> flt TELEMETRY_STALE_AFTER_MS x)))
           (andalso (finite_real (dget d ''stability_value_c''))
             (andalso (finite_real (dget d ''safety_value_c''))
               (Inr (is_dict (dget d ''telemetry'')))))))"

fun failure_reason_ok :: "pyval \<Rightarrow> bool" where
  "failure_reason_ok (VStr r) = (r \<noteq> [])"
| "failure_reason_ok _ = False"

definition validate_thermal_qualification_evidence :: "pydict \<Rightarrow> int option \<Rightarrow> unit res" where
  "validate_thermal_qualification_evidence d expected_attempt =
     (if dkeys d \<noteq> set qualification_keys
      then Inl (RuntimeError ''thermal qualification evidence has an invalid schema'')
      else
        bnd (qualification_wellformed d expected_attempt) (\<lambda>ok.
          if \<not> ok then Inl (RuntimeError ''thermal qualification evidence is malformed'')
          else if \<not> sample_clock_ok d
          then Inl (RuntimeError ''thermal qualification sample clock is malformed'')
          else if dget d ''passed'' = VBool True
          then bnd (success_ok d) (\<lambda>ok.
                 if ok then Inr ()
                 else Inl (RuntimeError ''thermal qualification success evidence is malformed''))
          else if failure_reason_ok (dget d ''failure_reason'') then Inr ()
          else Inl (RuntimeError ''thermal qualification failure lacks a reason'')))"

definition require_successful_thermal_qualification :: "pydict \<Rightarrow> int res" where
  "require_successful_thermal_qualification d =
     bnd (validate_thermal_qualification_evidence d None) (\<lambda>_.
       if dget d ''passed'' \<noteq> VBool True then Inl (RuntimeError ''thermal qualification did not pass'')
       else case dget d ''boundary_monotonic_ns'' of VInt b \<Rightarrow> Inr b | _ \<Rightarrow> Inl AssertionError)"

section \<open>The qualification\<close>

definition judge_sample ::
  "thermal_args \<Rightarrow> string \<Rightarrow> int \<Rightarrow> int \<Rightarrow> telemetry_sample \<Rightarrow> monitor \<Rightarrow>
   (pyfloat \<times> telemetry_aggregate \<times> string option) res" where
  "judge_sample args label cleanup_end qualified s m =
     bnd (ms_between (monotonic_ns s) qualified) (\<lambda>age.
     bnd (thermal_aggregate (monotonic_ns s - 1) (monotonic_ns s) qualified 1 True m) (\<lambda>a.
     bnd (ms_between cleanup_end (monotonic_ns s)) (\<lambda>gap.
       Inr (age, a, qualification_failure args label s a gap age))))"

definition conclude_qualification ::
  "thermal_args \<Rightarrow> string \<Rightarrow> int \<Rightarrow> int \<Rightarrow> int \<Rightarrow> int \<Rightarrow> telemetry_sample option \<Rightarrow> monitor \<Rightarrow> pydict res" where
  "conclude_qualification args label n boundary cleanup_end qualified found m =
     bnd (case found of
            None \<Rightarrow> Inr (qualification_evidence args n boundary cleanup_end qualified None None None
                      (Some (label @ '' observed no causal post-cleanup telemetry sample'')))
          | Some s \<Rightarrow>
              bnd (judge_sample args label cleanup_end qualified s m) (\<lambda>(age, a, failure).
                Inr (qualification_evidence args n boundary cleanup_end qualified (Some s)
                      (Some age) (Some a) failure))) (\<lambda>d.
     bnd (validate_thermal_qualification_evidence d (Some n)) (\<lambda>_. Inr d))"

definition qualification_metadata :: "string \<Rightarrow> int \<Rightarrow> int \<Rightarrow> int \<Rightarrow> telemetry_sample option \<Rightarrow> pydict" where
  "qualification_metadata label n boundary cleanup_end found =
     [(''label'', VStr label), (''attempt'', VInt n), (''boundary_monotonic_ns'', VInt boundary),
      (''cleanup_end_monotonic_ns'', VInt cleanup_end),
      (''sample_monotonic_ns'', option_value (\<lambda>s. VInt (monotonic_ns s)) found)]"

text \<open>
  \<open>m1\<close> is the monitor when the marker is written, \<open>m2\<close> when the sample is aggregated. The first
  component is the monitor after the marker.
\<close>

definition qualify_thermal_start ::
  "thermal_args \<Rightarrow> string \<Rightarrow> pyval \<Rightarrow> int \<Rightarrow> int \<Rightarrow> (int \<times> monitor) list \<Rightarrow> surroundings \<Rightarrow> monitor \<Rightarrow> monitor \<Rightarrow>
   (monitor \<times> pydict res) option" where
  "qualify_thermal_start args label attempt boundary cleanup_end polls env m1 m2 =
     (case genuine_int attempt of
        None \<Rightarrow> Some (m1, Inl (ValueError ''thermal qualification attempt is out of range''))
      | Some n \<Rightarrow>
          if n < 1 \<or> THERMAL_QUALIFICATION_MAX_ATTEMPTS < n
          then Some (m1, Inl (ValueError ''thermal qualification attempt is out of range''))
          else if boundary < 0 \<or> cleanup_end < 0
          then Some (m1, Inl (ValueError ''thermal qualification clocks must be non-negative''))
          else if cleanup_end \<le> boundary
          then Some (m1, Inl (ValueError ''thermal cleanup must follow the active boundary''))
          else case await_sample cleanup_end (cleanup_end + stale_after_ns) polls of
              None \<Rightarrow> None
            | Some (Inl e) \<Rightarrow> Some (m1, Inl e)
            | Some (Inr found) \<Rightarrow>
                (case mark env ''thermal_start_qualification''
                        (qualification_metadata label n boundary cleanup_end found) VNone m1 of
                   (m1', Inl e) \<Rightarrow> Some (m1', Inl e)
                 | (m1', Inr k) \<Rightarrow>
                     Some (m1', conclude_qualification args label n boundary cleanup_end (marker_ns k) found m2)))"

section \<open>Handoff\<close>

record handoff =
  handoff_clocks :: "int list"
  handoff_elapsed_ms :: "pyfloat list"
  handoff_maximum_ms :: pyfloat

text \<open>\<open>int(mapping[key])\<close>.\<close>

definition int_entry :: "pydict \<Rightarrow> string \<Rightarrow> int res" where
  "int_entry d k = bnd (dindex d k) to_pyint"

definition validate_thermal_qualification_handoff :: "pydict \<Rightarrow> int \<Rightarrow> int \<Rightarrow> int \<Rightarrow> pyfloat \<Rightarrow> handoff res" where
  "validate_thermal_qualification_handoff d result_ns release_ns start_ns maximum_ms =
     (if \<not> isfinite maximum_ms \<or> fle maximum_ms (Fin 0)
      then Inl (ValueError ''thermal handoff bound must be positive and finite'')
      else
        bnd (require_successful_thermal_qualification d) (\<lambda>boundary.
        bnd (int_entry d ''cleanup_end_monotonic_ns'') (\<lambda>cleanup_end.
        bnd (int_entry d ''qualification_monotonic_ns'') (\<lambda>qualified.
          if \<not> (boundary < cleanup_end \<and> cleanup_end < qualified \<and> qualified < result_ns \<and>
                result_ns < release_ns \<and> release_ns \<le> start_ns)
          then Inl (RuntimeError ''thermal qualification handoff clocks are inconsistent'')
          else
            bnd (map_res (ms_between boundary) [cleanup_end, qualified, result_ns, release_ns, start_ns]) (\<lambda>elapsed.
              if list_ex (fle maximum_ms) elapsed
              then Inl (RuntimeError ''thermal qualification handoff exceeded the strict bound'')
              else Inr \<lparr>handoff_clocks = [boundary, cleanup_end, qualified, result_ns, release_ns, start_ns],
                        handoff_elapsed_ms = elapsed, handoff_maximum_ms = maximum_ms\<rparr>)))))"

definition validate_thermal_handoff :: "pydict \<Rightarrow> int \<Rightarrow> int \<Rightarrow> pyfloat \<Rightarrow> handoff res" where
  "validate_thermal_handoff precondition release_ns start_ns maximum_ms =
     (if \<not> isfinite maximum_ms \<or> fle maximum_ms (Fin 0)
      then Inl (ValueError ''thermal handoff bound must be positive and finite'')
      else
        bnd (int_entry precondition ''measurement_end_monotonic_ns'') (\<lambda>end_ns.
          if \<not> (end_ns \<le> release_ns \<and> release_ns \<le> start_ns)
          then Inl (RuntimeError ''thermal handoff clocks are inconsistent'')
          else
            bnd (map_res (ms_between end_ns) [release_ns, start_ns]) (\<lambda>elapsed.
              if list_ex (fle maximum_ms) elapsed
              then Inl (RuntimeError ''thermal handoff exceeded the strict bound'')
              else Inr \<lparr>handoff_clocks = [end_ns, release_ns, start_ns], handoff_elapsed_ms = elapsed,
                        handoff_maximum_ms = maximum_ms\<rparr>)))"

section \<open>The actual start\<close>

definition actual_start_failure ::
  "thermal_args \<Rightarrow> string \<Rightarrow> telemetry_sample \<Rightarrow> telemetry_aggregate \<Rightarrow> pyfloat \<Rightarrow> string option" where
  "actual_start_failure args label s a age_ms =
     (if \<not> healthy (health a) then Some (label @ '' actual-start telemetry is unhealthy'')
      else if flt TELEMETRY_STALE_AFTER_MS age_ms then Some (label @ '' actual-start telemetry is stale'')
      else if \<not> in_band args s then Some (label @ '' actual-start stability is outside the target band'')
      else if \<not> below_limit args s then Some (label @ '' actual-start thermal hard limit reached'')
      else None)"

definition start_evidence ::
  "thermal_args \<Rightarrow> int \<Rightarrow> telemetry_sample option \<Rightarrow> pyfloat option \<Rightarrow> telemetry_aggregate option \<Rightarrow>
   string option \<Rightarrow> pydict" where
  "start_evidence args start_ns s age a failure =
     [(''passed'', VBool (failure = None)), (''measurement_start_monotonic_ns'', VInt start_ns),
      (''sample_monotonic_ns'', option_value (\<lambda>x. VInt (monotonic_ns x)) s),
      (''sample_age_ms'', option_value VFloat age),
      (''stability_sensor'', VStr (thermal_stability_sensor args)),
      (''stability_value_c'', sensor_value (thermal_stability_sensor args) s),
      (''safety_sensor'', VStr (thermal_safety_sensor args)),
      (''safety_value_c'', sensor_value (thermal_safety_sensor args) s),
      (''target_c'', VFloat (thermal_target_c args)), (''tolerance_c'', VFloat (thermal_tolerance_c args)),
      (''telemetry'', option_value aggregate_value a), (''failure_reason'', option_value VStr failure)]"

definition validate_actual_thermal_start ::
  "thermal_args \<Rightarrow> string \<Rightarrow> int \<Rightarrow> int \<Rightarrow> monitor \<Rightarrow> monitor \<Rightarrow> pydict res" where
  "validate_actual_thermal_start args label start_ns not_before m1 m2 =
     (if start_ns \<le> not_before then Inl (ValueError ''actual-start clocks are inconsistent'')
      else
        bnd (sample_window (VInt (not_before + 1)) (VInt start_ns) True True (VInt 1) m1) (\<lambda>w.
          if \<not> interval_complete (window_retention w)
          then Inl (RuntimeError ''actual-start telemetry was truncated'')
          else case window_samples w of
              [] \<Rightarrow> Inr (start_evidence args start_ns None None None
                      (Some (label @ '' has no causal actual-start telemetry sample'')))
            | s # _ \<Rightarrow>
                bnd (ms_between (monotonic_ns s) start_ns) (\<lambda>age.
                bnd (thermal_aggregate (monotonic_ns s - 1) (monotonic_ns s) start_ns 1 True m2) (\<lambda>a.
                  Inr (start_evidence args start_ns (Some s) (Some age) (Some a)
                        (actual_start_failure args label s a age))))))"

section \<open>Replay of a start\<close>

definition stable_summary :: "thermal_args \<Rightarrow> thermal_summary option \<Rightarrow> bool res" where
  "stable_summary args summary =
     thermal_window_is_stable summary (thermal_target_c args) (thermal_tolerance_c args)
       (thermal_window_s args) (thermal_max_slope args)"

definition checked_start ::
  "thermal_args \<Rightarrow> thermal_summary \<Rightarrow> pyfloat option \<Rightarrow> telemetry_aggregate \<Rightarrow> (thermal_summary \<times> telemetry_aggregate) res" where
  "checked_start args summary gap a =
     (if \<not> healthy (health a) then Inl (RuntimeError ''thermal start telemetry is unhealthy'')
      else
        bnd (sensor_entry_maximum (thermal_safety_sensor args) a) (\<lambda>hottest.
          if fle (thermal_hard_limit_c args) hottest
          then Inl (RuntimeError ''thermal hard limit reached during'')
          else if (case gap of None \<Rightarrow> True | Some g \<Rightarrow> flt stale_after_seconds g)
          then Inl (RuntimeError ''thermal start is unstable'')
          else
            bnd (stable_summary args (Some summary)) (\<lambda>ok.
              if \<not> ok then Inl (RuntimeError ''thermal start is unstable'') else Inr (summary, a))))"

definition replay_thermal_start ::
  "thermal_args \<Rightarrow> int \<Rightarrow> int \<Rightarrow> monitor \<Rightarrow> (thermal_summary \<times> telemetry_aggregate) res" where
  "replay_thermal_start args reference not_before m =
     bnd (thermal_window_summary (thermal_stability_sensor args) (thermal_window_s args) reference (Some not_before) m)
       (\<lambda>found. case found of
          None \<Rightarrow> Inl (RuntimeError ''thermal start has no stability window'')
        | Some s0 \<Rightarrow>
            bnd (thermal_window_maximum_gap_seconds (thermal_stability_sensor args) (thermal_window_s args)
                   reference (Some not_before) m) (\<lambda>gap.
            bnd (window_start (thermal_window_s args) reference (Some not_before)) (\<lambda>start.
            bnd (minimum_samples start reference) (\<lambda>minimum.
            bnd (thermal_aggregate start reference reference minimum False m) (\<lambda>a.
              checked_start args (s0\<lparr>maximum_gap_seconds := gap\<rparr>) gap a)))))"

definition start_failure ::
  "thermal_args \<Rightarrow> string \<Rightarrow> thermal_summary option \<Rightarrow> telemetry_aggregate \<Rightarrow> string option res" where
  "start_failure args label summary a =
     (if summary = None then Inr (Some (label @ '' thermal start has no stability window''))
      else if \<not> healthy (health a) then Inr (Some (label @ '' thermal start telemetry is unhealthy''))
      else case sensor_maximum (thermal_safety_sensor args) a of
          None \<Rightarrow> Inr (Some (label @ '' thermal start telemetry lacks the sensor''))
        | Some hottest \<Rightarrow>
            if fle (thermal_hard_limit_c args) hottest
            then Inr (Some (''thermal hard limit reached during '' @ label))
            else
              bnd (stable_summary args summary) (\<lambda>ok.
                Inr (if ok then None else Some (label @ '' thermal start is unstable''))))"

definition thermal_start_evidence ::
  "thermal_args \<Rightarrow> string \<Rightarrow> int \<Rightarrow> int \<Rightarrow> monitor \<Rightarrow>
   (thermal_summary option \<times> telemetry_aggregate option \<times> string option) res" where
  "thermal_start_evidence args label reference not_before m =
     bnd (thermal_window_summary (thermal_stability_sensor args) (thermal_window_s args) reference (Some not_before) m)
       (\<lambda>found.
     bnd (case found of
            None \<Rightarrow> Inr None
          | Some s0 \<Rightarrow>
              bnd (thermal_window_maximum_gap_seconds (thermal_stability_sensor args) (thermal_window_s args)
                     reference (Some not_before) m) (\<lambda>gap. Inr (Some (s0\<lparr>maximum_gap_seconds := gap\<rparr>)))) (\<lambda>summary.
     bnd (window_start (thermal_window_s args) reference (Some not_before)) (\<lambda>start.
       if reference \<le> start then Inr (summary, None, Some (label @ '' thermal start has no stability window''))
       else
         bnd (minimum_samples start reference) (\<lambda>minimum.
         bnd (thermal_aggregate start reference reference minimum False m) (\<lambda>a.
         bnd (start_failure args label summary a) (\<lambda>failure. Inr (summary, Some a, failure)))))))"

section \<open>The platform's limit\<close>

text \<open>
  The trip points of the platform: the text of each type file with the text of its temperature file,
  when that exists.
\<close>

fun trip_temperatures :: "string \<Rightarrow> (string \<times> string option) list \<Rightarrow> pyfloat list res" where
  "trip_temperatures kind [] = Inr []"
| "trip_temperatures kind ((t, None) # trips) = trip_temperatures kind trips"
| "trip_temperatures kind ((t, Some v) # trips) =
     bnd (float_of_string (strip v)) (\<lambda>x.
     bnd (fdiv x (Fin 1000)) (\<lambda>c.
     bnd (trip_temperatures kind trips) (\<lambda>cs.
       Inr (if py_lower (strip t) = kind then c # cs else cs))))"

definition platform_thermal_hard_limit_c :: "(string \<times> string option) list \<Rightarrow> pyfloat res" where
  "platform_thermal_hard_limit_c trips =
     bnd (trip_temperatures ''passive'' trips) (\<lambda>passive.
     bnd (trip_temperatures ''critical'' trips) (\<lambda>critical.
       case (passive, critical) of
         (p # ps, _) \<Rightarrow> Inr (fsub (foldl fmin p ps) (Fin 5))
       | ([], c # cs) \<Rightarrow> Inr (fsub (foldl fmin c cs) (Fin 10))
       | _ \<Rightarrow> Inl (RuntimeError ''platform exposes no thermal safety trip'')))"

section \<open>Milliseconds and nanoseconds\<close>

lemma ms_between_mono:
  assumes "ms_between a b = Inr x" and "n \<le> b - a" and "\<bar>n\<bar> \<le> 2 ^ 53"
  shows "fle (fl (of_int n / 1000000)) x"
proof -
  obtain v where v: "fl (of_int (b - a)) = Fin v" and x: "x = fl (v / 1000000)"
    using assms(1) by (auto simp: ms_between_def int_over_def bnd_eq_Inr float_of_int_def split: pyfloat.splits)
  have "fle (fl (of_int n)) (fl (of_int (b - a)))" using assms(2) by (intro fl_mono) (simp only: of_int_le_iff)
  then have "of_int n \<le> v" using v fl_of_int [OF assms(3)] by simp
  then show ?thesis unfolding x by (intro fl_mono) (simp add: divide_right_mono)
qed

lemma at_most_300_ms:
  assumes "ms_between a b = Inr x" and "\<not> flt TELEMETRY_STALE_AFTER_MS x"
  shows "b - a \<le> 300000000"
proof (rule ccontr)
  assume "\<not> b - a \<le> 300000000"
  then have "fle (fl (of_int 300000001 / 1000000)) x" by (intro ms_between_mono [OF assms(1)]) simp_all
  moreover have "flt (Fin 300) (fl (of_int 300000001 / 1000000))" by (simp add: fl_eval)
  ultimately show False
    using assms(2) by (cases x; cases "fl (of_int 300000001 / 1000000)") (auto simp: TELEMETRY_STALE_AFTER_MS_def fle_def feq_def)
qed

lemma below_500_ms:
  assumes "ms_between a b = Inr x" and "\<not> fle THERMAL_HANDOFF_MAX_MS x"
  shows "b - a < 500000000"
proof (rule ccontr)
  assume "\<not> b - a < 500000000"
  then have "fle (fl (of_int 500000000 / 1000000)) x" by (intro ms_between_mono [OF assms(1)]) simp_all
  moreover have "fl (of_int 500000000 / 1000000) = Fin 500" by (simp add: fl_eval)
  ultimately show False using assms(2) by (simp add: THERMAL_HANDOFF_MAX_MS_def)
qed

section \<open>Handoff and evidence\<close>

lemma require_successful_facts:
  assumes "require_successful_thermal_qualification d = Inr b"
  shows "dget d ''passed'' = VBool True" and "dget d ''boundary_monotonic_ns'' = VInt b"
  using assms by (auto simp: require_successful_thermal_qualification_def res_simps split: pyval.splits)

text \<open>
  An accepted handoff is fast in real time: with the default bound, less than half a second passes
  between the boundary of the qualified evidence and the start of the measurement, counted in
  nanoseconds and whatever the floating-point rounding; the six clocks are in order.
\<close>

lemma accepted_handoff_is_fast:
  assumes "validate_thermal_qualification_handoff d result_ns release_ns start_ns THERMAL_HANDOFF_MAX_MS = Inr h"
  shows "\<exists>boundary. dget d ''boundary_monotonic_ns'' = VInt boundary \<and> dget d ''passed'' = VBool True \<and>
    boundary < result_ns \<and> result_ns < release_ns \<and> release_ns \<le> start_ns \<and>
    start_ns - boundary < 500000000"
proof -
  obtain b c q elapsed where b: "require_successful_thermal_qualification d = Inr b"
    and order: "b < c" "c < q" "q < result_ns" "result_ns < release_ns" "release_ns \<le> start_ns"
    and e: "map_res (ms_between b) [c, q, result_ns, release_ns, start_ns] = Inr elapsed"
      "\<not> list_ex (fle THERMAL_HANDOFF_MAX_MS) elapsed"
    using assms by (auto simp: validate_thermal_qualification_handoff_def res_simps simp del: map_res.simps)
  obtain x where "ms_between b start_ns = Inr x" "x \<in> set elapsed"
    using map_res_mem' [OF e(1), of start_ns] by auto
  with e(2) have "start_ns - b < 500000000" by (intro below_500_ms) (auto simp: list_ex_iff)
  with order require_successful_facts [OF b] show ?thesis by auto
qed

text \<open>The evidence a successful qualification returns is the evidence its consumer accepts.\<close>

lemma wellformed_any_attempt:
  "qualification_wellformed d (Some n) = Inr True \<Longrightarrow> qualification_wellformed d None = Inr True"
  by (auto simp: qualification_wellformed_def andalso_def bnd_eq_Inr split: if_splits option.splits)

lemma validated_any_attempt:
  assumes "validate_thermal_qualification_evidence d (Some n) = Inr ()"
  shows "validate_thermal_qualification_evidence d None = Inr ()"
proof -
  have "qualification_wellformed d (Some n) = Inr True"
    using assms by (auto simp: validate_thermal_qualification_evidence_def res_simps split: if_splits)
  then have "qualification_wellformed d None = qualification_wellformed d (Some n)"
    using wellformed_any_attempt by simp
  with assms show ?thesis by (simp only: validate_thermal_qualification_evidence_def)
qed

lemma evidence_fields [simp]:
  "dget (qualification_evidence args n b c q s age a f) ''passed'' = VBool (f = None)"
  "dget (qualification_evidence args n b c q s age a f) ''boundary_monotonic_ns'' = VInt b"
  "dget (qualification_evidence args n b c q s age a f) ''cleanup_end_monotonic_ns'' = VInt c"
  "dget (qualification_evidence args n b c q s age a f) ''qualification_monotonic_ns'' = VInt q"
  "dget (qualification_evidence args n b c q s age a f) ''sample_monotonic_ns'' =
    option_value (\<lambda>x. VInt (monotonic_ns x)) s"
  by (simp_all add: qualification_evidence_def dget_def)

lemma qualify_cases:
  assumes "qualify_thermal_start args label attempt boundary cleanup_end polls env m1 m2 = Some (m', Inr d)"
    and "dget d ''passed'' = VBool True"
  obtains n q s age a gap where "attempt = VInt n" and "0 \<le> boundary" and "boundary < cleanup_end"
    and "await_sample cleanup_end (cleanup_end + stale_after_ns) polls = Some (Inr (Some s))"
    and "d = qualification_evidence args n boundary cleanup_end q (Some s) (Some age) (Some a) None"
    and "ms_between (monotonic_ns s) q = Inr age" and "ms_between cleanup_end (monotonic_ns s) = Inr gap"
    and "thermal_aggregate (monotonic_ns s - 1) (monotonic_ns s) q 1 True m2 = Inr a"
    and "qualification_failure args label s a gap age = None"
    and "validate_thermal_qualification_evidence d (Some n) = Inr ()"
proof -
  obtain n where n: "attempt = VInt n" "0 \<le> boundary" "boundary < cleanup_end"
    using assms(1) by (auto simp: qualify_thermal_start_def split: option.splits if_splits)
  obtain found where r: "await_sample cleanup_end (cleanup_end + stale_after_ns) polls = Some (Inr found)"
    using assms(1) by (auto simp: qualify_thermal_start_def split: option.splits if_splits sum.splits)
  have "\<exists>q. conclude_qualification args label n boundary cleanup_end q found m2 = Inr d"
    using assms(1) n r
    by (auto simp: qualify_thermal_start_def split: if_splits sum.splits prod.splits)
  then obtain q where k: "conclude_qualification args label n boundary cleanup_end q found m2 = Inr d"
    by blast
  show thesis
  proof (cases found)
    case None
    with k assms(2) show ?thesis by (auto simp: conclude_qualification_def bnd_eq_Inr)
  next
    case (Some s)
    with k obtain age a f where j: "judge_sample args label cleanup_end q s m2 = Inr (age, a, f)"
      and d: "d = qualification_evidence args n boundary cleanup_end q (Some s) (Some age) (Some a) f"
      and v: "validate_thermal_qualification_evidence d (Some n) = Inr ()"
      by (auto simp: conclude_qualification_def bnd_eq_Inr)
    from d assms(2) have f: "f = None" by simp
    from j obtain gap where "ms_between (monotonic_ns s) q = Inr age"
      "ms_between cleanup_end (monotonic_ns s) = Inr gap"
      "thermal_aggregate (monotonic_ns s - 1) (monotonic_ns s) q 1 True m2 = Inr a"
      "qualification_failure args label s a gap age = None"
      using f by (auto simp: judge_sample_def bnd_eq_Inr)
    with n r Some d f v show ?thesis by (intro that) auto
  qed
qed

text \<open>
  Whatever a passed qualification returns, the release gate accepts it and takes its boundary.
\<close>

lemma passed_evidence_is_accepted:
  assumes "qualify_thermal_start args label attempt boundary cleanup_end polls env m1 m2 = Some (m', Inr d)"
    and "dget d ''passed'' = VBool True"
  shows "require_successful_thermal_qualification d = Inr boundary"
proof (rule qualify_cases [OF assms])
  fix n q s age a
  assume d: "d = qualification_evidence args n boundary cleanup_end q (Some s) (Some age) (Some a) None"
    and v: "validate_thermal_qualification_evidence d (Some n) = Inr ()"
  from validated_any_attempt [OF v] show ?thesis
    using assms(2) d by (simp add: require_successful_thermal_qualification_def)
qed

section \<open>What a passed qualification guarantees\<close>

lemma stale_after_ns_eval: "stale_after_ns = 300000000"
  by (simp add: stale_after_ns_def int_of_float_def TELEMETRY_STALE_AFTER_MS_def fl_of_int [of 300000000, simplified])

lemma await_sample_found:
  assumes "await_sample cleanup_end deadline polls = Some (Inr (Some s))"
  shows "\<exists>now m w. (now, m) \<in> set polls \<and> interval_complete (window_retention w) \<and> (\<exists>r. window_samples w = s # r) \<and>
    sample_window (VInt (cleanup_end + 1)) (VInt (max now (cleanup_end + 1))) True False VNone m = Inr w"
  using assms
proof (induction cleanup_end deadline polls rule: await_sample.induct)
  case (2 cleanup_end deadline now m polls)
  show ?case
  proof (cases "sample_window (VInt (cleanup_end + 1)) (VInt (max now (cleanup_end + 1))) True False VNone m")
    case (Inl e)
    with 2(2) show ?thesis by simp
  next
    case w: (Inr w)
    with 2(2) have c: "interval_complete (window_retention w)" by (auto split: if_splits)
    show ?thesis
    proof (cases "window_samples w")
      case Nil
      with w c 2(2) have "await_sample cleanup_end deadline polls = Some (Inr (Some s))" by (simp split: if_splits)
      moreover have "\<not> deadline \<le> now" using w c Nil 2(2) by auto
      ultimately show ?thesis using 2(1) [OF w _ Nil] c by fastforce
    next
      case (Cons x r)
      with w c 2(2) show ?thesis by auto
    qed
  qed
qed simp

lemma qualification_failure_None:
  assumes "qualification_failure args label s a gap age = None"
  shows "healthy (health a)" and "\<not> flt TELEMETRY_STALE_AFTER_MS gap" and "\<not> flt TELEMETRY_STALE_AFTER_MS age"
    and "in_band args s" and "below_limit args s"
  using assms by (auto simp: qualification_failure_def split: if_splits)

lemma validated_sample_clock:
  "validate_thermal_qualification_evidence d e = Inr () \<Longrightarrow> sample_clock_ok d"
  by (auto simp: validate_thermal_qualification_evidence_def res_simps split: if_splits)

text \<open>
  C35: a passed qualification rests on the first telemetry sample accepted after cleanup. That sample
  arrived at most 300 ms after cleanup and is at most 300 ms old at the qualification mark, in exact
  nanoseconds; its stability sensor lies in the target band and its safety sensor below the hard limit.
\<close>

theorem passed_qualification_is_causal:
  assumes "qualify_thermal_start args label attempt boundary cleanup_end polls env m1 m2 = Some (m', Inr d)"
    and "dget d ''passed'' = VBool True"
    and "\<forall>(now, m) \<in> set polls. \<exists>xs. monitored m xs"
  shows "\<exists>now m xs s later q. (now, m) \<in> set polls \<and> monitored m xs \<and>
    filter (in_interval (cleanup_end + 1) (max now (cleanup_end + 1)) True) xs = s # later \<and>
    in_band args s \<and> below_limit args s \<and>
    dget d ''sample_monotonic_ns'' = VInt (monotonic_ns s) \<and> dget d ''qualification_monotonic_ns'' = VInt q \<and>
    cleanup_end < monotonic_ns s \<and> monotonic_ns s \<le> q \<and>
    monotonic_ns s - cleanup_end \<le> 300000000 \<and> q - monotonic_ns s \<le> 300000000"
proof (rule qualify_cases [OF assms(1,2)])
  fix n q s age a gap
  assume await: "await_sample cleanup_end (cleanup_end + stale_after_ns) polls = Some (Inr (Some s))"
    and d: "d = qualification_evidence args n boundary cleanup_end q (Some s) (Some age) (Some a) None"
    and age: "ms_between (monotonic_ns s) q = Inr age" and gap: "ms_between cleanup_end (monotonic_ns s) = Inr gap"
    and f: "qualification_failure args label s a gap age = None"
    and v: "validate_thermal_qualification_evidence d (Some n) = Inr ()"
  note ok = qualification_failure_None [OF f]
  obtain now m w r where p: "(now, m) \<in> set polls" "interval_complete (window_retention w)"
    and w: "window_samples w = s # r"
      "sample_window (VInt (cleanup_end + 1)) (VInt (max now (cleanup_end + 1))) True False VNone m = Inr w"
    using await_sample_found [OF await] by blast
  obtain xs where xs: "monitored m xs" using assms(3) p(1) by auto
  have later: "filter (in_interval (cleanup_end + 1) (max now (cleanup_end + 1)) True) xs = s # r"
    using exact_window [OF xs w(2) p(2)] w(1) by (simp add: Let_def)
  then have "in_interval (cleanup_end + 1) (max now (cleanup_end + 1)) True s"
    by (metis filter_eq_ConsD)
  then have "cleanup_end < monotonic_ns s" by (simp add: in_interval_def)
  moreover have "monotonic_ns s \<le> q"
    using validated_sample_clock [OF v] d
    by (auto simp: sample_clock_ok_def qualification_clocks_def option_value_def split: option.splits if_splits)
  moreover have "monotonic_ns s - cleanup_end \<le> 300000000" using at_most_300_ms [OF gap ok(2)] .
  moreover have "q - monotonic_ns s \<le> 300000000" using at_most_300_ms [OF age ok(3)] .
  moreover have "dget d ''sample_monotonic_ns'' = VInt (monotonic_ns s)" "dget d ''qualification_monotonic_ns'' = VInt q"
    unfolding d by (simp_all add: option_value_def)
  ultimately show ?thesis using p(1) xs later ok(4,5) by blast
qed

text \<open>
  C37: the polling loop of the qualification ends: as soon as one poll reads a clock at or past the
  deadline of 300 ms after cleanup, the qualification returns, with a verdict or an exception.
\<close>

theorem qualification_returns:
  assumes "(now, m) \<in> set polls" and "cleanup_end + 300000000 \<le> now"
  shows "qualify_thermal_start args label attempt boundary cleanup_end polls env m1 m2 \<noteq> None"
proof -
  have "await_sample cleanup_end (cleanup_end + stale_after_ns) polls \<noteq> None"
    using assms
    by (induction polls) (auto simp: stale_after_ns_eval split: sum.splits list.splits)
  then show ?thesis
    by (auto simp: qualify_thermal_start_def split: option.splits sum.splits prod.splits)
qed

section \<open>The actual start and the replay\<close>

lemma start_evidence_passed [simp]:
  "dget (start_evidence args t s age a f) ''passed'' = VBool (f = None)"
  by (simp add: start_evidence_def dget_def)

lemma actual_start_failure_None:
  assumes "actual_start_failure args label s a age = None"
  shows "\<not> flt TELEMETRY_STALE_AFTER_MS age" and "in_band args s" and "below_limit args s"
  using assms by (auto simp: actual_start_failure_def split: if_splits)

text \<open>
  A passed actual-start check rests on the newest telemetry sample accepted up to the start of the
  measurement: it is at most 300 ms old, in the target band and below the hard limit.
\<close>

lemma passed_actual_start_is_fresh:
  assumes "validate_actual_thermal_start args label start_ns not_before m1 m2 = Inr d"
    and "dget d ''passed'' = VBool True" and "monitored m1 xs"
  shows "\<exists>s. s \<in> set xs \<and> not_before < monotonic_ns s \<and> monotonic_ns s \<le> start_ns \<and>
    (\<forall>x \<in> set xs. monotonic_ns x \<le> start_ns \<longrightarrow> monotonic_ns x \<le> monotonic_ns s) \<and>
    start_ns - monotonic_ns s \<le> 300000000 \<and> in_band args s \<and> below_limit args s"
proof -
  obtain w where w: "sample_window (VInt (not_before + 1)) (VInt start_ns) True True (VInt 1) m1 = Inr w"
    and c: "interval_complete (window_retention w)"
    using assms(1) by (auto simp: validate_actual_thermal_start_def res_simps)
  obtain s r where s: "window_samples w = s # r"
    using assms(1,2) w c by (cases "window_samples w") (auto simp: validate_actual_thermal_start_def res_simps)
  have "\<exists>age a. ms_between (monotonic_ns s) start_ns = Inr age \<and> actual_start_failure args label s a age = None"
    using assms(1,2) w c s by (auto simp: validate_actual_thermal_start_def res_simps)
  then obtain age a where age: "ms_between (monotonic_ns s) start_ns = Inr age"
    and f: "actual_start_failure args label s a age = None" by blast
  note ok = actual_start_failure_None [OF f]
  let ?in = "in_interval (not_before + 1) start_ns True"
  have "take 1 (rev (filter ?in xs)) = s # r"
    using exact_window [OF assms(3) w c] s by (simp add: Let_def)
  then obtain t where t: "rev (filter ?in xs) = s # t" by (cases "rev (filter ?in xs)") auto
  then have inxs: "s \<in> set (filter ?in xs)" by (metis list.set_intros(1) set_rev)
  have "sorted (map monotonic_ns xs)"
    using monitored_retention_ok [OF assms(3)] unfolding retention_ok_def by blast
  then have "sorted (map monotonic_ns (filter ?in xs))" by (rule sorted_map_filter)
  moreover have "last (filter ?in xs) = s" using t by (metis last_rev list.sel(1) rev_rev_ident list.distinct(1))
  ultimately have newest: "monotonic_ns x \<le> monotonic_ns s" if "x \<in> set (filter ?in xs)" for x
    using sorted_last_ge [of monotonic_ns "filter ?in xs" x] that by simp
  have "\<forall>x \<in> set xs. monotonic_ns x \<le> start_ns \<longrightarrow> monotonic_ns x \<le> monotonic_ns s"
  proof (intro ballI impI)
    fix x
    assume x: "x \<in> set xs" "monotonic_ns x \<le> start_ns"
    show "monotonic_ns x \<le> monotonic_ns s"
    proof (cases "?in x")
      case True
      with x newest show ?thesis by simp
    next
      case False
      with x inxs show ?thesis by (auto simp: in_interval_def)
    qed
  qed
  moreover have "start_ns - monotonic_ns s \<le> 300000000" using at_most_300_ms [OF age ok(1)] .
  ultimately show ?thesis using inxs ok(2,3) by (intro exI [of _ s]) (auto simp: in_interval_def)
qed

lemma sensor_maximum_entry:
  "sensor_maximum sensor a = Some x \<longleftrightarrow> sensor_entry_maximum sensor a = Inr x"
  by (auto simp: sensor_maximum_def sensor_entry_maximum_def split: option.splits)

lemma fle_not_flt: "fle a b \<Longrightarrow> \<not> flt b a"
  by (cases a; cases b) (auto simp: fle_def feq_def)

lemma stable_gap:
  assumes "stable_summary args (Some (s\<lparr>maximum_gap_seconds := gap\<rparr>)) = Inr True"
  shows "\<exists>g. gap = Some g \<and> \<not> flt stale_after_seconds g"
proof -
  from assms have "gap_bounded gap" by (auto simp: stable_summary_def thermal_window_is_stable_def bnd_eq_Inr)
  then obtain g where g: "gap = Some g" "fle g stale_after_seconds"
    by (auto simp: gap_bounded_def split: option.splits)
  then have "\<not> flt stale_after_seconds g" by (simp add: fle_not_flt)
  with g show ?thesis by blast
qed

lemma checked_start_iff:
  "checked_start args (s0\<lparr>maximum_gap_seconds := gap\<rparr>) gap a = Inr r \<longleftrightarrow>
   start_failure args label (Some (s0\<lparr>maximum_gap_seconds := gap\<rparr>)) a = Inr None \<and>
   r = (s0\<lparr>maximum_gap_seconds := gap\<rparr>, a)"
proof (cases "healthy (health a) \<and> (\<exists>x. sensor_entry_maximum (thermal_safety_sensor args) a = Inr x)")
  case True
  then obtain x where x: "sensor_entry_maximum (thermal_safety_sensor args) a = Inr x" by blast
  then have "sensor_maximum (thermal_safety_sensor args) a = Some x" by (simp add: sensor_maximum_entry)
  with True x stable_gap [of args gap s0] show ?thesis
    by (cases "stable_summary args (Some (s0\<lparr>maximum_gap_seconds := gap\<rparr>))")
      (auto simp: checked_start_def start_failure_def)
next
  case False
  then have "checked_start args (s0\<lparr>maximum_gap_seconds := gap\<rparr>) gap a \<noteq> Inr r"
    by (auto simp: checked_start_def res_simps)
  moreover have "healthy (health a) \<Longrightarrow> sensor_maximum (thermal_safety_sensor args) a = None"
    using False sensor_maximum_entry by (metis option.exhaust)
  ultimately show ?thesis by (simp add: start_failure_def)
qed

text \<open>
  C36: the replay that raises and the evidence function that collects reasons agree: the replay returns
  a summary and a telemetry report exactly when the evidence has these two and no failure reason.
\<close>

theorem replay_agrees_with_evidence:
  "replay_thermal_start args reference not_before m = Inr (s, a) \<longleftrightarrow>
   thermal_start_evidence args label reference not_before m = Inr (Some s, Some a, None)"
proof (cases "thermal_window_summary (thermal_stability_sensor args) (thermal_window_s args) reference (Some not_before) m")
  case (Inl e)
  then show ?thesis by (simp add: replay_thermal_start_def thermal_start_evidence_def)
next
  case found: (Inr found)
  show ?thesis
  proof (cases found)
    case None
    with found show ?thesis
      by (auto simp: replay_thermal_start_def thermal_start_evidence_def bnd_eq_Inr split: if_splits option.splits)
  next
    case s0: (Some s0)
    show ?thesis
    proof (cases "thermal_window_maximum_gap_seconds (thermal_stability_sensor args) (thermal_window_s args)
        reference (Some not_before) m")
      case (Inl e)
      with found s0 show ?thesis by (simp add: replay_thermal_start_def thermal_start_evidence_def)
    next
      case gap: (Inr gap)
      show ?thesis
      proof (cases "window_start (thermal_window_s args) reference (Some not_before)")
        case (Inl e)
        with found s0 gap show ?thesis by (simp add: replay_thermal_start_def thermal_start_evidence_def Let_def)
      next
        case start: (Inr start)
        have "reference \<le> start \<Longrightarrow> \<exists>e. minimum_samples start reference = Inl e"
          by (simp add: minimum_telemetry_samples_def)
        with found s0 gap start checked_start_iff [where args = args and ?s0.0 = s0 and gap = gap and label = label] show ?thesis
          by (auto simp: replay_thermal_start_def thermal_start_evidence_def bnd_eq_Inr)
      qed
    qed
  qed
qed

section \<open>A qualified start\<close>

definition example_args :: thermal_args where
  "example_args =
     \<lparr>thermal_stability_sensor = ''soc012'', thermal_safety_sensor = ''tj'', thermal_window_s = Fin 1,
      thermal_target_c = Fin 50, thermal_tolerance_c = Fin 1, thermal_hard_limit_c = Fin 90,
      thermal_max_slope = Fin 1\<rparr>"

definition thermal_line :: string where
  "thermal_line = ''RAM 1/2MB CPU [1%] soc012@50C tj@60C VIN 1mW''"

definition thermal_sample :: telemetry_sample where
  "thermal_sample =
     \<lparr>ident = 0, monotonic_ns = 20000000, raw = thermal_line,
      parsed =
        \<lparr>ram = Some \<lparr>used_mb = Fin 1, total_mb = Fin 2, largest_free_block_count = None,
                     largest_free_block_mb = None\<rparr>,
         swap = None, cpu = [\<lparr>utilization_pct = Some (Fin 1), frequency_mhz = None, online = Some True\<rparr>],
         temperatures_c = [(''soc012'', Fin 50), (''tj'', Fin 60)],
         power = [(''VIN'', \<lparr>current_mw = Fin 1, reported_extra_mw = []\<rparr>)], emc = None, gr3d = None\<rparr>,
      mem_available_mb = Some (Fin 100), collection_errors = []\<rparr>"

definition thermal_monitor :: monitor where
  "thermal_monitor =
     \<lparr>log_writer = example_log [thermal_sample], retained = [thermal_sample], retention_limit = Some 1,
      markers = [], monitor_closed = False, monitor_last_ns = Some 20000000, dropped_count = 0,
      last_dropped_ns = None, next_ident = 1\<rparr>"

definition thermal_surroundings :: surroundings where
  "thermal_surroundings = example_surroundings\<lparr>clock_value := VInt 30000000\<rparr>"

lemma thermal_run: "monitored thermal_monitor [thermal_sample]"
proof -
  have start: "monitored example_start []"
    by (rule monitored.fresh [of "''w''" True VNone _ "Some 1"])
      (simp_all add: new_writer_def new_monitor_def example_start_def)
  have "record_line example_surroundings thermal_line (VInt 20000000) (MemGiven (VInt 100)) example_start =
      (thermal_monitor, Inr thermal_sample)" by code_simp
  from monitored.accepted [OF start this] show ?thesis by simp
qed

lemma thermal_qualified:
  "\<exists>m' d. qualify_thermal_start example_args ''start'' (VInt 1) 5000000 10000000 [(25000000, thermal_monitor)]
     thermal_surroundings thermal_monitor thermal_monitor = Some (m', Inr d) \<and> dget d ''passed'' = VBool True"
proof -
  have w: "await_sample 10000000 (10000000 + stale_after_ns) [(25000000, thermal_monitor)] = Some (Inr (Some thermal_sample))"
    by code_simp
  have "case mark thermal_surroundings ''thermal_start_qualification''
      (qualification_metadata ''start'' 1 5000000 10000000 (Some thermal_sample)) VNone thermal_monitor of
      (m', Inr k) \<Rightarrow> marker_ns k = 30000000 | _ \<Rightarrow> False" by code_simp
  then obtain m' k where k: "mark thermal_surroundings ''thermal_start_qualification''
      (qualification_metadata ''start'' 1 5000000 10000000 (Some thermal_sample)) VNone thermal_monitor = (m', Inr k)"
    "marker_ns k = 30000000"
    by (auto split: prod.splits sum.splits)
  have "case conclude_qualification example_args ''start'' 1 5000000 10000000 30000000 (Some thermal_sample) thermal_monitor of
      Inr d \<Rightarrow> dget d ''passed'' = VBool True | _ \<Rightarrow> False" by code_simp
  then obtain d where "conclude_qualification example_args ''start'' 1 5000000 10000000 30000000 (Some thermal_sample)
      thermal_monitor = Inr d" "dget d ''passed'' = VBool True"
    by (auto split: sum.splits)
  with w k show ?thesis
    by (simp add: qualify_thermal_start_def THERMAL_QUALIFICATION_MAX_ATTEMPTS_def)
qed

lemma passed_evidence_is_accepted_witness:
  "\<exists>d. require_successful_thermal_qualification d = Inr 5000000"
  using thermal_qualified passed_evidence_is_accepted by blast

theorem passed_qualification_is_causal_witness:
  "\<exists>s. in_band example_args s \<and> below_limit example_args s \<and> 10000000 < monotonic_ns s"
proof -
  obtain m' d where q: "qualify_thermal_start example_args ''start'' (VInt 1) 5000000 10000000
      [(25000000, thermal_monitor)] thermal_surroundings thermal_monitor thermal_monitor = Some (m', Inr d)"
    "dget d ''passed'' = VBool True" using thermal_qualified by blast
  have "\<forall>(now, m) \<in> set [(25000000 :: int, thermal_monitor)]. \<exists>xs. monitored m xs" using thermal_run by auto
  from passed_qualification_is_causal [OF q this] show ?thesis by blast
qed

theorem qualification_returns_witness:
  "qualify_thermal_start example_args ''start'' (VInt 1) 5 10 [(400000000, example_start)]
     thermal_surroundings example_start example_start \<noteq> None"
  by (rule qualification_returns [of 400000000 example_start]) simp_all

lemma passed_actual_start_is_fresh_witness:
  "\<exists>s \<in> set [thermal_sample]. 30000000 - monotonic_ns s \<le> 300000000 \<and> in_band example_args s"
proof -
  have "case validate_actual_thermal_start example_args ''start'' 30000000 10000000 thermal_monitor thermal_monitor of
      Inr d \<Rightarrow> dget d ''passed'' = VBool True | _ \<Rightarrow> False" by code_simp
  then obtain d where "validate_actual_thermal_start example_args ''start'' 30000000 10000000 thermal_monitor
      thermal_monitor = Inr d" "dget d ''passed'' = VBool True"
    by (auto split: sum.splits)
  from passed_actual_start_is_fresh [OF this thermal_run] show ?thesis by blast
qed

definition example_evidence :: pydict where
  "example_evidence =
     [(''attempt'', VInt 1), (''passed'', VBool True), (''boundary'', VStr THERMAL_HANDOFF_BOUNDARY),
      (''boundary_monotonic_ns'', VInt 5000000), (''cleanup_end_monotonic_ns'', VInt 10000000),
      (''qualification_monotonic_ns'', VInt 30000000), (''sample_monotonic_ns'', VInt 20000000),
      (''sample_age_ms'', VFloat (Fin 10)), (''stability_sensor'', VStr ''soc012''),
      (''stability_value_c'', VFloat (Fin 50)), (''safety_sensor'', VStr ''tj''),
      (''safety_value_c'', VFloat (Fin 60)), (''target_c'', VFloat (Fin 50)),
      (''tolerance_c'', VFloat (Fin 1)), (''telemetry'', VDict []), (''failure_reason'', VNone)]"

lemma accepted_handoff_is_fast_witness:
  "\<exists>boundary. dget example_evidence ''boundary_monotonic_ns'' = VInt boundary \<and> 85000000 - boundary < 500000000"
proof -
  have "case validate_thermal_qualification_handoff example_evidence 40000000 45000000 85000000 THERMAL_HANDOFF_MAX_MS of
      Inr _ \<Rightarrow> True | _ \<Rightarrow> False" by code_simp
  then obtain h where "validate_thermal_qualification_handoff example_evidence 40000000 45000000 85000000
      THERMAL_HANDOFF_MAX_MS = Inr h" by (auto split: sum.splits)
  from accepted_handoff_is_fast [OF this] show ?thesis by blast
qed

end
