(* ===== verification/AuditReplay.thy ===== *)
theory AuditReplay
  imports SlackGovernor PyValue
begin

text \<open>
  The independent replay of \<open>analysis/summarize_mig_slack_governor.py\<close>: the audit recomputes, from the
  frozen guard lock and the recorded states, which workers an epoch must have run, how long its guard
  was and how the controller moved. The main theorem says that it agrees with the runtime of
  \<open>runtime/mig_slack_governor.py\<close> on every epoch of every run.
\<close>

section \<open>Strict readers\<close>

definition strict_int :: "pyval \<Rightarrow> int \<Rightarrow> int res" where
  "strict_int v minimum =
     (case genuine_int v of
        None \<Rightarrow> Inl (ValueError ''must be an integer'')
      | Some n \<Rightarrow> if n < minimum then Inl (ValueError ''must be an integer'') else Inr n)"

definition strict_float :: "pyval \<Rightarrow> pyfloat option \<Rightarrow> pyfloat res" where
  "strict_float v minimum =
     (if is_bool v \<or> \<not> is_number v then Inl (ValueError ''must be a finite number'')
      else
        bnd (to_float v) (\<lambda>x.
          if \<not> isfinite x \<or> (case minimum of None \<Rightarrow> False | Some m \<Rightarrow> flt x m)
          then Inl (ValueError ''must be a finite number'') else Inr x))"

definition strict_bool :: "pyval \<Rightarrow> bool res" where
  "strict_bool v = (case v of VBool b \<Rightarrow> Inr b | _ \<Rightarrow> Inl (ValueError ''must be a boolean''))"

definition require_close :: "pyval \<Rightarrow> pyfloat \<Rightarrow> pyfloat \<Rightarrow> pyfloat \<Rightarrow> unit res" where
  "require_close actual expected absolute_tolerance relative_tolerance =
     bnd (strict_float actual None) (\<lambda>v.
       if isclose v expected relative_tolerance absolute_tolerance then Inr ()
       else Inl (ValueError ''differs from replay''))"

fun is_sha256 :: "pyval \<Rightarrow> bool" where
  "is_sha256 (VStr s) \<longleftrightarrow>
     length s = 64 \<and> list_all (\<lambda>c. is_digit c \<or> (97 \<le> code c \<and> code c \<le> 102)) s"
| "is_sha256 _ \<longleftrightarrow> False"

section \<open>The guard lock\<close>

text \<open>
  Both programs walk the same nesting, placement, quota, modality, and check the key sets on the way;
  they differ in the reader of one cell and in the header check. A profile is the list of its cells.
\<close>

type_synonym cell = "(string \<times> int \<times> string) \<times> pyfloat"

definition lock_layout :: "(string \<times> int list) list" where
  "lock_layout = [(''resident-1g'', [25, 50, 100]), (''borrower-2g'', [100])]"

definition read_modalities :: "(pyval \<Rightarrow> pyfloat res) \<Rightarrow> string \<Rightarrow> int \<Rightarrow> pyval \<Rightarrow> cell list res" where
  "read_modalities reader place quota v =
     (case v of
        VDict d \<Rightarrow>
          if dkeys d \<noteq> set MODALITIES then Inl (ValueError ''guard lock has invalid modalities'')
          else map_res (\<lambda>m. bnd (reader (dget d m)) (\<lambda>x. Inr ((place, quota, m), x))) MODALITIES
      | _ \<Rightarrow> Inl (ValueError ''guard lock has invalid modalities''))"

definition read_quotas :: "(pyval \<Rightarrow> pyfloat res) \<Rightarrow> string \<Rightarrow> int list \<Rightarrow> pyval \<Rightarrow> cell list res" where
  "read_quotas reader place quotas v =
     (case v of
        VDict d \<Rightarrow>
          if dkeys d \<noteq> set (map str_of_int quotas) then Inl (ValueError ''guard lock has invalid quotas'')
          else bnd (map_res (\<lambda>q. read_modalities reader place q (dget d (str_of_int q))) quotas)
                 (\<lambda>cs. Inr (concat cs))
      | _ \<Rightarrow> Inl (ValueError ''guard lock has invalid quotas''))"

definition read_placements :: "(pyval \<Rightarrow> pyfloat res) \<Rightarrow> pydict \<Rightarrow> cell list res" where
  "read_placements reader d =
     bnd (map_res (\<lambda>(p, qs). read_quotas reader p qs (dget d p)) lock_layout) (\<lambda>cs. Inr (concat cs))"

section \<open>The runtime's reader\<close>

definition GUARD_LOCK_SCHEMA_VERSION :: int where
  "GUARD_LOCK_SCHEMA_VERSION = 3"

definition runtime_guard :: "pyval \<Rightarrow> pyfloat res" where
  "runtime_guard v =
     (case v of
        VDict e \<Rightarrow>
          bnd (to_float (dget_default e ''guard_ms'' (VFloat NaN))) (\<lambda>g.
            if \<not> isfinite g \<or> fle g (Fin 0)
            then Inl (ValueError ''guard lock contains a non-positive guard'') else Inr g)
      | _ \<Rightarrow> Inl (ValueError ''guard lock profile evidence must be an object''))"

definition lock_placements_ok :: "pydict \<Rightarrow> bool" where
  "lock_placements_ok d \<longleftrightarrow> dkeys d = set (map fst lock_layout)"

definition guard_cells_from_lock :: "pydict \<Rightarrow> cell list res" where
  "guard_cells_from_lock lock =
     (if \<not> py_eq (dget lock ''schema_version'') (VInt GUARD_LOCK_SCHEMA_VERSION) \<or>
         dget lock ''kind'' \<noteq> VStr ''p9-quota-aware-guard-lock''
      then Inl (ValueError ''guard lock has an unsupported schema'')
      else case dget lock ''guards'' of
        VDict d \<Rightarrow>
          if \<not> lock_placements_ok d then Inl (ValueError ''guard lock has invalid placements'')
          else read_placements runtime_guard d
      | _ \<Rightarrow> Inl (ValueError ''guard lock has invalid placements''))"

text \<open>The nested dictionary \<open>profile[placement][quota][modality]\<close> as the governor reads it.\<close>

definition profile_of_cells :: "cell list \<Rightarrow> guard_profile" where
  "profile_of_cells cs =
     (\<lambda>p. if p \<in> fst ` fst ` set cs
          then Some (ByQuota (\<lambda>q. if (p, q) \<in> (\<lambda>((p, q, m), v). (p, q)) ` set cs
                                  then Some (\<lambda>m. map_of cs (p, q, m)) else None))
          else None)"

definition guard_profile_from_lock :: "pydict \<Rightarrow> guard_profile res" where
  "guard_profile_from_lock lock = bnd (guard_cells_from_lock lock) (\<lambda>cs. Inr (profile_of_cells cs))"

text \<open>\<open>load_guard_lock\<close>: the digest and the parsed text come from the environment.\<close>

definition load_guard_lock ::
  "string \<Rightarrow> pyval res \<Rightarrow> string option \<Rightarrow> (pydict \<times> guard_profile \<times> string) res" where
  "load_guard_lock digest parsed expected =
     (if (case expected of None \<Rightarrow> False | Some e \<Rightarrow> digest \<noteq> e)
      then Inl (ValueError ''guard lock SHA-256 differs from the requested artifact'')
      else case parsed of
        Inl e \<Rightarrow> Inl (ValueError ''guard lock is invalid JSON'')
      | Inr (VDict lock) \<Rightarrow> bnd (guard_profile_from_lock lock) (\<lambda>p. Inr (lock, p, digest))
      | Inr _ \<Rightarrow> Inl (ValueError ''guard lock root must be an object''))"

section \<open>The audit's reader\<close>

definition audit_guard :: "pyval \<Rightarrow> pyfloat res" where
  "audit_guard v =
     (case v of
        VDict e \<Rightarrow>
          bnd (strict_float (dget e ''guard_ms'') (Some (Fin 0))) (\<lambda>g.
            if fle g (Fin 0) \<or> fle (Fin 20) g
            then Inl (ValueError ''guard lock contains an invalid formal guard'') else Inr g)
      | _ \<Rightarrow> Inl (ValueError ''guard lock profile evidence must be an object''))"

type_synonym audit_profile = "((string \<times> string \<times> string) \<times> pyfloat) list"

definition audit_guard_profile_from_lock :: "pydict \<Rightarrow> audit_profile res" where
  "audit_guard_profile_from_lock lock =
     (case dget lock ''guards'' of
        VDict d \<Rightarrow>
          if \<not> lock_placements_ok d then Inl (ValueError ''guard lock has invalid placement guards'')
          else bnd (read_placements audit_guard d) (\<lambda>cs. Inr (map (\<lambda>((p, q, m), v). ((p, str_of_int q, m), v)) cs))
      | _ \<Rightarrow> Inl (ValueError ''guard lock has invalid placement guards''))"

section \<open>Recorded controller states\<close>

record audit_state =
  a_admission :: int
  a_quota_index :: int
  a_borrower_limit :: int
  a_adjustment :: pyfloat
  a_safe_epochs :: int
  a_quota_percent :: int

definition validated_feedback_state :: "pyval \<Rightarrow> audit_state res" where
  "validated_feedback_state value =
     (case value of
        VDict d \<Rightarrow>
          if dkeys d \<noteq> {''resident_admission_limit'', ''resident_quota_index'', ''borrower_limit'',
               ''guard_adjustment_ms'', ''safe_epochs'', ''resident_quota_percent''}
          then Inl (ValueError ''has invalid feedback state fields'')
          else
            bnd (strict_int (dget d ''resident_admission_limit'') 1) (\<lambda>admission.
            bnd (strict_int (dget d ''resident_quota_index'') 0) (\<lambda>index.
            bnd (strict_int (dget d ''borrower_limit'') 0) (\<lambda>borrowers.
            bnd (strict_int (dget d ''safe_epochs'') 0) (\<lambda>safe.
            bnd (strict_float (dget d ''guard_adjustment_ms'') (Some (Fin 0))) (\<lambda>guard.
              if int (length RESIDENT_QUOTAS) \<le> index then Inl (ValueError ''resident_quota_index is invalid'')
              else
                bnd (strict_int (dget d ''resident_quota_percent'') 0) (\<lambda>quota.
                bnd (py_index RESIDENT_QUOTAS index) (\<lambda>expected.
                  if quota \<noteq> expected then Inl (ValueError ''resident_quota_percent differs from index'')
                  else if 6 < admission \<or> 6 < borrowers \<or> guard \<noteq> Fin 0
                  then Inl (ValueError ''exceeds formal controller bounds'')
                  else Inr \<lparr>a_admission = admission, a_quota_index = index, a_borrower_limit = borrowers,
                            a_adjustment = guard, a_safe_epochs = safe, a_quota_percent = quota\<rparr>)))))))
      | _ \<Rightarrow> Inl (ValueError ''must be a feedback state''))"

definition default_feedback_state :: audit_state where
  "default_feedback_state =
     \<lparr>a_admission = 6, a_quota_index = int (length RESIDENT_QUOTAS) - 1, a_borrower_limit = 6,
      a_adjustment = Fin 0, a_safe_epochs = 0, a_quota_percent = last RESIDENT_QUOTAS\<rparr>"

text \<open>What \<open>run_policy\<close> records: the fields of the state and the derived quota.\<close>

definition recorded_state :: "feedback \<Rightarrow> pyval res" where
  "recorded_state s =
     bnd (resident_quota_percent s) (\<lambda>q.
       Inr (VDict
         [(''resident_admission_limit'', VInt (resident_admission_limit s)),
          (''resident_quota_index'', VInt (resident_quota_index s)),
          (''borrower_limit'', VInt (borrower_limit s)),
          (''guard_adjustment_ms'', VFloat (guard_adjustment_ms s)),
          (''safe_epochs'', VInt (safe_epochs s)), (''resident_quota_percent'', VInt q)]))"

section \<open>The replayed decisions\<close>

type_synonym identity = "int \<times> string \<times> string \<times> int"

definition expected_shares :: "string \<Rightarrow> int \<Rightarrow> audit_state \<Rightarrow> (int \<times> int) res" where
  "expected_shares policy admitted st =
     (if policy = ''same-mig'' then Inr (100, admitted)
      else if policy \<in> {''uncoordinated-borrow'', ''fixed-borrow'', ''fixed-full-gate''}
      then Inr (100, admitted div 2)
      else if policy = ''mig-governor''
      then Inr (a_quota_percent st, min (admitted div 2) (a_borrower_limit st))
      else if policy \<notin> {''static-mig'', ''resident-full-gate''} then Inl (ValueError ''unknown policy'')
      else Inr (100, 0))"

definition expected_policy_identities :: "string \<Rightarrow> string list \<Rightarrow> audit_state \<Rightarrow> int \<Rightarrow> identity list res" where
  "expected_policy_identities policy offered st bq =
     (let admitted = min (int (length offered)) (a_admission st) in
      bnd (expected_shares policy admitted st) (\<lambda>(quota, borrower_count).
      let resident_count = admitted - borrower_count in
      bnd (map_res (\<lambda>i. bnd (py_index offered i) (\<lambda>m. Inr (i, m, ''resident-1g'', quota)))
             [0..resident_count - 1]) (\<lambda>rs.
      bnd (map_res (\<lambda>i. bnd (py_index offered i) (\<lambda>m. Inr (i, m, ''borrower-2g'', bq)))
             [resident_count..admitted - 1]) (\<lambda>bs. Inr (rs @ bs)))))"

definition expected_gate_scope :: "string \<Rightarrow> string list" where
  "expected_gate_scope policy =
     (if policy = ''fixed-borrow'' then [''borrower-2g'']
      else if policy = ''resident-full-gate'' then [''resident-1g'']
      else if policy \<in> {''fixed-full-gate'', ''mig-governor''} then [''borrower-2g'', ''resident-1g'']
      else [])"

definition audit_cell_guard :: "audit_profile \<Rightarrow> identity \<Rightarrow> pyfloat res" where
  "audit_cell_guard profile = (\<lambda>(tenant, m, p, q).
     case map_of profile (p, str_of_int q, m) of
       None \<Rightarrow> Inl (ValueError ''guard profile lacks the action'')
     | Some v \<Rightarrow>
         bnd (strict_float (VFloat v) (Some (Fin 0))) (\<lambda>g.
           if fle g (Fin 0) then Inl (ValueError ''guard profile contains a non-positive guard'') else Inr g))"

definition expected_guard_ms :: "string \<Rightarrow> identity list \<Rightarrow> audit_profile \<Rightarrow> pyfloat res" where
  "expected_guard_ms policy ids profile =
     (let gated = filter (\<lambda>(t, m, p, q). p \<in> set (expected_gate_scope policy)) ids in
      if gated = [] then Inr (Fin 0)
      else
        bnd (fold_res (\<lambda>i d. bnd (audit_cell_guard profile i) (\<lambda>v. Inr (add_guard (fst (snd (snd i))) v d))) gated [])
          (\<lambda>d. case map snd d of [] \<Rightarrow> Inl (ValueError ''max() arg is an empty sequence'')
               | v # vs \<Rightarrow> Inr (foldl fmax v vs)))"

definition adaptive_action_differs_from_fixed_full ::
  "string list \<Rightarrow> audit_state \<Rightarrow> int \<Rightarrow> audit_profile \<Rightarrow> bool res" where
  "adaptive_action_differs_from_fixed_full offered st bq profile =
     bnd (expected_policy_identities ''mig-governor'' offered st bq) (\<lambda>governor.
     bnd (expected_policy_identities ''fixed-full-gate'' offered default_feedback_state bq) (\<lambda>fixed.
       if governor \<noteq> fixed then Inr True
       else
         bnd (expected_guard_ms ''mig-governor'' governor profile) (\<lambda>g.
         bnd (expected_guard_ms ''fixed-full-gate'' fixed profile) (\<lambda>f.
           Inr (\<not> isclose g f (Fin 0) (fl (1 / 10 ^ 12)))))))"

definition adaptive_claim_status ::
  "int \<Rightarrow> int \<Rightarrow> int \<Rightarrow> bool \<Rightarrow> bool \<Rightarrow> bool \<Rightarrow> bool \<Rightarrow> bool \<Rightarrow> bool \<Rightarrow> string" where
  "adaptive_claim_status action_epochs action_runs total_runs drift_valid governor_feasible
     baseline_admission baseline_telemetry baseline_slo paired_gain =
     (if action_epochs = 0 then ''not-exercised''
      else if action_runs < total_runs then ''partially-exercised''
      else if \<not> drift_valid \<or> \<not> baseline_admission \<or> \<not> baseline_telemetry then ''not-evaluable''
      else if \<not> governor_feasible then ''not-supported''
      else if \<not> baseline_slo then ''protection-supported''
      else if paired_gain then ''goodput-gain-supported''
      else ''no-incremental-benefit'')"

definition with_quota :: "audit_state \<Rightarrow> string \<Rightarrow> (audit_state \<times> string) res" where
  "with_quota st action =
     bnd (py_index RESIDENT_QUOTAS (a_quota_index st)) (\<lambda>q. Inr (st\<lparr>a_quota_percent := q\<rparr>, action))"

definition replay_governor_transition ::
  "audit_state \<Rightarrow> bool \<Rightarrow> bool \<Rightarrow> pyfloat \<Rightarrow> pyfloat \<Rightarrow> bool \<Rightarrow> bool \<Rightarrow> (audit_state \<times> string) res" where
  "replay_governor_transition st telemetry_unhealthy viol critical_p99_ms deadline near high =
     (if telemetry_unhealthy then
        with_quota (st\<lparr>a_admission := 1, a_quota_index := 0, a_borrower_limit := 0, a_safe_epochs := 0\<rparr>)
          ''telemetry-fail-closed''
      else if near then
        with_quota (st\<lparr>a_borrower_limit := max 0 (a_borrower_limit st - 1),
          a_admission := max 1 (a_admission st - 1), a_safe_epochs := 0\<rparr>) ''drain-reclaim''
      else if viol \<or> high then
        let st1 = st\<lparr>a_borrower_limit := max 0 (a_borrower_limit st - 1)\<rparr>;
            st2 = (if 0 < a_quota_index st1 then st1\<lparr>a_quota_index := a_quota_index st1 - 1\<rparr>
                   else st1\<lparr>a_admission := max 1 (a_admission st1 - 1)\<rparr>)
        in with_quota (st2\<lparr>a_safe_epochs := 0\<rparr>) ''residual-reclaim''
      else if fle (fmul deadline (fl (90 / 100))) critical_p99_ms then
        with_quota (st\<lparr>a_safe_epochs := 0\<rparr>) ''hold-near-deadline''
      else
        let st1 = st\<lparr>a_safe_epochs := a_safe_epochs st + 1\<rparr> in
        if a_safe_epochs st1 < 3 then with_quota st1 ''hold-hysteresis''
        else if a_quota_index st1 < int (length RESIDENT_QUOTAS) - 1
        then with_quota (st1\<lparr>a_quota_index := a_quota_index st1 + 1, a_safe_epochs := 0\<rparr>) ''recover-resident-quota''
        else if a_admission st1 < 6
        then with_quota (st1\<lparr>a_admission := a_admission st1 + 1, a_safe_epochs := 0\<rparr>) ''recover-admission''
        else if a_borrower_limit st1 < 6
        then with_quota (st1\<lparr>a_borrower_limit := a_borrower_limit st1 + 1, a_safe_epochs := 0\<rparr>) ''recover-borrower''
        else with_quota (st1\<lparr>a_safe_epochs := 0\<rparr>) ''hold-full-capacity'')"

section \<open>The frozen workload\<close>

definition FORMAL_TRACE :: "string list list" where
  "FORMAL_TRACE =
     [[''language''], [''audio''], [''language'', ''audio''],
      [''language'', ''audio'', ''language'', ''audio''],
      [''audio'', ''audio'', ''audio'', ''audio'', ''audio'', ''audio''],
      [''language'', ''language'', ''language'', ''language'', ''language'', ''language'']]"

definition FORMAL_MULTIMODAL_SCENARIO_TRACE :: "string list list" where
  "FORMAL_MULTIMODAL_SCENARIO_TRACE =
     [[''audio'', ''language''], [''audio'', ''language'', ''audio'', ''language''],
      [''audio'', ''language'', ''audio'', ''language'', ''audio'', ''language''],
      [''audio'', ''language''], [''audio'', ''language'', ''audio'', ''language''],
      [''audio'', ''language'', ''audio'', ''language'', ''audio'', ''language'']]"

definition formal_scenario_trace :: "string \<Rightarrow> string list list option" where
  "formal_scenario_trace name =
     (if name = ''legacy'' then Some FORMAL_TRACE
      else if name \<in> {''independent'', ''dependent''} then Some FORMAL_MULTIMODAL_SCENARIO_TRACE
      else None)"

definition formal_offered_modalities :: "int \<Rightarrow> string \<Rightarrow> string list res" where
  "formal_offered_modalities epoch workload =
     (case formal_scenario_trace workload of
        None \<Rightarrow> Inl (ValueError ''unknown formal workload'')
      | Some trace \<Rightarrow>
          bnd (py_index trace (epoch mod int (length trace))) (\<lambda>offered.
          let cycle = epoch div int (length trace) in
          Inr (if workload = ''legacy'' \<and> cycle mod 2 = 1 \<and> 1 < length offered
               then tl offered @ take 1 offered else offered)))"

section \<open>The two readers agree\<close>

lemma map_res_mono:
  assumes "map_res f xs = Inr ys" and "\<And>x y. x \<in> set xs \<Longrightarrow> f x = Inr y \<Longrightarrow> g x = Inr y"
  shows "map_res g xs = Inr ys"
  using assms by (induction xs arbitrary: ys) (auto simp: bnd_eq_Inr)

lemma fold_res_mono:
  assumes "fold_res f xs s = Inr t" and "\<And>x u v. x \<in> set xs \<Longrightarrow> f x u = Inr v \<Longrightarrow> g x u = Inr v"
  shows "fold_res g xs s = Inr t"
  using assms by (induction xs arbitrary: s) (auto simp: bnd_eq_Inr)

lemma fold_res_map: "fold_res f (map h xs) s = fold_res (\<lambda>x. f (h x)) xs s"
proof (induction xs arbitrary: s)
  case (Cons x xs)
  then show ?case by (cases "f (h x) s") auto
qed simp

lemma audit_guard_runtime: "audit_guard v = Inr g \<Longrightarrow> runtime_guard v = Inr g"
proof (cases v)
  case (VDict e)
  assume g: "audit_guard v = Inr g"
  then have num: "is_number (dget e ''guard_ms'')" using VDict by (auto simp: audit_guard_def strict_float_def res_simps)
  then have "dget_default e ''guard_ms'' (VFloat NaN) = dget e ''guard_ms''"
    by (auto simp: dget_default_def dget_def split: option.splits)
  with g VDict show ?thesis
    by (auto simp: audit_guard_def runtime_guard_def strict_float_def res_simps)
qed (auto simp: audit_guard_def)

lemma read_placements_mono:
  assumes "read_placements r1 d = Inr cs" and r: "\<And>v g. r1 v = Inr g \<Longrightarrow> r2 v = Inr g"
  shows "read_placements r2 d = Inr cs"
proof -
  have m: "read_modalities r1 p q v = Inr x \<Longrightarrow> read_modalities r2 p q v = Inr x" for p q v x
    using r by (auto simp: read_modalities_def bnd_eq_Inr elim!: map_res_mono split: pyval.splits if_splits)
  have q: "read_quotas r2 p qs v = Inr x" if r1: "read_quotas r1 p qs v = Inr x" for p qs v x
  proof -
    obtain e where v: "v = VDict e" using r1 by (cases v) (auto simp: read_quotas_def)
    then have keys: "dkeys e = set (map str_of_int qs)"
      using r1 by (auto simp: read_quotas_def split: if_splits)
    then obtain ys where "x = concat ys"
      "map_res (\<lambda>q. read_modalities r1 p q (dget e (str_of_int q))) qs = Inr ys"
      using r1 v by (auto simp: read_quotas_def bnd_eq_Inr)
    note e = v keys this
    from map_res_mono [OF e(4) m] e(1-3) show ?thesis by (simp add: read_quotas_def)
  qed
  obtain css where css: "cs = concat css"
    "map_res (\<lambda>(p, qs). read_quotas r1 p qs (dget d p)) lock_layout = Inr css"
    using assms(1) by (auto simp: read_placements_def bnd_eq_Inr)
  have "map_res (\<lambda>(p, qs). read_quotas r2 p qs (dget d p)) lock_layout = Inr css"
    by (rule map_res_mono [OF css(2)]) (use q in auto)
  with css(1) show ?thesis by (simp add: read_placements_def)
qed

lemma cell_quotas:
  assumes "read_placements r d = Inr cs" and "((p, q, m), v) \<in> set cs"
  shows "q \<in> set RESIDENT_QUOTAS"
proof -
  obtain css where css: "map_res (\<lambda>(p, qs). read_quotas r p qs (dget d p)) lock_layout = Inr css" "cs = concat css"
    using assms(1) by (auto simp: read_placements_def bnd_eq_Inr)
  obtain c1 where c1: "c1 \<in> set css" "((p, q, m), v) \<in> set c1" using assms(2) css(2) by auto
  obtain p1 qs where p1: "(p1, qs) \<in> set lock_layout" "read_quotas r p1 qs (dget d p1) = Inr c1"
    using map_res_mem [OF css(1) c1(1)] by auto
  obtain rp c2 where c2: "map_res (\<lambda>q. read_modalities r p1 q (dget rp (str_of_int q))) qs = Inr c2" "c1 = concat c2"
    using p1(2) by (auto simp: read_quotas_def bnd_eq_Inr split: pyval.splits if_splits)
  obtain c3 where c3: "c3 \<in> set c2" "((p, q, m), v) \<in> set c3" using c1(2) c2(2) by auto
  obtain q1 where q1: "q1 \<in> set qs" "read_modalities r p1 q1 (dget rp (str_of_int q1)) = Inr c3"
    using map_res_mem [OF c2(1) c3(1)] by auto
  obtain rm where "map_res (\<lambda>m. bnd (r (dget rm m)) (\<lambda>x. Inr ((p1, q1, m), x))) MODALITIES = Inr c3"
    using q1(2) by (auto simp: read_modalities_def split: pyval.splits if_splits)
  from map_res_mem [OF this c3(2)] have "q = q1" by (auto simp: bnd_eq_Inr)
  with q1(1) p1(1) show ?thesis by (auto simp: lock_layout_def RESIDENT_QUOTAS_def)
qed

lemma quota_strings:
  "q \<in> set RESIDENT_QUOTAS \<Longrightarrow> q' \<in> set RESIDENT_QUOTAS \<Longrightarrow> str_of_int q = str_of_int q' \<Longrightarrow> q = q'"
proof -
  have "str_of_int 25 = ''25''" "str_of_int 50 = ''50''" "str_of_int 100 = ''100''" by code_simp+
  then show "q \<in> set RESIDENT_QUOTAS \<Longrightarrow> q' \<in> set RESIDENT_QUOTAS \<Longrightarrow> str_of_int q = str_of_int q' \<Longrightarrow> q = q'"
    by (auto simp: RESIDENT_QUOTAS_def)
qed

lemma audit_lookup:
  assumes "\<forall>((p, q, m), v) \<in> set cs. q \<in> set RESIDENT_QUOTAS" and "map_of cs (p, q, m) = Some v"
  shows "map_of (map (\<lambda>((p, q, m), v). ((p, str_of_int q, m), v)) cs) (p, str_of_int q, m) = Some v"
proof -
  have q: "q \<in> set RESIDENT_QUOTAS" using assms map_of_SomeD [OF assms(2)] by auto
  show ?thesis using assms
  proof (induction cs)
    case (Cons c cs)
    obtain p' q' m' v' where c: "c = ((p', q', m'), v')" by (metis prod_cases3 surj_pair)
    show ?case
    proof (cases "(p', q', m') = (p, q, m)")
      case False
      moreover have "q' \<in> set RESIDENT_QUOTAS" using Cons.prems(1) c by auto
      ultimately have "(p', str_of_int q', m') \<noteq> (p, str_of_int q, m)" using quota_strings q by auto
      moreover have "map_of cs (p, q, m) = Some v" using Cons.prems(2) c False by (auto split: if_splits)
      moreover have "\<forall>((p, q, m), v) \<in> set cs. q \<in> set RESIDENT_QUOTAS" using Cons.prems(1) by simp
      ultimately show ?thesis using Cons.IH c by auto
    qed (use Cons.prems c in auto)
  qed simp
qed

lemma lock_lookup:
  "profile_lookup (profile_of_cells cs) a = Some v \<Longrightarrow> map_of cs (placement a, quota_percent a, modality a) = Some v"
  by (auto simp: profile_lookup_def profile_of_cells_def split: if_splits option.splits)

section \<open>The replay agrees with the runtime\<close>

definition identity :: "worker_action \<Rightarrow> identity" where
  "identity a = (tenant_id a, modality a, placement a, quota_percent a)"

definition audit_of :: "feedback \<Rightarrow> audit_state" where
  "audit_of s =
     \<lparr>a_admission = resident_admission_limit s, a_quota_index = resident_quota_index s,
      a_borrower_limit = borrower_limit s, a_adjustment = guard_adjustment_ms s,
      a_safe_epochs = safe_epochs s, a_quota_percent = RESIDENT_QUOTAS ! nat (resident_quota_index s)\<rparr>"

fun action_name :: "controller_action \<Rightarrow> string" where
  "action_name DrainReclaim = ''drain-reclaim''"
| "action_name ResidualReclaim = ''residual-reclaim''"
| "action_name HoldNearDeadline = ''hold-near-deadline''"
| "action_name HoldHysteresis = ''hold-hysteresis''"
| "action_name RecoverResidentQuota = ''recover-resident-quota''"
| "action_name RecoverAdmission = ''recover-admission''"
| "action_name RecoverBorrower = ''recover-borrower''"
| "action_name HoldFullCapacity = ''hold-full-capacity''"
| "action_name TelemetryFailClosed = ''telemetry-fail-closed''"
| "action_name NotApplicable = ''not-applicable''"

lemma guard_agreement:
  assumes g: "guard_for policy pl (profile_of_cells cs) None = Inr g"
    and cs: "\<forall>((p, q, m), v) \<in> set cs. q \<in> set RESIDENT_QUOTAS"
  shows "expected_guard_ms policy (map identity (actions pl))
    (map (\<lambda>((p, q, m), v). ((p, str_of_int q, m), v)) cs) = Inr g"
proof -
  let ?table = "map (\<lambda>((p, q, m), v). ((p, str_of_int q, m), v)) cs"
  let ?as = "filter (\<lambda>a. placement a \<in> set (gated_placements policy)) (actions pl)"
  have scope: "set (expected_gate_scope policy) = set (gated_placements policy)"
    by (auto simp: expected_gate_scope_def gated_placements_def)
  have gated: "filter (\<lambda>(t, m, p, q). p \<in> set (expected_gate_scope policy)) (map identity (actions pl)) = map identity ?as"
    unfolding scope filter_map comp_def identity_def by simp
  have cell: "audit_cell_guard ?table (identity a) = Inr v"
    if "guard_value_ms (profile_of_cells cs) a = Inr v" for a v
  proof -
    from that have v: "profile_lookup (profile_of_cells cs) a = Some v" "isfinite v" "\<not> fle v (Fin 0)"
      by (auto simp: guard_value_ms_def split: option.splits if_splits)
    from audit_lookup [OF cs lock_lookup [OF v(1)]] v(2,3) show ?thesis
      by (cases v) (auto simp: audit_cell_guard_def identity_def strict_float_def)
  qed
  show ?thesis
  proof (cases "?as = []")
    case True
    with g gated show ?thesis by (simp add: guard_for_def expected_guard_ms_def)
  next
    case False
    with g obtain d where d: "guard_totals (profile_of_cells cs) ?as = Inr d"
      and m: "(case map snd d of [] \<Rightarrow> Inl (ValueError ''max() arg is an empty sequence'')
               | v # vs \<Rightarrow> Inr (foldl fmax v vs)) = Inr g"
      by (auto simp: guard_for_def Let_def bnd_eq_Inr)
    have "fold_res (\<lambda>i d. bnd (audit_cell_guard ?table i) (\<lambda>v. Inr (add_guard (fst (snd (snd i))) v d)))
        (map identity ?as) [] = Inr d"
      unfolding fold_res_map
      by (rule fold_res_mono [OF d [unfolded guard_totals_def]]) (auto simp: bnd_eq_Inr identity_def dest!: cell)
    with m gated False show ?thesis by (simp add: expected_guard_ms_def Let_def)
  qed
qed

lemma shares_agreement:
  assumes "feedback_inv s"
  shows "expected_shares policy n (audit_of s) = plan_shares policy n s"
  using resident_quota_percent_inv [OF assms]
  by (auto simp: expected_shares_def plan_shares_def audit_of_def)

lemma plan_shares_known: "plan_shares policy n s = Inr x \<Longrightarrow> policy \<in> set POLICIES"
  by (auto simp: plan_shares_def POLICIES_def split: if_splits)

lemma identities_agreement:
  assumes inv: "feedback_inv s" and pl: "plan_for policy offered s bq = Inr pl"
  shows "expected_policy_identities policy offered (audit_of s) bq = Inr (map identity (actions pl))"
proof -
  have policy: "policy \<in> set POLICIES"
    using pl plan_shares_known by (auto simp: plan_for_def Let_def bnd_eq_Inr)
  define n where "n = admitted_count offered s"
  define nb where "nb = share_borrowers policy s n"
  have n: "min (int (length offered)) (resident_admission_limit s) = int n" "n \<le> length offered"
    using inv by (auto simp: n_def admitted_count_def feedback_inv_def min_def)
  have nb: "nb \<le> n" by (simp add: nb_def share_borrowers_le)
  have p: "pl = plan_of offered (share_quota policy s) bq (n - nb) n"
    using pl plan_for_inv [OF inv policy] by (simp add: Let_def n_def nb_def)
  have rc: "int n - int nb = int (n - nb)" using nb by simp
  have sh: "expected_shares policy (int n) (audit_of s) = Inr (share_quota policy s, int nb)"
    using shares_agreement [OF inv] plan_shares_inv [OF inv policy] by (simp add: nb_def)
  have rs: "map_res (\<lambda>i. bnd (py_index offered i) (\<lambda>m. Inr (i, m, ''resident-1g'', share_quota policy s)))
      [0..int (n - nb) - 1] = Inr (map (\<lambda>i. (int i, offered ! i, ''resident-1g'', share_quota policy s)) [0..<n - nb])"
    using map_res_index_range [of 0 "int (n - nb)" offered "\<lambda>i m. (i, m, ''resident-1g'', share_quota policy s)"] n(2) by simp
  have bs: "map_res (\<lambda>i. bnd (py_index offered i) (\<lambda>m. Inr (i, m, ''borrower-2g'', bq)))
      [int (n - nb)..int n - 1] = Inr (map (\<lambda>i. (int i, offered ! i, ''borrower-2g'', bq)) [n - nb..<n])"
    using map_res_index_range [of "int (n - nb)" "int n" offered "\<lambda>i m. (i, m, ''borrower-2g'', bq)"] n(2) by simp
  have "a_admission (audit_of s) = resident_admission_limit s" by (simp add: audit_of_def)
  then show ?thesis
    unfolding expected_policy_identities_def Let_def
    by (simp add: n(1) sh rc rs bs p plan_of_def actions_def identity_def comp_def)
qed

lemma quota_index_eval:
  "0 \<le> i \<Longrightarrow> i \<le> 2 \<Longrightarrow> py_index RESIDENT_QUOTAS i = Inr (RESIDENT_QUOTAS ! nat i)"
  by (auto simp: py_index_def RESIDENT_QUOTAS_def)

lemma audit_of_sel [simp]:
  "a_admission (audit_of s) = resident_admission_limit s"
  "a_quota_index (audit_of s) = resident_quota_index s"
  "a_borrower_limit (audit_of s) = borrower_limit s"
  "a_adjustment (audit_of s) = guard_adjustment_ms s"
  "a_safe_epochs (audit_of s) = safe_epochs s"
  by (simp_all add: audit_of_def)

lemma with_quota_to:
  assumes "feedback_inv s" and "a_admission st = resident_admission_limit s"
    and "a_quota_index st = resident_quota_index s" and "a_borrower_limit st = borrower_limit s"
    and "a_adjustment st = guard_adjustment_ms s" and "a_safe_epochs st = safe_epochs s"
  shows "with_quota st n = Inr (audit_of s, n)"
  using assms by (simp add: with_quota_def audit_of_def feedback_inv_def quota_index_eval)

lemma move_inv:
  assumes "feedback_inv s" and "controller_move ''mig-governor'' c r viol near high s = (a, s')"
  shows "feedback_inv s'"
  using governor_step_inv [OF assms(1), of "deadline_ms c"
      "\<lparr>sig_healthy = telemetry_healthy r, sig_violated = viol, sig_p99 = p99_ms r, sig_near = near, sig_high = high\<rparr>"]
    assms(2) by (auto simp: governor_step_def controller_move_def split: if_splits)

lemma guard_threshold: "fl (90 / 100) = fl (9 / 10)"
  by (rule arg_cong [of _ _ fl]) simp

text \<open>One case per branch of the controller, each closed by computing both sides.\<close>

lemma transition_agreement:
  assumes inv: "feedback_inv s"
    and move: "controller_move ''mig-governor'' c r viol near high s = (a, s')"
  shows "replay_governor_transition (audit_of s) (\<not> telemetry_healthy r) viol (p99_ms r) (deadline_ms c) near high =
    Inr (audit_of s', action_name a)"
proof -
  note q = with_quota_to [OF move_inv [OF inv move]]
  note defs = controller_move_def update_feedback_def fail_closed_feedback_def
    replay_governor_transition_def guard_threshold Let_def
  have quotas: "int (length RESIDENT_QUOTAS) = 3" by (simp add: RESIDENT_QUOTAS_def)
  consider "\<not> telemetry_healthy r" | "telemetry_healthy r" "near"
    | "telemetry_healthy r" "\<not> near" "viol \<or> high" "0 < resident_quota_index s"
    | "telemetry_healthy r" "\<not> near" "viol \<or> high" "\<not> 0 < resident_quota_index s"
    | "telemetry_healthy r" "\<not> near" "\<not> (viol \<or> high)" "fle (fmul (deadline_ms c) (fl (9 / 10))) (p99_ms r)"
    | "telemetry_healthy r" "\<not> near" "\<not> (viol \<or> high)" "\<not> fle (fmul (deadline_ms c) (fl (9 / 10))) (p99_ms r)"
    by blast
  then show ?thesis
  proof cases
    case 1
    then show ?thesis using move unfolding defs by (simp, elim conjE) (rule q, auto)
  next
    case 2
    then show ?thesis using move unfolding defs by (simp, elim conjE) (rule q, auto)
  next
    case 3
    then show ?thesis using move unfolding defs by (simp, elim conjE) (rule q, auto)
  next
    case 4
    then show ?thesis using move unfolding defs by (simp, elim conjE) (rule q, auto)
  next
    case 5
    then show ?thesis using move unfolding defs by (simp, elim conjE) (rule q, auto)
  next
    case 6
    consider "safe_epochs s + 1 < 3"
      | "\<not> safe_epochs s + 1 < 3" "resident_quota_index s < 2"
      | "\<not> safe_epochs s + 1 < 3" "\<not> resident_quota_index s < 2" "resident_admission_limit s < 6"
      | "\<not> safe_epochs s + 1 < 3" "\<not> resident_quota_index s < 2" "\<not> resident_admission_limit s < 6" "borrower_limit s < 6"
      | "\<not> safe_epochs s + 1 < 3" "\<not> resident_quota_index s < 2" "\<not> resident_admission_limit s < 6" "\<not> borrower_limit s < 6"
      by blast
    then show ?thesis
      by cases (insert 6 move quotas, unfold defs, (simp, elim conjE, rule q; auto)+)
  qed
qed

section \<open>The recorded states\<close>

lemma recorded_state_valid:
  assumes "feedback_inv s" and "guard_adjustment_ms s = Fin 0"
  shows "\<exists>v. recorded_state s = Inr v \<and> validated_feedback_state v = Inr (audit_of s)"
  using assms resident_quota_percent_inv [OF assms(1)] quota_index_eval [of "resident_quota_index s"]
  by (auto simp: recorded_state_def validated_feedback_state_def audit_of_def strict_int_def strict_float_def
      dkeys_def dget_def feedback_inv_def RESIDENT_QUOTAS_def nth_Cons split: nat.splits)

lemma conclude_epoch_moves:
  assumes "conclude_epoch policy c pl g r s = Inr e"
  shows "controller_move policy c r (violated e) (drain_near_overrun e) (thermal_high e) s =
    (controller_action e, state_after e)"
  using assms by (auto simp: conclude_epoch_def Let_def bnd_eq_Inr split: if_splits)

lemma controller_move_adjustment:
  "controller_move policy c r viol near high s = (a, s') \<Longrightarrow> guard_adjustment_ms s' = guard_adjustment_ms s"
  by (auto simp: controller_move_def update_feedback_def fail_closed_feedback_def split: if_splits)

lemma run_epochs_adjustment:
  assumes "run_epochs policy c profile n rs s = Inr es" and "i < length es"
  shows "guard_adjustment_ms (state_before (es ! i)) = guard_adjustment_ms s"
  using assms(2)
proof (induction i)
  case 0
  then show ?case using run_epochs_first [OF assms(1)] by auto
next
  case (Suc i)
  then have i: "i < length es" by simp
  from controller_move_adjustment [OF conclude_epoch_moves [OF run_epochs_nth [OF assms(1) i]]]
    run_epochs_chain [OF assms(1) Suc.prems] Suc.IH [OF i] show ?case by simp
qed

lemma offered_agreement:
  "offered_for_epoch n workload = Inr offered \<Longrightarrow> formal_offered_modalities n workload = Inr offered"
  by (auto simp: offered_for_epoch_def scenario_trace_def formal_offered_modalities_def formal_scenario_trace_def
      MULTIMODAL_SCENARIO_TRACE_def FORMAL_MULTIMODAL_SCENARIO_TRACE_def Let_def split: if_splits)

lemma initial_audit_state: "audit_of initial_feedback = default_feedback_state"
  by (simp add: audit_of_def initial_feedback_def default_feedback_state_def RESIDENT_QUOTAS_def)

section \<open>Agreement on every epoch\<close>

text \<open>The action and the next state the audit computes from a recorded state.\<close>

definition replayed_move ::
  "string \<Rightarrow> audit_state \<Rightarrow> epoch_report \<Rightarrow> epoch_record \<Rightarrow> pyfloat \<Rightarrow> (audit_state \<times> string) res" where
  "replayed_move policy before r e deadline =
     (if policy = ''mig-governor''
      then replay_governor_transition before (\<not> telemetry_healthy r) (violated e) (p99_ms r) deadline
        (drain_near_overrun e) (thermal_high e)
      else Inr (before, ''not-applicable''))"

lemma epoch_guard_agreement:
  assumes lock: "guard_profile_from_lock lock = Inr profile" "audit_guard_profile_from_lock lock = Inr table"
    and guard: "guard_for policy pl profile None = Inr g"
  shows "expected_guard_ms policy (map identity (actions pl)) table = Inr g"
proof -
  obtain d cs where d: "dget lock ''guards'' = VDict d" and audit: "read_placements audit_guard d = Inr cs"
    and table: "table = map (\<lambda>((p, q, m), v). ((p, str_of_int q, m), v)) cs"
    using lock(2) by (auto simp: audit_guard_profile_from_lock_def bnd_eq_Inr split: pyval.splits if_splits)
  have "read_placements runtime_guard d = Inr cs"
    by (rule read_placements_mono [OF audit audit_guard_runtime])
  with lock(1) d have profile: "profile = profile_of_cells cs"
    by (auto simp: guard_profile_from_lock_def guard_cells_from_lock_def bnd_eq_Inr split: if_splits)
  have "\<forall>((p, q, m), v) \<in> set cs. q \<in> set RESIDENT_QUOTAS"
    using cell_quotas [OF audit] by auto
  from guard_agreement [OF guard [unfolded profile] this] table show ?thesis by simp
qed

lemma move_agreement:
  assumes "feedback_inv (state_before e)"
    and "conclude_epoch policy c (plan e) (guard_ms e) r (state_before e) = Inr e"
  shows "replayed_move policy (audit_of (state_before e)) r e (deadline_ms c) =
    Inr (audit_of (state_after e), action_name (controller_action e))"
proof (cases "policy = ''mig-governor''")
  case True
  with transition_agreement [OF assms(1)] conclude_epoch_moves [OF assms(2)] show ?thesis
    by (simp add: replayed_move_def)
next
  case False
  with conclude_epoch_moves [OF assms(2)] show ?thesis
    by (auto simp: replayed_move_def controller_move_def)
qed

lemma before_agreement:
  assumes "run_epochs policy c profile 0 rs initial_feedback = Inr es" and "i < length es"
  shows "audit_of (state_before (es ! i)) =
    (case i of 0 \<Rightarrow> default_feedback_state | Suc j \<Rightarrow> audit_of (state_after (es ! j)))"
  using assms run_epochs_first [OF assms(1)] run_epochs_chain [OF assms(1)]
  by (auto simp: initial_audit_state split: nat.splits)

text \<open>
  C3: the independent audit reproduces the runtime on every epoch of every run. For a guard lock that
  both readers accept, any policy, any settings without a guard override and any sequence of epoch
  reports: the audit's workload gives the offered tenants of the epoch; from the recorded state before,
  which its strict reader accepts and which is the default state or the state after the preceding
  epoch, the audit's tenant, placement and quota assignment equals the plan of \<open>plan_for\<close>; its guard
  equals the guard of \<open>guard_for\<close>, rounding included; and its controller replay gives the recorded
  state after and the recorded action.
\<close>

theorem audit_reproduces_run:
  assumes "guard_profile_from_lock lock = Inr profile" and "audit_guard_profile_from_lock lock = Inr table"
    and "guard_override_ms c = None"
    and "run_epochs policy c profile 0 rs initial_feedback = Inr es" and "i < length es"
  shows "\<exists>v offered.
    recorded_state (state_before (es ! i)) = Inr v \<and>
    validated_feedback_state v = Inr (audit_of (state_before (es ! i))) \<and>
    audit_of (state_before (es ! i)) =
      (case i of 0 \<Rightarrow> default_feedback_state | Suc j \<Rightarrow> audit_of (state_after (es ! j))) \<and>
    formal_offered_modalities (int i) (scenario c) = Inr offered \<and>
    expected_policy_identities policy offered (audit_of (state_before (es ! i))) (borrower_quota c) =
      Inr (map identity (actions (plan (es ! i)))) \<and>
    expected_guard_ms policy (map identity (actions (plan (es ! i)))) table = Inr (guard_ms (es ! i)) \<and>
    replayed_move policy (audit_of (state_before (es ! i))) (rs ! i) (es ! i) (deadline_ms c) =
      Inr (audit_of (state_after (es ! i)), action_name (controller_action (es ! i)))"
proof -
  let ?e = "es ! i"
  have inv: "feedback_inv (state_before ?e)" by (rule run_epochs_state_inv [OF assms(4,5)])
  have "guard_adjustment_ms (state_before ?e) = Fin 0"
    using run_epochs_adjustment [OF assms(4,5)] by (simp add: initial_feedback_def)
  with recorded_state_valid [OF inv] obtain v where v: "recorded_state (state_before ?e) = Inr v"
    "validated_feedback_state v = Inr (audit_of (state_before ?e))" by blast
  obtain offered where o: "offered_for_epoch (int i) (scenario c) = Inr offered"
    "plan_for policy offered (state_before ?e) (borrower_quota c) = Inr (plan ?e)"
    "guard_for policy (plan ?e) profile None = Inr (guard_ms ?e)"
    using run_epochs_plans [OF assms(4,5)] assms(3) by (auto simp: prepare_epoch_def bnd_eq_Inr split: if_splits)
  show ?thesis
    using v before_agreement [OF assms(4,5)] offered_agreement [OF o(1)] identities_agreement [OF inv o(2)]
      epoch_guard_agreement [OF assms(1,2) o(3)] move_agreement [OF inv run_epochs_nth [OF assms(4,5)]]
    by blast
qed

text \<open>A lock with a guard of 1 ms for every cell, and two epochs, the second healthy.\<close>

definition flat_cell :: pyval where
  "flat_cell = VDict [(''guard_ms'', VFloat (Fin 1))]"

definition flat_quota :: pyval where
  "flat_quota = VDict [(''language'', flat_cell), (''audio'', flat_cell)]"

definition flat_lock :: pydict where
  "flat_lock =
     [(''schema_version'', VInt 3), (''kind'', VStr ''p9-quota-aware-guard-lock''),
      (''guards'', VDict
        [(''resident-1g'', VDict [(''25'', flat_quota), (''50'', flat_quota), (''100'', flat_quota)]),
         (''borrower-2g'', VDict [(''100'', flat_quota)])])]"

definition flat_cells :: "cell list" where
  "flat_cells =
     [((''resident-1g'', 25, ''language''), Fin 1), ((''resident-1g'', 25, ''audio''), Fin 1),
      ((''resident-1g'', 50, ''language''), Fin 1), ((''resident-1g'', 50, ''audio''), Fin 1),
      ((''resident-1g'', 100, ''language''), Fin 1), ((''resident-1g'', 100, ''audio''), Fin 1),
      ((''borrower-2g'', 100, ''language''), Fin 1), ((''borrower-2g'', 100, ''audio''), Fin 1)]"

lemma quota_names: "str_of_int 25 = ''25''" "str_of_int 50 = ''50''" "str_of_int 100 = ''100''"
  by code_simp+

lemmas lock_eval = flat_lock_def flat_quota_def flat_cell_def flat_cells_def read_placements_def
  lock_layout_def read_quotas_def read_modalities_def lock_placements_ok_def dkeys_def dget_def
  MODALITIES_def quota_names

lemma flat_lock_cells: "guard_profile_from_lock flat_lock = Inr (profile_of_cells flat_cells)"
  by (simp add: lock_eval guard_profile_from_lock_def guard_cells_from_lock_def runtime_guard_def
      dget_default_def GUARD_LOCK_SCHEMA_VERSION_def feq_def insert_commute)

lemma flat_lock_audit: "\<exists>table. audit_guard_profile_from_lock flat_lock = Inr table"
  by (simp add: lock_eval audit_guard_profile_from_lock_def audit_guard_def strict_float_def insert_commute)

lemma flat_run:
  "\<exists>es. run_epochs ''mig-governor'' period_20ms (profile_of_cells flat_cells) 0
    [(healthy_report 5 0)\<lparr>telemetry_healthy := False\<rparr>, healthy_report 5 0] initial_feedback = Inr es"
  by (simp add: epoch_eval plan_eval guard_eval profile_of_cells_def flat_cells_def)

theorem audit_reproduces_run_witness:
  "\<exists>es v offered. run_epochs ''mig-governor'' period_20ms (profile_of_cells flat_cells) 0
      [(healthy_report 5 0)\<lparr>telemetry_healthy := False\<rparr>, healthy_report 5 0] initial_feedback = Inr es \<and>
    recorded_state (state_before (es ! 1)) = Inr v \<and>
    validated_feedback_state v = Inr (audit_of (state_before (es ! 1))) \<and>
    formal_offered_modalities 1 ''independent'' = Inr offered"
proof -
  obtain table where table: "audit_guard_profile_from_lock flat_lock = Inr table" using flat_lock_audit by blast
  obtain es where run: "run_epochs ''mig-governor'' period_20ms (profile_of_cells flat_cells) 0
      [(healthy_report 5 0)\<lparr>telemetry_healthy := False\<rparr>, healthy_report 5 0] initial_feedback = Inr es"
    using flat_run by blast
  have len: "1 < length es" using run_epochs_length [OF run] by simp
  have c: "guard_override_ms period_20ms = None" "scenario period_20ms = ''independent''"
    by (simp_all add: period_20ms_def)
  from audit_reproduces_run [OF flat_lock_cells table c(1) run len] run c(2) show ?thesis by auto
qed

end
