(* ===== verification/SlackArguments.thy ===== *)
theory SlackArguments
  imports SlackGovernor CpuList
begin

text \<open>
  \<open>validate_args\<close> of \<open>runtime/mig_slack_governor.py\<close>: the checks on the command line before any process
  starts, the normalised CPU lists and the requested policies. The theorems say what an accepted
  command line guarantees to the experiment: dedicated CPUs, and runs of the fixed policies that
  cannot be aborted by a guard that does not fit.
\<close>

section \<open>The command line\<close>

text \<open>The fields the checks read; paths matter only by their presence.\<close>

record slack_args =
  sa_epochs :: int
  sa_samples :: int
  sa_warmup :: int
  sa_burst_size :: int
  sa_calibration_repeats :: int
  sa_borrower_quota :: int
  sa_calibration_only :: bool
  sa_critical_cpu :: string
  sa_pressure_cpus :: string
  sa_mps_cpu :: string
  sa_telemetry_cpu :: string
  sa_policy_order :: string
  sa_thermal_stability_sensor :: string
  sa_thermal_safety_sensor :: string
  sa_deadline_source :: "string option"
  sa_deadline_lock_sha256 :: "string option"
  sa_thermal_lock_sha256 :: "string option"
  sa_guard_lock_sha256 :: "string option"
  sa_guard_lock :: "string option"
  sa_telemetry_log :: "string option"
  sa_period_ms :: pyfloat
  sa_slo_factor :: pyfloat
  sa_dmr_target :: pyfloat
  sa_readiness_timeout_seconds :: pyfloat
  sa_language_guard_ms :: pyfloat
  sa_audio_guard_ms :: pyfloat
  sa_pressure_rps_per_tenant :: pyfloat
  sa_thermal_tolerance_c :: pyfloat
  sa_thermal_window_seconds :: pyfloat
  sa_thermal_max_slope_c_per_minute :: pyfloat
  sa_thermal_timeout_seconds :: pyfloat
  sa_thermal_handoff_max_ms :: pyfloat
  sa_max_isolated_drift_fraction :: pyfloat
  sa_deadline_ms :: "pyfloat option"
  sa_guard_override_ms :: "pyfloat option"
  sa_thermal_pilot_seconds :: "pyfloat option"
  sa_thermal_target_c :: "pyfloat option"
  sa_thermal_hard_limit_c :: "pyfloat option"

definition nine_digits :: pyfloat where
  "nine_digits = fl (1 / 10 ^ 9)"

definition near :: "pyfloat \<Rightarrow> pyfloat \<Rightarrow> bool" where
  "near v expected \<longleftrightarrow> isclose v expected (Fin 0) nine_digits"

definition THERMAL_PILOT_MINIMUM_SECONDS :: pyfloat where
  "THERMAL_PILOT_MINIMUM_SECONDS = Fin 600"

definition THERMAL_PILOT_MAXIMUM_SECONDS :: pyfloat where
  "THERMAL_PILOT_MAXIMUM_SECONDS = Fin 900"

definition THERMAL_PILOT_WINDOW_SECONDS :: pyfloat where
  "THERMAL_PILOT_WINDOW_SECONDS = Fin 180"

definition THERMAL_MAXIMUM_SLOPE_C_PER_MINUTE :: pyfloat where
  "THERMAL_MAXIMUM_SLOPE_C_PER_MINUTE = fl (2 / 10)"

definition numbers_finite :: "slack_args \<Rightarrow> bool" where
  "numbers_finite a \<longleftrightarrow>
     list_all isfinite
       [sa_period_ms a, sa_slo_factor a, sa_dmr_target a, sa_readiness_timeout_seconds a,
        sa_language_guard_ms a, sa_audio_guard_ms a, sa_thermal_tolerance_c a, sa_thermal_window_seconds a,
        sa_thermal_max_slope_c_per_minute a, sa_thermal_timeout_seconds a, sa_thermal_handoff_max_ms a,
        sa_max_isolated_drift_fraction a] \<and>
     list_all (\<lambda>v. case v of None \<Rightarrow> True | Some x \<Rightarrow> isfinite x)
       [sa_deadline_ms a, sa_guard_override_ms a, sa_thermal_pilot_seconds a, sa_thermal_target_c a,
        sa_thermal_hard_limit_c a]"

definition some_le :: "pyfloat option \<Rightarrow> pyfloat \<Rightarrow> bool" where
  "some_le v x \<longleftrightarrow> (case v of None \<Rightarrow> False | Some y \<Rightarrow> fle y x)"

definition thermal_pilot_protocol_valid :: "slack_args \<Rightarrow> bool" where
  "thermal_pilot_protocol_valid a \<longleftrightarrow>
     (case sa_thermal_pilot_seconds a of None \<Rightarrow> True
      | Some pilot \<Rightarrow>
          flt pilot (sa_thermal_timeout_seconds a) \<and>
          near pilot THERMAL_PILOT_MINIMUM_SECONDS \<and>
          near (sa_thermal_timeout_seconds a) THERMAL_PILOT_MAXIMUM_SECONDS \<and>
          near (sa_thermal_window_seconds a) THERMAL_PILOT_WINDOW_SECONDS \<and>
          near (sa_thermal_max_slope_c_per_minute a) THERMAL_MAXIMUM_SLOPE_C_PER_MINUTE)"

text \<open>\<open>re.fullmatch\<close> of 64 lower case hexadecimal digits.\<close>

definition hex64 :: "string \<Rightarrow> bool" where
  "hex64 s \<longleftrightarrow> length s = 64 \<and> list_all (\<lambda>c. is_digit c \<or> (97 \<le> code c \<and> code c \<le> 102)) s"

definition bad_digest :: "string option \<Rightarrow> bool" where
  "bad_digest v \<longleftrightarrow> (case v of None \<Rightarrow> False | Some s \<Rightarrow> \<not> hex64 s)"

section \<open>The checks\<close>

definition bad_dimensions :: "slack_args \<Rightarrow> bool" where
  "bad_dimensions a \<longleftrightarrow>
     sa_epochs a \<le> 0 \<or> sa_samples a \<le> 0 \<or> sa_warmup a < 0 \<or> sa_burst_size a \<le> 0 \<or>
     sa_samples a mod sa_burst_size a \<noteq> 0 \<or> fle (sa_period_ms a) (Fin 0) \<or>
     flt (sa_pressure_rps_per_tenant a) (Fin 0) \<or> \<not> isfinite (sa_pressure_rps_per_tenant a) \<or>
     fle (sa_slo_factor a) (Fin 0) \<or> some_le (sa_deadline_ms a) (Fin 0) \<or>
     (sa_deadline_source a \<noteq> None \<and> sa_deadline_ms a = None) \<or>
     fle (sa_dmr_target a) (Fin 0) \<or> fle (Fin 1) (sa_dmr_target a) \<or> sa_calibration_repeats a \<le> 0 \<or>
     fle (sa_readiness_timeout_seconds a) (Fin 0) \<or> sa_borrower_quota a \<le> 0 \<or> 100 < sa_borrower_quota a \<or>
     fle (sa_language_guard_ms a) (Fin 0) \<or> fle (sa_audio_guard_ms a) (Fin 0)"

definition bad_thermal :: "slack_args \<Rightarrow> bool" where
  "bad_thermal a \<longleftrightarrow>
     some_le (sa_thermal_pilot_seconds a) (Fin 0) \<or> some_le (sa_thermal_target_c a) (Fin 0) \<or>
     fle (sa_thermal_tolerance_c a) (Fin 0) \<or> fle (sa_thermal_window_seconds a) (Fin 0) \<or>
     fle (sa_thermal_max_slope_c_per_minute a) (Fin 0) \<or> fle (sa_thermal_timeout_seconds a) (Fin 0) \<or>
     \<not> near (sa_thermal_handoff_max_ms a) (Fin 500) \<or>
     sa_thermal_stability_sensor a \<noteq> ''soc012'' \<or> sa_thermal_safety_sensor a \<noteq> ''tj'' \<or>
     some_le (sa_thermal_hard_limit_c a) (Fin 0) \<or>
     fle (sa_max_isolated_drift_fraction a) (Fin 0) \<or> fle (Fin 1) (sa_max_isolated_drift_fraction a) \<or>
     \<not> thermal_pilot_protocol_valid a \<or>
     (sa_calibration_only a \<and> sa_thermal_pilot_seconds a \<noteq> None) \<or>
     (sa_thermal_target_c a \<noteq> None \<and> sa_thermal_pilot_seconds a \<noteq> None) \<or>
     ((sa_thermal_target_c a \<noteq> None \<or> sa_thermal_pilot_seconds a \<noteq> None) \<and> sa_telemetry_log a = None)"

definition bad_guard :: "slack_args \<Rightarrow> pyfloat \<Rightarrow> bool" where
  "bad_guard a bound \<longleftrightarrow>
     (case sa_guard_override_ms a of
        None \<Rightarrow> fle (sa_period_ms a) bound
      | Some g \<Rightarrow> fle g (Fin 0) \<or> fle (sa_period_ms a) g)"

definition FROZEN_DEADLINE :: string where
  "FROZEN_DEADLINE = ''frozen-isolated-p99-factor''"

definition bad_locks :: "slack_args \<Rightarrow> bool" where
  "bad_locks a \<longleftrightarrow>
     bad_digest (sa_deadline_lock_sha256 a) \<or> bad_digest (sa_thermal_lock_sha256 a) \<or>
     bad_digest (sa_guard_lock_sha256 a) \<or>
     ((sa_guard_lock a = None) \<noteq> (sa_guard_lock_sha256 a = None)) \<or>
     (sa_deadline_source a = Some FROZEN_DEADLINE \<and>
        (sa_deadline_lock_sha256 a = None \<or> sa_thermal_lock_sha256 a = None \<or> sa_guard_lock_sha256 a = None)) \<or>
     (sa_deadline_lock_sha256 a \<noteq> None \<and> sa_deadline_source a \<noteq> Some FROZEN_DEADLINE) \<or>
     (sa_thermal_target_c a \<noteq> None \<and> sa_thermal_lock_sha256 a = None)"

text \<open>The CPU lists, expanded once, checked and written back in normal form.\<close>

definition disjoint_cpus :: "int list \<Rightarrow> int list \<Rightarrow> bool" where
  "disjoint_cpus xs ys \<longleftrightarrow> set xs \<inter> set ys = {}"

definition assign_cpus :: "slack_args \<Rightarrow> slack_args res" where
  "assign_cpus a =
     (case (bnd (expand_cpu_list_slack (sa_critical_cpu a)) (\<lambda>critical.
            bnd (expand_cpu_list_slack (sa_pressure_cpus a)) (\<lambda>pressure.
            bnd (expand_cpu_list_slack (sa_mps_cpu a)) (\<lambda>mps.
            bnd (expand_cpu_list_slack (sa_telemetry_cpu a)) (\<lambda>telemetry.
              Inr (critical, pressure, mps, telemetry)))))) of
        Inl e \<Rightarrow> Inl (SystemExit ''invalid CPU assignment'')
      | Inr (critical, pressure, mps, telemetry) \<Rightarrow>
          if length critical \<noteq> 1 \<or> length mps \<noteq> 1 \<or> length telemetry \<noteq> 1 \<or>
             \<not> disjoint_cpus critical pressure \<or> \<not> disjoint_cpus critical mps \<or>
             \<not> disjoint_cpus critical telemetry \<or> \<not> disjoint_cpus pressure mps \<or>
             \<not> disjoint_cpus pressure telemetry \<or> \<not> disjoint_cpus mps telemetry
          then Inl (SystemExit ''all CPU assignments must be disjoint'')
          else
            bnd (format_cpu_list critical) (\<lambda>c. bnd (format_cpu_list pressure) (\<lambda>p.
            bnd (format_cpu_list mps) (\<lambda>m. bnd (format_cpu_list telemetry) (\<lambda>t.
              Inr (a\<lparr>sa_critical_cpu := c, sa_pressure_cpus := p, sa_mps_cpu := m,
                     sa_telemetry_cpu := t\<rparr>))))))"

definition validate_args :: "slack_args \<Rightarrow> guard_profile option \<Rightarrow> (slack_args \<times> string list) res" where
  "validate_args a0 guard_profile_ms =
     (if \<not> numbers_finite a0 then Inl (SystemExit ''numeric experiment arguments must be finite'')
      else
        bnd (assign_cpus a0) (\<lambda>a.
        let profile = (case guard_profile_ms of
              None \<Rightarrow> legacy_guard_profile (sa_language_guard_ms a) (sa_audio_guard_ms a)
            | Some p \<Rightarrow> p) in
        bnd (maximum_profiled_guard_ms profile) (\<lambda>bound.
          if bad_dimensions a \<or> bad_thermal a \<or> bad_guard a bound \<or> bad_locks a
          then Inl (SystemExit ''invalid experiment dimensions'')
          else
            let requested = split_on (CHR '','') (sa_policy_order a) in
            if requested = [] \<or> length requested \<noteq> length (remdups requested) \<or>
               \<not> set requested \<subseteq> set POLICIES
            then Inl (SystemExit ''policy-order must contain unique, known policies'')
            else Inr (a, requested))))"

section \<open>Guards of the fixed policies\<close>

lemma modality_max_covers:
  "modality_max profile place quota = Inr x \<Longrightarrow> mo \<in> set MODALITIES \<Longrightarrow>
   \<exists>v. guard_value_ms profile (worker place quota i mo) = Inr v"
proof -
  assume x: "modality_max profile place quota = Inr x" and mo: "mo \<in> set MODALITIES"
  have "guard_value_ms profile (worker place quota i mo) = guard_value_ms profile (worker place quota 0 mo)"
    unfolding guard_value_ms_def profile_lookup_def worker_sel by (rule refl)
  with x mo show ?thesis by (auto simp: modality_max_def bnd_eq_Inr MODALITIES_def)
qed

lemma calibrated_covered:
  assumes "maximum_profiled_guard_ms profile = Inr m" and "profile_doubles profile"
    and "q \<in> set RESIDENT_QUOTAS" and "calibrated_actions q as" and "a \<in> set as"
  shows "\<exists>v. guard_value_ms profile a = Inr v"
  using assms(3-5) maximum_profiled_bounds [OF assms(1,2)] modality_max_covers
  unfolding calibrated_actions_def by metis

lemma add_guard_not_Nil [simp]: "add_guard k v d \<noteq> []"
  using keys_add_guard [of k v d] by auto

lemma guard_totals_total:
  assumes "\<forall>a \<in> set as. \<exists>v. guard_value_ms profile a = Inr v" and "as \<noteq> []"
  shows "\<exists>d. guard_totals profile as = Inr d \<and> d \<noteq> []"
  using assms
proof (induction as rule: rev_induct)
  case (snoc a as)
  obtain v where v: "guard_value_ms profile a = Inr v" using snoc.prems by auto
  have "\<exists>d. guard_totals profile as = Inr d"
    using snoc by (cases "as = []") (auto simp: guard_totals_def)
  with v show ?case by (auto simp: guard_totals_def fold_res_append)
qed simp

lemma guard_for_total:
  assumes "\<forall>a \<in> set (actions p). \<exists>v. guard_value_ms profile a = Inr v"
  shows "\<exists>g. guard_for policy p profile None = Inr g"
proof -
  let ?as = "filter (\<lambda>a. placement a \<in> set (gated_placements policy)) (actions p)"
  show ?thesis
  proof (cases "?as = []")
    case False
    with guard_totals_total [of ?as profile] assms obtain d where d: "guard_totals profile ?as = Inr d" "d \<noteq> []"
      by auto
    then have "map snd d \<noteq> []" by simp
    then obtain v vs where "map snd d = v # vs" by (cases "map snd d") auto
    with False d(1) have "guard_for policy p profile None = Inr (foldl fmax v vs)" by (simp add: guard_for_def)
    then show ?thesis by blast
  qed (simp add: guard_for_def)
qed

definition FIXED_POLICIES :: "string set" where
  "FIXED_POLICIES = {''static-mig'', ''same-mig'', ''uncoordinated-borrow'', ''fixed-borrow'', ''fixed-full-gate''}"

lemma fixed_policies: "policy \<in> FIXED_POLICIES \<Longrightarrow> policy \<in> set POLICIES \<and> policy \<noteq> ''mig-governor''"
  by (auto simp: FIXED_POLICIES_def POLICIES_def)

text \<open>
  What the argument check promises about the guards of a run, and when it covers the borrowers: their
  quota is the calibrated 100, or the policy gates no placement, or a fixed guard overrides the profile.
\<close>

definition guard_budget :: "slack_args \<Rightarrow> guard_profile \<Rightarrow> settings \<Rightarrow> bool" where
  "guard_budget a profile c \<longleftrightarrow>
     scenario c \<in> {''independent'', ''dependent''} \<and> period_ms c = sa_period_ms a \<and>
     borrower_quota c = sa_borrower_quota a \<and> guard_override_ms c = sa_guard_override_ms a \<and>
     isfinite (sa_period_ms a) \<and> \<not> fle (sa_period_ms a) (Fin 0) \<and>
     (\<forall>g. sa_guard_override_ms a = Some g \<longrightarrow> isfinite g) \<and>
     (\<exists>m. maximum_profiled_guard_ms profile = Inr m \<and> \<not> bad_guard a m)"

definition borrowers_covered :: "slack_args \<Rightarrow> string \<Rightarrow> bool" where
  "borrowers_covered a policy \<longleftrightarrow>
     sa_borrower_quota a = 100 \<or> gated_placements policy = [] \<or> sa_guard_override_ms a \<noteq> None"

lemma offered_facts:
  assumes "name \<in> {''independent'', ''dependent''}"
  shows "\<exists>offered. offered_for_epoch (int n) name = Inr offered \<and> length offered \<le> 6 \<and>
    set offered \<subseteq> set MODALITIES"
proof -
  let ?t = "MULTIMODAL_SCENARIO_TRACE"
  have i: "py_index ?t (int n mod int (length ?t)) = Inr (?t ! (n mod length ?t))"
    if "n mod length ?t < length ?t" using py_index_nat [OF that] by (simp add: zmod_int)
  have m: "n mod length ?t < length ?t" by (rule mod_less_divisor) (simp add: MULTIMODAL_SCENARIO_TRACE_def)
  then have e: "offered_for_epoch (int n) name = Inr (?t ! (n mod length ?t))"
    using assms i unfolding offered_for_epoch_def scenario_trace_def by auto
  have "\<forall>offered \<in> set ?t. length offered \<le> 6 \<and> set offered \<subseteq> set MODALITIES"
    by (simp add: MULTIMODAL_SCENARIO_TRACE_def MODALITIES_def)
  with m nth_mem have "length (?t ! (n mod length ?t)) \<le> 6 \<and> set (?t ! (n mod length ?t)) \<subseteq> set MODALITIES"
    by blast
  with e show ?thesis by blast
qed

lemma fixed_guard:
  assumes policy: "policy \<in> FIXED_POLICIES" and ok: "guard_budget a profile c" and dbl: "profile_doubles profile"
    and offered: "set offered \<subseteq> set MODALITIES" and k: "k \<le> length offered" "k \<le> 6"
    and none: "guard_override_ms c = None"
    and gated: "gated_placements policy \<noteq> []" and quota: "borrower_quota c = 100"
    and p: "p = plan_of offered 100 100 (k - share_borrowers policy initial_feedback k) k"
  shows "\<exists>g. guard_for policy p profile None = Inr g \<and> flt g (period_ms c)"
proof -
  obtain m where m: "maximum_profiled_guard_ms profile = Inr m" "\<not> bad_guard a m"
    using ok by (auto simp: guard_budget_def)
  have q: "(100::int) \<in> set RESIDENT_QUOTAS" by (simp add: RESIDENT_QUOTAS_def)
  have cal: "calibrated_actions 100 (actions p)"
    unfolding p by (rule plan_of_calibrated [OF offered k(1) diff_le_self])
  obtain g where g: "guard_for policy p profile None = Inr g"
    using guard_for_total calibrated_covered [OF m(1) dbl q cal] by blast
  have "policy \<in> {''fixed-borrow'', ''fixed-full-gate''}"
    using gated policy unfolding FIXED_POLICIES_def gated_placements_def by (auto split: if_splits)
  then have "share_borrowers policy initial_feedback k = k div 2" by (auto simp: share_borrowers_def)
  with k(2) have "k - share_borrowers policy initial_feedback k \<le> 3"
    "k - (k - share_borrowers policy initial_feedback k) \<le> 3" by linarith+
  then have "\<forall>pl. length (filter (\<lambda>a. placement a = pl) (actions p)) \<le> 3" unfolding p by (rule plan_of_three)
  from guard_for_bound [OF m(1) dbl q cal this g] have "fle g m" .
  moreover have "sa_guard_override_ms a = None" "sa_period_ms a = period_ms c" "isfinite (period_ms c)"
    using none ok by (simp_all add: guard_budget_def)
  then have "\<not> fle (period_ms c) m" "isfinite (period_ms c)" using m(2) by (simp_all add: bad_guard_def)
  then have "flt m (period_ms c)"
    using maximum_profiled_nonneg [OF m(1) dbl]
    by (cases m; cases "period_ms c") (auto simp: isfinite_Fin fle_def feq_def)
  ultimately show ?thesis using g fle_flt_trans by blast
qed

lemma fixed_plan:
  assumes "policy \<in> FIXED_POLICIES"
  shows "plan_for policy offered initial_feedback bq =
    (let k = admitted_count offered initial_feedback
     in Inr (plan_of offered 100 bq (k - share_borrowers policy initial_feedback k) k))"
  using plan_for_inv [OF feedback_inv_initial, of policy offered bq] fixed_policies [OF assms]
  by (simp add: share_quota_def Let_def)

lemma fixed_prepare:
  assumes policy: "policy \<in> FIXED_POLICIES" and ok: "guard_budget a profile c" and dbl: "profile_doubles profile"
    and covered: "borrowers_covered a policy"
  shows "\<exists>pl g. prepare_epoch policy c profile (int n) initial_feedback = Inr (pl, g) \<and> flt g (period_ms c)"
proof -
  obtain offered where o: "offered_for_epoch (int n) (scenario c) = Inr offered" "length offered \<le> 6"
    "set offered \<subseteq> set MODALITIES"
    using offered_facts ok unfolding guard_budget_def by blast
  define k where "k = admitted_count offered initial_feedback"
  have k: "k \<le> length offered" "k \<le> 6" using o(2) by (simp_all add: k_def admitted_count_def)
  let ?p = "plan_of offered 100 (borrower_quota c) (k - share_borrowers policy initial_feedback k) k"
  have plan: "plan_for policy offered initial_feedback (borrower_quota c) = Inr ?p"
    using fixed_plan [OF policy] by (simp add: k_def Let_def)
  have same: "period_ms c = sa_period_ms a" "guard_override_ms c = sa_guard_override_ms a"
    "borrower_quota c = sa_borrower_quota a" "isfinite (period_ms c)" "\<not> fle (period_ms c) (Fin 0)"
    using ok by (simp_all add: guard_budget_def)
  then have zero: "flt (Fin 0) (period_ms c)" by (auto simp: not_flt [symmetric] isfinite_Fin)
  have "\<exists>g. guard_for policy ?p profile (guard_override_ms c) = Inr g \<and> flt g (period_ms c)"
  proof (cases "guard_override_ms c")
    case (Some g)
    then have "\<not> fle (period_ms c) g" "isfinite g"
      using ok same by (auto simp: bad_guard_def guard_budget_def)
    with same(4) have "flt g (period_ms c)" by (auto simp: not_flt [symmetric] isfinite_Fin)
    with Some zero show ?thesis by (auto simp: guard_for_def Let_def)
  next
    case None
    show ?thesis
    proof (cases "gated_placements policy = []")
      case True
      with zero show ?thesis by (simp add: guard_for_def)
    next
      case False
      with covered None same have "borrower_quota c = 100" by (simp add: borrowers_covered_def)
      with fixed_guard [OF policy ok dbl o(3) k None False this refl] None show ?thesis by simp
    qed
  qed
  then obtain g where g: "guard_for policy ?p profile (guard_override_ms c) = Inr g" "flt g (period_ms c)" by blast
  then have "\<not> fle (period_ms c) g" by (cases g; cases "period_ms c") (auto simp: fle_def feq_def)
  with o(1) plan g show ?thesis by (simp add: prepare_epoch_def)
qed

text \<open>
  Without that cover the first epoch already fails: it offers one audio and one language tenant, and the
  language tenant borrows.
\<close>

lemma uncovered_first_epoch:
  assumes policy: "policy \<in> FIXED_POLICIES" and ok: "guard_budget a profile c" and dbl: "profile_doubles profile"
    and none: "guard_override_ms c = None" and gated: "gated_placements policy \<noteq> []"
    and uncovered: "guard_value_ms profile (worker ''borrower-2g'' (borrower_quota c) 1 ''language'') = Inl e"
  shows "run_epochs policy c profile 0 (r # rs) initial_feedback = Inl e"
proof -
  obtain m where m: "maximum_profiled_guard_ms profile = Inr m" using ok by (auto simp: guard_budget_def)
  have "calibrated_actions 100 [worker ''resident-1g'' 100 0 ''audio'']"
    by (auto simp: calibrated_actions_def MODALITIES_def)
  then obtain v where v: "guard_value_ms profile (worker ''resident-1g'' 100 0 ''audio'') = Inr v"
    using calibrated_covered [OF m dbl] by (force simp: RESIDENT_QUOTAS_def)
  have o: "offered_for_epoch 0 (scenario c) = Inr [''audio'', ''language'']"
    using ok by (auto simp: guard_budget_def offered_for_epoch_def scenario_trace_def py_index_def
        MULTIMODAL_SCENARIO_TRACE_def)
  have p: "policy = ''fixed-borrow'' \<or> policy = ''fixed-full-gate''"
    using gated policy unfolding FIXED_POLICIES_def gated_placements_def by (auto split: if_splits)
  let ?p = "\<lparr>residents = [worker ''resident-1g'' 100 0 ''audio''],
    borrowers = [worker ''borrower-2g'' (borrower_quota c) 1 ''language'']\<rparr>"
  have plan: "plan_for policy [''audio'', ''language''] initial_feedback (borrower_quota c) = Inr ?p"
    using p by (auto simp: plan_eval initial_feedback_def)
  have "guard_for policy ?p profile None = Inl e"
    using p v uncovered
    by (auto simp: guard_for_def gated_placements_def guard_totals_def actions_def)
  with o plan none show ?thesis by (simp add: prepare_epoch_def)
qed

section \<open>What an accepted command line guarantees\<close>

lemma accepted_budget:
  assumes "validate_args a0 lock_profile = Inr (a, requested)"
  shows "\<exists>m. maximum_profiled_guard_ms (case lock_profile of
        None \<Rightarrow> legacy_guard_profile (sa_language_guard_ms a) (sa_audio_guard_ms a) | Some p \<Rightarrow> p) = Inr m \<and>
      \<not> bad_guard a m \<and> numbers_finite a \<and> \<not> fle (sa_period_ms a) (Fin 0)"
proof -
  have "numbers_finite a0" using assms by (simp add: validate_args_def split: if_splits)
  moreover obtain a1 where a1: "assign_cpus a0 = Inr a1"
    using assms by (auto simp: validate_args_def bnd_eq_Inr split: if_splits)
  moreover have "\<exists>c p m t. a1 = a0\<lparr>sa_critical_cpu := c, sa_pressure_cpus := p, sa_mps_cpu := m,
                     sa_telemetry_cpu := t\<rparr>"
    using a1 by (auto simp: assign_cpus_def bnd_eq_Inr split: sum.splits prod.splits if_splits)
  ultimately have "numbers_finite a1" by (auto simp: numbers_finite_def)
  with a1 assms show ?thesis
    by (auto simp: validate_args_def bnd_eq_Inr Let_def bad_dimensions_def split: if_splits)
qed

lemma conclude_fixed:
  assumes "policy \<noteq> ''mig-governor''" and "\<not> (telemetry_healthy r \<and> fle (thermal_hard_limit_c c) (safety_max_c r))"
  shows "\<exists>e. conclude_epoch policy c pl g r s = Inr e \<and> state_after e = s \<and> guard_ms e = g"
proof -
  have "\<exists>u. drain_utilization g r = Inr u"
    by (cases "drain_max_ms r"; cases g) (auto simp: drain_utilization_def)
  with assms show ?thesis by (auto simp: conclude_epoch_def controller_move_def Let_def)
qed

lemma fixed_run:
  assumes "policy \<in> FIXED_POLICIES" and "guard_budget a profile c" and "profile_doubles profile"
    and "borrowers_covered a policy"
    and "\<forall>r \<in> set rs. \<not> (telemetry_healthy r \<and> fle (thermal_hard_limit_c c) (safety_max_c r))"
  shows "\<exists>es. run_epochs policy c profile (int n) rs initial_feedback = Inr es \<and>
    (\<forall>e \<in> set es. flt (guard_ms e) (period_ms c))"
  using assms(5)
proof (induction rs arbitrary: n)
  case (Cons r rs)
  obtain pl g where prep: "prepare_epoch policy c profile (int n) initial_feedback = Inr (pl, g)"
    "flt g (period_ms c)"
    using fixed_prepare [OF assms(1-4)] by blast
  have "policy \<noteq> ''mig-governor''" using fixed_policies [OF assms(1)] by simp
  then obtain e where e: "conclude_epoch policy c pl g r initial_feedback = Inr e"
    "state_after e = initial_feedback" "guard_ms e = g"
    using conclude_fixed Cons.prems by (meson list.set_intros(1))
  obtain es where "run_epochs policy c profile (int (Suc n)) rs initial_feedback = Inr es"
    "\<forall>e \<in> set es. flt (guard_ms e) (period_ms c)"
    using Cons.IH [of "Suc n"] Cons.prems by auto
  with prep e show ?case by (simp add: add.commute)
qed simp

text \<open>
  C6: what accepted arguments promise to a run of one of the five policies \<open>static-mig\<close>, \<open>same-mig\<close>,
  \<open>uncoordinated-borrow\<close>, \<open>fixed-borrow\<close> and \<open>fixed-full-gate\<close>, when every epoch report is below the
  thermal hard limit. If the borrower quota is the calibrated 100, or the policy gates nothing (the first
  three), or the guard is overridden, every such sequence of reports is run to its end and every epoch's
  guard is shorter than the period, the float sums rounded. Otherwise, when the profile has no value
  for a language borrower at the accepted quota (the locked and the fallback profile have none at the
  default of 25), every run fails at its first epoch with the profile's error. Not covered are
  \<open>resident-full-gate\<close>, whose six added guards may round to more than the checked \<open>6 * r\<close>, and the
  governor, which has no such guarantee (\<open>quota_envelope_exceeded\<close>).
\<close>

theorem accepted_arguments_complete_runs:
  assumes "validate_args a0 lock_profile = Inr (a, requested)" and "policy \<in> FIXED_POLICIES"
    and "profile = (case lock_profile of
      None \<Rightarrow> legacy_guard_profile (sa_language_guard_ms a) (sa_audio_guard_ms a) | Some p \<Rightarrow> p)"
    and "profile_doubles profile"
    and "scenario c \<in> {''independent'', ''dependent''}" and "period_ms c = sa_period_ms a"
    and "borrower_quota c = sa_borrower_quota a" and "guard_override_ms c = sa_guard_override_ms a"
    and "\<forall>r \<in> set rs. \<not> (telemetry_healthy r \<and> fle (thermal_hard_limit_c c) (safety_max_c r))"
  shows "(sa_borrower_quota a = 100 \<or> gated_placements policy = [] \<or> sa_guard_override_ms a \<noteq> None \<longrightarrow>
      (\<exists>es. run_epochs policy c profile 0 rs initial_feedback = Inr es \<and> length es = length rs \<and>
        (\<forall>e \<in> set es. flt (guard_ms e) (period_ms c)))) \<and>
    (gated_placements policy \<noteq> [] \<and> sa_guard_override_ms a = None \<and> rs \<noteq> [] \<and>
      guard_value_ms profile (worker ''borrower-2g'' (sa_borrower_quota a) 1 ''language'') = Inl err \<longrightarrow>
      run_epochs policy c profile 0 rs initial_feedback = Inl err)"
proof -
  obtain m where m: "maximum_profiled_guard_ms profile = Inr m" "\<not> bad_guard a m" "numbers_finite a"
    "\<not> fle (sa_period_ms a) (Fin 0)"
    using accepted_budget [OF assms(1)] assms(3) by blast
  have "isfinite (sa_period_ms a)" "\<forall>g. sa_guard_override_ms a = Some g \<longrightarrow> isfinite g"
    using m(3) by (auto simp: numbers_finite_def)
  with m assms(5-8) have ok: "guard_budget a profile c" unfolding guard_budget_def by blast
  have "\<exists>es. run_epochs policy c profile 0 rs initial_feedback = Inr es \<and> length es = length rs \<and>
      (\<forall>e \<in> set es. flt (guard_ms e) (period_ms c))" if "borrowers_covered a policy"
    using fixed_run [OF assms(2) ok assms(4) that assms(9), of 0] run_epochs_length by fastforce
  moreover have "run_epochs policy c profile 0 rs initial_feedback = Inl err"
    if "gated_placements policy \<noteq> []" "sa_guard_override_ms a = None" "rs \<noteq> []"
      "guard_value_ms profile (worker ''borrower-2g'' (sa_borrower_quota a) 1 ''language'') = Inl err"
    using uncovered_first_epoch [OF assms(2) ok assms(4)] that assms(7,8) by (cases rs) simp_all
  ultimately show ?thesis unfolding borrowers_covered_def by blast
qed

lemma near_same [simp]: "near (Fin x) (Fin x)"
  by (simp add: near_def isclose_def)

definition example_args :: "int \<Rightarrow> slack_args" where
  "example_args quota =
     \<lparr>sa_epochs = 6, sa_samples = 800, sa_warmup = 100, sa_burst_size = 8, sa_calibration_repeats = 3,
      sa_borrower_quota = quota, sa_calibration_only = False, sa_critical_cpu = ''13'',
      sa_pressure_cpus = ''0-10'', sa_mps_cpu = ''11'', sa_telemetry_cpu = ''12'',
      sa_policy_order = ''static-mig,fixed-borrow'', sa_thermal_stability_sensor = ''soc012'',
      sa_thermal_safety_sensor = ''tj'', sa_deadline_source = None, sa_deadline_lock_sha256 = None,
      sa_thermal_lock_sha256 = None, sa_guard_lock_sha256 = None, sa_guard_lock = None,
      sa_telemetry_log = None, sa_period_ms = Fin 20, sa_slo_factor = Fin 2, sa_dmr_target = Fin (1 / 2),
      sa_readiness_timeout_seconds = Fin 60, sa_language_guard_ms = Fin 1, sa_audio_guard_ms = Fin 1,
      sa_pressure_rps_per_tenant = Fin 0, sa_thermal_tolerance_c = Fin 1, sa_thermal_window_seconds = Fin 180,
      sa_thermal_max_slope_c_per_minute = Fin 1, sa_thermal_timeout_seconds = Fin 900,
      sa_thermal_handoff_max_ms = Fin 500, sa_max_isolated_drift_fraction = Fin (1 / 2),
      sa_deadline_ms = None, sa_guard_override_ms = None, sa_thermal_pilot_seconds = None,
      sa_thermal_target_c = None, sa_thermal_hard_limit_c = None\<rparr>"

lemma example_cpus:
  "expand_cpu_list_slack ''13'' = Inr [13]" "expand_cpu_list_slack ''0-10'' = Inr [0, 1, 2, 3, 4, 5, 6, 7, 8, 9, 10]"
  "expand_cpu_list_slack ''11'' = Inr [11]" "expand_cpu_list_slack ''12'' = Inr [12]"
  "format_cpu_list [13] = Inr ''13''" "format_cpu_list [11] = Inr ''11''" "format_cpu_list [12] = Inr ''12''"
  "format_cpu_list [0, 1, 2, 3, 4, 5, 6, 7, 8, 9, 10] = Inr ''0-10''"
  by code_simp+

lemma example_assigned: "assign_cpus (example_args quota) = Inr (example_args quota)"
  by (simp add: assign_cpus_def example_args_def example_cpus disjoint_cpus_def)

lemma example_bound: "maximum_profiled_guard_ms (legacy_guard_profile (Fin 1) (Fin 1)) = Inr (Fin 6)"
  by (simp add: maximum_profiled_guard_ms_def modality_max_def guard_value_ms_def profile_lookup_def
      legacy_guard_profile_def Let_def worker_def RESIDENT_QUOTAS_def fle_def feq_def fmax_def fl_eval)

lemma example_requested: "split_on (CHR '','') ''static-mig,fixed-borrow'' = [''static-mig'', ''fixed-borrow'']"
  by code_simp

lemma example_accepted:
  assumes "0 < quota" and "quota \<le> 100"
  shows "validate_args (example_args quota) None =
    Inr (example_args quota, [''static-mig'', ''fixed-borrow''])"
proof -
  have "numbers_finite (example_args quota)" by (simp add: numbers_finite_def example_args_def)
  moreover have "\<not> bad_dimensions (example_args quota)"
    using assms by (simp add: bad_dimensions_def example_args_def some_le_def)
  moreover have "\<not> bad_thermal (example_args quota)"
    by (simp add: bad_thermal_def example_args_def some_le_def thermal_pilot_protocol_valid_def)
  moreover have "\<not> bad_guard (example_args quota) (Fin 6)" by (simp add: bad_guard_def example_args_def)
  moreover have "\<not> bad_locks (example_args quota)" by (simp add: bad_locks_def bad_digest_def example_args_def)
  moreover have "sa_language_guard_ms (example_args quota) = Fin 1" "sa_audio_guard_ms (example_args quota) = Fin 1"
    "sa_policy_order (example_args quota) = ''static-mig,fixed-borrow''"
    by (simp_all add: example_args_def)
  ultimately show ?thesis
    by (simp add: validate_args_def example_assigned example_bound example_requested Let_def POLICIES_def)
qed

theorem accepted_arguments_complete_runs_witness:
  "(\<exists>es. run_epochs ''fixed-borrow'' period_20ms (legacy_guard_profile (Fin 1) (Fin 1)) 0
      (replicate 100 (healthy_report 25 0)) initial_feedback = Inr es \<and> length es = 100 \<and>
    (\<forall>e \<in> set es. flt (guard_ms e) (Fin 20))) \<and>
   run_epochs ''fixed-borrow'' (period_20ms\<lparr>borrower_quota := 25\<rparr>) (legacy_guard_profile (Fin 1) (Fin 1)) 0
      (replicate 100 (healthy_report 25 0)) initial_feedback =
    Inl (ValueError ''guard profile does not cover the action'')"
proof -
  have dbl: "profile_doubles (legacy_guard_profile (Fin 1) (Fin 1))"
    using double_fl [of 1] fl_of_int [of 1]
    by (auto simp: profile_doubles_def profile_lookup_def legacy_guard_profile_def Let_def
        split: if_splits option.splits)
  have args: "sa_language_guard_ms (example_args q) = Fin 1" "sa_audio_guard_ms (example_args q) = Fin 1"
    "sa_borrower_quota (example_args q) = q" "sa_period_ms (example_args q) = Fin 20"
    "sa_guard_override_ms (example_args q) = None" for q
    by (simp_all add: example_args_def)
  have "guard_value_ms (legacy_guard_profile (Fin 1) (Fin 1)) (worker ''borrower-2g'' 25 1 ''language'') =
      Inl (ValueError ''guard profile does not cover the action'')"
    by (simp add: guard_value_ms_def profile_lookup_def legacy_guard_profile_def Let_def worker_def)
  then show ?thesis
    using accepted_arguments_complete_runs [OF example_accepted [of 100], of "''fixed-borrow''"
        "legacy_guard_profile (Fin 1) (Fin 1)" period_20ms "replicate 100 (healthy_report 25 0)"]
      accepted_arguments_complete_runs [OF example_accepted [of 25], of "''fixed-borrow''"
        "legacy_guard_profile (Fin 1) (Fin 1)" "period_20ms\<lparr>borrower_quota := 25\<rparr>"
        "replicate 100 (healthy_report 25 0)" "ValueError ''guard profile does not cover the action''"]
      dbl args by (simp add: FIXED_POLICIES_def period_20ms_def healthy_report_def gated_placements_def)
qed

section \<open>Dedicated CPUs\<close>

lemma expand_cpu_list_facts:
  assumes "expand_cpu_list_slack s = Inr cpus"
  shows "cpus \<noteq> []" "distinct cpus" "\<forall>cpu \<in> set cpus. 0 \<le> cpu"
proof -
  have "length cpus = length (remdups cpus)" and c: "cpus \<noteq> []" "\<forall>cpu \<in> set cpus. 0 \<le> cpu"
    using assms by (auto simp: expand_cpu_list_slack_def bnd_eq_Inr Let_def not_less split: if_splits)
  then show "distinct cpus" by (metis card_distinct length_remdups_card_conv)
  from c show "cpus \<noteq> []" "\<forall>cpu \<in> set cpus. 0 \<le> cpu" by simp_all
qed

lemma reformat_cpus:
  assumes "expand_cpu_list_slack s = Inr cpus" and "format_cpu_list cpus = Inr text"
  shows "expand_cpu_list_slack text = Inr (sort cpus)"
  using expand_format_roundtrip [of cpus] expand_cpu_list_facts [OF assms(1)] assms(2)
  by (auto simp: negative_cpu_check_redundant)

text \<open>
  An accepted command line gives the critical task, MPS and the telemetry reader one CPU each, and no
  CPU is shared: the stored texts expand to single CPUs and to a sorted list for the pressure workers,
  pairwise disjoint. The stored form is normal: checking it again changes nothing.
\<close>

lemma accepted_cpus_are_dedicated:
  assumes "validate_args a0 lock_profile = Inr (a, requested)"
  shows "\<exists>c m t ps. expand_cpu_list_slack (sa_critical_cpu a) = Inr [c] \<and>
    expand_cpu_list_slack (sa_mps_cpu a) = Inr [m] \<and> expand_cpu_list_slack (sa_telemetry_cpu a) = Inr [t] \<and>
    expand_cpu_list_slack (sa_pressure_cpus a) = Inr ps \<and> sorted ps \<and> distinct (c # m # t # ps) \<and>
    assign_cpus a = Inr a"
proof -
  have "assign_cpus a0 = Inr a" using assms by (auto simp: validate_args_def bnd_eq_Inr Let_def split: if_splits)
  then obtain cs ps ms ts where e: "expand_cpu_list_slack (sa_critical_cpu a0) = Inr cs"
      "expand_cpu_list_slack (sa_pressure_cpus a0) = Inr ps" "expand_cpu_list_slack (sa_mps_cpu a0) = Inr ms"
      "expand_cpu_list_slack (sa_telemetry_cpu a0) = Inr ts"
    and len: "length cs = 1" "length ms = 1" "length ts = 1"
    and dis: "set cs \<inter> set ps = {}" "set cs \<inter> set ms = {}" "set cs \<inter> set ts = {}"
      "set ps \<inter> set ms = {}" "set ps \<inter> set ts = {}" "set ms \<inter> set ts = {}"
    and "\<exists>c p m t. format_cpu_list cs = Inr c \<and> format_cpu_list ps = Inr p \<and> format_cpu_list ms = Inr m \<and>
      format_cpu_list ts = Inr t \<and> a = a0\<lparr>sa_critical_cpu := c, sa_pressure_cpus := p, sa_mps_cpu := m,
                     sa_telemetry_cpu := t\<rparr>"
    by (auto simp: assign_cpus_def bnd_eq_Inr disjoint_cpus_def split: sum.splits prod.splits if_splits)
  then obtain c p m t where f: "format_cpu_list cs = Inr c" "format_cpu_list ps = Inr p"
      "format_cpu_list ms = Inr m" "format_cpu_list ts = Inr t"
    and a: "a = a0\<lparr>sa_critical_cpu := c, sa_pressure_cpus := p, sa_mps_cpu := m, sa_telemetry_cpu := t\<rparr>"
    by blast
  obtain x y z where xyz: "cs = [x]" "ms = [y]" "ts = [z]"
    using len by (auto simp: length_Suc_conv)
  note r = reformat_cpus [OF e(1) f(1)] reformat_cpus [OF e(2) f(2)] reformat_cpus [OF e(3) f(3)]
    reformat_cpus [OF e(4) f(4)]
  have sf: "format_cpu_list (sort ps) = Inr p" using f(2) by (simp add: format_cpu_list_def sorted_sort_id)
  have "assign_cpus a = Inr a"
    using r f sf dis by (simp add: a assign_cpus_def xyz disjoint_cpus_def)
  moreover have "distinct (x # y # z # sort ps)"
    using dis expand_cpu_list_facts(2) [OF e(2)] by (auto simp: xyz)
  ultimately show ?thesis
    using r by (intro exI [of _ x] exI [of _ y] exI [of _ z] exI [of _ "sort ps"]) (simp add: a xyz)
qed

lemma accepted_cpus_are_dedicated_witness:
  "\<exists>c m t ps. expand_cpu_list_slack ''13'' = Inr [c] \<and> expand_cpu_list_slack ''11'' = Inr [m] \<and>
    expand_cpu_list_slack ''12'' = Inr [t] \<and> expand_cpu_list_slack ''0-10'' = Inr ps \<and>
    distinct (c # m # t # ps)"
proof -
  have "sa_critical_cpu (example_args 100) = ''13''" "sa_mps_cpu (example_args 100) = ''11''"
    "sa_telemetry_cpu (example_args 100) = ''12''" "sa_pressure_cpus (example_args 100) = ''0-10''"
    by (simp_all add: example_args_def)
  moreover have "validate_args (example_args 100) None = Inr (example_args 100, [''static-mig'', ''fixed-borrow''])"
    by (rule example_accepted) simp_all
  ultimately show ?thesis using accepted_cpus_are_dedicated by metis
qed

end
