(* ===== verification/SlackWorkers.thy ===== *)
theory SlackWorkers
  imports SlackGovernor PyValue CpuList
begin

text \<open>
  The pressure workers of \<open>runtime/mig_slack_governor.py\<close>: the pipes between dependent tenants
  (\<open>dependency_pipes_for_plan\<close>), what a worker is started with (\<open>start_workers\<close>), the shutdown and the
  validation of the results (\<open>stop_workers\<close>, \<open>validate_worker_result\<close>), the critical benchmark's
  provenance (\<open>validate_critical_result\<close>) and the accounting of completed requests. A process is what
  its parent observes of it; opening a pipe is an operation of the environment.
\<close>

section \<open>Dependency pipes\<close>

record dependency_pipe =
  upstream_tenant_id :: int
  downstream_tenant_id :: int
  read_fd :: int
  write_fd :: int

definition action_of_tenant :: "worker_action list \<Rightarrow> int \<Rightarrow> worker_action option" where
  "action_of_tenant as t = map_of (rev (map (\<lambda>a. (tenant_id a, a)) as)) t"

text \<open>The tenant an action waits for: the audio stage with the preceding number.\<close>

definition upstream_of :: "worker_action list \<Rightarrow> worker_action \<Rightarrow> worker_action option" where
  "upstream_of as a =
     (if modality a \<noteq> ''language'' \<or> tenant_id a \<le> 0 then None
      else case action_of_tenant as (tenant_id a - 1) of
          None \<Rightarrow> None
        | Some u \<Rightarrow> if modality u \<noteq> ''audio'' then None else Some u)"

text \<open>
  The loop over the actions. \<open>open_pipe\<close> answers the calls of \<open>os.pipe\<close> in order; when one fails, both ends
  of every pipe opened so far are shut and the exception is raised again.
\<close>

fun open_pipes ::
  "worker_action list \<Rightarrow> (int \<times> int) res list \<Rightarrow> worker_action list \<Rightarrow> dependency_pipe list \<Rightarrow>
   dependency_pipe list res \<times> int list"
where
  "open_pipes as answers [] pipes = (Inr pipes, [])"
| "open_pipes as answers (a # rest) pipes =
     (case upstream_of as a of
        None \<Rightarrow> open_pipes as answers rest pipes
      | Some u \<Rightarrow>
          (case answers of
             [] \<Rightarrow> (Inl (OSError ''pipe''), concat (map (\<lambda>p. [read_fd p, write_fd p]) pipes))
           | Inl e # _ \<Rightarrow> (Inl e, concat (map (\<lambda>p. [read_fd p, write_fd p]) pipes))
           | Inr (r, w) # later \<Rightarrow>
               open_pipes as later rest
                 (pipes @ [\<lparr>upstream_tenant_id = tenant_id u, downstream_tenant_id = tenant_id a,
                            read_fd = r, write_fd = w\<rparr>])))"

definition dependency_pipes_for_plan ::
  "placement_plan \<Rightarrow> string \<Rightarrow> (int \<times> int) res list \<Rightarrow> dependency_pipe list res \<times> int list" where
  "dependency_pipes_for_plan p name answers =
     (if name \<noteq> ''dependent'' then (Inr [], [])
      else open_pipes (actions p) answers (actions p) [])"

text \<open>\<open>close_dependency_pipes\<close>: the descriptors it closes; a failure to close one is ignored.\<close>

definition close_dependency_pipes :: "dependency_pipe list \<Rightarrow> int list" where
  "close_dependency_pipes pipes = concat (map (\<lambda>p. [read_fd p, write_fd p]) pipes)"

section \<open>Starting the workers\<close>

record mig_env =
  small_uuid :: string
  big_uuid :: string
  small_pipe :: string
  small_log :: string
  big_pipe :: string
  big_log :: string

record worker_start =
  ws_action :: worker_action
  ws_cpu :: int
  ws_device :: string
  ws_mps_pipe :: string
  ws_mps_log :: string
  ws_thread_percentage :: string
  ws_wait_fd :: "int option"
  ws_signal_fd :: "int option"
  ws_warmup :: int
  ws_period_ms :: pyfloat

text \<open>A dictionary comprehension keeps the last pipe of a tenant.\<close>

definition wait_fd_of :: "dependency_pipe list \<Rightarrow> int \<Rightarrow> int option" where
  "wait_fd_of pipes t = map_of (rev (map (\<lambda>p. (downstream_tenant_id p, read_fd p)) pipes)) t"

definition signal_fd_of :: "dependency_pipe list \<Rightarrow> int \<Rightarrow> int option" where
  "signal_fd_of pipes t = map_of (rev (map (\<lambda>p. (upstream_tenant_id p, write_fd p)) pipes)) t"

definition worker_period_ms :: "pyfloat \<Rightarrow> pyfloat res" where
  "worker_period_ms rps = (if feq rps (Fin 0) then Inr (Fin 0) else fdiv (Fin 1000) rps)"

definition worker_start_of ::
  "mig_env \<Rightarrow> int list \<Rightarrow> int \<Rightarrow> pyfloat \<Rightarrow> dependency_pipe list \<Rightarrow> nat \<times> worker_action \<Rightarrow> worker_start res" where
  "worker_start_of mig cpus warmup rps pipes = (\<lambda>(i, a).
     let resident = placement a = ''resident-1g'' in
     bnd (py_index cpus (int (i mod length cpus))) (\<lambda>cpu.
     bnd (worker_period_ms rps) (\<lambda>period.
       Inr \<lparr>ws_action = a, ws_cpu = cpu,
            ws_device = (if resident then small_uuid mig else big_uuid mig),
            ws_mps_pipe = (if resident then small_pipe mig else big_pipe mig),
            ws_mps_log = (if resident then small_log mig else big_log mig),
            ws_thread_percentage = str_of_int (quota_percent a),
            ws_wait_fd = wait_fd_of pipes (tenant_id a), ws_signal_fd = signal_fd_of pipes (tenant_id a),
            ws_warmup = warmup, ws_period_ms = period\<rparr>)))"

definition start_workers ::
  "placement_plan \<Rightarrow> mig_env \<Rightarrow> string \<Rightarrow> int \<Rightarrow> pyfloat \<Rightarrow> dependency_pipe list \<Rightarrow> worker_start list res" where
  "start_workers p mig pressure_cpus warmup rps pipes =
     bnd (expand_cpu_list_slack pressure_cpus) (\<lambda>cpus.
       map_res (worker_start_of mig cpus warmup rps pipes) (enumerate 0 (actions p)))"

section \<open>What a worker reports\<close>

definition model_of_modality :: "string \<Rightarrow> string res" where
  "model_of_modality m =
     (if m = ''language'' then Inr ''distilbert-sst2''
      else if m = ''audio'' then Inr ''whisper-tiny-encoder'' else Inl (KeyError m))"

text \<open>The width MPS grants: two-SM granules, rounded down, at least one granule.\<close>

definition granted_sms :: "string \<Rightarrow> int \<Rightarrow> int" where
  "granted_sms place quota =
     (let physical = (if place = ''resident-1g'' then 8 else 12); requested = physical * quota div 100
      in max 2 (requested div 2 * 2))"

definition gpu_name :: "string \<Rightarrow> string" where
  "gpu_name place = (if place = ''resident-1g'' then ''NVIDIA Thor MIG 1g.0gb'' else ''NVIDIA Thor MIG 2g.0gb'')"

text \<open>
  A running worker and what \<open>poll\<close>, \<open>send_signal\<close> and \<open>communicate\<close> answer. An output is text that
  \<open>json.loads\<close> parses or rejects with a \<open>JSONDecodeError\<close>; bytes that are no text and integers beyond
  the interpreter's limit on digits, which raise other exceptions, are not represented.
\<close>

datatype delivery = Delivered | NoProcess | NotDelivered

datatype printed = InvalidJson | Json pyval

datatype waited = WaitTimedOut | WaitExited int printed

record running_worker =
  rw_action :: worker_action
  rw_pid :: int
  rw_cpu :: int
  rw_device :: string
  rw_warmup :: int
  rw_period_ms :: pyfloat
  rw_running :: bool
  rw_delivery :: delivery
  rw_wait :: waited

definition fits :: "pyval \<Rightarrow> (string \<times> pyval) list \<Rightarrow> bool" where
  "fits v wanted \<longleftrightarrow>
     (case v of VDict d \<Rightarrow> list_all (\<lambda>(k, x). py_eq (dget d k) x) wanted | _ \<Rightarrow> False)"

definition worker_environment :: "running_worker \<Rightarrow> (string \<times> pyval) list" where
  "worker_environment w =
     [(''pid'', VInt (rw_pid w)), (''cuda_visible_devices'', VStr (rw_device w)),
      (''mps_active_thread_percentage'', VInt (quota_percent (rw_action w))),
      (''cpu_affinity'', VList [VInt (rw_cpu w)])]"

definition worker_gpu :: "running_worker \<Rightarrow> (string \<times> pyval) list" where
  "worker_gpu w =
     [(''name'', VStr (gpu_name (placement (rw_action w)))),
      (''multiprocessors'', VInt (granted_sms (placement (rw_action w)) (quota_percent (rw_action w))))]"

definition nine_digits :: pyfloat where
  "nine_digits = fl (1 / 10 ^ 9)"

definition validate_worker_config :: "pyval \<Rightarrow> running_worker \<Rightarrow> unit res" where
  "validate_worker_config v w =
     (let wrong = Inl (ValueError ''worker reported a different benchmark configuration'') in
      case v of
        VDict c \<Rightarrow>
          if \<not> py_eq (dget c ''warmup'') (VInt (rw_warmup w)) \<or>
             \<not> py_eq (dget c ''duration_seconds'') (VInt 3600) \<or> dget c ''include_transfers'' \<noteq> VBool True \<or>
             dget c ''priority'' \<noteq> VStr (if placement (rw_action w) = ''resident-1g'' then ''default'' else ''low'') \<or>
             dget c ''start_paused'' \<noteq> VBool True \<or> \<not> py_eq (dget c ''burst_size'') (VInt 1)
          then wrong
          else
            bnd (to_float (dget_default c ''period_ms'' (VFloat (Fin (- 1))))) (\<lambda>period.
              if \<not> isclose period (rw_period_ms w) nine_digits nine_digits \<or>
                 \<not> py_eq (dget c ''deadline_ms'') (VInt 0) \<or> \<not> py_eq (dget c ''guard_ms'') (VInt 0) \<or>
                 \<not> py_eq (dget c ''gated_processes'') (VInt 0) \<or> \<not> py_eq (dget c ''stopped_processes'') (VInt 0) \<or>
                 dget c ''gate_mode'' \<noteq> VStr ''stop'' \<or> \<not> py_eq (dget c ''stream_priority_value'') (VInt 0)
              then wrong else Inr ())
      | _ \<Rightarrow> wrong)"

definition validate_worker_result :: "pyval \<Rightarrow> running_worker \<Rightarrow> unit res" where
  "validate_worker_result result w =
     bnd (vget result ''schema_version'') (\<lambda>schema.
       if \<not> py_eq schema (VInt 1) then Inl (ValueError ''worker returned an unsupported schema'')
       else
         bnd (vget result ''execution_environment'') (\<lambda>environment. bnd (vget result ''gpu'') (\<lambda>gpu.
         bnd (vget result ''config'') (\<lambda>config.
         bnd (model_of_modality (modality (rw_action w))) (\<lambda>model.
           if \<not> fits environment (worker_environment w)
           then Inl (ValueError ''worker reported a different execution environment'')
           else if \<not> fits gpu (worker_gpu w)
           then Inl (ValueError ''worker reported a different MIG execution width'')
           else
             bnd (vget result ''role'') (\<lambda>role. bnd (vget result ''model'') (\<lambda>m.
               if role \<noteq> VStr ''pressure'' \<or> m \<noteq> VStr model
               then Inl (ValueError ''worker reported a different benchmark configuration'')
               else validate_worker_config config w)))))))"

section \<open>The critical benchmark's result\<close>

record critical_args =
  ca_engine :: string
  ca_samples :: int
  ca_warmup :: int
  ca_burst_size :: int
  ca_critical_cpu :: string
  ca_period_ms :: pyfloat

record critical_run =
  cr_pid :: "int option"
  cr_uuid :: string
  cr_deadline_ms :: pyfloat
  cr_gated_processes :: int
  cr_stopped_processes :: int
  cr_guard_ms :: pyfloat
  cr_start_paused :: bool

definition critical_settings :: "critical_args \<Rightarrow> critical_run \<Rightarrow> (string \<times> pyval) list" where
  "critical_settings a r =
     [(''warmup'', VInt (ca_warmup a)), (''burst_size'', VInt (ca_burst_size a)),
      (''gated_processes'', VInt (cr_gated_processes r)), (''stopped_processes'', VInt (cr_stopped_processes r)),
      (''gate_mode'', VStr (if cr_gated_processes r \<noteq> 0 then ''cooperative'' else ''stop'')),
      (''start_paused'', VBool (cr_start_paused r)), (''include_transfers'', VBool True),
      (''priority'', VStr ''high''), (''stream_priority_value'', VInt (- 5))]"

text \<open>\<open>any\<close> over the measured settings stops at the first one that is not close.\<close>

fun any_not_close :: "pydict \<Rightarrow> (string \<times> pyfloat) list \<Rightarrow> bool res" where
  "any_not_close c [] = Inr False"
| "any_not_close c ((k, x) # rest) =
     bnd (to_float (dget_default c k (VFloat NaN))) (\<lambda>v.
       if \<not> isclose v x (Fin 0) nine_digits then Inr True else any_not_close c rest)"

definition validate_critical_result :: "pyval \<Rightarrow> critical_args \<Rightarrow> critical_run \<Rightarrow> unit res" where
  "validate_critical_result result a r =
     (case result of
        VDict d \<Rightarrow>
          if \<not> fits result [(''schema_version'', VInt 1), (''role'', VStr ''benchmark''), (''model'', VStr ''resnet50-v2''),
               (''engine'', VStr (ca_engine a)), (''completed_requests'', VInt (ca_samples a))]
          then Inl (RuntimeError ''critical benchmark returned different workload provenance'')
          else if \<not> fits (dget d ''execution_environment'')
               ((case cr_pid r of None \<Rightarrow> [] | Some pid \<Rightarrow> [(''pid'', VInt pid)]) @
                [(''cuda_visible_devices'', VStr (cr_uuid r)), (''mps_active_thread_percentage'', VInt 100)])
          then Inl (RuntimeError ''critical benchmark returned a different execution environment'')
          else
            bnd (expand_cpu_list_slack (ca_critical_cpu a)) (\<lambda>cpus.
            if \<not> fits (dget d ''execution_environment'') [(''cpu_affinity'', VList (map VInt cpus))]
            then Inl (RuntimeError ''critical benchmark returned a different execution environment'')
            else if \<not> fits (dget d ''gpu'') [(''name'', VStr ''NVIDIA Thor MIG 2g.0gb''), (''multiprocessors'', VInt 12)]
            then Inl (RuntimeError ''critical benchmark returned a different MIG execution width'')
            else if \<not> fits (dget d ''config'') (critical_settings a r)
            then Inl (RuntimeError ''critical benchmark returned a different run configuration'')
            else case dget d ''config'' of
              VDict c \<Rightarrow>
                bnd (any_not_close c [(''period_ms'', ca_period_ms a), (''deadline_ms'', cr_deadline_ms r),
                       (''duration_seconds'', Fin 0), (''guard_ms'', cr_guard_ms r)]) (\<lambda>different.
                  if different then Inl (RuntimeError ''critical benchmark returned a different run configuration'')
                  else Inr ())
            | _ \<Rightarrow> Inl (RuntimeError ''critical benchmark returned a different run configuration''))
      | _ \<Rightarrow> Inl AttributeError)"

section \<open>Stopping the workers\<close>

text \<open>\<open>result.update(dataclasses.asdict(action))\<close>: an existing key keeps its place.\<close>

definition action_fields :: "worker_action \<Rightarrow> pydict" where
  "action_fields a =
     [(''tenant_id'', VInt (tenant_id a)), (''modality'', VStr (modality a)),
      (''placement'', VStr (placement a)), (''quota_percent'', VInt (quota_percent a))]"

definition tag_result :: "worker_action \<Rightarrow> pydict \<Rightarrow> pydict" where
  "tag_result a d = fold (\<lambda>(k, v). dset k v) (action_fields a) d"

definition expected_wait :: "dependency_pipe list \<Rightarrow> worker_action \<Rightarrow> bool" where
  "expected_wait pipes a = list_ex (\<lambda>p. downstream_tenant_id p = tenant_id a) pipes"

definition expected_signal :: "dependency_pipe list \<Rightarrow> worker_action \<Rightarrow> bool" where
  "expected_signal pipes a = list_ex (\<lambda>p. upstream_tenant_id p = tenant_id a) pipes"

definition dependency_evidence_ok :: "dependency_pipe list \<Rightarrow> worker_action \<Rightarrow> pydict \<Rightarrow> bool" where
  "dependency_evidence_ok pipes a config \<longleftrightarrow>
     \<not> ((pipes \<noteq> [] \<or> ''dependency_wait_enabled'' \<in> dkeys config \<or> ''dependency_signal_enabled'' \<in> dkeys config) \<and>
        (dget config ''dependency_wait_enabled'' \<noteq> VBool (expected_wait pipes a) \<or>
         dget config ''dependency_signal_enabled'' \<noteq> VBool (expected_signal pipes a)))"

definition checked_output :: "dependency_pipe list \<Rightarrow> running_worker \<Rightarrow> pyval \<Rightarrow> pydict res" where
  "checked_output pipes w v =
     bnd (validate_worker_result v w) (\<lambda>_.
       case v of
         VDict d \<Rightarrow>
           (case dget_default d ''config'' (VDict []) of
              VDict config \<Rightarrow>
                if dependency_evidence_ok pipes (rw_action w) config then Inr (tag_result (rw_action w) d)
                else Inl (ValueError ''dependency evidence does not match the workload scenario'')
            | _ \<Rightarrow> Inl TypeError)
       | _ \<Rightarrow> Inl AttributeError)"

datatype stop_error =
    SignalError worker_action
  | TimedOutError worker_action
  | StatusError worker_action int
  | JsonError worker_action
  | ProvenanceError worker_action pyerr

record stop_log =
  communicated :: "running_worker list"
  killed :: "running_worker list"
  stop_errors :: "stop_error list"
  stop_outputs :: "pydict list"

text \<open>
  One worker. Only \<open>TypeError\<close> and \<open>ValueError\<close> are turned into an entry of the error list; any other
  exception leaves the function.
\<close>

definition stop_one :: "dependency_pipe list \<Rightarrow> running_worker \<Rightarrow> stop_log \<Rightarrow> stop_log res" where
  "stop_one pipes w lg0 =
     (let a = rw_action w; lg = lg0\<lparr>communicated := communicated lg0 @ [w]\<rparr>;
          note_error = (\<lambda>e. lg\<lparr>stop_errors := stop_errors lg @ [e]\<rparr>) in
      case rw_wait w of
        WaitTimedOut \<Rightarrow> Inr ((note_error (TimedOutError a))\<lparr>killed := killed lg @ [w]\<rparr>)
      | WaitExited status out \<Rightarrow>
          if status \<noteq> 0 then Inr (note_error (StatusError a status))
          else case out of
            InvalidJson \<Rightarrow> Inr (note_error (JsonError a))
          | Json v \<Rightarrow>
              (case checked_output pipes w v of
                 Inr d \<Rightarrow> Inr (lg\<lparr>stop_outputs := stop_outputs lg @ [d]\<rparr>)
               | Inl TypeError \<Rightarrow> Inr (note_error (ProvenanceError a TypeError))
               | Inl (ValueError m) \<Rightarrow> Inr (note_error (ProvenanceError a (ValueError m)))
               | Inl e \<Rightarrow> Inl e))"

text \<open>The loop, with the log it has reached when an exception escapes.\<close>

fun stop_loop :: "dependency_pipe list \<Rightarrow> running_worker list \<Rightarrow> stop_log \<Rightarrow> stop_log \<times> pyerr option" where
  "stop_loop pipes [] lg = (lg, None)"
| "stop_loop pipes (w # ws) lg =
     (case stop_one pipes w lg of
        Inl e \<Rightarrow> (lg\<lparr>communicated := communicated lg @ [w]\<rparr>, Some e)
      | Inr lg' \<Rightarrow> stop_loop pipes ws lg')"

definition signal_errors :: "running_worker list \<Rightarrow> stop_error list" where
  "signal_errors ws =
     map (SignalError \<circ> rw_action) (filter (\<lambda>w. rw_running w \<and> rw_delivery w = NotDelivered) ws)"

definition stop_workers ::
  "running_worker list \<Rightarrow> bool \<Rightarrow> dependency_pipe list \<Rightarrow> stop_log \<times> pydict list res" where
  "stop_workers ws tolerate_failure pipes =
     (case stop_loop pipes ws \<lparr>communicated = [], killed = [], stop_errors = signal_errors ws, stop_outputs = []\<rparr> of
        (lg, Some e) \<Rightarrow> (lg, Inl e)
      | (lg, None) \<Rightarrow>
          (lg, if stop_errors lg \<noteq> [] \<and> \<not> tolerate_failure then Inl (RuntimeError ''worker errors'')
                else Inr (stop_outputs lg)))"

section \<open>Counting the work\<close>

definition completed_requests :: "pydict \<Rightarrow> int res" where
  "completed_requests d = bnd (dindex d ''completed_requests'') to_pyint"

definition completed_by :: "pydict list \<Rightarrow> string \<Rightarrow> string \<Rightarrow> int res" where
  "completed_by results key x =
     fold_res (\<lambda>d n. bnd (dindex d key) (\<lambda>v.
       if py_eq v (VStr x) then bnd (completed_requests d) (\<lambda>c. Inr (n + c)) else Inr n)) results 0"

definition completed_by_tenant :: "pydict list \<Rightarrow> int \<Rightarrow> int res" where
  "completed_by_tenant results t =
     fold_res (\<lambda>d n. bnd (bnd (dindex d ''tenant_id'') to_pyint) (\<lambda>v.
       if v = t then bnd (completed_requests d) (\<lambda>c. Inr (n + c)) else Inr n)) results 0"

definition worker_rate :: "pydict \<Rightarrow> pyfloat res" where
  "worker_rate d =
     bnd (dindex d ''elapsed_seconds'') (\<lambda>v. bnd (to_float v) (\<lambda>elapsed.
       if fle elapsed (Fin 0) then Inl (ValueError ''worker reported a non-positive measurement window'')
       else bnd (completed_requests d) (\<lambda>n. bnd (float_of_int n) (\<lambda>x. fdiv x elapsed))))"

definition rate_by :: "pydict list \<Rightarrow> string \<Rightarrow> string \<Rightarrow> pyfloat res" where
  "rate_by results key x =
     fold_res (\<lambda>d s. bnd (dindex d key) (\<lambda>v.
       if py_eq v (VStr x) then bnd (worker_rate d) (\<lambda>r. Inr (fadd s r)) else Inr s)) results (Fin 0)"

text \<open>The mean rate over the epochs, weighted by their length.\<close>

definition weighted_sum :: "pydict list \<Rightarrow> string \<Rightarrow> pyfloat res" where
  "weighted_sum epochs key =
     fold_res (\<lambda>e s. bnd (dindex e key) (\<lambda>v. bnd (to_float v) (\<lambda>x.
       bnd (dindex e ''measurement_seconds'') (\<lambda>m. bnd (to_float m) (\<lambda>y. Inr (fadd s (fmul x y))))))) epochs (Fin 0)"

definition total_seconds :: "pydict list \<Rightarrow> pyfloat res" where
  "total_seconds epochs =
     fold_res (\<lambda>e s. bnd (dindex e ''measurement_seconds'') (\<lambda>m. bnd (to_float m) (\<lambda>y. Inr (fadd s y)))) epochs (Fin 0)"

definition time_weighted_epoch_rate :: "pydict list \<Rightarrow> string \<Rightarrow> pyfloat res" where
  "time_weighted_epoch_rate epochs key =
     bnd (total_seconds epochs) (\<lambda>total.
       if fle total (Fin 0) then Inl (ValueError ''epochs reported a non-positive measurement window'')
       else bnd (weighted_sum epochs key) (\<lambda>s. fdiv s total))"

text \<open>The work of one epoch, as \<open>run_policy\<close> reports it.\<close>

record epoch_work =
  resident_completed :: int
  borrower_completed :: int
  completed_language :: int
  completed_audio :: int
  completed_tenants :: "(int \<times> int) list"

definition epoch_work_of :: "placement_plan \<Rightarrow> pydict list \<Rightarrow> epoch_work res" where
  "epoch_work_of p results =
     bnd (completed_by results ''placement'' ''resident-1g'') (\<lambda>r.
     bnd (completed_by results ''placement'' ''borrower-2g'') (\<lambda>b.
     bnd (completed_by results ''modality'' ''language'') (\<lambda>l.
     bnd (completed_by results ''modality'' ''audio'') (\<lambda>a.
     bnd (map_res (\<lambda>t. bnd (completed_by_tenant results t) (\<lambda>n. Inr (t, n)))
            [0..int (length (residents p) + length (borrowers p)) - 1]) (\<lambda>ts.
       Inr \<lparr>resident_completed = r, borrower_completed = b, completed_language = l, completed_audio = a,
            completed_tenants = ts\<rparr>)))))"

section \<open>Pipes as edges\<close>

definition edge_of :: "dependency_pipe \<Rightarrow> int \<times> int" where
  "edge_of p = (upstream_tenant_id p, downstream_tenant_id p)"

definition pipe_fds :: "dependency_pipe \<Rightarrow> int \<times> int" where
  "pipe_fds p = (read_fd p, write_fd p)"

fun plan_edges :: "worker_action list \<Rightarrow> worker_action list \<Rightarrow> (int \<times> int) list" where
  "plan_edges as [] = []"
| "plan_edges as (a # rest) =
     (case upstream_of as a of None \<Rightarrow> [] | Some u \<Rightarrow> [(tenant_id u, tenant_id a)]) @ plan_edges as rest"

lemma open_pipes_ok:
  assumes "open_pipes as answers rest pipes = (Inr qs, shut)"
  shows "shut = [] \<and> map edge_of qs = map edge_of pipes @ plan_edges as rest \<and>
    (\<exists>k. map Inr (map pipe_fds qs) = map Inr (map pipe_fds pipes) @ take k answers)"
  using assms
proof (induction as answers rest pipes rule: open_pipes.induct)
  case (1 as answers pipes)
  then show ?case by (auto intro: exI [of _ 0])
next
  case (2 as answers a rest pipes)
  show ?case
  proof (cases "upstream_of as a")
    case None
    with 2 show ?thesis by simp
  next
    case (Some u)
    with "2.prems" obtain r w later where ans: "answers = Inr (r, w) # later"
      by (cases answers rule: list.exhaust; cases "hd answers") (auto split: list.splits sum.splits)
    let ?p = "\<lparr>upstream_tenant_id = tenant_id u, downstream_tenant_id = tenant_id a, read_fd = r, write_fd = w\<rparr>"
    have "open_pipes as later rest (pipes @ [?p]) = (Inr qs, shut)" using "2.prems" Some ans by simp
    from "2.IH"(2) [OF Some ans refl refl this] obtain k where ih: "shut = []"
      "map edge_of qs = map edge_of (pipes @ [?p]) @ plan_edges as rest"
      "map Inr (map pipe_fds qs) = map Inr (map pipe_fds (pipes @ [?p])) @ take k later" by blast
    then have "map Inr (map pipe_fds qs) = map Inr (map pipe_fds pipes) @ take (Suc k) answers"
      using ans by (simp add: pipe_fds_def)
    moreover have "edge_of ?p = (tenant_id u, tenant_id a)" by (simp add: edge_of_def)
    ultimately show ?thesis using ih(1,2) Some by auto
  qed
qed

lemma open_pipes_failed:
  assumes "open_pipes as answers rest pipes = (Inl e, shut)"
  shows "\<exists>fds later. answers = map Inr fds @ later \<and> (later = [] \<or> (\<exists>e' l. later = Inl e' # l)) \<and>
    shut = close_dependency_pipes pipes @ concat (map (\<lambda>(r, w). [r, w]) fds)"
  using assms
proof (induction as answers rest pipes rule: open_pipes.induct)
  case (2 as answers a rest pipes)
  show ?case
  proof (cases "upstream_of as a")
    case None
    with 2 show ?thesis by simp
  next
    case (Some u)
    show ?thesis
    proof (cases answers)
      case Nil
      with "2.prems" Some show ?thesis by (auto simp: close_dependency_pipes_def)
    next
      case (Cons x later)
      show ?thesis
      proof (cases x)
        case (Inl e')
        with "2.prems" Some Cons show ?thesis
          by (intro exI [of _ "[]"] exI [of _ answers]) (auto simp: close_dependency_pipes_def)
      next
        case (Inr rw)
        then obtain r w where x: "x = Inr (r, w)" by (cases rw) auto
        let ?p = "\<lparr>upstream_tenant_id = tenant_id u, downstream_tenant_id = tenant_id a, read_fd = r, write_fd = w\<rparr>"
        have "open_pipes as later rest (pipes @ [?p]) = (Inl e, shut)" using "2.prems" Some Cons x by simp
        from "2.IH"(2) [OF Some _ refl refl this] Cons x obtain fds l where
          "later = map Inr fds @ l" "l = [] \<or> (\<exists>e' k. l = Inl e' # k)"
          "shut = close_dependency_pipes (pipes @ [?p]) @ concat (map (\<lambda>(r, w). [r, w]) fds)" by blast
        then show ?thesis
          using Cons x
          by (intro exI [of _ "(r, w) # fds"] exI [of _ l]) (auto simp: close_dependency_pipes_def)
      qed
    qed
  qed
qed simp

section \<open>The edges of a governed plan\<close>

definition language_after_audio :: "string list \<Rightarrow> nat \<Rightarrow> bool" where
  "language_after_audio offered i \<longleftrightarrow>
     0 < i \<and> offered ! i = ''language'' \<and> offered ! (i - 1) = ''audio''"

lemma plan_actions_nth:
  assumes "nr \<le> n"
  shows "actions (plan_of offered q bq nr n) =
    map (\<lambda>i. if i < nr then worker ''resident-1g'' q (int i) (offered ! i)
             else worker ''borrower-2g'' bq (int i) (offered ! i)) [0..<n]"
proof -
  have "[0..<n] = [0..<nr] @ [nr..<n]" using assms upt_add_eq_append [of 0 nr "n - nr"] by simp
  then show ?thesis by (simp add: actions_def plan_of_def)
qed

lemma map_of_indexed:
  assumes "i < n"
  shows "map_of (rev (map (\<lambda>i. (int i, f i)) [0..<n])) (int i) = Some (f i)"
proof -
  have "distinct (map fst (rev (map (\<lambda>i. (int i, f i)) [0..<n])))"
    by (simp add: comp_def rev_map [symmetric] distinct_map inj_on_def)
  then show ?thesis using assms by (intro map_of_is_SomeI) auto
qed

lemma plan_upstream:
  assumes "nr \<le> n" and "i < n" and as_def: "as = actions (plan_of offered q bq nr n)"
  shows "(case upstream_of as (as ! i) of None \<Rightarrow> [] | Some u \<Rightarrow> [(tenant_id u, tenant_id (as ! i))]) =
    (if language_after_audio offered i then [(int i - 1, int i)] else [])"
proof -
  let ?f = "\<lambda>i. if i < nr then worker ''resident-1g'' q (int i) (offered ! i)
             else worker ''borrower-2g'' bq (int i) (offered ! i)"
  have as: "as = map ?f [0..<n]" unfolding as_def by (rule plan_actions_nth [OF assms(1)])
  have f: "tenant_id (?f j) = int j" "modality (?f j) = offered ! j" for j by simp_all
  have look: "action_of_tenant as (int j) = Some (?f j)" if "j < n" for j
    using map_of_indexed [OF that, of ?f] unfolding action_of_tenant_def as by (simp add: comp_def f(1))
  have asi: "as ! i = ?f i" using assms(2) by (simp add: as)
  show ?thesis
  proof (cases "0 < i")
    case True
    then have prev: "int i - 1 = int (i - 1)" "i - 1 < n" using assms(2) by auto
    have "action_of_tenant as (int i - 1) = Some (?f (i - 1))" unfolding prev(1) by (rule look [OF prev(2)])
    then show ?thesis
      unfolding upstream_of_def asi f using True prev f [of "i - 1"]
      by (auto simp: language_after_audio_def f simp del: of_nat_diff)
  next
    case False
    then show ?thesis unfolding upstream_of_def asi f by (simp add: language_after_audio_def)
  qed
qed

lemma concat_map_if: "concat (map (\<lambda>i. if P i then [f i] else []) xs) = map f (filter P xs)"
  by (induction xs) auto

lemma plan_edges_of_plan:
  assumes "nr \<le> n"
  shows "plan_edges (actions (plan_of offered q bq nr n)) (actions (plan_of offered q bq nr n)) =
    map (\<lambda>i. (int i - 1, int i)) (filter (language_after_audio offered) [0..<n])"
proof -
  let ?as = "actions (plan_of offered q bq nr n)"
  have len: "length ?as = n" using assms by (simp add: actions_def plan_of_def)
  have edges: "plan_edges as rest =
      concat (map (\<lambda>a. case upstream_of as a of None \<Rightarrow> [] | Some u \<Rightarrow> [(tenant_id u, tenant_id a)]) rest)" for as rest
    by (induction rest) auto
  have "plan_edges ?as ?as = concat (map (\<lambda>i. if language_after_audio offered i then [(int i - 1, int i)] else []) [0..<n])"
    unfolding edges
    by (rule arg_cong [of _ _ concat], rule nth_equalityI) (use len plan_upstream [OF assms _ refl] in auto)
  also have "\<dots> = map (\<lambda>i. (int i - 1, int i)) (filter (language_after_audio offered) [0..<n])"
    by (rule concat_map_if)
  finally show ?thesis .
qed

section \<open>What the shutdown leaves\<close>

definition timed_out :: "running_worker \<Rightarrow> bool" where
  "timed_out w \<longleftrightarrow> rw_wait w = WaitTimedOut"

text \<open>The exceptions the loop does not turn into an error entry.\<close>

fun escapes :: "pyerr \<Rightarrow> bool" where
  "escapes TypeError = False"
| "escapes (ValueError _) = False"
| "escapes _ = True"

definition good_output :: "dependency_pipe list \<Rightarrow> running_worker \<Rightarrow> pydict \<Rightarrow> bool" where
  "good_output pipes w d \<longleftrightarrow> (\<exists>v. rw_wait w = WaitExited 0 (Json v) \<and> checked_output pipes w v = Inr d)"

lemma stop_one_log:
  assumes "stop_one pipes w lg = Inr lg'"
  shows "communicated lg' = communicated lg @ [w] \<and>
    killed lg' = killed lg @ (if timed_out w then [w] else []) \<and>
    ((\<exists>d. good_output pipes w d \<and> stop_outputs lg' = stop_outputs lg @ [d] \<and> stop_errors lg' = stop_errors lg) \<or>
     ((\<nexists>d. good_output pipes w d) \<and>
      (\<exists>e. stop_outputs lg' = stop_outputs lg \<and> stop_errors lg' = stop_errors lg @ [e])))"
proof (cases "rw_wait w")
  case WaitTimedOut
  with assms show ?thesis by (auto simp: stop_one_def Let_def timed_out_def good_output_def)
next
  case (WaitExited status out)
  show ?thesis
  proof (cases "status = 0")
    case False
    with WaitExited assms show ?thesis by (auto simp: stop_one_def Let_def timed_out_def good_output_def)
  next
    case True
    show ?thesis
    proof (cases out)
      case InvalidJson
      with WaitExited True assms show ?thesis by (auto simp: stop_one_def Let_def timed_out_def good_output_def)
    next
      case (Json v)
      show ?thesis
      proof (cases "checked_output pipes w v")
        case (Inr d)
        with WaitExited True Json assms show ?thesis
          by (auto simp: stop_one_def Let_def timed_out_def good_output_def)
      next
        case (Inl e)
        with WaitExited True Json assms show ?thesis
          by (cases e) (auto simp: stop_one_def Let_def timed_out_def good_output_def)
      qed
    qed
  qed
qed

lemma stop_one_escape:
  assumes "stop_one pipes w lg = Inl e"
  shows "escapes e \<and> (\<exists>v. rw_wait w = WaitExited 0 (Json v) \<and> checked_output pipes w v = Inl e)"
proof -
  obtain v where v: "rw_wait w = WaitExited 0 (Json v)"
    using assms by (auto simp: stop_one_def Let_def split: waited.splits printed.splits if_splits)
  with assms show ?thesis
    by (cases "checked_output pipes w v") (auto simp: stop_one_def Let_def split: pyerr.splits)
qed

lemma stop_loop_done:
  assumes "stop_loop pipes ws lg = (lg', None)"
  shows "communicated lg' = communicated lg @ ws \<and> killed lg' = killed lg @ filter timed_out ws \<and>
    (\<exists>ds. stop_outputs lg' = stop_outputs lg @ ds \<and>
      list_all2 (good_output pipes) (filter (\<lambda>w. \<exists>d. good_output pipes w d) ws) ds) \<and>
    length (stop_errors lg) \<le> length (stop_errors lg') \<and>
    (stop_errors lg' = stop_errors lg \<longrightarrow> (\<forall>w \<in> set ws. \<exists>d. good_output pipes w d))"
  using assms
proof (induction ws arbitrary: lg)
  case (Cons w ws)
  obtain lg1 where one: "stop_one pipes w lg = Inr lg1" "stop_loop pipes ws lg1 = (lg', None)"
    using Cons.prems by (auto split: sum.splits)
  from Cons.IH [OF one(2)] obtain ds where IH: "communicated lg' = communicated lg1 @ ws"
    "killed lg' = killed lg1 @ filter timed_out ws" "stop_outputs lg' = stop_outputs lg1 @ ds"
    "list_all2 (good_output pipes) (filter (\<lambda>w. \<exists>d. good_output pipes w d) ws) ds"
    "length (stop_errors lg1) \<le> length (stop_errors lg')"
    "stop_errors lg' = stop_errors lg1 \<longrightarrow> (\<forall>w \<in> set ws. \<exists>d. good_output pipes w d)"
    by blast
  have st: "communicated lg1 = communicated lg @ [w]" "killed lg1 = killed lg @ (if timed_out w then [w] else [])"
    using stop_one_log [OF one(1)] by simp_all
  consider (good) d where "good_output pipes w d" "stop_outputs lg1 = stop_outputs lg @ [d]"
      "stop_errors lg1 = stop_errors lg"
    | (bad) e where "\<nexists>d. good_output pipes w d" "stop_outputs lg1 = stop_outputs lg"
      "stop_errors lg1 = stop_errors lg @ [e]"
    using stop_one_log [OF one(1)] by blast
  then show ?case
  proof cases
    case good
    then have "\<exists>d. good_output pipes w d" by blast
    with good IH st show ?thesis by auto
  next
    case bad
    then have "length (stop_errors lg) < length (stop_errors lg')" using IH(5) by simp
    with bad IH st show ?thesis by auto
  qed
qed simp

lemma stop_loop_escape:
  assumes "stop_loop pipes ws lg = (lg', Some e)"
  shows "escapes e \<and> (\<exists>k < length ws. communicated lg' = communicated lg @ take (Suc k) ws \<and>
    killed lg' = killed lg @ filter timed_out (take k ws) \<and>
    (\<forall>w \<in> set (take k ws). \<exists>lg0 lg1. stop_one pipes w lg0 = Inr lg1) \<and>
    (\<exists>v. rw_wait (ws ! k) = WaitExited 0 (Json v) \<and> checked_output pipes (ws ! k) v = Inl e))"
  using assms
proof (induction ws arbitrary: lg)
  case (Cons w ws)
  show ?case
  proof (cases "stop_one pipes w lg")
    case (Inl e')
    with Cons.prems have "e' = e" "communicated lg' = communicated lg @ [w]" "killed lg' = killed lg"
      by auto
    with stop_one_escape [OF Inl] show ?thesis by auto
  next
    case (Inr lg1)
    with Cons.prems have "stop_loop pipes ws lg1 = (lg', Some e)" by simp
    from Cons.IH [OF this] stop_one_log [OF Inr] obtain k where "k < length ws" "escapes e"
      "communicated lg' = communicated lg @ w # take (Suc k) ws"
      "killed lg' = killed lg @ filter timed_out (w # take k ws)"
      "\<forall>w' \<in> set (take k ws). \<exists>lg0 lg1. stop_one pipes w' lg0 = Inr lg1"
      "\<exists>v. rw_wait (ws ! k) = WaitExited 0 (Json v) \<and> checked_output pipes (ws ! k) v = Inl e" by auto
    then show ?thesis using Inr by (intro conjI exI [of _ "Suc k"]) auto
  qed
qed simp

lemma stop_loop_no_escape:
  "stop_loop pipes ws lg = (lg', None) \<Longrightarrow> w \<in> set ws \<Longrightarrow> \<exists>lg0 lg1. stop_one pipes w lg0 = Inr lg1"
  by (induction ws arbitrary: lg) (auto split: sum.splits)

text \<open>What \<open>stop_workers\<close> returns, with and without \<open>tolerate_failure\<close>.\<close>

lemma stop_workers_returns:
  assumes "stop_workers ws tolerate pipes = (lg, Inr outs)"
  shows "communicated lg = ws" and "killed lg = filter timed_out ws"
    and "list_all2 (good_output pipes) (filter (\<lambda>w. \<exists>d. good_output pipes w d) ws) outs"
    and "tolerate \<or> (\<forall>w \<in> set ws. \<exists>d. good_output pipes w d)"
proof -
  let ?lg0 = "\<lparr>communicated = [], killed = [], stop_errors = signal_errors ws, stop_outputs = []\<rparr>"
  obtain e where l: "stop_loop pipes ws ?lg0 = (lg, e)"
    using assms by (cases "stop_loop pipes ws ?lg0") (auto simp: stop_workers_def split: option.splits)
  with assms have e: "e = None" "tolerate \<or> stop_errors lg = []" "outs = stop_outputs lg"
    by (auto simp: stop_workers_def split: option.splits if_splits)
  from stop_loop_done [OF l [unfolded e(1)]] e(2,3)
  show "communicated lg = ws" "killed lg = filter timed_out ws"
    "list_all2 (good_output pipes) (filter (\<lambda>w. \<exists>d. good_output pipes w d) ws) outs"
    "tolerate \<or> (\<forall>w \<in> set ws. \<exists>d. good_output pipes w d)" by auto
qed

lemma stop_workers_ok:
  assumes "stop_workers ws False pipes = (lg, Inr outs)"
  shows "communicated lg = ws \<and> killed lg = filter timed_out ws \<and> list_all2 (good_output pipes) ws outs"
proof -
  have "filter (\<lambda>w. \<exists>d. good_output pipes w d) ws = ws"
    using stop_workers_returns(4) [OF assms] by simp
  with stop_workers_returns(1-3) [OF assms] show ?thesis by metis
qed

section \<open>Accounting\<close>

lemma tag_result_fields:
  "dindex (tag_result a d) ''placement'' = Inr (VStr (placement a))"
  "dindex (tag_result a d) ''modality'' = Inr (VStr (modality a))"
  "dindex (tag_result a d) ''tenant_id'' = Inr (VInt (tenant_id a))"
  "dindex (tag_result a d) ''quota_percent'' = Inr (VInt (quota_percent a))"
  by (simp_all add: dindex_def tag_result_def action_fields_def map_of_dset)

lemma checked_output_tagged:
  "checked_output pipes w v = Inr d \<Longrightarrow>
   \<exists>r. v = VDict r \<and> validate_worker_result (VDict r) w = Inr () \<and> d = tag_result (rw_action w) r \<and>
     (\<exists>config. dget_default r ''config'' (VDict []) = VDict config \<and>
        dependency_evidence_ok pipes (rw_action w) config)"
  by (auto simp: checked_output_def bnd_eq_Inr split: pyval.splits if_splits)

text \<open>A result and the action it is tagged with.\<close>

definition tagged :: "worker_action \<Rightarrow> pydict \<Rightarrow> bool" where
  "tagged a d \<longleftrightarrow> (\<exists>r. d = tag_result a r)"

definition work :: "pydict \<Rightarrow> int" where
  "work d = (case completed_requests d of Inr n \<Rightarrow> n | Inl _ \<Rightarrow> 0)"

lemma counted_by:
  assumes "fold_res (\<lambda>d n. bnd (f d) (\<lambda>v.
      if g v then bnd (completed_requests d) (\<lambda>c. Inr (n + c)) else Inr n)) ds m = Inr n"
    and "list_all2 (\<lambda>a d. f d = Inr (h a)) as ds"
  shows "n = m + sum_list (map (\<lambda>(a, d). if g (h a) then work d else 0) (zip as ds))"
  using assms(2,1)
proof (induction arbitrary: m rule: list_all2_induct)
  case (Cons a as d ds)
  show ?case
  proof (cases "g (h a)")
    case True
    with Cons.prems Cons.hyps(1) obtain c where c: "completed_requests d = Inr c"
      "fold_res (\<lambda>d n. bnd (f d) (\<lambda>v.
        if g v then bnd (completed_requests d) (\<lambda>c. Inr (n + c)) else Inr n)) ds (m + c) = Inr n"
      by (auto simp: bnd_eq_Inr)
    from Cons.IH [OF c(2)] c(1) True show ?thesis by (simp add: work_def)
  next
    case False
    with Cons.prems Cons.hyps(1) Cons.IH [of m] show ?thesis by (simp add: bnd_eq_Inr)
  qed
qed simp

definition total_work :: "pydict list \<Rightarrow> int" where
  "total_work ds = sum_list (map work ds)"

lemma sum_split_two:
  assumes "\<forall>x \<in> set xs. (P x \<or> Q x) \<and> \<not> (P x \<and> Q x)"
  shows "sum_list (map (\<lambda>x. if P x then f x else 0) xs) + sum_list (map (\<lambda>x. if Q x then f x else 0) xs) =
    (sum_list (map f xs) :: int)"
  using assms by (induction xs) auto

lemma sum_split_indexed:
  assumes "length xs = n" and "\<forall>i < n. k (xs ! i) = int i"
  shows "sum_list (map (\<lambda>t. sum_list (map (\<lambda>x. if k x = int t then f x else 0) xs)) [0..<n]) =
    (sum_list (map f xs) :: int)"
proof -
  have "sum_list (map (\<lambda>x. if k x = int t then f x else 0) xs) = f (xs ! t)" if "t < n" for t
  proof -
    have "sum_list (map (\<lambda>x. if k x = int t then f x else 0) xs) =
        (\<Sum>i<n. if k (xs ! i) = int t then f (xs ! i) else 0)"
      using assms(1) by (simp add: sum_list_sum_nth atLeast0LessThan)
    also have "\<dots> = (\<Sum>i<n. if i = t then f (xs ! i) else 0)"
      using assms(2) by (intro sum.cong) auto
    finally show ?thesis using that by simp
  qed
  then have "map (\<lambda>t. sum_list (map (\<lambda>x. if k x = int t then f x else 0) xs)) [0..<n] = map f xs"
    using assms(1) by (intro nth_equalityI) auto
  then show ?thesis by simp
qed

lemma zip_total: "length as = length ds \<Longrightarrow> sum_list (map (\<lambda>(a, d). work d) (zip as ds)) = total_work ds"
  by (induction as ds rule: list_induct2) (auto simp: total_work_def)

lemma tagged_list:
  assumes "list_all2 tagged as ds"
  shows "list_all2 (\<lambda>a d. dindex d ''placement'' = Inr (VStr (placement a))) as ds"
    "list_all2 (\<lambda>a d. dindex d ''modality'' = Inr (VStr (modality a))) as ds"
    "list_all2 (\<lambda>a d. bnd (dindex d ''tenant_id'') to_pyint = Inr (tenant_id a)) as ds"
  by (rule list_all2_mono [OF assms]; auto simp: tagged_def tag_result_fields)+

text \<open>
  The three counts of an epoch agree when each result is tagged with the action of its worker and the
  plan numbers its tenants from 0.
\<close>

lemma work_split:
  assumes tags: "list_all2 tagged as ds"
    and key: "list_all2 (\<lambda>a d. dindex d key = Inr (VStr (f a))) as ds"
    and dom: "\<forall>a \<in> set as. f a = x \<or> f a = y" and "x \<noteq> y"
    and "completed_by ds key x = Inr m" and "completed_by ds key y = Inr n"
  shows "m + n = total_work ds"
proof -
  have len: "length as = length ds" using tags by (rule list_all2_lengthD)
  have "m = sum_list (map (\<lambda>(a, d). if x = f a then work d else 0) (zip as ds))"
    using counted_by [OF assms(5) [unfolded completed_by_def] key] by simp
  moreover have "n = sum_list (map (\<lambda>(a, d). if y = f a then work d else 0) (zip as ds))"
    using counted_by [OF assms(6) [unfolded completed_by_def] key] by simp
  moreover have "\<forall>z \<in> set (zip as ds). (x = f (fst z) \<or> y = f (fst z)) \<and> \<not> (x = f (fst z) \<and> y = f (fst z))"
    using dom assms(4) by (auto dest!: set_zip_leftD)
  ultimately show ?thesis
    using sum_split_two [of "zip as ds" "\<lambda>z. x = f (fst z)" "\<lambda>z. y = f (fst z)" "\<lambda>z. work (snd z)"]
      zip_total [OF len] by (simp add: case_prod_unfold)
qed

lemma work_by_tenant:
  assumes tags: "list_all2 tagged as ds" and ids: "map tenant_id as = map int [0..<n]"
    and ts: "map_res (\<lambda>t. bnd (completed_by_tenant ds t) (\<lambda>m. Inr (t, m))) [0..int n - 1] = Inr ts"
  shows "sum_list (map snd ts) = total_work ds"
proof -
  have len: "length as = length ds" "length as = n"
    using list_all2_lengthD [OF tags] arg_cong [OF ids, of length] by auto
  let ?zs = "zip as ds"
  let ?c = "\<lambda>t. sum_list (map (\<lambda>z. if tenant_id (fst z) = t then work (snd z) else 0) ?zs)"
  have "m = ?c t" if "completed_by_tenant ds t = Inr m" for t m
    using counted_by [OF that [unfolded completed_by_tenant_def] tagged_list(3) [OF tags]]
    by (simp add: case_prod_unfold)
  then have "list_all2 (\<lambda>t p. snd p = ?c t) [0..int n - 1] ts"
    using ts unfolding map_res_eq_Inr by (auto simp: bnd_eq_Inr elim!: list_all2_mono)
  then have "map snd ts = map ?c [0..int n - 1]"
    by (induction rule: list_all2_induct) auto
  also have "[0..int n - 1] = map int [0..<n]" by (auto intro: nth_equalityI)
  finally have "sum_list (map snd ts) = sum_list (map (\<lambda>t. ?c (int t)) [0..<n])" by (simp add: comp_def)
  also have "\<dots> = sum_list (map (\<lambda>z. work (snd z)) ?zs)"
  proof (rule sum_split_indexed)
    show "length ?zs = n" using len by simp
    show "\<forall>i<n. tenant_id (fst (?zs ! i)) = int i"
    proof (intro allI impI)
      fix i assume i: "i < n"
      have "map tenant_id as ! i = int i" using i unfolding ids by simp
      with i len show "tenant_id (fst (?zs ! i)) = int i" by simp
    qed
  qed
  also have "\<dots> = total_work ds" using zip_total [OF len(1)] by (simp add: case_prod_unfold)
  finally show ?thesis .
qed

section \<open>Properties\<close>

lemma stop_workers_tagged:
  assumes "stop_workers ws False pipes = (lg, Inr outs)"
  shows "list_all2 tagged (map rw_action ws) outs"
  using stop_workers_ok [OF assms]
  by (auto simp: list_all2_map1 tagged_def good_output_def dest!: checked_output_tagged elim!: list_all2_mono)

text \<open>
  C12: when \<open>stop_workers\<close> returns, every worker has been waited for, exactly those that did not exit in
  time were killed, and the results are, in order, those of the workers that exited with status 0 and
  printed JSON that passes the check: each is the object the worker printed, unchanged but for the tag
  of its action, after it passed the provenance check; with dependency pipes its evidence names exactly
  the ends this tenant holds. Without \<open>tolerate_failure\<close> that is one result for every worker, and none
  was killed; with it the other workers are left out.
\<close>

theorem stop_workers_validates_all:
  assumes "stop_workers ws tolerate_failure pipes = (lg, Inr outs)"
  shows "\<exists>good. good = filter (\<lambda>w. \<exists>v d. rw_wait w = WaitExited 0 (Json v) \<and> checked_output pipes w v = Inr d) ws \<and>
    communicated lg = ws \<and> killed lg = filter (\<lambda>w. rw_wait w = WaitTimedOut) ws \<and>
    length outs = length good \<and> (\<not> tolerate_failure \<longrightarrow> good = ws \<and> killed lg = []) \<and>
    (\<forall>i < length good. \<exists>d config.
       rw_wait (good ! i) = WaitExited 0 (Json (VDict d)) \<and>
       validate_worker_result (VDict d) (good ! i) = Inr () \<and>
       outs ! i = tag_result (rw_action (good ! i)) d \<and> dget_default d ''config'' (VDict []) = VDict config \<and>
       (pipes \<noteq> [] \<longrightarrow>
         dget config ''dependency_wait_enabled'' = VBool (expected_wait pipes (rw_action (good ! i))) \<and>
         dget config ''dependency_signal_enabled'' = VBool (expected_signal pipes (rw_action (good ! i)))))"
proof -
  let ?good = "filter (\<lambda>w. \<exists>d. good_output pipes w d) ws"
  note ret = stop_workers_returns [OF assms]
  have kill: "killed lg = filter (\<lambda>w. rw_wait w = WaitTimedOut) ws"
    using ret(2) by (simp add: timed_out_def [abs_def])
  have good: "?good = filter (\<lambda>w. \<exists>v d. rw_wait w = WaitExited 0 (Json v) \<and> checked_output pipes w v = Inr d) ws"
    by (rule filter_cong) (auto simp: good_output_def)
  have all: "?good = ws \<and> killed lg = []" if "\<not> tolerate_failure"
  proof -
    have g: "\<forall>w \<in> set ws. \<exists>d. good_output pipes w d" using ret(4) that by blast
    then have "\<forall>w \<in> set ws. rw_wait w \<noteq> WaitTimedOut" by (auto simp: good_output_def)
    with g kill show ?thesis by (simp add: filter_empty_conv)
  qed
  have each: "\<exists>d config. rw_wait w = WaitExited 0 (Json (VDict d)) \<and>
      validate_worker_result (VDict d) w = Inr () \<and> x = tag_result (rw_action w) d \<and>
      dget_default d ''config'' (VDict []) = VDict config \<and>
      (pipes \<noteq> [] \<longrightarrow> dget config ''dependency_wait_enabled'' = VBool (expected_wait pipes (rw_action w)) \<and>
         dget config ''dependency_signal_enabled'' = VBool (expected_signal pipes (rw_action w)))"
    if g: "good_output pipes w x" for w x
  proof -
    obtain v where v: "rw_wait w = WaitExited 0 (Json v)" "checked_output pipes w v = Inr x"
      using g by (auto simp: good_output_def)
    from checked_output_tagged [OF v(2)] v(1) show ?thesis
      unfolding dependency_evidence_ok_def by blast
  qed
  have len: "length outs = length ?good" using list_all2_lengthD [OF ret(3)] by simp
  have nth: "good_output pipes (?good ! i) (outs ! i)" if "i < length ?good" for i
    by (rule list_all2_nthD [OF ret(3) that])
  show ?thesis
    by (rule exI [of _ ?good], intro conjI allI impI) (use good ret(1) kill len all each [OF nth] in blast)+
qed

text \<open>One resident that ran to its end and printed a complete result.\<close>

definition example_action :: worker_action where
  "example_action = worker ''resident-1g'' 50 0 ''audio''"

definition example_result :: pydict where
  "example_result =
     [(''schema_version'', VInt 1), (''role'', VStr ''pressure''), (''model'', VStr ''whisper-tiny-encoder''),
      (''completed_requests'', VInt 40),
      (''execution_environment'', VDict
        [(''pid'', VInt 4711), (''cuda_visible_devices'', VStr ''MIG-small''),
         (''mps_active_thread_percentage'', VInt 50), (''cpu_affinity'', VList [VInt 0])]),
      (''gpu'', VDict [(''name'', VStr ''NVIDIA Thor MIG 1g.0gb''), (''multiprocessors'', VInt 4)]),
      (''config'', VDict
        [(''warmup'', VInt 100), (''duration_seconds'', VInt 3600), (''include_transfers'', VBool True),
         (''priority'', VStr ''default''), (''start_paused'', VBool True), (''burst_size'', VInt 1),
         (''period_ms'', VInt 0), (''deadline_ms'', VInt 0), (''guard_ms'', VInt 0),
         (''gated_processes'', VInt 0), (''stopped_processes'', VInt 0), (''gate_mode'', VStr ''stop''),
         (''stream_priority_value'', VInt 0)])]"

definition example_worker :: running_worker where
  "example_worker =
     \<lparr>rw_action = example_action, rw_pid = 4711, rw_cpu = 0, rw_device = ''MIG-small'', rw_warmup = 100,
      rw_period_ms = Fin 0, rw_running = True, rw_delivery = Delivered,
      rw_wait = WaitExited 0 (Json (VDict example_result))\<rparr>"

lemma example_output:
  "checked_output [] example_worker (VDict example_result) = Inr (tag_result example_action example_result)"
  by (simp add: checked_output_def validate_worker_result_def validate_worker_config_def example_worker_def
      example_result_def example_action_def worker_environment_def worker_gpu_def fits_def gpu_name_def
      granted_sms_def model_of_modality_def dependency_evidence_ok_def dget_def dget_default_def dkeys_def
      feq_def float_of_int_def fl_eval isclose_def Let_def)

lemma example_stop:
  "stop_workers [example_worker] False [] =
    (\<lparr>communicated = [example_worker], killed = [], stop_errors = [],
      stop_outputs = [tag_result example_action example_result]\<rparr>,
     Inr [tag_result example_action example_result])"
proof -
  have "rw_wait example_worker = WaitExited 0 (Json (VDict example_result))" "rw_action example_worker = example_action"
    "rw_delivery example_worker = Delivered" by (simp_all add: example_worker_def)
  then show ?thesis
    by (simp add: stop_workers_def stop_one_def signal_errors_def example_output Let_def)
qed

lemma example_tolerated:
  "stop_workers [example_worker\<lparr>rw_wait := WaitTimedOut\<rparr>, example_worker] True [] =
    (\<lparr>communicated = [example_worker\<lparr>rw_wait := WaitTimedOut\<rparr>, example_worker],
      killed = [example_worker\<lparr>rw_wait := WaitTimedOut\<rparr>], stop_errors = [TimedOutError example_action],
      stop_outputs = [tag_result example_action example_result]\<rparr>,
     Inr [tag_result example_action example_result])"
proof -
  have "rw_wait example_worker = WaitExited 0 (Json (VDict example_result))" "rw_action example_worker = example_action"
    "rw_delivery example_worker = Delivered" by (simp_all add: example_worker_def)
  then show ?thesis
    by (simp add: stop_workers_def stop_one_def signal_errors_def example_output Let_def)
qed

theorem stop_workers_validates_all_witness:
  "(\<exists>d. rw_wait example_worker = WaitExited 0 (Json (VDict d)) \<and>
     validate_worker_result (VDict d) example_worker = Inr ()) \<and>
   length (filter (\<lambda>w. \<exists>v d. rw_wait w = WaitExited 0 (Json v) \<and> checked_output [] w v = Inr d)
     [example_worker\<lparr>rw_wait := WaitTimedOut\<rparr>, example_worker]) = 1"
proof
  show "\<exists>d. rw_wait example_worker = WaitExited 0 (Json (VDict d)) \<and>
      validate_worker_result (VDict d) example_worker = Inr ()"
    using stop_workers_validates_all [OF example_stop] by auto
  show "length (filter (\<lambda>w. \<exists>v d. rw_wait w = WaitExited 0 (Json v) \<and> checked_output [] w v = Inr d)
      [example_worker\<lparr>rw_wait := WaitTimedOut\<rparr>, example_worker]) = 1"
    using stop_workers_validates_all [OF example_tolerated] by (metis One_nat_def list.size(3,4) add_0)
qed

text \<open>
  When the check of a printed value raises something else than a \<open>TypeError\<close> or a \<open>ValueError\<close>: the value is
  no object, so that it has no \<open>get\<close>; or it is one that passes every test up to the period, and the
  period is an integer too large for a float. Spelled out over the tests of \<open>validate_worker_result\<close>.
\<close>

definition reaches_period_test :: "running_worker \<Rightarrow> pydict \<Rightarrow> pydict \<Rightarrow> bool" where
  "reaches_period_test w d c \<longleftrightarrow>
     fits (VDict d) [(''schema_version'', VInt 1)] \<and> fits (dget d ''execution_environment'') (worker_environment w) \<and>
     fits (dget d ''gpu'') (worker_gpu w) \<and> dget d ''role'' = VStr ''pressure'' \<and>
     (case model_of_modality (modality (rw_action w)) of Inl _ \<Rightarrow> False | Inr m \<Rightarrow> dget d ''model'' = VStr m) \<and>
     fits (VDict c) [(''warmup'', VInt (rw_warmup w)), (''duration_seconds'', VInt 3600), (''burst_size'', VInt 1)] \<and>
     dget c ''include_transfers'' = VBool True \<and> dget c ''start_paused'' = VBool True \<and>
     dget c ''priority'' = VStr (if placement (rw_action w) = ''resident-1g'' then ''default'' else ''low'')"

definition escape_of :: "running_worker \<Rightarrow> pyval \<Rightarrow> pyerr option" where
  "escape_of w v =
     (case v of
        VDict d \<Rightarrow>
          (case dget d ''config'' of
             VDict c \<Rightarrow>
               (case map_of c ''period_ms'' of
                  Some (VInt n) \<Rightarrow>
                    if reaches_period_test w d c \<and> float_of_int n = Inl OverflowError then Some OverflowError else None
                | _ \<Rightarrow> None)
           | _ \<Rightarrow> None)
      | _ \<Rightarrow> Some AttributeError)"

definition worker_escape :: "running_worker \<Rightarrow> pyerr option" where
  "worker_escape w =
     (case rw_wait w of WaitExited status (Json v) \<Rightarrow> if status = 0 then escape_of w v else None | _ \<Rightarrow> None)"

lemma to_float_escape:
  "to_float v = Inl e \<and> escapes e \<longleftrightarrow> e = OverflowError \<and> (\<exists>n. v = VInt n \<and> float_of_int n = Inl OverflowError)"
  by (cases v) (auto simp: float_of_string_def float_of_int_def Let_def split: prod.splits option.splits pyfloat.splits)

text \<open>A failed test never escapes; of two computations in a row only the first can, when the second is tests only.\<close>

lemma if_escape:
  "((if c then Inl (ValueError m) else x) = Inl e \<and> escapes e) \<longleftrightarrow> \<not> c \<and> x = Inl e \<and> escapes e"
  by auto

lemma bnd_escape:
  "(\<And>x e'. f x = Inl e' \<Longrightarrow> \<not> escapes e') \<Longrightarrow> (bnd m f = Inl e \<and> escapes e) \<longleftrightarrow> m = Inl e \<and> escapes e"
  by (cases m) auto

lemma config_escape:
  "validate_worker_config (VDict c) w = Inl e \<and> escapes e \<longleftrightarrow>
   e = OverflowError \<and> (\<exists>n. map_of c ''period_ms'' = Some (VInt n) \<and> float_of_int n = Inl OverflowError) \<and>
   fits (VDict c) [(''warmup'', VInt (rw_warmup w)), (''duration_seconds'', VInt 3600), (''burst_size'', VInt 1)] \<and>
   dget c ''include_transfers'' = VBool True \<and> dget c ''start_paused'' = VBool True \<and>
   dget c ''priority'' = VStr (if placement (rw_action w) = ''resident-1g'' then ''default'' else ''low'')"
proof -
  let ?p = "to_float (dget_default c ''period_ms'' (VFloat (Fin (- 1))))"
  have p: "?p = Inl e \<and> escapes e \<longleftrightarrow>
      e = OverflowError \<and> (\<exists>n. map_of c ''period_ms'' = Some (VInt n) \<and> float_of_int n = Inl OverflowError)"
    unfolding to_float_escape by (auto simp: dget_default_def split: option.splits)
  have t: "fits (VDict c) [(''warmup'', VInt (rw_warmup w)), (''duration_seconds'', VInt 3600), (''burst_size'', VInt 1)] \<longleftrightarrow>
      py_eq (dget c ''warmup'') (VInt (rw_warmup w)) \<and> py_eq (dget c ''duration_seconds'') (VInt 3600) \<and>
      py_eq (dget c ''burst_size'') (VInt 1)"
    by (simp add: fits_def)
  show ?thesis
    unfolding validate_worker_config_def Let_def t pyval.case if_escape
    by (subst bnd_escape) (auto simp: p split: if_splits)
qed

lemma result_escape:
  assumes "model_of_modality (modality (rw_action w)) = Inr m"
  shows "validate_worker_result (VDict d) w = Inl e \<and> escapes e \<longleftrightarrow>
    fits (VDict d) [(''schema_version'', VInt 1)] \<and> fits (dget d ''execution_environment'') (worker_environment w) \<and>
    fits (dget d ''gpu'') (worker_gpu w) \<and> dget d ''role'' = VStr ''pressure'' \<and> dget d ''model'' = VStr m \<and>
    validate_worker_config (dget d ''config'') w = Inl e \<and> escapes e"
proof -
  have "fits (VDict d) [(''schema_version'', VInt 1)] \<longleftrightarrow> py_eq (dget d ''schema_version'') (VInt 1)"
    by (simp add: fits_def)
  then show ?thesis
    unfolding validate_worker_result_def vget.simps bnd_Inr assms if_escape by blast
qed

lemma checked_escape:
  assumes "model_of_modality (modality (rw_action w)) = Inr m"
  shows "checked_output pipes w v = Inl e \<and> escapes e \<longleftrightarrow> escape_of w v = Some e"
proof (cases "\<exists>d. v = VDict d")
  case False
  then have "checked_output pipes w v = Inl AttributeError" "escape_of w v = Some AttributeError"
    by (cases v; simp add: checked_output_def validate_worker_result_def escape_of_def)+
  then show ?thesis by auto
next
  case True
  then obtain d where v: "v = VDict d" by blast
  have "checked_output pipes w v = Inl e \<and> escapes e \<longleftrightarrow> validate_worker_result (VDict d) w = Inl e \<and> escapes e"
    unfolding checked_output_def v by (rule bnd_escape) (auto split: pyval.splits if_splits)
  also have "\<dots> \<longleftrightarrow> escape_of w v = Some e"
  proof (cases "\<exists>c. dget d ''config'' = VDict c")
    case False
    then have "escape_of w v = None" by (auto simp: escape_of_def v split: pyval.splits)
    moreover have "\<not> (validate_worker_config (dget d ''config'') w = Inl e \<and> escapes e)"
      using False by (auto simp: validate_worker_config_def Let_def split: pyval.splits)
    ultimately show ?thesis unfolding result_escape [OF assms] by simp
  next
    case True
    then obtain c where c: "dget d ''config'' = VDict c" by blast
    have "escape_of w v = Some e \<longleftrightarrow> e = OverflowError \<and>
        (\<exists>n. map_of c ''period_ms'' = Some (VInt n) \<and> float_of_int n = Inl OverflowError) \<and> reaches_period_test w d c"
      by (auto simp: escape_of_def v c split: option.splits pyval.splits)
    then show ?thesis
      unfolding result_escape [OF assms] c config_escape reaches_period_test_def assms by (simp only: sum.case) blast
  qed
  finally show ?thesis .
qed

lemma stop_one_iff:
  assumes "modality (rw_action w) \<in> set MODALITIES"
  shows "stop_one pipes w lg = Inl e \<longleftrightarrow> worker_escape w = Some e"
proof -
  obtain m where m: "model_of_modality (modality (rw_action w)) = Inr m"
    using assms by (auto simp: MODALITIES_def model_of_modality_def)
  show ?thesis
  proof
    assume "stop_one pipes w lg = Inl e"
    from stop_one_escape [OF this] obtain v where "rw_wait w = WaitExited 0 (Json v)"
      "checked_output pipes w v = Inl e" "escapes e" by blast
    then show "worker_escape w = Some e" using checked_escape [OF m, of pipes v e] by (simp add: worker_escape_def)
  next
    assume "worker_escape w = Some e"
    then obtain v where v: "rw_wait w = WaitExited 0 (Json v)" "escape_of w v = Some e"
      by (auto simp: worker_escape_def split: waited.splits printed.splits if_splits)
    then have "checked_output pipes w v = Inl e" "escapes e" using checked_escape [OF m] by auto
    with v(1) show "stop_one pipes w lg = Inl e" by (cases e) (simp_all add: stop_one_def Let_def)
  qed
qed

lemma first_unique:
  assumes "k < length xs" "\<forall>x \<in> set (take k xs). f x = None" "f (xs ! k) \<noteq> None"
    and "j < length xs" "\<forall>x \<in> set (take j xs). f x = None" "f (xs ! j) \<noteq> None"
  shows "k = j"
proof -
  have "\<not> i < l" if "i < length xs" "f (xs ! i) \<noteq> None" "\<forall>x \<in> set (take l xs). f x = None" for i l
    using that by (metis in_set_conv_nth length_take min_less_iff_conj nth_take)
  with assms show ?thesis by (meson linorder_neqE_nat)
qed

text \<open>
  C16: for the workers of an audio or language tenant the shutdown waits for every worker and kills exactly
  the ones that do not exit in time, and an exception it raises is the list of the collected errors,
  unless the check of some worker's parsed output raises an exception that is not caught. That is so in
  exactly two cases (\<open>worker_escape\<close>): the worker exits with status 0 and prints JSON that is not an object (the
  \<open>AttributeError\<close> of \<open>.get\<close>), or it prints an object that passes the tests up to the period and whose
  \<open>config.period_ms\<close> is an integer too large for a float (\<open>OverflowError\<close>). The first such worker
  ends the loop with this exception, whatever \<open>tolerate_failure\<close> says; the workers after it are neither
  waited for nor killed, and only those before it that timed out have been killed.
\<close>

theorem stop_workers_reaps_unless_escape:
  assumes "\<forall>w \<in> set ws. modality (rw_action w) \<in> set MODALITIES"
    and "stop_workers ws tolerate_failure pipes = (lg, result)"
  shows "((\<forall>w \<in> set ws. worker_escape w = None) \<longrightarrow>
      communicated lg = ws \<and> killed lg = filter (\<lambda>w. rw_wait w = WaitTimedOut) ws \<and>
      (\<forall>e. result = Inl e \<longrightarrow> e = RuntimeError ''worker errors'' \<and> \<not> tolerate_failure)) \<and>
    (\<forall>k < length ws. \<forall>e. worker_escape (ws ! k) = Some e \<and> (\<forall>w \<in> set (take k ws). worker_escape w = None) \<longrightarrow>
      result = Inl e \<and> communicated lg = take (Suc k) ws \<and>
      killed lg = filter (\<lambda>w. rw_wait w = WaitTimedOut) (take k ws))"
proof -
  let ?lg0 = "\<lparr>communicated = [], killed = [], stop_errors = signal_errors ws, stop_outputs = []\<rparr>"
  have timed: "timed_out = (\<lambda>w. rw_wait w = WaitTimedOut)" by (rule ext) (simp add: timed_out_def)
  note one = stop_one_iff [OF assms(1) [rule_format]]
  obtain lg' x where l: "stop_loop pipes ws ?lg0 = (lg', x)" by (cases "stop_loop pipes ws ?lg0")
  with assms(2) have lg: "lg' = lg" by (auto simp: stop_workers_def split: option.splits)
  show ?thesis
  proof (cases x)
    case None
    have "worker_escape w = None" if "w \<in> set ws" for w
      using stop_loop_no_escape [OF l [unfolded None] that] one [OF that] by (metis Inl_Inr_False not_None_eq)
    moreover have "\<forall>e. result = Inl e \<longrightarrow> e = RuntimeError ''worker errors'' \<and> \<not> tolerate_failure"
      using assms(2) l None by (auto simp: stop_workers_def split: if_splits)
    ultimately show ?thesis using stop_loop_done [OF l [unfolded None]] lg timed by (simp add: nth_mem)
  next
    case (Some e)
    from stop_loop_escape [OF l [unfolded Some]] obtain k where k: "k < length ws"
      "communicated lg = take (Suc k) ws" "killed lg = filter timed_out (take k ws)"
      "\<forall>w \<in> set (take k ws). \<exists>lg0 lg1. stop_one pipes w lg0 = Inr lg1"
      "\<exists>v. rw_wait (ws ! k) = WaitExited 0 (Json v) \<and> checked_output pipes (ws ! k) v = Inl e" "escapes e"
      using lg by auto
    have "\<forall>w \<in> set (take k ws). worker_escape w = None"
    proof
      fix w assume w: "w \<in> set (take k ws)"
      then obtain lg0 lg1 where "stop_one pipes w lg0 = Inr lg1" using k(4) by blast
      with one [OF in_set_takeD [OF w]] show "worker_escape w = None"
        by (metis Inl_Inr_False not_None_eq)
    qed
    note before = this
    have "stop_one pipes (ws ! k) ?lg0 = Inl e"
      using k(5,6) by (cases e) (auto simp: stop_one_def Let_def)
    then have esc: "worker_escape (ws ! k) = Some e" using one [OF nth_mem [OF k(1)]] by blast
    have res: "result = Inl e" using assms(2) l Some by (simp add: stop_workers_def)
    have same: "j = k" if "j < length ws" "worker_escape (ws ! j) = Some e'"
      "\<forall>w \<in> set (take j ws). worker_escape w = None" for j e'
      by (rule first_unique [of j ws worker_escape k]) (use that k(1) before esc in simp_all)
    have "\<not> (\<forall>w \<in> set ws. worker_escape w = None)" using esc nth_mem [OF k(1)] by fastforce
    moreover have "result = Inl e' \<and> communicated lg = take (Suc j) ws \<and>
        killed lg = filter (\<lambda>w. rw_wait w = WaitTimedOut) (take j ws)"
      if j: "j < length ws" "worker_escape (ws ! j) = Some e'" "\<forall>w \<in> set (take j ws). worker_escape w = None" for j e'
      using j(2) esc res k(2,3) unfolding same [OF j] timed by simp
    ultimately show ?thesis by blast
  qed
qed

text \<open>Two outputs that escape: the number 1, and the complete result with a period of \<open>2 ^ 1024\<close> ms.\<close>

definition huge_period_result :: pydict where
  "huge_period_result =
     (case dget example_result ''config'' of
        VDict c \<Rightarrow> dset ''config'' (VDict (dset ''period_ms'' (VInt (2 ^ 1024)) c)) example_result | _ \<Rightarrow> [])"

lemma float_of_huge: "float_of_int (2 ^ 1024) = Inl OverflowError"
proof -
  have "(2 ^ 1024 :: rat) = of_int 1 * pow2 1024 \<and> \<bar>1::int\<bar> \<le> 2 ^ 53 \<and> -1074 \<le> (1024::int)"
    by (simp add: pow2_def)
  then have "representable (2 ^ 1024)" unfolding representable_def by blast
  from rnd_representable [OF this] have "fl (2 ^ 1024) = PInf" by (simp add: fl_def Let_def)
  then show ?thesis by (simp add: float_of_int_def)
qed

lemma huge_period_escapes: "escape_of example_worker (VDict huge_period_result) = Some OverflowError"
proof -
  obtain c where c: "dget huge_period_result ''config'' = VDict c" "map_of c ''period_ms'' = Some (VInt (2 ^ 1024))"
    "reaches_period_test example_worker huge_period_result c"
    by (simp add: huge_period_result_def example_result_def dget_def reaches_period_test_def fits_def
        worker_environment_def worker_gpu_def gpu_name_def granted_sms_def model_of_modality_def
        example_worker_def example_action_def feq_def)
  then show ?thesis by (simp add: escape_of_def float_of_huge del: power_numeral)
qed

theorem stop_workers_reaps_unless_escape_witness:
  "let stuck = example_worker\<lparr>rw_wait := WaitTimedOut\<rparr>;
       stop = (\<lambda>v. stop_workers [stuck, example_worker\<lparr>rw_wait := WaitExited 0 (Json v)\<rparr>, stuck] True [])
   in snd (stop (VInt 1)) = Inl AttributeError \<and>
      snd (stop (VDict huge_period_result)) = Inl OverflowError \<and>
      communicated (fst (stop (VInt 1))) =
        [stuck, example_worker\<lparr>rw_wait := WaitExited 0 (Json (VInt 1))\<rparr>] \<and>
      killed (fst (stop (VInt 1))) = [stuck]"
proof -
  let ?stuck = "example_worker\<lparr>rw_wait := WaitTimedOut\<rparr>"
  let ?ws = "\<lambda>v. [?stuck, example_worker\<lparr>rw_wait := WaitExited 0 (Json v)\<rparr>, ?stuck]"
  have m: "\<forall>w \<in> set (?ws v). modality (rw_action w) \<in> set MODALITIES" for v
    by (simp add: example_worker_def example_action_def MODALITIES_def)
  have same: "escape_of (w\<lparr>rw_wait := x\<rparr>) v = escape_of w v" for w x v
    by (simp add: escape_of_def reaches_period_test_def worker_environment_def worker_gpu_def
        split: pyval.splits option.splits)
  have all: "snd (stop_workers (?ws v) True []) = Inl e \<and>
      communicated (fst (stop_workers (?ws v) True [])) = take (Suc 1) (?ws v) \<and>
      killed (fst (stop_workers (?ws v) True [])) = filter (\<lambda>w. rw_wait w = WaitTimedOut) (take 1 (?ws v))"
    if "escape_of example_worker v = Some e" for v e
    by (rule stop_workers_reaps_unless_escape [OF m prod.collapse [symmetric], THEN conjunct2, rule_format])
      (use that same in \<open>simp_all add: worker_escape_def\<close>)
  have "escape_of example_worker (VInt 1) = Some AttributeError" by (simp add: escape_of_def)
  from all [OF this] all [OF huge_period_escapes] show ?thesis unfolding Let_def by simp
qed

text \<open>
  The counts an epoch reports agree with each other: for the results \<open>stop_workers\<close> returns for the workers
  of a governed plan, the completed requests by placement, by modality and by tenant have the same total,
  the total over all results.
\<close>

lemma epoch_work_is_consistent:
  assumes "feedback_inv s" and "set offered \<subseteq> set MODALITIES"
    and "plan_for policy offered s bq = Inr p" and "policy \<in> set POLICIES"
    and "map rw_action ws = actions p" and "stop_workers ws False pipes = (lg, Inr outs)"
    and "epoch_work_of p outs = Inr w"
  shows "resident_completed w + borrower_completed w = total_work outs \<and>
    completed_language w + completed_audio w = total_work outs \<and>
    sum_list (map snd (completed_tenants w)) = total_work outs"
proof -
  define n where "n = admitted_count offered s"
  define nb where "nb = share_borrowers policy s n"
  have p: "p = plan_of offered (share_quota policy s) bq (n - nb) n"
    using plan_for_inv [OF assms(1,4), of offered bq] assms(3) by (simp add: n_def nb_def Let_def)
  have n: "n \<le> length offered" by (simp add: n_def admitted_count_le)
  have tags: "list_all2 tagged (actions p) outs" using stop_workers_tagged [OF assms(6)] assms(5) by simp
  have ids: "map tenant_id (actions p) = map int [0..<n]" "map modality (actions p) = take n offered"
    using plan_of_actions [OF diff_le_self n, of "share_quota policy s" bq nb] by (simp_all add: p)
  have place: "\<forall>a \<in> set (actions p). placement a = ''resident-1g'' \<or> placement a = ''borrower-2g''"
    by (auto simp: p actions_def plan_of_def)
  have modal: "\<forall>a \<in> set (actions p). modality a = ''language'' \<or> modality a = ''audio''"
  proof
    fix a assume "a \<in> set (actions p)"
    then have "modality a \<in> set (take n offered)" using ids(2) by (metis image_eqI list.set_map)
    with assms(2) set_take_subset [of n offered] show "modality a = ''language'' \<or> modality a = ''audio''"
      by (auto simp: MODALITIES_def)
  qed
  have size: "int (length (residents p) + length (borrowers p)) = int n"
    using arg_cong [OF ids(1), of length] by (simp add: actions_def)
  obtain r b l a ts where w: "completed_by outs ''placement'' ''resident-1g'' = Inr r"
    "completed_by outs ''placement'' ''borrower-2g'' = Inr b" "completed_by outs ''modality'' ''language'' = Inr l"
    "completed_by outs ''modality'' ''audio'' = Inr a"
    "map_res (\<lambda>t. bnd (completed_by_tenant outs t) (\<lambda>m. Inr (t, m))) [0..int n - 1] = Inr ts"
    "w = \<lparr>resident_completed = r, borrower_completed = b, completed_language = l, completed_audio = a,
      completed_tenants = ts\<rparr>"
    using assms(7) unfolding epoch_work_of_def size by (auto simp: bnd_eq_Inr simp del: map_res_eq_Inr)
  have "r + b = total_work outs"
    by (rule work_split [OF tags tagged_list(1) [OF tags] place _ w(1,2)]) simp
  moreover have "l + a = total_work outs"
    by (rule work_split [OF tags tagged_list(2) [OF tags] modal _ w(3,4)]) simp
  moreover have "sum_list (map snd ts) = total_work outs" by (rule work_by_tenant [OF tags ids(1) w(5)])
  ultimately show ?thesis by (simp add: w(6))
qed

text \<open>A governed plan with the example worker as its only resident.\<close>

definition one_resident :: feedback where
  "one_resident = initial_feedback\<lparr>resident_admission_limit := 1, resident_quota_index := 1\<rparr>"

lemma epoch_work_is_consistent_witness:
  "\<exists>w. epoch_work_of \<lparr>residents = [example_action], borrowers = []\<rparr>
      [tag_result example_action example_result] = Inr w \<and>
    resident_completed w + borrower_completed w = 40 \<and> sum_list (map snd (completed_tenants w)) = 40"
proof -
  have inv: "feedback_inv one_resident" by (simp add: feedback_inv_def one_resident_def initial_feedback_def)
  have plan: "plan_for ''mig-governor'' [''audio''] one_resident 100 = Inr \<lparr>residents = [example_action], borrowers = []\<rparr>"
    by (simp add: plan_eval one_resident_def initial_feedback_def example_action_def min_def)
  have acts: "map rw_action [example_worker] = actions \<lparr>residents = [example_action], borrowers = []\<rparr>"
    by (simp add: example_worker_def actions_def)
  obtain w where w: "epoch_work_of \<lparr>residents = [example_action], borrowers = []\<rparr>
      [tag_result example_action example_result] = Inr w"
    by (simp add: epoch_work_of_def completed_by_def completed_by_tenant_def completed_requests_def
        tag_result_def action_fields_def example_action_def example_result_def dindex_def worker_def upto_rec1)
  have "total_work [tag_result example_action example_result] = 40"
    by (simp add: total_work_def work_def completed_requests_def tag_result_def action_fields_def
        example_result_def dindex_def)
  with epoch_work_is_consistent [OF inv _ plan _ acts example_stop w] w show ?thesis
    by (auto simp: MODALITIES_def POLICIES_def)
qed

end
