(* ===== verification/AuditWorkers.thy ===== *)
theory AuditWorkers
  imports AuditReplay SlackWorkers
begin

text \<open>
  The replay of the pressure workers in \<open>analysis/summarize_mig_slack_governor.py\<close>: the dependency edges
  an epoch must record, the execution environment of a process, the readiness barrier, and
  \<open>replay_workers\<close>, which recomputes every count and rate of an epoch from the workers' own results.
  Comparing an engine file with its frozen digest is a parameter.
\<close>

section \<open>Dependency edges\<close>

definition expected_dependency_edges :: "string \<Rightarrow> string list \<Rightarrow> identity list \<Rightarrow> (int \<times> int) list" where
  "expected_dependency_edges name offered ids =
     (if name = ''dependent'' then
        map (\<lambda>(t, m). (int t - 1, int t))
          (filter (\<lambda>(t, m). m = ''language'' \<and> 0 < t \<and> offered ! (t - 1) = ''audio'' \<and>
               int t - 1 \<in> fst ` set ids \<and> int t \<in> fst ` set ids) (enumerate 0 offered))
      else [])"

lemma filter_enumerate:
  "map (\<lambda>(t, m). f t) (filter (\<lambda>(t, m). P t m) (enumerate 0 xs)) =
   map f (filter (\<lambda>t. P t (xs ! t)) [0..<length xs])"
proof -
  have "enumerate 0 xs = map (\<lambda>t. (t, xs ! t)) [0..<length xs]"
    by (auto intro: nth_equalityI simp: nth_enumerate_eq)
  then show ?thesis by (simp add: filter_map comp_def)
qed

lemma edges_of_plan:
  assumes "fst ` set ids = int ` {..<n}" and "n \<le> length offered"
  shows "expected_dependency_edges ''dependent'' offered ids =
    map (\<lambda>i. (int i - 1, int i)) (filter (language_after_audio offered) [0..<n])"
proof -
  have mem: "int t - 1 \<in> fst ` set ids \<and> int t \<in> fst ` set ids \<longleftrightarrow> t < n" if "0 < t" for t
    using that unfolding assms(1) by (auto simp: image_iff intro: bexI [of _ "t - 1"])
  have "expected_dependency_edges ''dependent'' offered ids =
      map (\<lambda>i. (int i - 1, int i)) (filter (\<lambda>t. language_after_audio offered t \<and> t < n) [0..<length offered])"
    unfolding expected_dependency_edges_def
    by (simp add: filter_enumerate) (rule arg_cong [of _ _ "map _"], rule filter_cong, use mem in \<open>auto simp: language_after_audio_def\<close>)
  also have "filter (\<lambda>t. language_after_audio offered t \<and> t < n) [0..<length offered] =
      filter (language_after_audio offered) [0..<n]"
  proof -
    have "[0..<length offered] = [0..<n] @ [n..<length offered]"
      using assms(2) upt_add_eq_append [of 0 n "length offered - n"] by simp
    then show ?thesis by (auto simp: filter_empty_conv intro: filter_cong)
  qed
  finally show ?thesis .
qed

lemma map_of_distinct_rev:
  "distinct (map fst xs) \<Longrightarrow> (k, v) \<in> set xs \<Longrightarrow> map_of (rev xs) k = Some v"
  by (rule map_of_is_SomeI) (simp_all add: rev_map [symmetric])

text \<open>Pipes between neighbours: no end is used twice, and each worker finds its own.\<close>

lemma pipe_ends:
  assumes "map edge_of pipes = map (\<lambda>i. (int i - 1, int i)) (filter P [0..<n])"
  shows "distinct (map upstream_tenant_id pipes) \<and> distinct (map downstream_tenant_id pipes) \<and>
    (\<forall>q \<in> set pipes. upstream_tenant_id q = downstream_tenant_id q - 1 \<and>
       wait_fd_of pipes (downstream_tenant_id q) = Some (read_fd q) \<and>
       signal_fd_of pipes (upstream_tenant_id q) = Some (write_fd q))"
proof -
  have "map upstream_tenant_id pipes = map (\<lambda>i. int i - 1) (filter P [0..<n])"
    "map downstream_tenant_id pipes = map int (filter P [0..<n])"
    using arg_cong [OF assms, of "map fst"] arg_cong [OF assms, of "map snd"]
    by (simp_all add: edge_of_def comp_def)
  then have dist: "distinct (map upstream_tenant_id pipes)" "distinct (map downstream_tenant_id pipes)"
    by (simp_all add: distinct_map inj_on_def)
  have "wait_fd_of pipes (downstream_tenant_id q) = Some (read_fd q) \<and>
      signal_fd_of pipes (upstream_tenant_id q) = Some (write_fd q)" if "q \<in> set pipes" for q
    unfolding wait_fd_of_def signal_fd_of_def
    using dist that by (auto intro!: map_of_distinct_rev simp: comp_def)
  moreover have "upstream_tenant_id q = downstream_tenant_id q - 1" if q: "q \<in> set pipes" for q
  proof -
    have "edge_of q \<in> set (map edge_of pipes)" using q by simp
    then show ?thesis unfolding assms by (auto simp: edge_of_def)
  qed
  ultimately show ?thesis using dist by blast
qed

text \<open>
  C13: the pipes and the audit agree on the dependencies of an epoch. For the plan of any policy in any
  reachable controller state, the pipes the runtime opens are, in order, the edges the audit expects
  from the offered work and the admitted tenants: one for each admitted language tenant whose
  predecessor offered audio. No tenant waits on two pipes or signals two, each downstream worker is
  started with the read end of its pipe and its upstream worker with the write end, and a failing
  \<open>os.pipe\<close> leaves no descriptor open.
\<close>

theorem dependency_edges_agree:
  assumes "feedback_inv s" and "policy \<in> set POLICIES" and "plan_for policy offered s bq = Inr p"
  shows "case dependency_pipes_for_plan p name answers of
      (Inr pipes, shut) \<Rightarrow> shut = [] \<and>
        map edge_of pipes = expected_dependency_edges name offered (map identity (actions p)) \<and>
        distinct (map upstream_tenant_id pipes) \<and> distinct (map downstream_tenant_id pipes) \<and>
        (\<forall>q \<in> set pipes. upstream_tenant_id q = downstream_tenant_id q - 1 \<and>
           wait_fd_of pipes (downstream_tenant_id q) = Some (read_fd q) \<and>
           signal_fd_of pipes (upstream_tenant_id q) = Some (write_fd q))
    | (Inl e, shut) \<Rightarrow>
        \<exists>fds later. answers = map Inr fds @ later \<and> (later = [] \<or> (\<exists>e' l. later = Inl e' # l)) \<and>
          shut = concat (map (\<lambda>(r, w). [r, w]) fds)"
proof -
  define n where "n = admitted_count offered s"
  define nb where "nb = share_borrowers policy s n"
  have p: "p = plan_of offered (share_quota policy s) bq (n - nb) n"
    using plan_for_inv [OF assms(1,2), of offered bq] assms(3) by (simp add: n_def nb_def Let_def)
  have n: "n \<le> length offered" by (simp add: n_def admitted_count_le)
  have "map tenant_id (actions p) = map int [0..<n]"
    using plan_of_actions [OF diff_le_self n] by (simp add: p)
  moreover have "fst ` set (map identity (actions p)) = set (map tenant_id (actions p))"
    by (simp add: identity_def image_image)
  ultimately have "fst ` set (map identity (actions p)) = int ` {..<n}" by (simp add: atLeast_upt)
  note edges = edges_of_plan [OF this n]
  show ?thesis
  proof (cases "name = ''dependent''")
    case False
    then show ?thesis by (simp add: dependency_pipes_for_plan_def expected_dependency_edges_def)
  next
    case True
    obtain r shut where run: "open_pipes (actions p) answers (actions p) [] = (r, shut)"
      by (cases "open_pipes (actions p) answers (actions p) []")
    show ?thesis
    proof (cases r)
      case (Inl e)
      with run True open_pipes_failed [of "actions p" answers "actions p" "[]" e shut] show ?thesis
        by (simp add: dependency_pipes_for_plan_def close_dependency_pipes_def)
    next
      case (Inr pipes)
      let ?is = "filter (language_after_audio offered) [0..<n]"
      have e: "shut = []" "map edge_of pipes = map (\<lambda>i. (int i - 1, int i)) ?is"
        using open_pipes_ok [OF run [unfolded Inr]] plan_edges_of_plan [OF diff_le_self]
        by (simp_all add: p)
      show ?thesis
        using run Inr True e edges pipe_ends [OF e(2)]
        by (simp add: dependency_pipes_for_plan_def) (metis (no_types))
    qed
  qed
qed

definition pair_plan :: placement_plan where
  "pair_plan = \<lparr>residents = [worker ''resident-1g'' 100 0 ''audio''],
    borrowers = [worker ''borrower-2g'' 100 1 ''language'']\<rparr>"

theorem dependency_edges_agree_witness:
  "\<exists>pipes. dependency_pipes_for_plan pair_plan ''dependent'' [Inr (3, 4)] = (Inr pipes, []) \<and>
    map edge_of pipes = [(0, 1)] \<and>
    expected_dependency_edges ''dependent'' [''audio'', ''language''] (map identity (actions pair_plan)) = [(0, 1)]"
proof -
  have plan: "plan_for ''mig-governor'' [''audio'', ''language''] initial_feedback 100 = Inr pair_plan"
    by (simp add: plan_eval initial_feedback_def pair_plan_def)
  have run: "dependency_pipes_for_plan pair_plan ''dependent'' [Inr (3, 4)] =
      (Inr [\<lparr>upstream_tenant_id = 0, downstream_tenant_id = 1, read_fd = 3, write_fd = 4\<rparr>], [])"
    by (simp add: dependency_pipes_for_plan_def pair_plan_def actions_def upstream_of_def action_of_tenant_def
        worker_def)
  have "''mig-governor'' \<in> set POLICIES" by (simp add: POLICIES_def)
  from dependency_edges_agree [OF feedback_inv_initial this plan, of "[Inr (3, 4)]" "''dependent''"] run
  show ?thesis by (simp add: edge_of_def)
qed

section \<open>Identities and environments\<close>

definition require :: "bool \<Rightarrow> unit res" where
  "require ok = (if ok then Inr () else Inl (ValueError ''differs from the formal run''))"

lemma require_eq [res_simps]: "require ok = Inr u \<longleftrightarrow> ok"
  by (simp add: require_def)

definition PLACEMENTS :: "string list" where
  "PLACEMENTS = [''resident-1g'', ''borrower-2g'']"

fun str_in :: "pyval \<Rightarrow> string list \<Rightarrow> string res" where
  "str_in (VStr s) xs = (if s \<in> set xs then Inr s else Inl (ValueError ''is invalid''))"
| "str_in _ xs = Inl (ValueError ''is invalid'')"

definition action_identity :: "pyval \<Rightarrow> identity res" where
  "action_identity action =
     bnd (vget action ''tenant_id'') (\<lambda>t0. bnd (strict_int t0 0) (\<lambda>t.
     bnd (vget action ''quota_percent'') (\<lambda>q0. bnd (strict_int q0 1) (\<lambda>q.
     bnd (vget action ''modality'') (\<lambda>m0. bnd (str_in m0 MODALITIES) (\<lambda>m.
     bnd (vget action ''placement'') (\<lambda>p0. bnd (str_in p0 PLACEMENTS) (\<lambda>p. Inr (t, m, p, q)))))))))"

definition expected_worker_sm_count :: "string \<Rightarrow> int \<Rightarrow> int res" where
  "expected_worker_sm_count place quota =
     (if place = ''resident-1g'' \<and> quota \<in> {25, 50, 100}
      then Inr (if quota = 25 then 2 else if quota = 50 then 4 else 8)
      else if place = ''borrower-2g'' \<and> quota = 100 then Inr 12
      else Inl (ValueError ''unsupported formal MIG quota''))"

text \<open>Where the audit has a width, it is the one the runtime computes.\<close>

lemma sm_count_granted: "expected_worker_sm_count place quota = Inr n \<Longrightarrow> n = granted_sms place quota"
  by (auto simp: expected_worker_sm_count_def granted_sms_def split: if_splits)

definition strict_ints :: "pyval list \<Rightarrow> int list res" where
  "strict_ints vs = map_res (\<lambda>v. strict_int v 0) vs"

definition validate_execution_environment :: "pyval \<Rightarrow> string \<Rightarrow> int \<Rightarrow> int list \<Rightarrow> int res" where
  "validate_execution_environment value device quota cpus =
     (case value of
        VDict d \<Rightarrow>
          bnd (require (dkeys d = {''pid'', ''cuda_visible_devices'', ''mps_active_thread_percentage'', ''cpu_affinity''})) (\<lambda>_.
          bnd (strict_int (dget d ''pid'') 1) (\<lambda>pid.
          case dget d ''cpu_affinity'' of
            VList vs \<Rightarrow>
              bnd (require (length vs = length cpus)) (\<lambda>_.
              bnd (strict_ints vs) (\<lambda>actual.
              bnd (require (dget d ''cuda_visible_devices'' = VStr device)) (\<lambda>_.
              bnd (strict_int (dget d ''mps_active_thread_percentage'') 1) (\<lambda>q.
              bnd (require (q = quota \<and> actual = cpus)) (\<lambda>_. Inr pid)))))
          | _ \<Rightarrow> Inl (ValueError ''cpu_affinity has invalid dimensions'')))
      | _ \<Rightarrow> Inl (ValueError ''invalid execution-environment fields''))"

text \<open>One thread of a process at the readiness barrier: its number, on the expected CPU alone.\<close>

definition replay_task :: "int \<Rightarrow> pyval \<Rightarrow> int set \<Rightarrow> int set res" where
  "replay_task cpu task tids =
     (case task of
        VDict d \<Rightarrow>
          bnd (require (dkeys d = {''tid'', ''cpus''})) (\<lambda>_.
          bnd (strict_int (dget d ''tid'') 1) (\<lambda>tid.
          case dget d ''cpus'' of
            VList [v] \<Rightarrow>
              bnd (require (tid \<notin> tids)) (\<lambda>_. bnd (strict_int v 0) (\<lambda>c.
              bnd (require (c = cpu)) (\<lambda>_. Inr (insert tid tids))))
          | _ \<Rightarrow> Inl (ValueError ''has invalid task affinity'')))
      | _ \<Rightarrow> Inl (ValueError ''has invalid fields''))"

definition validate_readiness_entry :: "pyval \<Rightarrow> string \<Rightarrow> int \<Rightarrow> int \<Rightarrow> int option \<Rightarrow> unit res" where
  "validate_readiness_entry value role pid cpu tenant =
     (case value of
        VDict d \<Rightarrow>
          bnd (require (dkeys d = {''role'', ''pid'', ''expected_cpu'', ''tasks''} \<union>
                 (if tenant = None then {} else {''tenant_id''}))) (\<lambda>_.
          bnd (require (dget d ''role'' = VStr role)) (\<lambda>_.
          bnd (strict_int (dget d ''pid'') 1) (\<lambda>p. bnd (require (p = pid)) (\<lambda>_.
          bnd (strict_int (dget d ''expected_cpu'') 0) (\<lambda>c. bnd (require (c = cpu)) (\<lambda>_.
          bnd (case tenant of None \<Rightarrow> Inr ()
               | Some t \<Rightarrow> bnd (strict_int (dget d ''tenant_id'') 0) (\<lambda>x. require (x = t))) (\<lambda>_.
          case dget d ''tasks'' of
            VList tasks \<Rightarrow>
              bnd (require (tasks \<noteq> [])) (\<lambda>_.
              bnd (fold_res (replay_task cpu) tasks {}) (\<lambda>tids. require (pid \<in> tids)))
          | _ \<Rightarrow> Inl (ValueError ''tasks must be non-empty''))))))))
      | _ \<Rightarrow> Inl (ValueError ''has invalid readiness-affinity fields''))"

section \<open>Worker results\<close>

text \<open>
  What the replay of one worker is given: the epoch's clocks, the critical process, the configuration
  and the MIG identifiers of the run, the dependency edges, and the check of an engine file.
\<close>

record replay_context =
  rc_config :: pydict
  rc_mig :: pydict
  rc_edges :: "(int \<times> int) list"
  rc_engine_check :: "pyval \<Rightarrow> string \<Rightarrow> string \<Rightarrow> unit res"
  rc_critical_pid :: int
  rc_release_ns :: int
  rc_start_ns :: int
  rc_end_ns :: int
  rc_cleanup_ns :: int

record worker_row =
  wr_identity :: identity
  wr_completed :: int
  wr_rate :: pyfloat
  wr_elapsed :: pyfloat
  wr_pid :: int
  wr_cpu :: int

definition SUMMARIES :: "string list" where
  "SUMMARIES = [''release_to_completion'', ''gpu_service'', ''queue_delay'', ''gate_overhead'', ''drain'', ''resume'']"

definition WORKER_FIELDS :: "string list" where
  "WORKER_FIELDS =
     [''schema_version'', ''model'', ''role'', ''engine'', ''execution_environment'', ''gpu'', ''config''] @ SUMMARIES @
     [''completed_requests'', ''throughput_per_second'', ''measurement_start_monotonic_ns'',
      ''measurement_end_monotonic_ns'', ''elapsed_seconds'', ''deadline_misses'', ''deadline_miss_rate'',
      ''tenant_id'', ''modality'', ''placement'', ''quota_percent'']"

definition CONFIG_FIELDS :: "string list" where
  "CONFIG_FIELDS =
     [''warmup'', ''burst_size'', ''period_ms'', ''deadline_ms'', ''duration_seconds'', ''guard_ms'', ''gated_processes'',
      ''stopped_processes'', ''gate_mode'', ''start_paused'', ''include_transfers'', ''priority'',
      ''stream_priority_value'']"

definition DEPENDENCY_FIELDS :: "string list" where
  "DEPENDENCY_FIELDS = [''dependency_wait_enabled'', ''dependency_signal_enabled'']"

text \<open>The default tolerances of \<open>require_close\<close> and the tighter ones of clocks and settings.\<close>

definition close_rel :: pyfloat where "close_rel = fl (1 / 10 ^ 10)"

definition rate_tolerance :: pyfloat where "rate_tolerance = fl (1 / 10 ^ 6)"

definition clock_tolerance :: pyfloat where "clock_tolerance = fl (5 / 10 ^ 10)"

definition setting_tolerance :: pyfloat where "setting_tolerance = fl (1 / 10 ^ 9)"

definition ns_seconds :: "int \<Rightarrow> pyfloat res" where
  "ns_seconds ns = bnd (float_of_int ns) (\<lambda>x. fdiv x (Fin (10 ^ 9)))"

text \<open>The measurement window, the count and the rate of a worker.\<close>

definition replay_window :: "replay_context \<Rightarrow> pydict \<Rightarrow> (int \<times> pyfloat \<times> pyfloat) res" where
  "replay_window c w =
     bnd (strict_int (dget w ''completed_requests'') 1) (\<lambda>completed.
     bnd (strict_int (dget w ''measurement_start_monotonic_ns'') 0) (\<lambda>start.
     bnd (strict_int (dget w ''measurement_end_monotonic_ns'') 0) (\<lambda>finish.
     bnd (require (rc_release_ns c \<le> start \<and> start \<le> rc_start_ns c \<and> rc_start_ns c < rc_end_ns c \<and>
            rc_end_ns c \<le> finish \<and> finish \<le> rc_cleanup_ns c)) (\<lambda>_.
     bnd (ns_seconds (finish - start)) (\<lambda>clock.
     bnd (strict_float (dget w ''elapsed_seconds'') (Some (Fin 0))) (\<lambda>elapsed.
     bnd (require (elapsed \<noteq> Fin 0)) (\<lambda>_.
     bnd (require_close (VFloat elapsed) clock clock_tolerance close_rel) (\<lambda>_.
     case dget w ''release_to_completion'' of
       VDict summary \<Rightarrow>
         bnd (strict_int (dget summary ''count'') 0) (\<lambda>n. bnd (require (n = completed)) (\<lambda>_.
         bnd (float_of_int completed) (\<lambda>x. bnd (fdiv x elapsed) (\<lambda>rate.
         bnd (require_close (dget w ''throughput_per_second'') rate rate_tolerance close_rel) (\<lambda>_.
           Inr (completed, elapsed, rate))))))
     | _ \<Rightarrow> Inl (ValueError ''completion counts differ'')))))))))"

text \<open>Dependency evidence: present and equal, or absent where nothing is expected.\<close>

definition replay_dependency :: "pydict \<Rightarrow> string \<Rightarrow> bool \<Rightarrow> unit res" where
  "replay_dependency config key expected =
     (case map_of config key of
        Some v \<Rightarrow> bnd (strict_bool v) (\<lambda>b. require (b = expected))
      | None \<Rightarrow> require (\<not> expected))"

definition replay_worker_config :: "replay_context \<Rightarrow> int \<Rightarrow> string \<Rightarrow> pyval \<Rightarrow> unit res" where
  "replay_worker_config c tenant place v =
     (case v of
        VDict config \<Rightarrow>
          bnd (require (set CONFIG_FIELDS \<subseteq> dkeys config \<and>
                 dkeys config \<subseteq> set CONFIG_FIELDS \<union> set DEPENDENCY_FIELDS)) (\<lambda>_.
          bnd (replay_dependency config ''dependency_wait_enabled'' (tenant \<in> snd ` set (rc_edges c))) (\<lambda>_.
          bnd (replay_dependency config ''dependency_signal_enabled'' (tenant \<in> fst ` set (rc_edges c))) (\<lambda>_.
          bnd (strict_int (dget (rc_config c) ''warmup'') 0) (\<lambda>warmup.
          bnd (map_res (\<lambda>(k, x). bnd (strict_int (dget config k) 0) (\<lambda>n. require (n = x)))
                 [(''warmup'', warmup), (''burst_size'', 1), (''gated_processes'', 0), (''stopped_processes'', 0),
                  (''stream_priority_value'', 0)]) (\<lambda>_.
          bnd (map_res (\<lambda>(k, x). require_close (dget config k) x setting_tolerance (Fin 0))
                 [(''period_ms'', Fin 0), (''deadline_ms'', Fin 0), (''duration_seconds'', Fin 3600),
                  (''guard_ms'', Fin 0)]) (\<lambda>_.
          bnd (strict_bool (dget config ''start_paused'')) (\<lambda>paused. bnd (require paused) (\<lambda>_.
          bnd (strict_bool (dget config ''include_transfers'')) (\<lambda>transfers.
            require (transfers \<and> dget config ''gate_mode'' = VStr ''stop'' \<and>
              dget config ''priority'' = VStr (if place = ''resident-1g'' then ''default'' else ''low'')))))))))))
      | _ \<Rightarrow> Inl (ValueError ''config has invalid fields''))"

definition mig_uuid :: "replay_context \<Rightarrow> string \<Rightarrow> string res" where
  "mig_uuid c place =
     (case dget (rc_mig c) (if place = ''resident-1g'' then ''resident_uuid'' else ''critical_uuid'') of
        VStr s \<Rightarrow> if s = [] then Inl (ValueError ''lacks an expected MIG UUID'') else Inr s
      | _ \<Rightarrow> Inl (ValueError ''lacks an expected MIG UUID''))"

definition engine_file :: "string \<Rightarrow> int \<Rightarrow> string \<Rightarrow> string" where
  "engine_file place quota model =
     (if place = ''resident-1g'' then ''mig-1g-q'' else ''mig-2g-q'') @ str_of_int quota @ ''/'' @ model @ ''.engine''"

definition artifact_key :: "string \<Rightarrow> int \<Rightarrow> string \<Rightarrow> string" where
  "artifact_key place quota model =
     (if place = ''resident-1g'' then ''resident-1g-q'' else ''borrower-2g-q'') @ str_of_int quota @ ''-'' @ model"

definition replay_worker ::
  "replay_context \<Rightarrow> pyval list \<Rightarrow> nat \<Rightarrow> pyval \<Rightarrow> identity \<Rightarrow> int set \<Rightarrow> worker_row res" where
  "replay_worker c affinity i result ident pids =
     (case result of
        VDict w \<Rightarrow> (case ident of (tenant, m, place, quota) \<Rightarrow>
          bnd (require (dkeys w = set WORKER_FIELDS)) (\<lambda>_.
          bnd (strict_int (dget w ''schema_version'') 0) (\<lambda>schema.
          bnd (require (schema = 1 \<and> dget w ''role'' = VStr ''pressure'')) (\<lambda>_.
          bnd (replay_window c w) (\<lambda>(completed, elapsed, rate).
          bnd (model_of_modality m) (\<lambda>model.
          bnd (require (dget w ''model'' = VStr model)) (\<lambda>_.
          bnd (rc_engine_check c (dget w ''engine'') (engine_file place quota model) (artifact_key place quota model)) (\<lambda>_.
          bnd (mig_uuid c place) (\<lambda>device.
          bnd (py_index affinity (int (i mod length affinity))) (\<lambda>cpu0.
          bnd (case genuine_int cpu0 of None \<Rightarrow> Inl (ValueError ''formal pressure CPU affinity is invalid'')
               | Some n \<Rightarrow> Inr n) (\<lambda>cpu.
          bnd (validate_execution_environment (dget w ''execution_environment'') device quota [cpu]) (\<lambda>pid.
          bnd (require (pid \<noteq> rc_critical_pid c \<and> pid \<notin> pids)) (\<lambda>_.
          bnd (expected_worker_sm_count place quota) (\<lambda>sms.
          bnd (require (py_eq (VDict [(''name'', VStr (gpu_name place)), (''multiprocessors'', VInt sms)]) (dget w ''gpu''))) (\<lambda>_.
          bnd (replay_worker_config c tenant place (dget w ''config'')) (\<lambda>_.
          bnd (strict_int (dget w ''deadline_misses'') 0) (\<lambda>misses.
          bnd (require (misses = 0 \<and> dget w ''deadline_miss_rate'' = VNone)) (\<lambda>_.
          bnd (map_res (\<lambda>k. case dget w k of
                 VDict s \<Rightarrow> bnd (strict_int (dget s ''count'') 0) (\<lambda>n. require (n = completed))
               | _ \<Rightarrow> Inl (ValueError ''count differs'')) SUMMARIES) (\<lambda>_.
            Inr \<lparr>wr_identity = ident, wr_completed = completed, wr_rate = rate, wr_elapsed = elapsed,
                 wr_pid = pid, wr_cpu = cpu\<rparr>)))))))))))))))))))
      | _ \<Rightarrow> Inl AttributeError)"

fun replay_rows ::
  "replay_context \<Rightarrow> pyval list \<Rightarrow> nat \<Rightarrow> (pyval \<times> identity) list \<Rightarrow> int set \<Rightarrow> worker_row list res" where
  "replay_rows c affinity i [] pids = Inr []"
| "replay_rows c affinity i ((v, ident) # rest) pids =
     bnd (replay_worker c affinity i v ident pids) (\<lambda>row.
     bnd (replay_rows c affinity (Suc i) rest (insert (wr_pid row) pids)) (\<lambda>rows. Inr (row # rows)))"

section \<open>The epoch\<close>

text \<open>The actions an epoch lists for one placement.\<close>

definition listed_actions :: "pydict \<Rightarrow> string \<Rightarrow> string \<Rightarrow> identity list res" where
  "listed_actions epoch key place =
     (case dget epoch key of
        VList vs \<Rightarrow>
          map_res (\<lambda>v. bnd (action_identity v) (\<lambda>(t, m, p, q). bnd (require (p = place)) (\<lambda>_. Inr (t, m, p, q)))) vs
      | _ \<Rightarrow> Inl (ValueError ''must be a list''))"

definition replay_identities :: "pydict \<Rightarrow> identity list \<Rightarrow> (pyval \<times> identity) list res" where
  "replay_identities epoch expected =
     (case dget epoch ''workers'' of
        VList workers \<Rightarrow>
          bnd (require (workers \<noteq> [])) (\<lambda>_.
          bnd (map_res action_identity workers) (\<lambda>ids.
          bnd (require (distinct (map fst ids))) (\<lambda>_.
          bnd (require (sort (map fst ids) = [0..int (length workers) - 1])) (\<lambda>_.
          bnd (require (ids = expected)) (\<lambda>_.
          bnd (listed_actions epoch ''resident_actions'' ''resident-1g'') (\<lambda>rs.
          bnd (listed_actions epoch ''borrower_actions'' ''borrower-2g'') (\<lambda>bs.
          bnd (require (rs @ bs = ids)) (\<lambda>_. Inr (zip workers ids)))))))))
      | _ \<Rightarrow> Inl (ValueError ''workers must be a non-empty list''))"

text \<open>\<open>config.get("cpu_affinity", {}).get(key)\<close>, a list.\<close>

definition affinity_of :: "pydict \<Rightarrow> string \<Rightarrow> pyval list res" where
  "affinity_of config key =
     (case dget_default config ''cpu_affinity'' (VDict []) of
        VDict d \<Rightarrow> (case dget d key of VList vs \<Rightarrow> Inr vs | _ \<Rightarrow> Inl (ValueError ''formal config lacks CPU affinity''))
      | _ \<Rightarrow> Inl AttributeError)"

definition replay_readiness :: "replay_context \<Rightarrow> pydict \<Rightarrow> worker_row list \<Rightarrow> unit res" where
  "replay_readiness c epoch rows =
     (case dget epoch ''readiness_affinity'' of
        VList entries \<Rightarrow>
          bnd (require (length entries = length rows + 1)) (\<lambda>_.
          bnd (map_res (\<lambda>(v, r). validate_readiness_entry v ''pressure'' (wr_pid r) (wr_cpu r)
                 (Some (fst (wr_identity r)))) (zip entries rows)) (\<lambda>_.
          bnd (affinity_of (rc_config c) ''critical'') (\<lambda>affinity.
          bnd (require (length affinity = 1)) (\<lambda>_.
          bnd (strict_int (hd affinity) 0) (\<lambda>cpu.
            validate_readiness_entry (last entries) ''critical'' (rc_critical_pid c) cpu None)))))
      | _ \<Rightarrow> Inl (ValueError ''readiness_affinity has invalid dimensions''))"

definition rows_completed :: "(identity \<Rightarrow> bool) \<Rightarrow> worker_row list \<Rightarrow> int" where
  "rows_completed P rows = sum_list (map wr_completed (filter (\<lambda>r. P (wr_identity r)) rows))"

definition rows_rate :: "(identity \<Rightarrow> bool) \<Rightarrow> worker_row list \<Rightarrow> pyfloat" where
  "rows_rate P rows = foldl fadd (Fin 0) (map wr_rate (filter (\<lambda>r. P (wr_identity r)) rows))"

definition placed :: "string \<Rightarrow> identity \<Rightarrow> bool" where
  "placed place = (\<lambda>(t, m, p, q). p = place)"

definition of_modality :: "string \<Rightarrow> identity \<Rightarrow> bool" where
  "of_modality x = (\<lambda>(t, m, p, q). m = x)"

definition expected_integers :: "int \<Rightarrow> worker_row list \<Rightarrow> (string \<times> int) list" where
  "expected_integers offered rows =
     (let active = int (length rows);
          resident = int (length (filter (\<lambda>r. placed ''resident-1g'' (wr_identity r)) rows));
          rc = rows_completed (placed ''resident-1g'') rows; bc = rows_completed (placed ''borrower-2g'') rows in
      [(''active_workers'', active), (''resident_workers'', resident), (''borrower_workers'', active - resident),
       (''rejected_tenants'', offered - active), (''resident_completed'', rc), (''borrower_completed'', bc),
       (''pressure_completed'', rc + bc)])"

definition expected_rates :: "worker_row list \<Rightarrow> (string \<times> pyfloat) list" where
  "expected_rates rows =
     (let r = rows_rate (placed ''resident-1g'') rows; b = rows_rate (placed ''borrower-2g'') rows in
      [(''resident_goodput_per_second'', r), (''borrower_goodput_per_second'', b),
       (''pressure_goodput_per_second'', foldl fadd (Fin 0) [r, b])])"

definition by_modality :: "(string \<Rightarrow> 'a) \<Rightarrow> (string \<times> 'a) list" where
  "by_modality f = map (\<lambda>m. (m, f m)) MODALITIES"

definition by_tenant :: "(worker_row \<Rightarrow> 'a) \<Rightarrow> worker_row list \<Rightarrow> (string \<times> 'a) list" where
  "by_tenant f rows = map (\<lambda>r. (str_of_int (fst (wr_identity r)), f r)) rows"

text \<open>A recorded table of rates, key by key.\<close>

definition replay_table :: "pyval \<Rightarrow> (string \<times> pyfloat) list \<Rightarrow> unit res" where
  "replay_table actual expected =
     (case actual of
        VDict d \<Rightarrow>
          bnd (require (dkeys d = fst ` set expected)) (\<lambda>_.
          bnd (map_res (\<lambda>(k, x). require_close (dget d k) x rate_tolerance close_rel) expected) (\<lambda>_. Inr ()))
      | _ \<Rightarrow> Inl (ValueError ''has invalid dimensions''))"

text \<open>\<open>statistics.median\<close>.\<close>

definition py_median :: "pyfloat list \<Rightarrow> pyfloat res" where
  "py_median xs =
     (let s = sort xs; n = length xs in
      if n = 0 then Inl (ValueError ''no median for empty data'')
      else if odd n then Inr (s ! (n div 2))
      else fdiv (fadd (s ! (n div 2 - 1)) (s ! (n div 2))) (Fin 2))"

definition spread :: "pyfloat list \<Rightarrow> pyfloat res" where
  "spread xs =
     (case xs of [] \<Rightarrow> Inl (ValueError ''max() arg is an empty sequence'')
      | v # vs \<Rightarrow> Inr (fsub (foldl fmax v vs) (foldl fmin v vs)))"

definition default_abs :: pyfloat where "default_abs = fl (1 / 10 ^ 7)"

record epoch_summary =
  es_rows :: "worker_row list"
  es_integers :: "(string \<times> int) list"
  es_rates :: "(string \<times> pyfloat) list"
  es_window :: pyfloat

definition replay_workers :: "replay_context \<Rightarrow> pydict \<Rightarrow> identity list \<Rightarrow> epoch_summary res" where
  "replay_workers c epoch expected =
     bnd (replay_identities epoch expected) (\<lambda>pairs.
     bnd (affinity_of (rc_config c) ''pressure'') (\<lambda>affinity.
     bnd (require (affinity \<noteq> [])) (\<lambda>_.
     bnd (replay_rows c affinity 0 pairs {}) (\<lambda>rows.
     bnd (replay_readiness c epoch rows) (\<lambda>_.
     case dget epoch ''offered_modalities'' of
       VList offered \<Rightarrow>
         bnd (map_res (\<lambda>v. str_in v MODALITIES) offered) (\<lambda>_.
         bnd (strict_int (dget epoch ''offered_tenants'') 0) (\<lambda>n.
         bnd (require (n = int (length offered))) (\<lambda>_.
         bnd (require (int (length rows) \<le> n)) (\<lambda>_.
         bnd (map_res (\<lambda>(k, x). bnd (strict_int (dget epoch k) 0) (\<lambda>v. require (v = x)))
                (expected_integers n rows)) (\<lambda>_.
         bnd (map_res (\<lambda>(k, x). require_close (dget epoch k) x rate_tolerance close_rel) (expected_rates rows)) (\<lambda>_.
         bnd (require (py_eq (dget epoch ''completed_by_modality'')
                (VDict (by_modality (\<lambda>m. VInt (rows_completed (of_modality m) rows)))))) (\<lambda>_.
         bnd (require (py_eq (dget epoch ''completed_by_tenant'')
                (VDict (by_tenant (\<lambda>r. VInt (wr_completed r)) rows)))) (\<lambda>_.
         bnd (replay_table (dget epoch ''goodput_by_modality'') (by_modality (\<lambda>m. rows_rate (of_modality m) rows))) (\<lambda>_.
         bnd (replay_table (dget epoch ''goodput_by_tenant'') (by_tenant wr_rate rows)) (\<lambda>_.
         bnd (py_median (map wr_elapsed rows)) (\<lambda>window.
         bnd (spread (map wr_elapsed rows)) (\<lambda>width.
         bnd (require_close (dget epoch ''worker_window_seconds'') window default_abs close_rel) (\<lambda>_.
         bnd (require_close (dget epoch ''worker_window_spread_seconds'') width default_abs close_rel) (\<lambda>_.
           Inr \<lparr>es_rows = rows, es_integers = expected_integers n rows, es_rates = expected_rates rows,
                es_window = window\<rparr>))))))))))))))
     | _ \<Rightarrow> Inl (ValueError ''offered_modalities is invalid''))))))"

section \<open>The audit and the runtime's own check\<close>

definition running_of :: "identity \<Rightarrow> worker_row \<Rightarrow> string \<Rightarrow> int \<Rightarrow> running_worker" where
  "running_of ident row device warmup =
     (case ident of (t, m, p, q) \<Rightarrow>
       \<lparr>rw_action = \<lparr>tenant_id = t, modality = m, placement = p, quota_percent = q\<rparr>, rw_pid = wr_pid row,
        rw_cpu = wr_cpu row, rw_device = device, rw_warmup = warmup, rw_period_ms = Fin 0, rw_running = False,
        rw_delivery = Delivered, rw_wait = WaitExited 0 InvalidJson\<rparr>)"

lemma strict_int_Inr [res_simps]: "strict_int v k = Inr n \<longleftrightarrow> v = VInt n \<and> k \<le> n"
  by (cases v) (auto simp: strict_int_def)

lemma strict_ints_single: "strict_ints vs = Inr [n] \<Longrightarrow> vs = [VInt n]"
  by (cases vs) (auto simp: strict_ints_def res_simps list_all2_Cons2)

lemma strict_bool_Inr [res_simps]: "strict_bool v = Inr b \<longleftrightarrow> v = VBool b"
  by (cases v) (auto simp: strict_bool_def)

lemma environment_fits:
  assumes "validate_execution_environment v device quota [cpu] = Inr pid"
  shows "fits v [(''pid'', VInt pid), (''cuda_visible_devices'', VStr device),
      (''mps_active_thread_percentage'', VInt quota), (''cpu_affinity'', VList [VInt cpu])]"
proof -
  obtain d where d: "v = VDict d" using assms by (cases v) (auto simp: validate_execution_environment_def)
  obtain xs where xs: "dget d ''cpu_affinity'' = VList xs"
    using assms unfolding d validate_execution_environment_def
    by (cases "dget d ''cpu_affinity''") (simp_all add: bnd_eq_Inr)
  have vs: "dget d ''cpu_affinity'' = VList xs" "strict_ints xs = Inr [cpu]" "dget d ''pid'' = VInt pid"
    "dget d ''cuda_visible_devices'' = VStr device" "dget d ''mps_active_thread_percentage'' = VInt quota"
    using assms xs unfolding d validate_execution_environment_def
    by (auto simp: bnd_eq_Inr require_eq strict_int_Inr)
  from strict_ints_single [OF vs(2)] vs d show ?thesis by (simp add: fits_def feq_def)
qed

lemma gpu_fits:
  assumes "py_eq (VDict [(k1, VStr s), (k2, VInt n)]) v" and "k1 \<noteq> k2"
  shows "fits v [(k1, VStr s), (k2, VInt n)]"
proof -
  obtain e where e: "v = VDict e" using assms(1) by (cases v) auto
  have look: "eq_entry k x d \<Longrightarrow> py_eq x (dget d k)" for k x d
    by (induction d) (auto simp: dget_def split: if_splits)
  have "eq_entry k1 (VStr s) e" "eq_entry k2 (VInt n) e" using assms(1) e by simp_all
  from look [OF this(1)] look [OF this(2)]
  have "py_eq (VStr s) (dget e k1)" "py_eq (VInt n) (dget e k2)" .
  moreover have "py_eq a (VInt n)" if "py_eq (VInt n) a" for a
    using that by (cases a) (auto simp: feq_def)
  ultimately show ?thesis using e by (auto simp: fits_def)
qed

lemma isclose_wider:
  assumes "isclose v x (Fin 0) t" and "isfinite v" and "isfinite x" and "isfinite t" and "fle (Fin 0) r" and "fle (Fin 0) t"
  shows "isclose v x r t"
proof -
  consider "feq v x" | "fle (fabs (fsub x v)) (Fin 0)" | "fle (fabs (fsub x v)) t"
    using assms(1-3) by (auto simp: isclose_def Let_def isfinite_Fin fl_eval)
  then have "feq v x \<or> fle (fabs (fsub x v)) t" by cases (use assms(6) fle_trans in auto)
  with assms(2,3) show ?thesis by (auto simp: isclose_def Let_def isfinite_Fin)
qed

lemma replay_worker_facts:
  assumes "replay_worker c affinity i (VDict w) (t, m, p, q) pids = Inr row"
  shows "dget w ''schema_version'' = VInt 1 \<and> dget w ''role'' = VStr ''pressure'' \<and>
    (\<exists>model. model_of_modality m = Inr model \<and> dget w ''model'' = VStr model) \<and>
    (\<exists>device. mig_uuid c p = Inr device \<and>
       validate_execution_environment (dget w ''execution_environment'') device q [wr_cpu row] = Inr (wr_pid row)) \<and>
    wr_pid row \<noteq> rc_critical_pid c \<and> wr_pid row \<notin> pids \<and>
    (\<exists>sms. expected_worker_sm_count p q = Inr sms \<and>
       py_eq (VDict [(''name'', VStr (gpu_name p)), (''multiprocessors'', VInt sms)]) (dget w ''gpu'')) \<and>
    replay_worker_config c t p (dget w ''config'') = Inr () \<and>
    replay_window c w = Inr (wr_completed row, wr_elapsed row, wr_rate row) \<and>
    py_index affinity (int (i mod length affinity)) = Inr (VInt (wr_cpu row)) \<and> wr_identity row = (t, m, p, q)"
  using assms unfolding replay_worker_def
  by (auto simp: bnd_eq_Inr require_eq strict_int_Inr split: option.splits)

definition exact_settings :: "pydict \<Rightarrow> bool" where
  "exact_settings config \<longleftrightarrow>
     py_eq (dget config ''duration_seconds'') (VInt 3600) \<and> py_eq (dget config ''deadline_ms'') (VInt 0) \<and>
     py_eq (dget config ''guard_ms'') (VInt 0)"

lemma require_close_period:
  assumes "require_close (dget config k) (Fin 0) setting_tolerance (Fin 0) = Inr ()"
  shows "\<exists>x. to_float (dget_default config k v0) = Inr x \<and> isclose x (Fin 0) SlackWorkers.nine_digits SlackWorkers.nine_digits"
proof -
  obtain x where x: "to_float (dget config k) = Inr x" "isfinite x" "isclose x (Fin 0) (Fin 0) setting_tolerance"
    and num: "is_number (dget config k)"
    using assms by (auto simp: require_close_def strict_float_def bnd_eq_Inr split: if_splits)
  have "dget_default config k v0 = dget config k"
    using num by (auto simp: dget_default_def dget_def split: option.splits)
  moreover have "isfinite setting_tolerance" "fle (Fin 0) setting_tolerance" "setting_tolerance = SlackWorkers.nine_digits"
    by (simp_all add: setting_tolerance_def SlackWorkers.nine_digits_def fl_eval)
  ultimately show ?thesis using x isclose_wider [OF x(3,2)] by auto
qed

lemma replay_config_accepted:
  assumes "replay_worker_config c t p v = Inr ()" and "v = VDict config" and "exact_settings config"
    and "dget (rc_config c) ''warmup'' = VInt warmup"
  shows "validate_worker_config v (running_of (t, m, p, q) row device warmup) = Inr ()"
proof -
  have f: "dget config ''start_paused'' = VBool True" "dget config ''include_transfers'' = VBool True"
    "dget config ''gate_mode'' = VStr ''stop''"
    "dget config ''priority'' = VStr (if p = ''resident-1g'' then ''default'' else ''low'')"
    "dget config ''warmup'' = VInt warmup" "dget config ''burst_size'' = VInt 1"
    "dget config ''gated_processes'' = VInt 0" "dget config ''stopped_processes'' = VInt 0"
    "dget config ''stream_priority_value'' = VInt 0"
    "require_close (dget config ''period_ms'') (Fin 0) setting_tolerance (Fin 0) = Inr ()"
    using assms(1,4) unfolding replay_worker_config_def assms(2)
    by (auto simp: bnd_eq_Inr require_eq strict_int_Inr strict_bool_Inr)
  from require_close_period [OF f(10)] obtain x where
    "to_float (dget_default config ''period_ms'' (VFloat (Fin (- 1)))) = Inr x"
    "isclose x (Fin 0) SlackWorkers.nine_digits SlackWorkers.nine_digits" by blast
  with f(1-9) assms(3) show ?thesis
    unfolding assms(2) validate_worker_config_def
    by (simp add: running_of_def exact_settings_def Let_def feq_def)
qed

text \<open>
  C15: the audit of a worker is at least as strict as the runtime: a worker result that the replay accepts, and
  whose duration, deadline and guard are exactly the settings (the audit allows a nanosecond scale
  tolerance), passes the runtime's own validation for a worker with the replayed identity, process, CPU
  and MIG device.
\<close>

theorem audited_worker_passes_runtime:
  assumes "replay_worker c affinity i (VDict w) (t, m, p, q) pids = Inr row"
    and "dget w ''config'' = VDict config" and "exact_settings config"
    and "dget (rc_config c) ''warmup'' = VInt warmup" and "mig_uuid c p = Inr device"
  shows "validate_worker_result (VDict w) (running_of (t, m, p, q) row device warmup) = Inr ()"
proof -
  note f = replay_worker_facts [OF assms(1)]
  obtain model where model: "model_of_modality m = Inr model" "dget w ''model'' = VStr model" using f by blast
  have env: "fits (dget w ''execution_environment'') (worker_environment (running_of (t, m, p, q) row device warmup))"
    using f assms(5) environment_fits by (auto simp: worker_environment_def running_of_def)
  obtain sms where sms: "expected_worker_sm_count p q = Inr sms"
    "py_eq (VDict [(''name'', VStr (gpu_name p)), (''multiprocessors'', VInt sms)]) (dget w ''gpu'')"
    using f by blast
  have gpu: "fits (dget w ''gpu'') (worker_gpu (running_of (t, m, p, q) row device warmup))"
    using gpu_fits [OF sms(2)] sm_count_granted [OF sms(1)] by (simp add: worker_gpu_def running_of_def)
  have config: "validate_worker_config (dget w ''config'') (running_of (t, m, p, q) row device warmup) = Inr ()"
    using replay_config_accepted [of c t p "dget w ''config''" config warmup] f assms(2-4) by blast
  have act: "modality (rw_action (running_of (t, m, p, q) row device warmup)) = m" by (simp add: running_of_def)
  from f model env gpu config show ?thesis
    unfolding validate_worker_result_def act by (simp add: feq_def)
qed

section \<open>What a replayed epoch guarantees\<close>

lemma replay_worker_dict: "replay_worker c affinity i v ident pids = Inr row \<Longrightarrow> \<exists>w. v = VDict w"
  by (cases v) (auto simp: replay_worker_def)

lemma replay_rows_facts:
  assumes "replay_rows c affinity i pairs pids = Inr rows"
  shows "length rows = length pairs \<and> distinct (map wr_pid rows) \<and> rc_critical_pid c \<notin> wr_pid ` set rows \<and>
    wr_pid ` set rows \<inter> pids = {} \<and> map wr_identity rows = map snd pairs \<and>
    (\<forall>j < length rows. \<exists>ps. replay_worker c affinity (i + j) (fst (pairs ! j)) (snd (pairs ! j)) ps = Inr (rows ! j))"
  using assms
proof (induction c affinity i pairs pids arbitrary: rows rule: replay_rows.induct)
  case (2 c affinity i v ident rest pids)
  obtain row rows' where r: "replay_worker c affinity i v ident pids = Inr row"
    "replay_rows c affinity (Suc i) rest (insert (wr_pid row) pids) = Inr rows'" "rows = row # rows'"
    using "2.prems" by (auto simp: bnd_eq_Inr)
  obtain w where w: "v = VDict w" using replay_worker_dict [OF r(1)] by blast
  obtain t m p q where ident: "ident = (t, m, p, q)" by (cases ident) auto
  note f = replay_worker_facts [OF r(1) [unfolded w ident]]
  note IH = "2.IH" [OF r(1,2)]
  have "\<exists>ps. replay_worker c affinity (i + j) (fst (((v, ident) # rest) ! j)) (snd (((v, ident) # rest) ! j)) ps =
      Inr (rows ! j)" if "j < length rows" for j
    using that IH r by (cases j) auto
  with f IH r(3) ident show ?case by auto
qed simp

lemma action_identity_placed: "action_identity v = Inr (t, m, p, q) \<Longrightarrow> p \<in> set PLACEMENTS \<and> m \<in> set MODALITIES"
proof -
  have s: "str_in x xs = Inr y \<Longrightarrow> y \<in> set xs" for x xs y
    by (cases x) (auto split: if_splits)
  assume "action_identity v = Inr (t, m, p, q)"
  then show ?thesis by (auto simp: action_identity_def bnd_eq_Inr dest: s)
qed

lemma replay_identities_facts:
  assumes "replay_identities epoch expected = Inr pairs"
  shows "\<exists>workers. dget epoch ''workers'' = VList workers \<and> workers \<noteq> [] \<and> map fst pairs = workers \<and>
    map snd pairs = expected \<and>
    (\<forall>(t, m, p, q) \<in> set expected. p \<in> set PLACEMENTS \<and> m \<in> set MODALITIES)"
proof -
  obtain workers where w: "dget epoch ''workers'' = VList workers"
    using assms by (cases "dget epoch ''workers''") (auto simp: replay_identities_def)
  then have e: "workers \<noteq> []" "map_res action_identity workers = Inr expected" "pairs = zip workers expected"
    using assms unfolding replay_identities_def by (auto simp: bnd_eq_Inr require_eq)
  have "length workers = length expected" using e(2) by (auto simp: map_res_eq_Inr list_all2_lengthD)
  moreover have "\<forall>(t, m, p, q) \<in> set expected. p \<in> set PLACEMENTS \<and> m \<in> set MODALITIES"
    using map_res_mem [OF e(2)] action_identity_placed by blast
  ultimately show ?thesis using w e by auto
qed

lemma rows_completed_split:
  assumes "\<forall>r \<in> set rows. (P (wr_identity r) \<or> Q (wr_identity r)) \<and> \<not> (P (wr_identity r) \<and> Q (wr_identity r))"
  shows "rows_completed P rows + rows_completed Q rows = sum_list (map wr_completed rows)"
  using assms by (induction rows) (auto simp: rows_completed_def)

lemma replay_window_covers:
  assumes "replay_window c w = Inr x"
  shows "\<exists>a b. dget w ''measurement_start_monotonic_ns'' = VInt a \<and> dget w ''measurement_end_monotonic_ns'' = VInt b \<and>
    rc_release_ns c \<le> a \<and> a \<le> rc_start_ns c \<and> rc_start_ns c < rc_end_ns c \<and> rc_end_ns c \<le> b \<and>
    b \<le> rc_cleanup_ns c"
  using assms unfolding replay_window_def by (auto simp: bnd_eq_Inr require_eq strict_int_Inr)

lemma replay_workers_parts:
  assumes "replay_workers c epoch expected = Inr s"
  shows "\<exists>pairs affinity rows n. replay_identities epoch expected = Inr pairs \<and>
      affinity_of (rc_config c) ''pressure'' = Inr affinity \<and> replay_rows c affinity 0 pairs {} = Inr rows \<and>
      int (length rows) \<le> n \<and> es_rows s = rows \<and> es_integers s = expected_integers n rows"
proof (cases "dget epoch ''offered_modalities''")
  case (VList offered)
  with assms show ?thesis unfolding replay_workers_def
    by (auto simp: bnd_eq_Inr require_eq) (intro exI [of _ "int (length offered)"], simp)
qed (use assms in \<open>auto simp: replay_workers_def bnd_eq_Inr\<close>)

lemma environment_reported:
  assumes "validate_execution_environment v device q [cpu] = Inr pid"
  shows "\<exists>env. v = VDict env \<and> dget env ''pid'' = VInt pid \<and> dget env ''cuda_visible_devices'' = VStr device \<and>
    dget env ''mps_active_thread_percentage'' = VInt q \<and> dget env ''cpu_affinity'' = VList [VInt cpu]"
proof -
  obtain env where v: "v = VDict env" using assms by (cases v) (auto simp: validate_execution_environment_def)
  obtain vs where vs: "dget env ''cpu_affinity'' = VList vs"
    using assms by (cases "dget env ''cpu_affinity''") (auto simp: validate_execution_environment_def v bnd_eq_Inr)
  have "strict_ints vs = Inr [cpu]" "dget env ''pid'' = VInt pid" "dget env ''cuda_visible_devices'' = VStr device"
    "dget env ''mps_active_thread_percentage'' = VInt q"
    using assms unfolding validate_execution_environment_def v by (auto simp: bnd_eq_Inr require_eq strict_int_Inr vs)
  with strict_ints_single v vs show ?thesis by blast
qed

lemma replayed_worker_window:
  assumes "replay_rows c affinity 0 pairs {} = Inr rows" and "map fst pairs = workers" and i: "i < length workers"
  shows "\<exists>w env t m p q device a b. workers ! i = VDict w \<and> wr_identity (rows ! i) = (t, m, p, q) \<and>
      dget w ''execution_environment'' = VDict env \<and> dget env ''pid'' = VInt (wr_pid (rows ! i)) \<and>
      mig_uuid c p = Inr device \<and> dget env ''cuda_visible_devices'' = VStr device \<and>
      dget env ''mps_active_thread_percentage'' = VInt q \<and>
      dget env ''cpu_affinity'' = VList [VInt (wr_cpu (rows ! i))] \<and>
      py_index affinity (int (i mod length affinity)) = Inr (VInt (wr_cpu (rows ! i))) \<and>
      dget w ''measurement_start_monotonic_ns'' = VInt a \<and> dget w ''measurement_end_monotonic_ns'' = VInt b \<and>
      rc_release_ns c \<le> a \<and> a \<le> rc_start_ns c \<and> rc_start_ns c < rc_end_ns c \<and> rc_end_ns c \<le> b \<and>
      b \<le> rc_cleanup_ns c"
proof -
  note f = replay_rows_facts [OF assms(1)]
  have len: "length workers = length rows" "length pairs = length rows" using f assms(2) by auto
  obtain ps where rw: "replay_worker c affinity i (fst (pairs ! i)) (snd (pairs ! i)) ps = Inr (rows ! i)"
    using f i len by auto
  have fst: "fst (pairs ! i) = workers ! i" using assms(2) i len by auto
  with rw replay_worker_dict [OF rw] obtain d where d: "workers ! i = VDict d" by auto
  obtain t m p q where "snd (pairs ! i) = (t, m, p, q)" by (cases "snd (pairs ! i)") auto
  with rw d fst have "replay_worker c affinity i (VDict d) (t, m, p, q) ps = Inr (rows ! i)" by simp
  note facts = replay_worker_facts [OF this]
  obtain device where device: "mig_uuid c p = Inr device"
    "validate_execution_environment (dget d ''execution_environment'') device q [wr_cpu (rows ! i)] =
      Inr (wr_pid (rows ! i))" using facts by blast
  obtain env where env: "dget d ''execution_environment'' = VDict env" "dget env ''pid'' = VInt (wr_pid (rows ! i))"
    "dget env ''cuda_visible_devices'' = VStr device" "dget env ''mps_active_thread_percentage'' = VInt q"
    "dget env ''cpu_affinity'' = VList [VInt (wr_cpu (rows ! i))]"
    using environment_reported [OF device(2)] by blast
  have "replay_window c d = Inr (wr_completed (rows ! i), wr_elapsed (rows ! i), wr_rate (rows ! i))"
    "py_index affinity (int (i mod length affinity)) = Inr (VInt (wr_cpu (rows ! i)))"
    "wr_identity (rows ! i) = (t, m, p, q)" using facts by blast+
  with d device(1) env replay_window_covers [OF this(1)] show ?thesis by blast
qed

text \<open>
  C14: an epoch whose workers the audit accepts ran exactly the expected plan: its results are, in order, the
  workers of the plan. Each worker's own record of its execution environment shows the MIG device of its
  placement, its quota, one CPU, which is the one dealt to it round-robin from the pressure list, and a
  process that differs from the others and from the critical one; and each was measured over a window
  that covers the whole critical window and lies between release and cleanup. The totals it records are conserved: completed requests summed
  over placements, over modalities and over workers agree, and no more workers ran than were offered.
\<close>

theorem replayed_workers_are_sound:
  assumes "replay_workers c epoch expected = Inr s"
  shows "map wr_identity (es_rows s) = expected \<and> expected \<noteq> [] \<and>
    distinct (rc_critical_pid c # map wr_pid (es_rows s)) \<and>
    (\<exists>workers affinity. dget epoch ''workers'' = VList workers \<and> length workers = length (es_rows s) \<and>
       affinity_of (rc_config c) ''pressure'' = Inr affinity \<and>
       (\<forall>i < length workers. \<exists>w env t m p q device a b. workers ! i = VDict w \<and> expected ! i = (t, m, p, q) \<and>
          dget w ''execution_environment'' = VDict env \<and> dget env ''pid'' = VInt (wr_pid (es_rows s ! i)) \<and>
          mig_uuid c p = Inr device \<and> dget env ''cuda_visible_devices'' = VStr device \<and>
          dget env ''mps_active_thread_percentage'' = VInt q \<and>
          dget env ''cpu_affinity'' = VList [VInt (wr_cpu (es_rows s ! i))] \<and>
          py_index affinity (int (i mod length affinity)) = Inr (VInt (wr_cpu (es_rows s ! i))) \<and>
          dget w ''measurement_start_monotonic_ns'' = VInt a \<and> dget w ''measurement_end_monotonic_ns'' = VInt b \<and>
          rc_release_ns c \<le> a \<and> a \<le> rc_start_ns c \<and> rc_start_ns c < rc_end_ns c \<and> rc_end_ns c \<le> b \<and>
          b \<le> rc_cleanup_ns c)) \<and>
    (\<exists>r b n. map_of (es_integers s) ''resident_completed'' = Some r \<and>
       map_of (es_integers s) ''borrower_completed'' = Some b \<and>
       map_of (es_integers s) ''pressure_completed'' = Some (r + b) \<and>
       r + b = sum_list (map wr_completed (es_rows s)) \<and>
       r + b = rows_completed (of_modality ''language'') (es_rows s) + rows_completed (of_modality ''audio'') (es_rows s) \<and>
       map_of (es_integers s) ''rejected_tenants'' = Some n \<and> 0 \<le> n)"
proof -
  from replay_workers_parts [OF assms]
  obtain pairs affinity rows n where r: "replay_identities epoch expected = Inr pairs"
    "affinity_of (rc_config c) ''pressure'' = Inr affinity" "replay_rows c affinity 0 pairs {} = Inr rows"
    "int (length rows) \<le> n" "es_rows s = rows" "es_integers s = expected_integers n rows" by blast
  obtain workers where w: "dget epoch ''workers'' = VList workers" "workers \<noteq> []" "map fst pairs = workers"
    "map snd pairs = expected" "\<forall>(t, m, p, q) \<in> set expected. p \<in> set PLACEMENTS \<and> m \<in> set MODALITIES"
    using replay_identities_facts [OF r(1)] by blast
  note f = replay_rows_facts [OF r(3)]
  have len: "length workers = length rows" "length pairs = length rows" using f w(3) by auto
  have ids: "map wr_identity rows = expected" using f w(4) by simp
  have nth: "wr_identity (rows ! i) = expected ! i" if "i < length workers" for i
    using that len unfolding ids [symmetric] by simp
  have each: "\<exists>w env t m p q device a b. workers ! i = VDict w \<and> expected ! i = (t, m, p, q) \<and>
      dget w ''execution_environment'' = VDict env \<and> dget env ''pid'' = VInt (wr_pid (es_rows s ! i)) \<and>
      mig_uuid c p = Inr device \<and> dget env ''cuda_visible_devices'' = VStr device \<and>
      dget env ''mps_active_thread_percentage'' = VInt q \<and>
      dget env ''cpu_affinity'' = VList [VInt (wr_cpu (es_rows s ! i))] \<and>
      py_index affinity (int (i mod length affinity)) = Inr (VInt (wr_cpu (es_rows s ! i))) \<and>
      dget w ''measurement_start_monotonic_ns'' = VInt a \<and> dget w ''measurement_end_monotonic_ns'' = VInt b \<and>
      rc_release_ns c \<le> a \<and> a \<le> rc_start_ns c \<and> rc_start_ns c < rc_end_ns c \<and> rc_end_ns c \<le> b \<and>
      b \<le> rc_cleanup_ns c" if i: "i < length workers" for i
    unfolding r(5) by (rule replayed_worker_window [OF r(3) w(3) i, unfolded nth [OF i]])
  have dom: "\<forall>x \<in> set rows. case wr_identity x of (t, m, p, q) \<Rightarrow> p \<in> set PLACEMENTS \<and> m \<in> set MODALITIES"
    using w(5) unfolding ids [symmetric] by auto
  have "rows_completed (placed ''resident-1g'') rows + rows_completed (placed ''borrower-2g'') rows =
      sum_list (map wr_completed rows)"
    by (rule rows_completed_split) (use dom in \<open>auto simp: placed_def PLACEMENTS_def split: prod.splits\<close>)
  moreover have "rows_completed (of_modality ''language'') rows + rows_completed (of_modality ''audio'') rows =
      sum_list (map wr_completed rows)"
    by (rule rows_completed_split) (use dom in \<open>auto simp: of_modality_def MODALITIES_def split: prod.splits\<close>)
  ultimately have totals: "\<exists>r b k. map_of (es_integers s) ''resident_completed'' = Some r \<and>
       map_of (es_integers s) ''borrower_completed'' = Some b \<and>
       map_of (es_integers s) ''pressure_completed'' = Some (r + b) \<and>
       r + b = sum_list (map wr_completed (es_rows s)) \<and>
       r + b = rows_completed (of_modality ''language'') (es_rows s) + rows_completed (of_modality ''audio'') (es_rows s) \<and>
       map_of (es_integers s) ''rejected_tenants'' = Some k \<and> 0 \<le> k"
    using r(4-6) by (simp add: expected_integers_def Let_def)
  have "expected \<noteq> []" using w(2) ids len by auto
  moreover have "map wr_identity (es_rows s) = expected" "length workers = length (es_rows s)"
    "distinct (rc_critical_pid c # map wr_pid (es_rows s))"
    using f ids len r(5) by auto
  ultimately show ?thesis using w(1) r(2) each totals by blast
qed

section \<open>A concrete epoch\<close>

definition counted :: pyval where
  "counted = VDict [(''count'', VInt 40)]"

definition audited_result :: pydict where
  "audited_result =
     [(''schema_version'', VInt 1), (''model'', VStr ''whisper-tiny-encoder''), (''role'', VStr ''pressure''),
      (''engine'', VStr ''engine''),
      (''execution_environment'', VDict
        [(''pid'', VInt 4711), (''cuda_visible_devices'', VStr ''MIG-small''),
         (''mps_active_thread_percentage'', VInt 50), (''cpu_affinity'', VList [VInt 0])]),
      (''gpu'', VDict [(''name'', VStr ''NVIDIA Thor MIG 1g.0gb''), (''multiprocessors'', VInt 4)]),
      (''config'', VDict
        [(''warmup'', VInt 100), (''burst_size'', VInt 1), (''period_ms'', VInt 0), (''deadline_ms'', VInt 0),
         (''duration_seconds'', VInt 3600), (''guard_ms'', VInt 0), (''gated_processes'', VInt 0),
         (''stopped_processes'', VInt 0), (''gate_mode'', VStr ''stop''), (''start_paused'', VBool True),
         (''include_transfers'', VBool True), (''priority'', VStr ''default''),
         (''stream_priority_value'', VInt 0)]),
      (''release_to_completion'', counted), (''gpu_service'', counted), (''queue_delay'', counted),
      (''gate_overhead'', counted), (''drain'', counted), (''resume'', counted), (''completed_requests'', VInt 40),
      (''throughput_per_second'', VInt 40), (''measurement_start_monotonic_ns'', VInt 0),
      (''measurement_end_monotonic_ns'', VInt 1000000000), (''elapsed_seconds'', VInt 1),
      (''deadline_misses'', VInt 0), (''deadline_miss_rate'', VNone), (''tenant_id'', VInt 0),
      (''modality'', VStr ''audio''), (''placement'', VStr ''resident-1g''), (''quota_percent'', VInt 50)]"

definition audited_config :: pydict where
  "audited_config =
     [(''warmup'', VInt 100),
      (''cpu_affinity'', VDict [(''pressure'', VList [VInt 0, VInt 1]), (''critical'', VList [VInt 13])])]"

definition audited_context :: replay_context where
  "audited_context =
     \<lparr>rc_config = audited_config, rc_mig = [(''resident_uuid'', VStr ''MIG-small''), (''critical_uuid'', VStr ''MIG-big'')],
      rc_edges = [], rc_engine_check = (\<lambda>_ _ _. Inr ()), rc_critical_pid = 4000, rc_release_ns = 0,
      rc_start_ns = 1, rc_end_ns = 2, rc_cleanup_ns = 1000000001\<rparr>"

definition audited_row :: worker_row where
  "audited_row =
     \<lparr>wr_identity = (0, ''audio'', ''resident-1g'', 50), wr_completed = 40, wr_rate = Fin 40, wr_elapsed = Fin 1,
      wr_pid = 4711, wr_cpu = 0\<rparr>"

lemma require_True [simp]: "require True = Inr ()"
  by (simp add: require_def)

lemma isclose_same [simp]: "isclose (Fin x) (Fin x) r t"
  by (simp add: isclose_def)

lemma small_float: "\<bar>n\<bar> \<le> 2 ^ 53 \<Longrightarrow> float_of_int n = Inr (Fin (of_int n))"
  by (simp add: float_of_int_def fl_of_int)

lemma float_of_small:
  "float_of_int 0 = Inr (Fin 0)" "float_of_int 1 = Inr (Fin 1)" "float_of_int 40 = Inr (Fin 40)"
  "float_of_int 3600 = Inr (Fin 3600)" "float_of_int 1000000000 = Inr (Fin 1000000000)"
  using small_float [of 0] small_float [of 1] small_float [of 40] small_float [of 3600]
    small_float [of 1000000000] by simp_all

lemma whole_quotients: "fl 1 = Fin 1" "fl 40 = Fin 40"
  using fl_of_int [of 1] fl_of_int [of 40] by simp_all

lemma audited_window: "replay_window audited_context audited_result = Inr (40, Fin 1, Fin 40)"
  by (simp add: replay_window_def audited_context_def audited_result_def counted_def dget_def strict_int_def
      strict_float_def require_close_def ns_seconds_def float_of_small whole_quotients)

lemma audited_worker_config:
  "replay_worker_config audited_context 0 ''resident-1g'' (dget audited_result ''config'') = Inr ()"
  by (simp add: replay_worker_config_def audited_context_def audited_config_def audited_result_def dget_def
      dkeys_def CONFIG_FIELDS_def replay_dependency_def strict_int_def strict_bool_def strict_float_def
      require_close_def float_of_small)

lemma audited_replay:
  "replay_worker audited_context [VInt 0, VInt 1] 0 (VDict audited_result) (0, ''audio'', ''resident-1g'', 50) {} =
    Inr audited_row"
proof -
  have fields: "dkeys audited_result = set WORKER_FIELDS"
    unfolding audited_result_def WORKER_FIELDS_def SUMMARIES_def dkeys_def by (simp add: insert_commute)
  have env: "validate_execution_environment (dget audited_result ''execution_environment'') ''MIG-small'' 50 [0] = Inr 4711"
    by (simp add: validate_execution_environment_def audited_result_def dget_def dkeys_def strict_int_def
        strict_ints_def insert_commute)
  have counts: "map_res (\<lambda>k. case dget audited_result k of
      VDict s \<Rightarrow> bnd (strict_int (dget s ''count'') 0) (\<lambda>n. require (n = 40))
    | _ \<Rightarrow> Inl (ValueError ''count differs'')) SUMMARIES = Inr [(), (), (), (), (), ()]"
    by (simp add: SUMMARIES_def audited_result_def counted_def dget_def strict_int_def)
  have uuid: "mig_uuid audited_context ''resident-1g'' = Inr ''MIG-small''"
    by (simp add: mig_uuid_def audited_context_def dget_def)
  have ctx: "rc_critical_pid audited_context = 4000" "rc_engine_check audited_context = (\<lambda>_ _ _. Inr ())"
    by (simp_all add: audited_context_def)
  have vals: "dget audited_result ''schema_version'' = VInt 1" "dget audited_result ''role'' = VStr ''pressure''"
    "dget audited_result ''model'' = VStr ''whisper-tiny-encoder''" "dget audited_result ''deadline_misses'' = VInt 0"
    "dget audited_result ''deadline_miss_rate'' = VNone"
    "dget audited_result ''gpu'' = VDict [(''name'', VStr ''NVIDIA Thor MIG 1g.0gb''), (''multiprocessors'', VInt 4)]"
    by (simp_all add: audited_result_def dget_def)
  show ?thesis
    unfolding replay_worker_def
    by (simp add: fields audited_window audited_worker_config env counts uuid ctx vals strict_int_def
        model_of_modality_def py_index_def expected_worker_sm_count_def gpu_name_def feq_def audited_row_def)
qed

theorem audited_worker_passes_runtime_witness:
  "validate_worker_result (VDict audited_result)
     (running_of (0, ''audio'', ''resident-1g'', 50) audited_row ''MIG-small'' 100) = Inr ()"
proof -
  have "dget (rc_config audited_context) ''warmup'' = VInt 100"
    by (simp add: audited_context_def audited_config_def dget_def)
  moreover have "mig_uuid audited_context ''resident-1g'' = Inr ''MIG-small''"
    by (simp add: mig_uuid_def audited_context_def dget_def)
  moreover obtain config where "dget audited_result ''config'' = VDict config" "exact_settings config"
    by (simp add: audited_result_def dget_def exact_settings_def feq_def)
  ultimately show ?thesis using audited_worker_passes_runtime [OF audited_replay] by blast
qed

definition ready :: "string \<Rightarrow> int \<Rightarrow> int \<Rightarrow> pydict \<Rightarrow> pyval" where
  "ready role pid cpu rest =
     VDict ([(''role'', VStr role), (''pid'', VInt pid), (''expected_cpu'', VInt cpu),
       (''tasks'', VList [VDict [(''tid'', VInt pid), (''cpus'', VList [VInt cpu])]])] @ rest)"

definition audited_epoch :: pydict where
  "audited_epoch =
     [(''workers'', VList [VDict audited_result]),
      (''resident_actions'', VList [VDict
         [(''tenant_id'', VInt 0), (''modality'', VStr ''audio''), (''placement'', VStr ''resident-1g''),
          (''quota_percent'', VInt 50)]]),
      (''borrower_actions'', VList []),
      (''readiness_affinity'', VList
         [ready ''pressure'' 4711 0 [(''tenant_id'', VInt 0)], ready ''critical'' 4000 13 []]),
      (''offered_modalities'', VList [VStr ''audio'']), (''offered_tenants'', VInt 1), (''active_workers'', VInt 1),
      (''resident_workers'', VInt 1), (''borrower_workers'', VInt 0), (''rejected_tenants'', VInt 0),
      (''resident_completed'', VInt 40), (''borrower_completed'', VInt 0), (''pressure_completed'', VInt 40),
      (''resident_goodput_per_second'', VInt 40), (''borrower_goodput_per_second'', VInt 0),
      (''pressure_goodput_per_second'', VInt 40),
      (''completed_by_modality'', VDict [(''language'', VInt 0), (''audio'', VInt 40)]),
      (''completed_by_tenant'', VDict [(''0'', VInt 40)]),
      (''goodput_by_modality'', VDict [(''language'', VInt 0), (''audio'', VInt 40)]),
      (''goodput_by_tenant'', VDict [(''0'', VInt 40)]), (''worker_window_seconds'', VInt 1),
      (''worker_window_spread_seconds'', VInt 0)]"

lemma audited_pairs:
  "replay_identities audited_epoch [(0, ''audio'', ''resident-1g'', 50)] =
    Inr [(VDict audited_result, (0, ''audio'', ''resident-1g'', 50))]"
proof -
  have "action_identity (VDict audited_result) = Inr (0, ''audio'', ''resident-1g'', 50)"
    by (simp add: action_identity_def audited_result_def dget_def strict_int_def MODALITIES_def PLACEMENTS_def)
  then show ?thesis
    by (simp add: replay_identities_def audited_epoch_def dget_def listed_actions_def action_identity_def
        strict_int_def MODALITIES_def PLACEMENTS_def)
qed

lemma audited_barrier: "replay_readiness audited_context audited_epoch [audited_row] = Inr ()"
  by (simp add: replay_readiness_def audited_epoch_def dget_def dget_default_def affinity_of_def audited_context_def
      audited_config_def validate_readiness_entry_def ready_def replay_task_def strict_int_def audited_row_def
      dkeys_def insert_commute)

lemma audited_zero_string: "str_of_int 0 = ''0''"
  by code_simp

lemma audited_tables:
  "rows_completed (of_modality m) [audited_row] = (if m = ''audio'' then 40 else 0)"
  "rows_rate (of_modality m) [audited_row] = (if m = ''audio'' then Fin 40 else Fin 0)"
  "expected_integers 1 [audited_row] =
     [(''active_workers'', 1), (''resident_workers'', 1), (''borrower_workers'', 0), (''rejected_tenants'', 0),
      (''resident_completed'', 40), (''borrower_completed'', 0), (''pressure_completed'', 40)]"
  "expected_rates [audited_row] =
     [(''resident_goodput_per_second'', Fin 40), (''borrower_goodput_per_second'', Fin 0),
      (''pressure_goodput_per_second'', Fin 40)]"
  "by_tenant f [audited_row] = [(''0'', f audited_row)]"
  "py_median [Fin 1] = Inr (Fin 1)" "spread [Fin 1] = Inr (Fin 0)"
  by (simp_all add: rows_completed_def rows_rate_def of_modality_def placed_def audited_row_def expected_integers_def
      expected_rates_def by_tenant_def py_median_def spread_def fsub_def whole_quotients audited_zero_string Let_def
      fl_eval)

lemma dget_Cons: "dget ((k, v) # d) k' = (if k' = k then v else dget d k')"
  by (simp add: dget_def)

lemma audited_fields:
  "dget audited_epoch ''offered_modalities'' = VList [VStr ''audio'']"
  "dget audited_epoch ''offered_tenants'' = VInt 1"
  "dget audited_epoch ''active_workers'' = VInt 1"
  "dget audited_epoch ''resident_workers'' = VInt 1"
  "dget audited_epoch ''borrower_workers'' = VInt 0"
  "dget audited_epoch ''rejected_tenants'' = VInt 0"
  "dget audited_epoch ''resident_completed'' = VInt 40"
  "dget audited_epoch ''borrower_completed'' = VInt 0"
  "dget audited_epoch ''pressure_completed'' = VInt 40"
  "dget audited_epoch ''resident_goodput_per_second'' = VInt 40"
  "dget audited_epoch ''borrower_goodput_per_second'' = VInt 0"
  "dget audited_epoch ''pressure_goodput_per_second'' = VInt 40"
  "dget audited_epoch ''worker_window_seconds'' = VInt 1"
  "dget audited_epoch ''worker_window_spread_seconds'' = VInt 0"
  "dget audited_epoch ''completed_by_modality'' = VDict [(''language'', VInt 0), (''audio'', VInt 40)]"
  "dget audited_epoch ''completed_by_tenant'' = VDict [(''0'', VInt 40)]"
  "dget audited_epoch ''goodput_by_modality'' = VDict [(''language'', VInt 0), (''audio'', VInt 40)]"
  "dget audited_epoch ''goodput_by_tenant'' = VDict [(''0'', VInt 40)]"
  by (simp_all add: audited_epoch_def dget_def)

lemma audited_epoch_accepted:
  "\<exists>s. replay_workers audited_context audited_epoch [(0, ''audio'', ''resident-1g'', 50)] = Inr s"
proof -
  have aff: "affinity_of (rc_config audited_context) ''pressure'' = Inr [VInt 0, VInt 1]"
    by (simp add: affinity_of_def audited_context_def audited_config_def dget_def dget_default_def)
  have rows: "replay_rows audited_context [VInt 0, VInt 1] 0
      [(VDict audited_result, (0, ''audio'', ''resident-1g'', 50))] {} = Inr [audited_row]"
    by (simp add: audited_replay)
  have elapsed: "wr_elapsed audited_row = Fin 1" "wr_completed audited_row = 40" "wr_rate audited_row = Fin 40"
    by (simp_all add: audited_row_def)
  show ?thesis
    unfolding replay_workers_def
    by (simp add: audited_pairs aff rows audited_barrier audited_tables audited_fields elapsed by_modality_def
        strict_int_def require_close_def strict_float_def float_of_small replay_table_def dkeys_def dget_Cons
        MODALITIES_def feq_def del: replay_rows.simps)
qed

theorem replayed_workers_are_sound_witness:
  "\<exists>s w env. replay_workers audited_context audited_epoch [(0, ''audio'', ''resident-1g'', 50)] = Inr s \<and>
    map wr_identity (es_rows s) = [(0, ''audio'', ''resident-1g'', 50)] \<and>
    distinct (4000 # map wr_pid (es_rows s)) \<and> dget audited_epoch ''workers'' = VList [VDict w] \<and>
    dget w ''execution_environment'' = VDict env \<and> dget env ''cpu_affinity'' = VList [VInt 0]"
proof -
  obtain s where s: "replay_workers audited_context audited_epoch [(0, ''audio'', ''resident-1g'', 50)] = Inr s"
    using audited_epoch_accepted by blast
  have pid: "rc_critical_pid audited_context = 4000" by (simp add: audited_context_def)
  have aff: "affinity_of (rc_config audited_context) ''pressure'' = Inr [VInt 0, VInt 1]"
    by (simp add: audited_context_def audited_config_def affinity_of_def dget_def dget_default_def)
  note sound = replayed_workers_are_sound [OF s]
  have ids: "map wr_identity (es_rows s) = [(0, ''audio'', ''resident-1g'', 50)]" using sound [THEN conjunct1] .
  have one: "length (es_rows s) = 1" using arg_cong [OF ids, of length] by simp
  from sound obtain workers affinity where w: "dget audited_epoch ''workers'' = VList workers"
      "length workers = length (es_rows s)" "affinity_of (rc_config audited_context) ''pressure'' = Inr affinity"
    and each: "\<forall>i < length workers. \<exists>w env. workers ! i = VDict w \<and> dget w ''execution_environment'' = VDict env \<and>
        dget env ''cpu_affinity'' = VList [VInt (wr_cpu (es_rows s ! i))] \<and>
        py_index affinity (int (i mod length affinity)) = Inr (VInt (wr_cpu (es_rows s ! i)))"
    by blast
  have "affinity = [VInt 0, VInt 1]" using w(3) aff by simp
  with each [rule_format, of 0] w(2) one obtain d env where d: "workers ! 0 = VDict d"
    "dget d ''execution_environment'' = VDict env" "dget env ''cpu_affinity'' = VList [VInt 0]"
    by (auto simp: py_index_def)
  have "workers = [VDict d]" using w(2) one d(1) by (cases workers) auto
  with w(1) have "dget audited_epoch ''workers'' = VList [VDict d]" by simp
  moreover have "distinct (4000 # map wr_pid (es_rows s))"
    using sound [THEN conjunct2, THEN conjunct2, THEN conjunct1] by (simp add: pid)
  ultimately show ?thesis
    using s ids d(2,3) by (intro exI [of _ s] exI [of _ d] exI [of _ env] conjI) simp_all
qed

end
