(* ===== verification/BlessScheduler.thy ===== *)
theory BlessScheduler
  imports PyValue
begin

text \<open>
  The port of the BLESS scheduler (baselines/bless/scheduler.py) and the program that feeds it
  with measured kernels (analysis/build_bless_common_schedule.py): kernel profiles and request
  states with their constructors' checks, the relative-progress rule that forms a kernel squad,
  the two estimators, and the choice among strict spatial partitions and unrestricted execution.
\<close>

section \<open>Profiles and requests\<close>

text \<open>A \<open>Mapping[int, float]\<close> from SM shares to microseconds; a missing share raises \<open>KeyError\<close>.\<close>

type_synonym share_times = "(int \<times> pyfloat) list"

definition share_at :: "share_times \<Rightarrow> int \<Rightarrow> pyfloat res" where
  "share_at m s = (case map_of m s of None \<Rightarrow> Inl (KeyError []) | Some t \<Rightarrow> Inr t)"

record kernel_profile =
  kernel_name :: string
  cumulative_us :: share_times
  duration_us :: share_times
  native_share :: int

text \<open>
  \<open>__post_init__\<close> as a constructor. The loop runs over a set of shares, whose order only decides
  which of its two messages is raised; the order here is the one of \<open>cumulative_us\<close>.
\<close>

definition positive_time :: "pyfloat \<Rightarrow> bool" where
  "positive_time t \<longleftrightarrow> isfinite t \<and> flt (Fin 0) t"

definition check_share :: "share_times \<Rightarrow> share_times \<Rightarrow> int \<Rightarrow> unit res" where
  "check_share cum dur s =
     (if \<not> (0 < s \<and> s \<le> 100) then Inl (ValueError ''profile shares must be in (0, 100]'')
      else bnd (share_at cum s) (\<lambda>c. bnd (share_at dur s) (\<lambda>d.
        if positive_time c \<and> positive_time d then Inr ()
        else Inl (ValueError ''profile times must be finite and positive''))))"

definition new_kernel_profile ::
  "string \<Rightarrow> share_times \<Rightarrow> share_times \<Rightarrow> int \<Rightarrow> kernel_profile res" where
  "new_kernel_profile name cum dur native =
     (if name = [] \<or> fst ` set cum \<noteq> fst ` set dur
      then Inl (ValueError ''kernel profile shares must match'')
      else if native \<notin> fst ` set cum then Inl (ValueError ''native share must be profiled'')
      else bnd (map_res (check_share cum dur) (map fst cum)) (\<lambda>_.
        Inr \<lparr>kernel_name = name, cumulative_us = cum, duration_us = dur, native_share = native\<rparr>))"

record request_state =
  request_id :: string
  target_us :: pyfloat
  elapsed_us :: pyfloat
  kernels :: "kernel_profile list"
  next_kernel :: int

definition new_request_state ::
  "string \<Rightarrow> pyfloat \<Rightarrow> pyfloat \<Rightarrow> kernel_profile list \<Rightarrow> int \<Rightarrow> request_state res" where
  "new_request_state i target elapsed ks n =
     (if i = [] \<or> ks = [] then Inl (ValueError ''request id and kernels are required'')
      else if \<not> isfinite target \<or> fle target (Fin 0)
      then Inl (ValueError ''target must be finite and positive'')
      else if \<not> isfinite elapsed \<or> flt elapsed (Fin 0)
      then Inl (ValueError ''elapsed time must be finite and nonnegative'')
      else if \<not> (0 \<le> n \<and> n < int (length ks))
      then Inl (ValueError ''next kernel is outside the request'')
      else Inr \<lparr>request_id = i, target_us = target, elapsed_us = elapsed, kernels = ks,
        next_kernel = n\<rparr>)"

text \<open>The kernel at a cursor and the time expected until its end at the full share.\<close>

definition expected_us :: "request_state \<Rightarrow> int \<Rightarrow> pyfloat res" where
  "expected_us r c = bnd (py_index (kernels r) c) (\<lambda>k. share_at (cumulative_us k) 100)"

definition relative_progress :: "request_state \<Rightarrow> pyfloat res" where
  "relative_progress r = bnd (expected_us r (next_kernel r)) (fdiv (elapsed_us r))"

section \<open>Forming a squad\<close>

record scheduled_kernel =
  item_request :: string
  kernel_index :: int
  item_profile :: kernel_profile

text \<open>
  \<open>requests.index(request)\<close>. The identifiers are distinct here, so the first equal request is the
  request itself.
\<close>

definition position_in :: "'a list \<Rightarrow> 'a \<Rightarrow> nat" where
  "position_in xs x = length (takeWhile (\<lambda>y. y \<noteq> x) xs)"

text \<open>
  The dictionary \<open>cursors\<close> has a key for every request, and only those are read; it is a function
  of the identifier.
\<close>

type_synonym cursors = "string \<Rightarrow> int"

definition start_cursors :: "request_state list \<Rightarrow> cursors" where
  "start_cursors rs = fold (\<lambda>r c. c(request_id r := next_kernel r)) rs (\<lambda>_. 0)"

definition urgency :: "cursors \<Rightarrow> request_state list \<Rightarrow> request_state \<Rightarrow> (pyfloat \<times> nat) res" where
  "urgency c rs r =
     bnd (expected_us r (c (request_id r))) (\<lambda>e.
       bnd (fdiv (elapsed_us r) e) (\<lambda>u. Inr (u, position_in rs r)))"

text \<open>The order of the pairs (progress, position).\<close>

definition urgent_before :: "pyfloat \<times> nat \<Rightarrow> pyfloat \<times> nat \<Rightarrow> bool" where
  "urgent_before a b \<longleftrightarrow>
     (if feq (fst a) (fst b) then snd a < snd b else flt (fst a) (fst b))"

definition unfinished :: "cursors \<Rightarrow> request_state \<Rightarrow> bool" where
  "unfinished c r \<longleftrightarrow> c (request_id r) < int (length (kernels r))"

text \<open>The loop runs at most \<open>maximum_kernels - len(squad)\<close> more times, its first argument here.\<close>

fun squad_loop :: "nat \<Rightarrow> request_state list \<Rightarrow> cursors \<Rightarrow> scheduled_kernel list res" where
  "squad_loop 0 rs c = Inr []"
| "squad_loop (Suc n) rs c =
     bnd (map_res (\<lambda>r. bnd (urgency c rs r) (\<lambda>u. Inr (r, u))) (filter (unfinished c) rs)) (\<lambda>ranked.
       case best_by (\<lambda>a b. urgent_before (snd a) (snd b)) ranked of
         None \<Rightarrow> Inr []
       | Some (r, _) \<Rightarrow>
           let cursor = c (request_id r) in
           bnd (py_index (kernels r) cursor) (\<lambda>k.
             let item = \<lparr>item_request = request_id r, kernel_index = cursor, item_profile = k\<rparr> in
             if cursor + 1 = int (length (kernels r)) then Inr [item]
             else bnd (squad_loop n rs (c(request_id r := cursor + 1))) (\<lambda>rest. Inr (item # rest))))"

definition form_kernel_squad :: "request_state list \<Rightarrow> int \<Rightarrow> scheduled_kernel list res" where
  "form_kernel_squad rs maximum_kernels =
     (if maximum_kernels \<le> 0 then Inl (ValueError ''maximum_kernels must be positive'')
      else if rs = [] then Inr []
      else if length (uniq (map request_id rs)) \<noteq> length rs
      then Inl (ValueError ''request ids must be unique'')
      else squad_loop (nat maximum_kernels) rs (start_cursors rs))"

section \<open>Configurations\<close>

text \<open>\<open>product(shares, repeat=n)\<close>, the last position varying fastest.\<close>

fun tuples :: "'a list \<Rightarrow> nat \<Rightarrow> 'a list list" where
  "tuples xs 0 = [[]]"
| "tuples xs (Suc n) = concat (map (\<lambda>x. map ((#) x) (tuples xs n)) xs)"

definition strict_share_configurations ::
  "string list \<Rightarrow> int list \<Rightarrow> (string \<times> int) list list res" where
  "strict_share_configurations ids allowed =
     (if ids = [] \<or> \<not> distinct ids then Inl (ValueError ''request ids must be nonempty and unique'')
      else let shares = sorted_list_of_set (set allowed) in
        if \<exists>s \<in> set shares. s \<le> 0 \<or> 100 \<le> s
        then Inl (ValueError ''strict shares must be in (0, 100)'')
        else Inr (map (zip ids)
          (filter (\<lambda>t. sum_list t = 100) (tuples shares (length ids)))))"

text \<open>The stacked time per request, a dictionary in the order of first use.\<close>

type_synonym stacks = "(string \<times> pyfloat) list"

fun add_to_stack :: "string \<Rightarrow> pyfloat \<Rightarrow> stacks \<Rightarrow> stacks" where
  "add_to_stack i t [] = [(i, fadd (Fin 0) t)]"
| "add_to_stack i t ((j, u) # m) = (if i = j then (j, fadd u t) # m else (j, u) # add_to_stack i t m)"

definition stack_item ::
  "(string \<times> int) list \<Rightarrow> scheduled_kernel \<Rightarrow> stacks \<Rightarrow> stacks res" where
  "stack_item shares item m =
     (case map_of shares (item_request item) of
        None \<Rightarrow> Inl (ValueError ''configuration omits an active request'')
      | Some s \<Rightarrow> (case map_of (duration_us (item_profile item)) s of
          None \<Rightarrow> Inl (ValueError ''configuration uses an unprofiled share'')
        | Some t \<Rightarrow> Inr (add_to_stack (item_request item) t m)))"

fun longest :: "pyfloat list \<Rightarrow> pyfloat" where
  "longest [] = Fin 0"
| "longest (t # ts) = foldl fmax t ts"

definition interference_free_duration_us ::
  "scheduled_kernel list \<Rightarrow> (string \<times> int) list \<Rightarrow> pyfloat res" where
  "interference_free_duration_us squad shares =
     bnd (fold_res (stack_item shares) squad []) (\<lambda>m. Inr (longest (map snd m)))"

text \<open>The kernels of one request in squad order, and the breadth-first order over the requests.\<close>

definition queue_of :: "scheduled_kernel list \<Rightarrow> string \<Rightarrow> scheduled_kernel list" where
  "queue_of squad i = filter (\<lambda>item. item_request item = i) squad"

definition breadth_first :: "scheduled_kernel list \<Rightarrow> string list \<Rightarrow> scheduled_kernel list" where
  "breadth_first squad order =
     concat (map (\<lambda>depth. concat (map (\<lambda>i.
         if depth < length (queue_of squad i) then [queue_of squad i ! depth] else []) order))
       [0..<foldl max 0 (map (length \<circ> queue_of squad) order)])"

definition workload_equivalence_duration_us ::
  "scheduled_kernel list \<Rightarrow> string list \<Rightarrow> pyfloat res" where
  "workload_equivalence_duration_us squad order =
     (if \<not> item_request ` set squad \<subseteq> set order
      then Inl (ValueError ''request order omits an active request'')
      else fold_res (\<lambda>item total.
          bnd (share_at (duration_us (item_profile item)) (native_share (item_profile item)))
            (\<lambda>t. Inr (fadd total t)))
        (breadth_first squad order) (Fin 0))"

record squad_configuration =
  config_shares :: "(string \<times> int) list option"
  predicted_us :: pyfloat
  estimator :: string

text \<open>The ranking key of \<open>choose_configuration\<close> and the order of these tuples.\<close>

definition config_values :: "squad_configuration \<Rightarrow> int list" where
  "config_values k = (case config_shares k of None \<Rightarrow> [] | Some d \<Rightarrow> map snd d)"

fun list_before :: "int list \<Rightarrow> int list \<Rightarrow> bool" where
  "list_before _ [] = False"
| "list_before [] (_ # _) = True"
| "list_before (x # xs) (y # ys) = (if x = y then list_before xs ys else x < y)"

definition config_before :: "squad_configuration \<Rightarrow> squad_configuration \<Rightarrow> bool" where
  "config_before a b \<longleftrightarrow>
     (if \<not> feq (predicted_us a) (predicted_us b) then flt (predicted_us a) (predicted_us b)
      else let fa = estimator a \<noteq> ''interference-free''; fb = estimator b \<noteq> ''interference-free''
        in if fa \<noteq> fb then \<not> fa else list_before (config_values a) (config_values b))"

definition squad_requests :: "scheduled_kernel list \<Rightarrow> string list" where
  "squad_requests squad = uniq (map item_request squad)"

definition choose_configuration ::
  "scheduled_kernel list \<Rightarrow> int list \<Rightarrow> squad_configuration res" where
  "choose_configuration squad allowed =
     (if squad = [] then Inl (ValueError ''cannot configure an empty squad'')
      else bnd (strict_share_configurations (squad_requests squad) allowed) (\<lambda>strict.
        bnd (map_res (\<lambda>d. bnd (interference_free_duration_us squad d) (\<lambda>t.
            Inr \<lparr>config_shares = Some d, predicted_us = t, estimator = ''interference-free''\<rparr>)) strict)
          (\<lambda>candidates.
        bnd (workload_equivalence_duration_us squad (squad_requests squad)) (\<lambda>t.
          case best_by config_before (candidates @
              [\<lparr>config_shares = None, predicted_us = t, estimator = ''workload-equivalence''\<rparr>]) of
            None \<Rightarrow> Inl (ValueError ''min() arg is an empty sequence'')
          | Some k \<Rightarrow> Inr k))))"

section \<open>The relative-progress rule\<close>

text \<open>What the constructors guarantee, and the full share that the rule reads.\<close>

definition accepted_profile :: "kernel_profile \<Rightarrow> bool" where
  "accepted_profile k \<longleftrightarrow>
     new_kernel_profile (kernel_name k) (cumulative_us k) (duration_us k) (native_share k) = Inr k"

definition accepted_request :: "request_state \<Rightarrow> bool" where
  "accepted_request r \<longleftrightarrow>
     new_request_state (request_id r) (target_us r) (elapsed_us r) (kernels r) (next_kernel r) = Inr r \<and>
     (\<forall>k \<in> set (kernels r). accepted_profile k)"

definition full_share_profiled :: "request_state \<Rightarrow> bool" where
  "full_share_profiled r \<longleftrightarrow> (\<forall>k \<in> set (kernels r). 100 \<in> fst ` set (cumulative_us k))"

lemma accepted_profile_times:
  assumes "accepted_profile k" and "s \<in> fst ` set (cumulative_us k)"
  shows "\<exists>t d. share_at (cumulative_us k) s = Inr (Fin t) \<and> 0 < t \<and>
      share_at (duration_us k) s = Inr (Fin d) \<and> 0 < d"
proof -
  have "new_kernel_profile (kernel_name k) (cumulative_us k) (duration_us k) (native_share k) = Inr k"
    using assms(1) by (simp add: accepted_profile_def)
  then obtain us where "map_res (check_share (cumulative_us k) (duration_us k))
      (map fst (cumulative_us k)) = Inr us"
    unfolding new_kernel_profile_def by (auto simp: bnd_eq_Inr simp del: map_res.simps split: if_splits)
  then obtain u where "check_share (cumulative_us k) (duration_us k) s = Inr u"
    using assms(2) map_res_mem' by (metis list.set_map)
  then show ?thesis
    by (auto simp: check_share_def positive_time_def isfinite_Fin bnd_eq_Inr split: if_splits)
qed

lemma accepted_request_facts:
  assumes "accepted_request r"
  shows "request_id r \<noteq> []" "kernels r \<noteq> []" "0 \<le> next_kernel r"
    "next_kernel r < int (length (kernels r))" "\<exists>e. elapsed_us r = Fin e \<and> 0 \<le> e"
  using assms by (auto simp: accepted_request_def new_request_state_def isfinite_Fin split: if_splits)

lemma expected_us_ok:
  assumes "accepted_request r" "full_share_profiled r" "0 \<le> c" "c < int (length (kernels r))"
  shows "\<exists>e. expected_us r c = Inr (Fin e) \<and> 0 < e"
proof -
  let ?k = "kernels r ! nat c"
  have k: "?k \<in> set (kernels r)" using assms(3,4) by simp
  with assms have "accepted_profile ?k" "100 \<in> fst ` set (cumulative_us ?k)"
    by (auto simp: accepted_request_def full_share_profiled_def)
  from accepted_profile_times [OF this] show ?thesis
    using assms(3,4) by (auto simp: expected_us_def py_index_def)
qed

lemma urgency_ok:
  assumes "accepted_request r" "full_share_profiled r" "0 \<le> c (request_id r)"
    "c (request_id r) < int (length (kernels r))"
  shows "\<exists>e x. expected_us r (c (request_id r)) = Inr (Fin e) \<and> 0 < e \<and> elapsed_us r = Fin x \<and>
      0 \<le> x \<and> urgency c rs r = Inr (fl (x / e), position_in rs r)"
  using expected_us_ok [OF assms] accepted_request_facts(5) [OF assms(1)]
  by (auto simp: urgency_def)

text \<open>The pairs that the rule compares are ranked as the library expects.\<close>

lemma urgent_before_less:
  "fst a \<noteq> NaN \<Longrightarrow> fst b \<noteq> NaN \<Longrightarrow>
     urgent_before a b \<longleftrightarrow> fst a < fst b \<or> fst a = fst b \<and> snd a < snd b"
  by (auto simp: urgent_before_def feq_def flt_less)

interpretation urgent: ranking
  "\<lambda>a b :: request_state \<times> pyfloat \<times> nat. urgent_before (snd a) (snd b)"
  "\<lambda>a. fst (snd a) \<noteq> NaN"
  by unfold_locales (auto simp: urgent_before_less)

text \<open>The state of the loop: every cursor points to a kernel of its request.\<close>

definition squad_ready :: "request_state list \<Rightarrow> cursors \<Rightarrow> bool" where
  "squad_ready rs c \<longleftrightarrow> rs \<noteq> [] \<and> distinct (map request_id rs) \<and>
     (\<forall>r \<in> set rs. accepted_request r \<and> full_share_profiled r \<and> 0 \<le> c (request_id r) \<and>
        unfinished c r)"

definition most_urgent :: "cursors \<Rightarrow> request_state list \<Rightarrow> request_state \<Rightarrow> bool" where
  "most_urgent c rs r \<longleftrightarrow> r \<in> set rs \<and>
     (\<exists>u. urgency c rs r = Inr u \<and>
        (\<forall>q \<in> set rs. \<exists>v. urgency c rs q = Inr v \<and> \<not> urgent_before v u))"

definition item_at :: "request_state \<Rightarrow> int \<Rightarrow> scheduled_kernel" where
  "item_at r c = \<lparr>item_request = request_id r, kernel_index = c, item_profile = kernels r ! nat c\<rparr>"

definition advance :: "scheduled_kernel \<Rightarrow> cursors \<Rightarrow> cursors" where
  "advance item c = c(item_request item := kernel_index item + 1)"

lemma squad_ready_urgency:
  "squad_ready rs c \<Longrightarrow> r \<in> set rs \<Longrightarrow> \<exists>u. urgency c rs r = Inr u \<and> fst u \<noteq> NaN"
  using urgency_ok by (fastforce simp: squad_ready_def unfinished_def)

lemma squad_step:
  assumes "squad_ready rs c"
  shows "\<exists>r. most_urgent c rs r \<and>
      squad_loop (Suc n) rs c =
        (let item = item_at r (c (request_id r)) in
         if c (request_id r) + 1 = int (length (kernels r)) then Inr [item]
         else bnd (squad_loop n rs (advance item c)) (\<lambda>rest. Inr (item # rest)))"
proof -
  let ?f = "\<lambda>r. bnd (urgency c rs r) (\<lambda>u. Inr (r, u))"
  let ?before = "\<lambda>a b :: request_state \<times> pyfloat \<times> nat. urgent_before (snd a) (snd b)"
  have all: "filter (unfinished c) rs = rs" "rs \<noteq> []"
    using assms by (auto simp: squad_ready_def)
  have key: "\<exists>u. urgency c rs r = Inr u \<and> fst u \<noteq> NaN" if "r \<in> set rs" for r
    using squad_ready_urgency [OF assms that] .
  define ranked where "ranked = map (\<lambda>r. (r, projr (urgency c rs r))) rs"
  have "map_res ?f rs = map_res (\<lambda>r. Inr (r, projr (urgency c rs r))) rs"
    by (rule map_res_cong) (use key in fastforce)+
  then have ranked: "map_res ?f rs = Inr ranked" by (simp add: map_res_Inr ranked_def)
  have "ranked \<noteq> []" using all(2) by (simp add: ranked_def)
  then obtain p where p: "best_by ?before ranked = Some p"
    by (metis best_by_eq_None option.exhaust)
  then have "p \<in> set ranked" by (rule best_by_in)
  then obtain r where r: "r \<in> set rs" "p = (r, projr (urgency c rs r))" by (auto simp: ranked_def)
  have nan: "\<forall>x \<in> set ranked. fst (snd x) \<noteq> NaN" using key by (fastforce simp: ranked_def)
  obtain u where u: "urgency c rs r = Inr u" using key [OF r(1)] by blast
  have "\<exists>v. urgency c rs q = Inr v \<and> \<not> urgent_before v u" if q: "q \<in> set rs" for q
  proof -
    have "(q, projr (urgency c rs q)) \<in> set ranked" using q by (auto simp: ranked_def)
    from urgent.best_by_unbeaten [OF p nan this] show ?thesis using key [OF q] r u by auto
  qed
  then have urgent: "most_urgent c rs r" using r u by (auto simp: most_urgent_def)
  have "py_index (kernels r) (c (request_id r)) = Inr (kernels r ! nat (c (request_id r)))"
    using assms r(1) by (auto simp: squad_ready_def unfinished_def py_index_def)
  then show ?thesis
    using urgent by (intro exI [of _ r]) (simp add: all ranked p r(2) Let_def item_at_def advance_def)
qed

lemma squad_ready_advance:
  assumes "squad_ready rs c" and "r \<in> set rs" and "c (request_id r) + 1 \<noteq> int (length (kernels r))"
  shows "squad_ready rs (advance (item_at r (c (request_id r))) c)"
proof -
  have "q = r" if "q \<in> set rs" "request_id q = request_id r" for q
    using assms that by (auto simp: squad_ready_def distinct_map inj_on_def)
  with assms show ?thesis
    by (force simp: squad_ready_def unfinished_def advance_def item_at_def)
qed

text \<open>
  Step \<open>i\<close> of a squad takes the pending kernel of a most urgent request, at the cursors the first
  \<open>i\<close> kernels leave; only the last step may finish a request, and it does when there was room
  for more.
\<close>

definition greedy_step ::
  "nat \<Rightarrow> request_state list \<Rightarrow> cursors \<Rightarrow> scheduled_kernel list \<Rightarrow> nat \<Rightarrow> bool" where
  "greedy_step n rs c squad i \<longleftrightarrow> (\<exists>r. let here = fold advance (take i squad) c;
       finishes = (here (request_id r) + 1 = int (length (kernels r))) in
     most_urgent here rs r \<and> squad ! i = item_at r (here (request_id r)) \<and>
     (Suc i = length squad \<longrightarrow> length squad = n \<or> finishes) \<and>
     (finishes \<longrightarrow> Suc i = length squad))"

lemma greedy_step_Suc:
  "greedy_step (Suc n) rs c (item # rest) (Suc i) \<longleftrightarrow> greedy_step n rs (advance item c) rest i"
  by (simp add: greedy_step_def)

lemma squad_loop_greedy:
  "squad_ready rs c \<Longrightarrow> \<exists>squad. squad_loop n rs c = Inr squad \<and> length squad \<le> n \<and>
     (0 < n \<longrightarrow> squad \<noteq> []) \<and> (\<forall>i < length squad. greedy_step n rs c squad i)"
proof (induction n arbitrary: c)
  case (Suc n)
  from squad_step [OF Suc.prems, of n] obtain r where r: "most_urgent c rs r"
    "squad_loop (Suc n) rs c =
        (let item = item_at r (c (request_id r)) in
         if c (request_id r) + 1 = int (length (kernels r)) then Inr [item]
         else bnd (squad_loop n rs (advance item c)) (\<lambda>rest. Inr (item # rest)))"
    by blast
  let ?item = "item_at r (c (request_id r))"
  show ?case
  proof (cases "c (request_id r) + 1 = int (length (kernels r))")
    case True
    then show ?thesis using r by (auto simp: Let_def greedy_step_def)
  next
    case False
    have "r \<in> set rs" using r(1) by (simp add: most_urgent_def)
    from Suc.IH [OF squad_ready_advance [OF Suc.prems this False]] obtain rest where
      rest: "squad_loop n rs (advance ?item c) = Inr rest" "length rest \<le> n" "0 < n \<longrightarrow> rest \<noteq> []"
        "\<forall>i < length rest. greedy_step n rs (advance ?item c) rest i"
      by blast
    have "greedy_step (Suc n) rs c (?item # rest) i" if i: "i < length (?item # rest)" for i
    proof (cases i)
      case 0
      with r(1) False rest(3) show ?thesis by (auto simp: greedy_step_def Let_def)
    next
      case (Suc j)
      with rest(4) i show ?thesis by (simp add: greedy_step_Suc)
    qed
    moreover have "squad_loop (Suc n) rs c = Inr (?item # rest)"
      using r(2) False rest(1) by simp
    ultimately show ?thesis using rest(2) by auto
  qed
qed auto

lemma start_cursors_at:
  assumes "distinct (map request_id rs)" and "r \<in> set rs"
  shows "start_cursors rs (request_id r) = next_kernel r"
proof -
  have keep: "fold (\<lambda>r c. c(request_id r := next_kernel r)) qs c i = c i"
    if "i \<notin> request_id ` set qs" for qs c i
    using that by (induction qs arbitrary: c) auto
  have "fold (\<lambda>r c. c(request_id r := next_kernel r)) rs c (request_id r) = next_kernel r" for c
    using assms by (induction rs arbitrary: c) (auto simp: keep)
  then show ?thesis by (simp add: start_cursors_def)
qed

lemma squad_start:
  assumes "rs \<noteq> []" and "distinct (map request_id rs)"
    and "\<forall>r \<in> set rs. accepted_request r \<and> full_share_profiled r"
  shows "squad_ready rs (start_cursors rs)"
  using assms accepted_request_facts(3,4)
  by (auto simp: squad_ready_def unfinished_def start_cursors_at)

lemma form_kernel_squad_loop:
  "0 < m \<Longrightarrow> rs \<noteq> [] \<Longrightarrow> distinct (map request_id rs) \<Longrightarrow>
     form_kernel_squad rs m = squad_loop (nat m) rs (start_cursors rs)"
  by (simp add: form_kernel_squad_def uniq_distinct)

section \<open>Squads of a single request\<close>

lemma position_in_nth: "x \<in> set xs \<Longrightarrow> xs ! position_in xs x = x"
proof -
  assume "x \<in> set xs"
  then have "length (takeWhile (\<lambda>y. y \<noteq> x) xs) < length xs"
    by (induction xs) auto
  from nth_length_takeWhile [OF this] show ?thesis by (simp add: position_in_def)
qed

text \<open>Every other request is strictly later in the order of the pairs.\<close>

definition leads :: "cursors \<Rightarrow> request_state list \<Rightarrow> request_state \<Rightarrow> bool" where
  "leads c rs r \<longleftrightarrow> r \<in> set rs \<and> (\<forall>q \<in> set rs. q \<noteq> r \<longrightarrow>
     (\<exists>u v. urgency c rs r = Inr u \<and> urgency c rs q = Inr v \<and> urgent_before u v))"

text \<open>A request whose expected times at the full share do not decrease along its kernels.\<close>

definition cumulative_nondecreasing :: "request_state \<Rightarrow> bool" where
  "cumulative_nondecreasing r \<longleftrightarrow>
     (\<forall>i. 0 \<le> i \<and> i + 1 < int (length (kernels r)) \<longrightarrow>
        (\<exists>a b. expected_us r i = Inr a \<and> expected_us r (i + 1) = Inr b \<and> fle a b))"

lemma urgency_position: "urgency c rs r = Inr u \<Longrightarrow> snd u = position_in rs r"
  by (auto simp: urgency_def bnd_eq_Inr)

lemma most_urgent_leads:
  assumes "squad_ready rs c" and "most_urgent c rs r"
  shows "leads c rs r"
proof -
  from assms(2) obtain u where r: "r \<in> set rs" "urgency c rs r = Inr u"
    "\<forall>q \<in> set rs. \<exists>v. urgency c rs q = Inr v \<and> \<not> urgent_before v u"
    by (auto simp: most_urgent_def)
  have "\<exists>v. urgency c rs q = Inr v \<and> urgent_before u v" if q: "q \<in> set rs" "q \<noteq> r" for q
  proof -
    obtain v where v: "urgency c rs q = Inr v" "\<not> urgent_before v u" using r(3) q(1) by blast
    have "snd u \<noteq> snd v"
      using urgency_position [OF r(2)] urgency_position [OF v(1)] position_in_nth [OF r(1)]
        position_in_nth [OF q(1)] q(2) by metis
    moreover have "fst u \<noteq> NaN" "fst v \<noteq> NaN"
      using squad_ready_urgency [OF assms(1)] r(1,2) q(1) v(1) by force+
    ultimately show ?thesis using v by (auto simp: urgent_before_less)
  qed
  with r show ?thesis by (auto simp: leads_def)
qed

lemma leads_most_urgent:
  assumes "squad_ready rs c" and "leads c rs r" and "most_urgent c rs q"
  shows "q = r"
proof (rule ccontr)
  assume "q \<noteq> r"
  with assms obtain u v where "urgency c rs r = Inr u" "urgency c rs q = Inr v"
    "urgent_before u v" "\<not> urgent_before u v"
    by (fastforce simp: leads_def most_urgent_def)
  then show False by simp
qed

lemma urgency_other:
  "c' (request_id q) = c (request_id q) \<Longrightarrow> urgency c' rs q = urgency c rs q"
  by (simp add: urgency_def)

lemma urgency_decreases:
  assumes ready: "squad_ready rs c" and r: "r \<in> set rs" and mono: "cumulative_nondecreasing r"
    and more: "c (request_id r) + 1 \<noteq> int (length (kernels r))"
    and u: "urgency c rs r = Inr u"
  shows "\<exists>u'. urgency (advance (item_at r (c (request_id r))) c) rs r = Inr u' \<and>
      snd u' = snd u \<and> fst u' \<le> fst u \<and> fst u' \<noteq> NaN"
proof -
  let ?c = "advance (item_at r (c (request_id r))) c"
  have step: "?c (request_id r) = c (request_id r) + 1" by (simp add: advance_def item_at_def)
  have ok: "accepted_request r" "full_share_profiled r" "0 \<le> c (request_id r)"
    "c (request_id r) < int (length (kernels r))"
    using ready r by (auto simp: squad_ready_def unfinished_def)
  obtain e x where e: "expected_us r (c (request_id r)) = Inr (Fin e)" "0 < e"
    "elapsed_us r = Fin x" "0 \<le> x" "urgency c rs r = Inr (fl (x / e), position_in rs r)"
    using urgency_ok [of r c rs] ok by blast
  have ok': "0 \<le> ?c (request_id r)" "?c (request_id r) < int (length (kernels r))"
    using ok more by (auto simp: step)
  obtain e' where e': "expected_us r (c (request_id r) + 1) = Inr (Fin e')" "0 < e'"
    "urgency ?c rs r = Inr (fl (x / e'), position_in rs r)"
    using urgency_ok [of r ?c rs] ok(1,2) ok' e(3) by (auto simp: step)
  have "e \<le> e'" using mono ok(3,4) more e(1) e'(1) by (fastforce simp: cumulative_nondecreasing_def)
  then have "x / e' \<le> x / e" using e(2,4) e'(2) by (simp add: frac_le)
  then have "fle (fl (x / e')) (fl (x / e))" by (rule fl_mono)
  then show ?thesis using e(5) e'(3) u by (auto simp: fle_less_eq)
qed

lemma leads_advance:
  assumes ready: "squad_ready rs c" and lead: "leads c rs r" and mono: "cumulative_nondecreasing r"
    and more: "c (request_id r) + 1 \<noteq> int (length (kernels r))"
  shows "leads (advance (item_at r (c (request_id r))) c) rs r"
proof -
  let ?c = "advance (item_at r (c (request_id r))) c"
  have r: "r \<in> set rs" using lead by (simp add: leads_def)
  have "\<exists>u v. urgency ?c rs r = Inr u \<and> urgency ?c rs q = Inr v \<and> urgent_before u v"
    if q: "q \<in> set rs" "q \<noteq> r" for q
  proof -
    obtain u v where uv: "urgency c rs r = Inr u" "urgency c rs q = Inr v" "urgent_before u v"
      using lead q by (auto simp: leads_def)
    obtain u' where u': "urgency ?c rs r = Inr u'" "snd u' = snd u" "fst u' \<le> fst u" "fst u' \<noteq> NaN"
      using urgency_decreases [OF ready r mono more uv(1)] by blast
    have "request_id q \<noteq> request_id r"
      using ready q r by (auto simp: squad_ready_def distinct_map inj_on_def)
    then have "urgency ?c rs q = Inr v"
      using uv(2) urgency_other [of ?c q c] by (simp add: advance_def item_at_def)
    moreover have "fst u \<noteq> NaN" "fst v \<noteq> NaN"
      using squad_ready_urgency [OF ready] r q(1) uv(1,2) by force+
    ultimately show ?thesis using u' uv(3) by (auto simp: urgent_before_less)
  qed
  then show ?thesis using r by (auto simp: leads_def)
qed

lemma squad_loop_single:
  assumes "squad_ready rs c" and "leads c rs r" and "cumulative_nondecreasing r"
  shows "squad_loop n rs c =
      Inr (map (\<lambda>i. item_at r (c (request_id r) + int i))
        [0..<min n (length (kernels r) - nat (c (request_id r)))])"
  using assms
proof (induction n arbitrary: c)
  case (Suc n)
  let ?i = "c (request_id r)" and ?item = "item_at r (c (request_id r))"
  have c: "0 \<le> ?i" "?i < int (length (kernels r))"
    using Suc.prems(1,2) by (auto simp: squad_ready_def unfinished_def leads_def)
  have step: "squad_loop (Suc n) rs c =
      (if ?i + 1 = int (length (kernels r)) then Inr [?item]
       else bnd (squad_loop n rs (advance ?item c)) (\<lambda>rest. Inr (?item # rest)))"
    using squad_step [OF Suc.prems(1), of n] leads_most_urgent [OF Suc.prems(1,2)]
    by (auto simp: Let_def)
  show ?case
  proof (cases "?i + 1 = int (length (kernels r))")
    case True
    then have "min (Suc n) (length (kernels r) - nat ?i) = 1" using c by auto
    then show ?thesis using step True by simp
  next
    case False
    have r: "r \<in> set rs" using Suc.prems(2) by (simp add: leads_def)
    have "advance ?item c (request_id r) = ?i + 1" by (simp add: advance_def item_at_def)
    with Suc.IH [OF squad_ready_advance [OF Suc.prems(1) r False]
        leads_advance [OF Suc.prems(1,2,3) False] Suc.prems(3)]
    have "squad_loop n rs (advance ?item c) = Inr (map (\<lambda>i. item_at r (?i + 1 + int i))
        [0..<min n (length (kernels r) - nat (?i + 1))])"
      by simp
    moreover have "min (Suc n) (length (kernels r) - nat ?i) =
        Suc (min n (length (kernels r) - nat (?i + 1)))"
      using c False by auto
    ultimately show ?thesis
      using step False by (simp add: upt_conv_Cons map_Suc_upt [symmetric] comp_def algebra_simps del: upt_Suc)
  qed
qed simp

section \<open>Choosing a configuration\<close>

lemma list_before_irrefl: "\<not> list_before x x"
  by (induction x) auto

lemma list_before_asym: "list_before x y \<Longrightarrow> \<not> list_before y x"
  by (induction x y rule: list_before.induct) (auto split: if_splits)

lemma list_before_neg_trans: "\<not> list_before x y \<Longrightarrow> \<not> list_before y z \<Longrightarrow> \<not> list_before x z"
proof (induction x z arbitrary: y rule: list_before.induct)
  case (2 b bs)
  then show ?case by (cases y) auto
next
  case (3 a as b bs)
  then show ?case by (cases y) (auto split: if_splits)
qed auto

lemma config_before_less:
  "predicted_us a \<noteq> NaN \<Longrightarrow> predicted_us b \<noteq> NaN \<Longrightarrow>
     config_before a b \<longleftrightarrow> predicted_us a < predicted_us b \<or> predicted_us a = predicted_us b \<and>
       (if (estimator a \<noteq> ''interference-free'') \<noteq> (estimator b \<noteq> ''interference-free'')
        then estimator a = ''interference-free''
        else list_before (config_values a) (config_values b))"
  by (auto simp: config_before_def feq_def flt_less Let_def)

interpretation configurations: ranking config_before "\<lambda>k. predicted_us k \<noteq> NaN"
proof (unfold_locales, goal_cases)
  case (2 x y z)
  then show ?case
    using list_before_neg_trans [of "config_values x" "config_values y" "config_values z"]
    by (auto simp: config_before_less split: if_splits)
qed (auto simp: config_before_less list_before_irrefl dest: list_before_asym split: if_splits)

lemma set_tuples: "set (tuples xs n) = {t. length t = n \<and> set t \<subseteq> set xs}"
  by (induction n) (auto simp: length_Suc_conv)

text \<open>A strict partition: a share of the allowed ones for every request, 100 in total.\<close>

definition strict_partition :: "string list \<Rightarrow> int list \<Rightarrow> (string \<times> int) list \<Rightarrow> bool" where
  "strict_partition ids allowed d \<longleftrightarrow>
     map fst d = ids \<and> set (map snd d) \<subseteq> set allowed \<and> sum_list (map snd d) = 100"

lemma strict_share_configurations_exact:
  assumes "ids \<noteq> []" "distinct ids" "\<forall>s \<in> set allowed. 0 < s \<and> s < 100"
  shows "\<exists>ds. strict_share_configurations ids allowed = Inr ds \<and>
      set ds = Collect (strict_partition ids allowed)"
proof -
  let ?ts = "filter (\<lambda>t. sum_list t = 100)
    (tuples (sorted_list_of_set (set allowed)) (length ids))"
  have "d \<in> zip ids ` set ?ts" if d: "strict_partition ids allowed d" for d
  proof
    show "d = zip ids (map snd d)" using d by (auto simp: strict_partition_def zip_map_fst_snd)
    show "map snd d \<in> set ?ts"
      using d by (auto simp: strict_partition_def set_tuples)
  qed
  moreover have "strict_partition ids allowed (zip ids t)" if "t \<in> set ?ts" for t
    using that by (auto simp: strict_partition_def set_tuples)
  ultimately have "set (map (zip ids) ?ts) = Collect (strict_partition ids allowed)" by auto
  moreover have "\<not> (\<exists>s \<in> set allowed. s \<le> 0 \<or> 100 \<le> s)" using assms(3) by force
  ultimately show ?thesis using assms(1,2) by (auto simp: strict_share_configurations_def Let_def)
qed

lemma add_to_stack_nonneg:
  "fle (Fin 0) t \<Longrightarrow> \<forall>v \<in> snd ` set m. fle (Fin 0) v \<Longrightarrow>
     \<forall>v \<in> snd ` set (add_to_stack i t m). fle (Fin 0) v"
  by (induction i t m rule: add_to_stack.induct) (auto simp: fadd_nonneg)

lemma longest_nonneg: "\<forall>t \<in> set ts. fle (Fin 0) t \<Longrightarrow> fle (Fin 0) (longest ts)"
  using foldl_fmax_in by (cases ts) fastforce+

lemma profiled_time:
  assumes "accepted_profile k" "s \<in> fst ` set (cumulative_us k)"
  shows "\<exists>t. map_of (duration_us k) s = Some t \<and> fle (Fin 0) t"
  using accepted_profile_times [OF assms] by (auto simp: share_at_def split: option.splits)

lemma interference_free_total:
  assumes "\<forall>item \<in> set squad. accepted_profile (item_profile item)"
    and "\<forall>item \<in> set squad. item_request item \<in> fst ` set d"
    and "\<forall>item \<in> set squad. \<forall>s \<in> snd ` set d. s \<in> fst ` set (cumulative_us (item_profile item))"
  shows "\<exists>t. interference_free_duration_us squad d = Inr t \<and> fle (Fin 0) t"
proof -
  have "\<exists>m'. fold_res (stack_item d) squad m = Inr m' \<and> (\<forall>v \<in> snd ` set m'. fle (Fin 0) v)"
    if "\<forall>v \<in> snd ` set m. fle (Fin 0) v" for m
    using assms that
  proof (induction squad arbitrary: m)
    case (Cons item squad)
    obtain s where s: "map_of d (item_request item) = Some s"
      using Cons.prems(2) by (metis list.set_intros(1) map_of_eq_None_iff not_Some_eq)
    then have "s \<in> snd ` set d" using map_of_SomeD by force
    then obtain t where t: "map_of (duration_us (item_profile item)) s = Some t" "fle (Fin 0) t"
      using profiled_time Cons.prems(1,3) by (meson list.set_intros(1))
    then have "stack_item d item m = Inr (add_to_stack (item_request item) t m)"
      by (simp add: stack_item_def s)
    then show ?case
      using Cons.IH [of "add_to_stack (item_request item) t m"] Cons.prems
        add_to_stack_nonneg [OF t(2) Cons.prems(4)] by simp
  qed auto
  from this [of "[]"] show ?thesis
    using longest_nonneg by (fastforce simp: interference_free_duration_us_def)
qed

lemma workload_equivalence_total:
  assumes "\<forall>item \<in> set squad. accepted_profile (item_profile item)"
    and "item_request ` set squad \<subseteq> set order"
  shows "\<exists>t. workload_equivalence_duration_us squad order = Inr t \<and> fle (Fin 0) t"
proof -
  let ?add = "\<lambda>item total. bnd (share_at (duration_us (item_profile item))
    (native_share (item_profile item))) (\<lambda>t. Inr (fadd total t))"
  have step: "\<exists>t. share_at (duration_us k) (native_share k) = Inr t \<and> fle (Fin 0) t"
    if "accepted_profile k" for k
  proof -
    have "native_share k \<in> fst ` set (cumulative_us k)"
      using that by (auto simp: accepted_profile_def new_kernel_profile_def split: if_splits)
    from accepted_profile_times [OF that this] show ?thesis by auto
  qed
  have "\<exists>t. fold_res ?add items u = Inr t \<and> fle (Fin 0) t"
    if "set items \<subseteq> set squad" "fle (Fin 0) u" for items u
    using that
  proof (induction items arbitrary: u)
    case (Cons item items)
    with assms(1) step obtain t where "share_at (duration_us (item_profile item))
        (native_share (item_profile item)) = Inr t" "fle (Fin 0) t"
      by (meson list.set_intros(1) subsetD)
    with Cons show ?case by (simp add: fadd_nonneg)
  qed simp
  moreover have "set (breadth_first squad order) \<subseteq> set squad"
    by (auto simp: breadth_first_def queue_of_def dest!: nth_mem split: if_splits)
  ultimately show ?thesis using assms(2) by (simp add: workload_equivalence_duration_us_def)
qed

lemma chosen_cases:
  assumes "squad \<noteq> []" and "\<forall>item \<in> set squad. accepted_profile (item_profile item)"
    and "\<forall>s \<in> set allowed. 0 < s \<and> s < 100 \<and>
      (\<forall>item \<in> set squad. s \<in> fst ` set (cumulative_us (item_profile item)))"
  obtains k t where "choose_configuration squad allowed = Inr k"
    "workload_equivalence_duration_us squad (squad_requests squad) = Inr t"
    "fle (predicted_us k) t" "config_shares k = None \<Longrightarrow> predicted_us k = t"
    "\<And>d. config_shares k = Some d \<Longrightarrow> strict_partition (squad_requests squad) allowed d \<and>
      interference_free_duration_us squad d = Inr (predicted_us k)"
    "\<And>d. strict_partition (squad_requests squad) allowed d \<Longrightarrow>
      \<exists>u. interference_free_duration_us squad d = Inr u \<and> fle (predicted_us k) u \<and>
        (config_shares k = None \<longrightarrow> flt (predicted_us k) u)"
proof -
  let ?ids = "squad_requests squad"
  let ?free = "\<lambda>d. bnd (interference_free_duration_us squad d) (\<lambda>t.
            Inr \<lparr>config_shares = Some d, predicted_us = t, estimator = ''interference-free''\<rparr>)"
  have ids: "?ids \<noteq> []" "distinct ?ids" "item_request ` set squad \<subseteq> set ?ids"
    using assms(1) by (auto simp: squad_requests_def neq_Nil_conv)
  from strict_share_configurations_exact [OF ids(1,2), of allowed] assms(3) obtain ds where
    ds: "strict_share_configurations ?ids allowed = Inr ds"
      "set ds = Collect (strict_partition ?ids allowed)" by blast
  have free: "\<exists>u. interference_free_duration_us squad d = Inr u \<and> u \<noteq> NaN"
    if d: "strict_partition ?ids allowed d" for d
  proof -
    have "set ?ids = fst ` set d" using d by (metis list.set_map strict_partition_def)
    moreover have "\<forall>item \<in> set squad. \<forall>s \<in> snd ` set d. s \<in> fst ` set (cumulative_us (item_profile item))"
      using d assms(3) by (fastforce simp: strict_partition_def)
    ultimately show ?thesis
      using interference_free_total [OF assms(2), of d] ids(3) nonneg_not_NaN by blast
  qed
  obtain t where t: "workload_equivalence_duration_us squad ?ids = Inr t" "t \<noteq> NaN"
    using workload_equivalence_total [OF assms(2) ids(3)] nonneg_not_NaN by blast
  let ?last = "\<lparr>config_shares = None, predicted_us = t, estimator = ''workload-equivalence''\<rparr>"
  define of_partition where "of_partition d =
    \<lparr>config_shares = Some d, predicted_us = projr (interference_free_duration_us squad d),
     estimator = ''interference-free''\<rparr>" for d
  have "map_res ?free ds = map_res (\<lambda>d. Inr (of_partition d)) ds"
    by (rule map_res_cong) (use free ds(2) in \<open>fastforce simp: of_partition_def\<close>)+
  then have mapped: "map_res ?free ds = Inr (map of_partition ds)" by (simp add: map_res_Inr)
  obtain k where k: "best_by config_before (map of_partition ds @ [?last]) = Some k"
    by (metis best_by_eq_None option.exhaust snoc_eq_iff_butlast)
  have nan: "\<forall>c \<in> set (map of_partition ds @ [?last]). predicted_us c \<noteq> NaN"
    using free t ds(2) by (fastforce simp: of_partition_def)
  have in_list: "k \<in> set (map of_partition ds @ [?last])" using k by (rule best_by_in)
  have unbeaten: "\<not> config_before c k" if "c \<in> set (map of_partition ds @ [?last])" for c
    using configurations.best_by_unbeaten [OF k nan that] .
  have nan_k: "predicted_us k \<noteq> NaN" using nan in_list by blast
  show ?thesis
  proof (rule that)
    show "choose_configuration squad allowed = Inr k"
      using assms(1) ds(1) mapped t(1) k by (simp add: choose_configuration_def)
    show "workload_equivalence_duration_us squad ?ids = Inr t" by (rule t(1))
    show "fle (predicted_us k) t"
      using unbeaten [of ?last] nan_k t(2) by (auto simp: config_before_less fle_less_eq not_less)
    show "config_shares k = None \<Longrightarrow> predicted_us k = t"
      using in_list by (auto simp: of_partition_def)
    show "strict_partition ?ids allowed d \<and> interference_free_duration_us squad d = Inr (predicted_us k)"
      if "config_shares k = Some d" for d
      using in_list that free ds(2) by (fastforce simp: of_partition_def)
    show "\<exists>u. interference_free_duration_us squad d = Inr u \<and> fle (predicted_us k) u \<and>
        (config_shares k = None \<longrightarrow> flt (predicted_us k) u)"
      if d: "strict_partition ?ids allowed d" for d
    proof -
      obtain u where u: "interference_free_duration_us squad d = Inr u" "u \<noteq> NaN"
        using free [OF d] by blast
      have "of_partition d \<in> set (map of_partition ds @ [?last])" using d ds(2) by auto
      from unbeaten [OF this] have le: "\<not> config_before (of_partition d) k" .
      have "predicted_us (of_partition d) = u" "estimator (of_partition d) = ''interference-free''"
        using u by (simp_all add: of_partition_def)
      moreover have "config_shares k = None \<Longrightarrow> estimator k \<noteq> ''interference-free''"
        using in_list by (auto simp: of_partition_def)
      ultimately show ?thesis
        using le u nan_k by (auto simp: config_before_less fle_less_eq flt_less not_less le_less)
    qed
  qed
qed

text \<open>A squad of one request leaves no strict partition: no allowed share is 100.\<close>

lemma single_request_unpartitioned:
  assumes "squad_requests squad = [i]" and "choose_configuration squad allowed = Inr k"
  shows "config_shares k = None"
proof -
  have "ds = []" if "strict_share_configurations [i] allowed = Inr ds" for ds
    using that by (auto simp: strict_share_configurations_def Let_def filter_empty_conv split: if_splits)
  with assms show ?thesis
    by (auto simp: choose_configuration_def bnd_eq_Inr best_by_def split: if_splits)
qed

lemma squad_requests_single:
  assumes "0 < n"
  shows "squad_requests (map (\<lambda>i. item_at r (c + int i)) [0..<n]) = [request_id r]"
proof -
  have "map item_request (map (\<lambda>i. item_at r (c + int i)) [0..<n]) = replicate n (request_id r)"
    by (simp add: item_at_def comp_def map_replicate_const)
  moreover have "uniq (replicate n (request_id r)) = [request_id r]"
    using assms by (cases n) (auto simp: filter_empty_conv)
  ultimately show ?thesis by (simp add: squad_requests_def)
qed

lemma most_urgent_squad:
  assumes "0 < maximum_kernels" and "rs \<noteq> []" and "distinct (map request_id rs)"
    and "\<forall>r \<in> set rs. accepted_request r \<and> full_share_profiled r"
    and r: "most_urgent (start_cursors rs) rs r" and mono: "cumulative_nondecreasing r"
  shows "\<exists>squad. form_kernel_squad rs maximum_kernels = Inr squad \<and>
      squad = map (\<lambda>i. item_at r (next_kernel r + int i))
        [0..<min (nat maximum_kernels) (length (kernels r) - nat (next_kernel r))] \<and>
      0 < min (nat maximum_kernels) (length (kernels r) - nat (next_kernel r)) \<and>
      (\<forall>allowed k. choose_configuration squad allowed = Inr k \<longrightarrow> config_shares k = None)"
proof -
  have start: "squad_ready rs (start_cursors rs)" by (rule squad_start [OF assms(2-4)])
  have in_rs: "r \<in> set rs" using r by (simp add: most_urgent_def)
  let ?n = "min (nat maximum_kernels) (length (kernels r) - nat (next_kernel r))"
  have "form_kernel_squad rs maximum_kernels = Inr (map (\<lambda>i. item_at r (next_kernel r + int i)) [0..<?n])"
    using squad_loop_single [OF start most_urgent_leads [OF start r] mono, of "nat maximum_kernels"]
      form_kernel_squad_loop [OF assms(1-3)] start_cursors_at [OF assms(3) in_rs] by simp
  moreover have "0 < ?n"
    using assms(1) accepted_request_facts(3,4) [of r] assms(4) in_rs by (auto simp: nat_less_iff)
  ultimately show ?thesis
    using single_request_unpartitioned [OF squad_requests_single] by blast
qed

section \<open>Properties\<close>

text \<open>
  C18: With accepted requests whose full share is profiled, \<open>form_kernel_squad\<close> returns a non-empty
  squad of at most \<open>maximum_kernels\<close> kernels; every step takes the pending kernel of a request with
  the least pair of relative progress and position among all requests, at the cursors that the
  previous steps leave, and the squad ends before its maximum exactly by finishing a request.
\<close>

theorem squad_is_greedy:
  assumes "0 < maximum_kernels" and "rs \<noteq> []" and "distinct (map request_id rs)"
    and "\<forall>r \<in> set rs. accepted_request r \<and> full_share_profiled r"
  shows "\<exists>squad. form_kernel_squad rs maximum_kernels = Inr squad \<and> squad \<noteq> [] \<and>
      int (length squad) \<le> maximum_kernels \<and>
      (\<forall>i < length squad. greedy_step (nat maximum_kernels) rs (start_cursors rs) squad i)"
proof -
  from squad_loop_greedy [OF squad_start [OF assms(2-4)], of "nat maximum_kernels"] obtain squad where
    "squad_loop (nat maximum_kernels) rs (start_cursors rs) = Inr squad"
    "length squad \<le> nat maximum_kernels" "squad \<noteq> []"
    "\<forall>i < length squad. greedy_step (nat maximum_kernels) rs (start_cursors rs) squad i"
    using assms(1) by auto
  then show ?thesis using form_kernel_squad_loop [OF assms(1-3)] assms(1) by (intro exI [of _ squad]) auto
qed

text \<open>
  C19: The urgency of a request divides its fixed elapsed time by the expected time of its pending
  kernel, which does not decrease along a request. So the request chosen first only becomes more
  urgent: every squad is a run of consecutive kernels of one single request, and no squad is ever
  given a spatial partition, whatever shares are allowed.
\<close>

theorem squad_is_one_request:
  assumes "0 < maximum_kernels" and "rs \<noteq> []" and "distinct (map request_id rs)"
    and "\<forall>r \<in> set rs. accepted_request r \<and> full_share_profiled r \<and> cumulative_nondecreasing r"
  shows "\<exists>r squad. most_urgent (start_cursors rs) rs r \<and> form_kernel_squad rs maximum_kernels = Inr squad \<and>
      squad = map (\<lambda>i. item_at r (next_kernel r + int i))
        [0..<min (nat maximum_kernels) (length (kernels r) - nat (next_kernel r))] \<and>
      (\<forall>allowed k. choose_configuration squad allowed = Inr k \<longrightarrow> config_shares k = None)"
proof -
  have "squad_ready rs (start_cursors rs)" by (rule squad_start) (use assms in auto)
  then obtain r where r: "most_urgent (start_cursors rs) rs r" using squad_step by blast
  then have "cumulative_nondecreasing r" using assms(4) by (simp add: most_urgent_def)
  with most_urgent_squad [OF assms(1-3) _ r] assms(4) r show ?thesis by blast
qed

text \<open>
  C20: When every allowed share is profiled by every kernel of a squad, \<open>choose_configuration\<close>
  returns: its prediction is the estimate of the configuration it names, no strict partition and
  not the unrestricted execution is predicted faster, and it leaves the shares unrestricted only
  when every strict partition is predicted strictly slower.
\<close>

theorem chosen_configuration_optimal:
  assumes "squad \<noteq> []" and "\<forall>item \<in> set squad. accepted_profile (item_profile item)"
    and "\<forall>s \<in> set allowed. 0 < s \<and> s < 100 \<and>
      (\<forall>item \<in> set squad. s \<in> fst ` set (cumulative_us (item_profile item)))"
  shows "\<exists>k t. choose_configuration squad allowed = Inr k \<and>
      workload_equivalence_duration_us squad (squad_requests squad) = Inr t \<and>
      fle (predicted_us k) t \<and> (config_shares k = None \<longrightarrow> predicted_us k = t) \<and>
      (\<forall>d. config_shares k = Some d \<longrightarrow> strict_partition (squad_requests squad) allowed d \<and>
         interference_free_duration_us squad d = Inr (predicted_us k)) \<and>
      (\<forall>d. strict_partition (squad_requests squad) allowed d \<longrightarrow>
         (\<exists>u. interference_free_duration_us squad d = Inr u \<and> fle (predicted_us k) u \<and>
           (config_shares k = None \<longrightarrow> flt (predicted_us k) u)))"
proof (rule chosen_cases [OF assms], goal_cases)
  case (1 k t)
  then show ?thesis by (intro exI [of _ k] exI [of _ t]) simp
qed

section \<open>Example\<close>

text \<open>The kernels and requests of the unit tests, at the shares 50 and 100.\<close>

definition test_kernel :: "rat \<Rightarrow> rat \<Rightarrow> rat \<Rightarrow> kernel_profile" where
  "test_kernel full half sofar =
     \<lparr>kernel_name = ''k'', cumulative_us = [(50, Fin (sofar * 3 / 2)), (100, Fin sofar)],
      duration_us = [(50, Fin half), (100, Fin full)], native_share = 100\<rparr>"

definition test_requests :: "request_state list" where
  "test_requests =
     [\<lparr>request_id = ''a'', target_us = Fin 100, elapsed_us = Fin 30,
       kernels = [test_kernel 3 5 20, test_kernel 4 6 24], next_kernel = 0\<rparr>,
      \<lparr>request_id = ''b'', target_us = Fin 100, elapsed_us = Fin 10,
       kernels = [test_kernel 4 6 20, test_kernel 4 6 30], next_kernel = 0\<rparr>]"

lemma test_kernel_accepted:
  "0 < full \<Longrightarrow> 0 < half \<Longrightarrow> 0 < sofar \<Longrightarrow> accepted_profile (test_kernel full half sofar)"
  by (simp add: accepted_profile_def new_kernel_profile_def test_kernel_def check_share_def
      share_at_def positive_time_def)

lemma two_kernels_nondecreasing:
  assumes "kernels r = [test_kernel f h t, test_kernel f' h' t']" and "t \<le> t'"
  shows "cumulative_nondecreasing r"
proof -
  have "expected_us r 0 = Inr (Fin t)" "expected_us r 1 = Inr (Fin t')"
    by (simp_all add: expected_us_def assms(1) py_index_def share_at_def test_kernel_def)
  moreover have "i = 0" if "0 \<le> i" "i + 1 < int (length (kernels r))" for i
    using that by (simp add: assms(1))
  ultimately show ?thesis using assms(2) unfolding cumulative_nondecreasing_def by fastforce
qed

lemma test_requests_accepted:
  "\<forall>r \<in> set test_requests. accepted_request r \<and> full_share_profiled r \<and> cumulative_nondecreasing r"
proof -
  have "\<forall>r \<in> set test_requests. cumulative_nondecreasing r"
    by (auto simp: test_requests_def intro: two_kernels_nondecreasing)
  moreover have "\<forall>r \<in> set test_requests. accepted_request r \<and> full_share_profiled r"
    by (simp add: test_requests_def accepted_request_def new_request_state_def test_kernel_accepted
        full_share_profiled_def) (simp add: test_kernel_def)
  ultimately show ?thesis by blast
qed

theorem squad_is_greedy_witness:
  "\<exists>squad. form_kernel_squad test_requests 3 = Inr squad \<and> squad \<noteq> [] \<and> int (length squad) \<le> 3 \<and>
     (\<forall>i < length squad. greedy_step (nat 3) test_requests (start_cursors test_requests) squad i)"
  by (rule squad_is_greedy) (use test_requests_accepted in \<open>simp_all add: test_requests_def\<close>)

theorem squad_is_one_request_witness:
  "\<exists>r squad. most_urgent (start_cursors test_requests) test_requests r \<and>
     form_kernel_squad test_requests 3 = Inr squad \<and>
     squad = map (\<lambda>i. item_at r (next_kernel r + int i))
       [0..<min (nat 3) (length (kernels r) - nat (next_kernel r))] \<and>
     (\<forall>allowed k. choose_configuration squad allowed = Inr k \<longrightarrow> config_shares k = None)"
  by (rule squad_is_one_request) (use test_requests_accepted in \<open>simp_all add: test_requests_def\<close>)

text \<open>The squad of the configuration test: the even split of two requests.\<close>

definition test_squad :: "scheduled_kernel list" where
  "test_squad =
     [\<lparr>item_request = ''a'', kernel_index = 0, item_profile = test_kernel 7 4 7\<rparr>,
      \<lparr>item_request = ''b'', kernel_index = 0, item_profile = test_kernel 8 5 8\<rparr>]"

theorem chosen_configuration_optimal_witness:
  "strict_partition (squad_requests test_squad) [50] [(''a'', 50), (''b'', 50)] \<and>
   (\<exists>k u. choose_configuration test_squad [50] = Inr k \<and>
     interference_free_duration_us test_squad [(''a'', 50), (''b'', 50)] = Inr u \<and>
     fle (predicted_us k) u)"
proof -
  have "strict_partition (squad_requests test_squad) [50] [(''a'', 50), (''b'', 50)]"
    by (simp add: strict_partition_def squad_requests_def test_squad_def)
  moreover have "\<forall>item \<in> set test_squad. accepted_profile (item_profile item)"
    by (simp add: test_squad_def test_kernel_accepted)
  moreover have "\<forall>s \<in> set [50]. 0 < s \<and> s < 100 \<and>
      (\<forall>item \<in> set test_squad. s \<in> fst ` set (cumulative_us (item_profile item)))"
    by (simp add: test_squad_def test_kernel_def)
  moreover have "test_squad \<noteq> []" by (simp add: test_squad_def)
  ultimately show ?thesis using chosen_configuration_optimal [of test_squad "[50]"] by blast
qed

end
