(* ===== verification/BlessSchedule.thy ===== *)
theory BlessSchedule
  imports BlessScheduler
begin

text \<open>
  The program that profiles the common workload for BLESS (analysis/build_bless_common_schedule.py):
  the traces of one model at four SM counts become kernel profiles, and the two models' requests go
  through the scheduler once. The decoded lines of a trace file are given; the file digests that the
  program adds to its report and the constant fields of the report are left out.
\<close>

section \<open>Traces\<close>

definition sms_to_share :: "(int \<times> int) list" where
  "sms_to_share = [(2, 25), (4, 50), (6, 75), (8, 100)]"

text \<open>
  One record of a trace: the checks of the loop body, in its order, and the end time that the next
  record is compared with. All of them raise the same error.
\<close>

definition check_record :: "int \<Rightarrow> int \<Rightarrow> pyval \<Rightarrow> (pydict \<times> int) res" where
  "check_record index previous_end v =
     (case v of
        VDict d \<Rightarrow>
          if \<not> py_eq (dget d ''operation'') (VInt index) \<or> \<not> py_eq (dget d ''result'') (VInt 0) \<or>
             \<not> is_int (dget d ''start_monotonic_ns'') \<or> \<not> is_int (dget d ''end_monotonic_ns'')
          then Inl (ValueError ''record differs'')
          else bnd (to_pyint (dget d ''start_monotonic_ns'')) (\<lambda>start.
            bnd (to_pyint (dget d ''end_monotonic_ns'')) (\<lambda>stop.
              if start < previous_end \<or> stop \<le> start then Inl (ValueError ''record differs'')
              else Inr (d, stop)))
      | _ \<Rightarrow> Inl (ValueError ''record differs''))"

fun check_records :: "int \<Rightarrow> int \<Rightarrow> pyval list \<Rightarrow> pydict list res" where
  "check_records index previous_end [] = Inr []"
| "check_records index previous_end (v # vs) =
     bnd (check_record index previous_end v) (\<lambda>(d, stop).
       bnd (check_records (index + 1) stop vs) (\<lambda>ds. Inr (d # ds)))"

text \<open>A trace file: its content and the value of each of its lines.\<close>

type_synonym trace_file = "string \<times> pyval list"

definition load_trace :: "trace_file \<Rightarrow> pydict list res" where
  "load_trace f =
     (case f of (raw, records) \<Rightarrow>
        if raw = [] \<or> last raw \<noteq> CHR 0x0A then Inl (ValueError ''is empty or truncated'')
        else check_records 0 0 records)"

section \<open>Profiles of a model\<close>

text \<open>The duration of an operation at one SM count, in microseconds.\<close>

definition operation_duration :: "nat \<Rightarrow> int \<times> int \<Rightarrow> pydict list \<Rightarrow> (int \<times> pyfloat) res" where
  "operation_duration operation sms_share trace =
     (case sms_share of (sms, share) \<Rightarrow>
        bnd (py_index trace (int operation)) (\<lambda>record.
          if \<not> py_eq (dget record ''selected_sms'') (VInt sms)
          then Inl (ValueError ''selected SMs differ'')
          else bnd (dindex record ''end_monotonic_ns'') (\<lambda>e. bnd (to_pyint e) (\<lambda>stop.
            bnd (dindex record ''start_monotonic_ns'') (\<lambda>s. bnd (to_pyint s) (\<lambda>start.
              bnd (float_of_int (stop - start)) (\<lambda>ns.
                bnd (fdiv ns (Fin 1000)) (\<lambda>us. Inr (share, us)))))))))"

text \<open>\<open>cumulative[share] += duration\<close> for the four shares, in their order.\<close>

definition add_durations :: "share_times \<Rightarrow> share_times \<Rightarrow> share_times" where
  "add_durations cumulative durations =
     map2 (\<lambda>(share, sofar) (_, duration). (share, fadd sofar duration)) cumulative durations"

text \<open>\<open>traces[sms]\<close> in the order of \<open>SMS_TO_SHARE\<close>.\<close>

fun profile_operations ::
  "string \<Rightarrow> pydict list list \<Rightarrow> nat list \<Rightarrow> share_times \<Rightarrow> kernel_profile list res" where
  "profile_operations model traces [] cumulative = Inr []"
| "profile_operations model traces (operation # rest) cumulative =
     bnd (map_res (\<lambda>(sms_share, trace). operation_duration operation sms_share trace)
       (zip sms_to_share traces)) (\<lambda>durations.
     let cumulative' = add_durations cumulative durations in
     bnd (new_kernel_profile (model @ ''-op-'' @ str_of_nat operation) cumulative' durations 100)
       (\<lambda>profile. bnd (profile_operations model traces rest cumulative') (\<lambda>profiles.
         Inr (profile # profiles))))"

definition model_profiles :: "string \<Rightarrow> (int \<Rightarrow> trace_file) \<Rightarrow> kernel_profile list res" where
  "model_profiles model files =
     bnd (map_res (\<lambda>(sms, _). load_trace (files sms)) sms_to_share) (\<lambda>traces.
       case uniq (map length traces) of
         [count] \<Rightarrow> profile_operations model traces [0..<count] (map (\<lambda>(_, share). (share, Fin 0)) sms_to_share)
       | _ \<Rightarrow> Inl (ValueError ''launch counts differ across SM profiles''))"

section \<open>The first squad\<close>

text \<open>The report without its constant fields and digests.\<close>

record bless_report =
  resnet_launches :: nat
  distilbert_launches :: nat
  squad_items :: "(string \<times> int) list"
  decision :: squad_configuration

text \<open>\<open>RequestState(model, profiles[-1].cumulative_us[100], 0.0, profiles)\<close>.\<close>

definition common_request :: "string \<Rightarrow> kernel_profile list \<Rightarrow> request_state res" where
  "common_request model profiles =
     bnd (py_index profiles (-1)) (\<lambda>k. bnd (share_at (cumulative_us k) 100) (\<lambda>target.
       new_request_state model target (Fin 0) profiles 0))"

definition build_bless :: "(string \<Rightarrow> int \<Rightarrow> trace_file) \<Rightarrow> bless_report res" where
  "build_bless files =
     bnd (model_profiles ''resnet'' (files ''resnet'')) (\<lambda>resnet.
     bnd (model_profiles ''distilbert'' (files ''distilbert'')) (\<lambda>distilbert.
     bnd (common_request ''resnet'' resnet) (\<lambda>a.
     bnd (common_request ''distilbert'' distilbert) (\<lambda>b.
     bnd (form_kernel_squad [a, b] 6) (\<lambda>squad.
     bnd (choose_configuration squad [25, 50, 75]) (\<lambda>k.
       Inr \<lparr>resnet_launches = length resnet, distilbert_launches = length distilbert,
         squad_items = map (\<lambda>item. (item_request item, kernel_index item)) squad,
         decision = k\<rparr>))))))"

section \<open>Measured profiles are accepted by the scheduler\<close>

text \<open>The four shares, with finite positive cumulative times.\<close>

definition measured_shares :: "share_times \<Rightarrow> bool" where
  "measured_shares m \<longleftrightarrow> map fst m = map snd sms_to_share"

lemma measured_four:
  "measured_shares m \<longleftrightarrow> (\<exists>a b c d. m = [(25, a), (50, b), (75, c), (100, d)])"
  by (auto simp: measured_shares_def sms_to_share_def map_eq_Cons_conv)

lemma new_kernel_profile_fields:
  assumes "new_kernel_profile name cum dur native = Inr k"
  shows "k = \<lparr>kernel_name = name, cumulative_us = cum, duration_us = dur, native_share = native\<rparr> \<and>
     accepted_profile k"
proof -
  have "k = \<lparr>kernel_name = name, cumulative_us = cum, duration_us = dur, native_share = native\<rparr>"
    using assms by (auto simp: new_kernel_profile_def bnd_eq_Inr simp del: map_res.simps split: if_splits)
  then show ?thesis using assms by (simp add: accepted_profile_def)
qed

lemma operation_durations_shares:
  assumes "map_res (\<lambda>(sms_share, trace). operation_duration operation sms_share trace)
    (zip sms_to_share traces) = Inr durations" and "length traces = 4"
  shows "measured_shares durations"
proof -
  obtain a b c d where "traces = [a, b, c, d]"
    using assms(2) by (auto simp: length_Suc_conv eval_nat_numeral)
  then show ?thesis
    using assms(1) by (auto simp: measured_four sms_to_share_def operation_duration_def bnd_eq_Inr
        split: if_splits)
qed

text \<open>
  The cumulative times start at 0 or at the times of the previous kernel, and each kernel adds a
  positive duration to doubles, so they do not decrease.
\<close>

definition doubles :: "share_times \<Rightarrow> bool" where
  "doubles m \<longleftrightarrow> (\<forall>t \<in> snd ` set m. double t)"

definition profiles_from :: "share_times \<Rightarrow> kernel_profile list \<Rightarrow> bool" where
  "profiles_from cumulative ks \<longleftrightarrow>
     (\<forall>k \<in> set ks. accepted_profile k \<and> measured_shares (cumulative_us k)) \<and>
     (\<forall>i < length ks. \<exists>a b.
        share_at ((cumulative # map cumulative_us ks) ! i) 100 = Inr a \<and>
        share_at ((cumulative # map cumulative_us ks) ! Suc i) 100 = Inr b \<and> fle a b)"

lemma add_durations_facts:
  assumes "measured_shares m" "measured_shares d" "doubles m"
    and "\<exists>t. share_at d 100 = Inr t \<and> fle (Fin 0) t"
    and "\<exists>t. share_at (add_durations m d) 100 = Inr t \<and> t \<noteq> NaN"
  shows "measured_shares (add_durations m d) \<and> doubles (add_durations m d) \<and>
     (\<exists>a b. share_at m 100 = Inr a \<and> share_at (add_durations m d) 100 = Inr b \<and> fle a b)"
  using assms fadd_increases
  by (auto simp: measured_four add_durations_def doubles_def double_fadd share_at_def)

lemma profile_operations_facts:
  assumes "profile_operations model traces ops cumulative = Inr ks" and "length traces = 4"
    and "measured_shares cumulative" and "doubles cumulative"
  shows "profiles_from cumulative ks \<and> length ks = length ops"
  using assms
proof (induction ops arbitrary: cumulative ks)
  case (Cons operation rest)
  from Cons.prems(1) obtain durations k ks' where
    d: "map_res (\<lambda>(sms_share, trace). operation_duration operation sms_share trace)
      (zip sms_to_share traces) = Inr durations"
    and k: "new_kernel_profile (model @ ''-op-'' @ str_of_nat operation)
      (add_durations cumulative durations) durations 100 = Inr k"
    and rest: "profile_operations model traces rest (add_durations cumulative durations) = Inr ks'"
    and ks: "ks = k # ks'"
    by (auto simp: bnd_eq_Inr Let_def)
  have shares: "measured_shares durations"
    by (rule operation_durations_shares [OF d Cons.prems(2)])
  have fields: "cumulative_us k = add_durations cumulative durations" "duration_us k = durations"
    "accepted_profile k"
    using new_kernel_profile_fields [OF k] by auto
  have sum_shares: "measured_shares (add_durations cumulative durations)"
    using Cons.prems(3) shares by (auto simp: measured_four add_durations_def)
  then have "100 \<in> fst ` set (cumulative_us k)" using fields by (auto simp: measured_four)
  then obtain t u where "share_at (cumulative_us k) 100 = Inr (Fin t)"
    "share_at (duration_us k) 100 = Inr (Fin u)" "0 < u"
    using accepted_profile_times fields by blast
  with fields have "\<exists>t. share_at durations 100 = Inr t \<and> fle (Fin 0) t"
    "\<exists>t. share_at (add_durations cumulative durations) 100 = Inr t \<and> t \<noteq> NaN"
    by auto
  from add_durations_facts [OF Cons.prems(3) shares Cons.prems(4) this]
  have stepped: "measured_shares (add_durations cumulative durations)"
    "doubles (add_durations cumulative durations)"
    "\<exists>a b. share_at cumulative 100 = Inr a \<and>
      share_at (add_durations cumulative durations) 100 = Inr b \<and> fle a b"
    by auto
  have "profiles_from (cumulative_us k) ks' \<and> length ks' = length rest"
    using Cons.IH [OF rest Cons.prems(2) stepped(1,2)] fields by auto
  then show ?case
    using ks fields stepped
    by (simp add: profiles_from_def All_less_Suc2)
qed (auto simp: profiles_from_def)

lemma model_profiles_facts:
  assumes "model_profiles model files = Inr ks"
  shows "\<forall>k \<in> set ks. accepted_profile k \<and> measured_shares (cumulative_us k)"
    and "\<forall>i. Suc i < length ks \<longrightarrow> (\<exists>a b. share_at (cumulative_us (ks ! i)) 100 = Inr a \<and>
      share_at (cumulative_us (ks ! Suc i)) 100 = Inr b \<and> fle a b)"
proof -
  from assms obtain traces where
    t: "map_res (\<lambda>(sms, _). load_trace (files sms)) sms_to_share = Inr traces"
    and all: "(case uniq (map length traces) of
         [count] \<Rightarrow> profile_operations model traces [0..<count] (map (\<lambda>(_, share). (share, Fin 0)) sms_to_share)
       | _ \<Rightarrow> Inl (ValueError ''launch counts differ across SM profiles'')) = Inr ks"
    unfolding model_profiles_def bnd_eq_Inr by blast
  from all obtain count where
    ks: "profile_operations model traces [0..<count] (map (\<lambda>(_, share). (share, Fin 0)) sms_to_share) = Inr ks"
    by (cases "uniq (map length traces)"; cases "tl (uniq (map length traces))") auto
  have four: "length traces = 4"
    using t by (auto simp: sms_to_share_def bnd_eq_Inr)
  have start: "measured_shares (map (\<lambda>(_, share). (share, Fin 0)) sms_to_share)"
    "doubles (map (\<lambda>(_, share). (share, Fin 0)) sms_to_share)"
    using double_fl [of 0] fl_of_int [of 0]
    by (auto simp: measured_shares_def sms_to_share_def doubles_def)
  have chain: "profiles_from (map (\<lambda>(_, share). (share, Fin 0)) sms_to_share) ks"
    using profile_operations_facts [OF ks four start] by blast
  then show "\<forall>k \<in> set ks. accepted_profile k \<and> measured_shares (cumulative_us k)"
    by (simp add: profiles_from_def)
  show "\<forall>i. Suc i < length ks \<longrightarrow> (\<exists>a b. share_at (cumulative_us (ks ! i)) 100 = Inr a \<and>
      share_at (cumulative_us (ks ! Suc i)) 100 = Inr b \<and> fle a b)"
  proof (intro allI impI)
    fix i assume "Suc i < length ks"
    with chain have "\<exists>a b. share_at ((map (\<lambda>(_, share). (share, Fin 0)) sms_to_share #
        map cumulative_us ks) ! Suc i) 100 = Inr a \<and> share_at ((map (\<lambda>(_, share). (share, Fin 0))
        sms_to_share # map cumulative_us ks) ! Suc (Suc i)) 100 = Inr b \<and> fle a b"
      unfolding profiles_from_def by blast
    then show "\<exists>a b. share_at (cumulative_us (ks ! i)) 100 = Inr a \<and>
      share_at (cumulative_us (ks ! Suc i)) 100 = Inr b \<and> fle a b"
      using \<open>Suc i < length ks\<close> by simp
  qed
qed

lemma common_request_ok:
  assumes "model_profiles model files = Inr ks" and "ks \<noteq> []" and "model \<noteq> []"
  shows "\<exists>r. common_request model ks = Inr r \<and> request_id r = model \<and> kernels r = ks \<and>
      next_kernel r = 0 \<and> elapsed_us r = Fin 0 \<and> accepted_request r \<and> full_share_profiled r \<and>
      cumulative_nondecreasing r"
proof -
  note facts = model_profiles_facts [OF assms(1)]
  have lst: "ks ! (length ks - 1) \<in> set ks" using assms(2) by simp
  have full: "100 \<in> fst ` set (cumulative_us k)" if "k \<in> set ks" for k
    using facts(1) that by (fastforce simp: measured_four)
  obtain t where t: "share_at (cumulative_us (ks ! (length ks - 1))) 100 = Inr (Fin t)" "0 < t"
    using accepted_profile_times [OF _ full] facts(1) lst by blast
  let ?r = "\<lparr>request_id = model, target_us = Fin t, elapsed_us = Fin 0, kernels = ks, next_kernel = 0\<rparr>"
  have "py_index ks (-1) = Inr (ks ! (length ks - 1))"
    using assms(2) by (cases ks) (auto simp: py_index_def nat_diff_distrib)
  then have made: "common_request model ks = Inr ?r"
    using t assms(2,3) by (simp add: common_request_def new_request_state_def)
  have "accepted_request ?r"
    using t assms(2,3) facts(1) by (simp add: accepted_request_def new_request_state_def)
  moreover have "full_share_profiled ?r" using full by (simp add: full_share_profiled_def)
  moreover have "cumulative_nondecreasing ?r"
    unfolding cumulative_nondecreasing_def
  proof (intro allI impI)
    fix i :: int assume i: "0 \<le> i \<and> i + 1 < int (length (kernels ?r))"
    define j where "j = nat i"
    have j: "i = int j" "i + 1 = int (Suc j)" "Suc j < length ks" using i by (auto simp: j_def)
    have "py_index ks i = Inr (ks ! j)" "py_index ks (i + 1) = Inr (ks ! Suc j)"
      unfolding j(2) unfolding j(1) using j(3) by (simp_all only: py_index_nat Suc_lessD)
    then show "\<exists>a b. expected_us ?r i = Inr a \<and> expected_us ?r (i + 1) = Inr b \<and> fle a b"
      using facts(2) j(3) by (simp add: expected_us_def)
  qed
  ultimately show ?thesis using made by auto
qed

section \<open>Properties\<close>

text \<open>
  Whatever was measured, the first squad of the common workload holds the first kernels of
  ResNet only, at most six, and never one of DistilBERT: both requests start with no elapsed time,
  the tie goes to the first request and it stays the most urgent. The configuration of the squad is
  therefore never a spatial partition.
\<close>

lemma first_squad_is_one_model:
  assumes "model_profiles ''resnet'' (files ''resnet'') = Inr resnet" and "resnet \<noteq> []"
    and "model_profiles ''distilbert'' (files ''distilbert'') = Inr distilbert" and "distilbert \<noteq> []"
  shows "\<exists>report. build_bless files = Inr report \<and>
      squad_items report = map (\<lambda>i. (''resnet'', int i)) [0..<min 6 (length resnet)] \<and>
      config_shares (decision report) = None \<and> resnet_launches report = length resnet \<and>
      distilbert_launches report = length distilbert"
proof -
  obtain a where a: "common_request ''resnet'' resnet = Inr a" "request_id a = ''resnet''"
    "kernels a = resnet" "next_kernel a = 0" "elapsed_us a = Fin 0" "accepted_request a"
    "full_share_profiled a" "cumulative_nondecreasing a"
    using common_request_ok [OF assms(1,2)] by auto
  obtain b where b: "common_request ''distilbert'' distilbert = Inr b" "request_id b = ''distilbert''"
    "next_kernel b = 0" "elapsed_us b = Fin 0" "accepted_request b" "full_share_profiled b"
    using common_request_ok [OF assms(3,4)] by auto
  have ids: "distinct (map request_id [a, b])" using a(2) b(2) by simp
  have ready: "squad_ready [a, b] (start_cursors [a, b])"
    by (rule squad_start) (use a b ids in auto)
  have zero: "fst u = Fin 0" if q: "q \<in> set [a, b]" and u: "urgency (start_cursors [a, b]) [a, b] q = Inr u" for q u
  proof -
    have "accepted_request q \<and> full_share_profiled q \<and> 0 \<le> start_cursors [a, b] (request_id q) \<and>
        start_cursors [a, b] (request_id q) < int (length (kernels q)) \<and> elapsed_us q = Fin 0"
      using ready q a(5) b(4) by (auto simp: squad_ready_def unfinished_def)
    then show ?thesis using urgency_ok [of q "start_cursors [a, b]" "[a, b]"] u fl_of_int [of 0] by auto
  qed
  obtain r where r: "most_urgent (start_cursors [a, b]) [a, b] r" using squad_step [OF ready] by blast
  have "r = a"
  proof (rule ccontr)
    assume "r \<noteq> a"
    with r have "r = b" by (auto simp: most_urgent_def)
    then obtain u v where uv: "urgency (start_cursors [a, b]) [a, b] b = Inr u"
      "urgency (start_cursors [a, b]) [a, b] a = Inr v" "\<not> urgent_before v u"
      using r by (auto simp: most_urgent_def)
    have "a \<noteq> b" using a(2) b(2) by auto
    then have "snd u = 1" "snd v = 0"
      using urgency_position [OF uv(1)] urgency_position [OF uv(2)] by (auto simp: position_in_def)
    moreover have "fst u = Fin 0" "fst v = Fin 0"
      using zero [OF _ uv(1)] zero [OF _ uv(2)] by simp_all
    ultimately show False using uv(3) by (simp add: urgent_before_less)
  qed
  with r have "most_urgent (start_cursors [a, b]) [a, b] a" by simp
  from most_urgent_squad [OF _ _ ids _ this a(8), of 6] a b obtain squad where
    squad: "form_kernel_squad [a, b] 6 = Inr squad"
      "squad = map (\<lambda>i. item_at a (int i)) [0..<min 6 (length resnet)]"
      "0 < min 6 (length resnet)"
      "\<forall>allowed k. choose_configuration squad allowed = Inr k \<longrightarrow> config_shares k = None"
    by auto
  have measured: "accepted_profile (item_profile item) \<and> measured_shares (cumulative_us (item_profile item))"
    if "item \<in> set squad" for item
    using that model_profiles_facts(1) [OF assms(1)] a(3) by (auto simp: squad(2) item_at_def)
  obtain k where k: "choose_configuration squad [25, 50, 75] = Inr k"
  proof (rule chosen_cases [of squad "[25, 50, 75]"])
    show "squad \<noteq> []" using squad(2,3) by simp
    show "\<forall>item \<in> set squad. accepted_profile (item_profile item)" using measured by blast
    show "\<forall>s \<in> set [25, 50, 75]. 0 < s \<and> s < 100 \<and>
        (\<forall>item \<in> set squad. s \<in> fst ` set (cumulative_us (item_profile item)))"
      using measured by (fastforce simp: measured_four)
  qed
  then have "config_shares k = None" using squad(4) by blast
  moreover have "map (\<lambda>item. (item_request item, kernel_index item)) squad =
      map (\<lambda>i. (''resnet'', int i)) [0..<min 6 (length resnet)]"
    by (simp add: squad(2) item_at_def a(2))
  ultimately show ?thesis
    using assms(1,3) a(1) b(1) squad(1) k by (simp add: build_bless_def)
qed

section \<open>Example\<close>

text \<open>One launch per model that takes one millisecond at every SM count.\<close>

definition millisecond_trace :: "int \<Rightarrow> trace_file" where
  "millisecond_trace sms =
     ([CHR 0x0A], [VDict [(''operation'', VInt 0), (''result'', VInt 0),
        (''start_monotonic_ns'', VInt 0), (''end_monotonic_ns'', VInt 1000000),
        (''selected_sms'', VInt sms)]])"

lemma millisecond_duration: "float_of_int 1000000 = Inr (Fin 1000000)" "fl 1000 = Fin 1000"
    "fl 0 = Fin 0"
  using fl_of_int [of 1000000] fl_of_int [of 1000] fl_of_int [of 0] by (simp_all add: float_of_int_def)

lemma millisecond_profiles: "\<exists>k. model_profiles model millisecond_trace = Inr [k]"
  by (simp add: model_profiles_def sms_to_share_def load_trace_def millisecond_trace_def check_record_def
      dget_def dindex_def operation_duration_def add_durations_def new_kernel_profile_def check_share_def
      share_at_def positive_time_def millisecond_duration Let_def insert_commute feq_def py_index_def)

lemma first_squad_is_one_model_witness:
  "\<exists>report. build_bless (\<lambda>_. millisecond_trace) = Inr report \<and>
     squad_items report = [(''resnet'', 0)] \<and> config_shares (decision report) = None"
proof -
  obtain a b where "model_profiles ''resnet'' millisecond_trace = Inr [a]"
    "model_profiles ''distilbert'' millisecond_trace = Inr [b]"
    using millisecond_profiles by blast
  from first_squad_is_one_model [of "\<lambda>_. millisecond_trace", OF this(1) _ this(2)] show ?thesis by auto
qed

end
