(* ===== verification/GuardFreeze.thy ===== *)
theory GuardFreeze
  imports AuditReplay
begin

text \<open>
  The calibration of the drain guards: the fixed cases of the profiling campaign
  (runtime/profile_p9_guard.py), and the estimator, the held-out check and the lock of
  analysis/freeze_p9_guard.py. The evidence of one case, which the freezer replays from telemetry
  and trace files, enters here as its pooled drain times; the lock it yields is what the runtime
  and the audit read (AuditReplay).
\<close>

section \<open>Calibration cases\<close>

record client_spec =
  client_placement :: string
  client_quota :: int
  client_modality :: string
  client_count :: int

definition MODELS :: "(string \<times> string) list" where
  "MODELS = [(''language'', ''distilbert-sst2''), (''audio'', ''whisper-tiny-encoder'')]"

text \<open>\<open>ClientSpec.__post_init__\<close>, the \<open>model\<close> property and \<open>to_json\<close>.\<close>

definition new_client_spec :: "string \<Rightarrow> int \<Rightarrow> string \<Rightarrow> int \<Rightarrow> client_spec res" where
  "new_client_spec p q m n =
     (if p \<notin> {''resident-1g'', ''borrower-2g''} then Inl (ValueError ''unsupported placement'')
      else if q \<notin> {25, 50, 100} then Inl (ValueError ''unsupported quota'')
      else if p = ''borrower-2g'' \<and> q \<noteq> 100
      then Inl (ValueError ''borrower-2g is calibrated only at q100'')
      else if m \<notin> fst ` set MODELS then Inl (ValueError ''unsupported modality'')
      else if n \<le> 0 then Inl (ValueError ''client count must be positive'')
      else Inr \<lparr>client_placement = p, client_quota = q, client_modality = m, client_count = n\<rparr>)"

definition client_model :: "client_spec \<Rightarrow> string res" where
  "client_model c = (case map_of MODELS (client_modality c) of
     None \<Rightarrow> Inl (KeyError (client_modality c)) | Some m \<Rightarrow> Inr m)"

definition client_to_json :: "client_spec \<Rightarrow> pyval res" where
  "client_to_json c = bnd (client_model c) (\<lambda>m.
     Inr (VDict [(''placement'', VStr (client_placement c)), (''quota_percent'', VInt (client_quota c)),
       (''modality'', VStr (client_modality c)), (''model'', VStr m), (''count'', VInt (client_count c))]))"

record calibration_case =
  case_id :: string
  case_clients :: "client_spec list"
  held_out :: bool

definition expanded_clients :: "calibration_case \<Rightarrow> client_spec list" where
  "expanded_clients c =
     concat (map (\<lambda>k. replicate (nat (client_count k)) (k\<lparr>client_count := 1\<rparr>)) (case_clients c))"

definition case_to_json :: "calibration_case \<Rightarrow> pyval res" where
  "case_to_json c = bnd (map_res client_to_json (case_clients c)) (\<lambda>cs.
     Inr (VDict [(''case_id'', VStr (case_id c)), (''held_out'', VBool (held_out c)), (''clients'', VList cs)]))"

definition client :: "string \<Rightarrow> int \<Rightarrow> string \<Rightarrow> int \<Rightarrow> client_spec" where
  "client p q m n = \<lparr>client_placement = p, client_quota = q, client_modality = m, client_count = n\<rparr>"

definition single_client_cases :: "calibration_case list" where
  "single_client_cases =
     concat (map (\<lambda>q. map (\<lambda>m.
        \<lparr>case_id = ''resident-1g-q'' @ str_of_int q @ ''-'' @ m,
         case_clients = [client ''resident-1g'' q m 1], held_out = False\<rparr>) [''language'', ''audio''])
       [25, 50, 100]) @
     map (\<lambda>m. \<lparr>case_id = ''borrower-2g-q100-'' @ m,
         case_clients = [client ''borrower-2g'' 100 m 1], held_out = False\<rparr>) [''language'', ''audio'']"

definition held_out_cases :: "calibration_case list" where
  "held_out_cases =
     [\<lparr>case_id = ''heldout-resident-q100-audio-x6'',
       case_clients = [client ''resident-1g'' 100 ''audio'' 6], held_out = True\<rparr>,
      \<lparr>case_id = ''heldout-split-resident-q50-audio-x3-borrower-q100-audio-x3'',
       case_clients = [client ''resident-1g'' 50 ''audio'' 3, client ''borrower-2g'' 100 ''audio'' 3],
       held_out = True\<rparr>,
      \<lparr>case_id = ''heldout-split-resident-q25-audio-x3-borrower-q100-audio-x3'',
       case_clients = [client ''resident-1g'' 25 ''audio'' 3, client ''borrower-2g'' 100 ''audio'' 3],
       held_out = True\<rparr>]"

section \<open>The estimator\<close>

definition BLOCKS :: nat where "BLOCKS = 10"
definition EVENTS_PER_BLOCK :: nat where "EVENTS_PER_BLOCK = 1000"
definition FORMAL_PERIOD_MS :: pyfloat where "FORMAL_PERIOD_MS = Fin 20"

text \<open>The literals 0.999, 1.20 and 1e-12.\<close>

definition PERCENTILE :: pyfloat where "PERCENTILE = fl (999 / 1000)"
definition MARGIN :: pyfloat where "MARGIN = fl (6 / 5)"
definition coverage_slack :: pyfloat where "coverage_slack = fl (1 / 10 ^ 12)"

text \<open>\<open>_finite_nonnegative\<close> on any value and on a float.\<close>

definition finite_sample :: "pyfloat \<Rightarrow> pyfloat res" where
  "finite_sample x =
     (if \<not> isfinite x \<or> flt x (Fin 0) then Inl (ValueError ''is not finite and nonnegative'') else Inr x)"

definition finite_nonneg_value :: "pyval \<Rightarrow> pyfloat res" where
  "finite_nonneg_value v =
     (if is_bool v \<or> \<not> is_number v then Inl (ValueError ''is not numeric'')
      else bnd (to_float v) finite_sample)"

text \<open>The Hyndman-Fan type 7 percentile: linear interpolation between two order statistics.\<close>

definition percentile_type7 :: "pyfloat list \<Rightarrow> pyfloat \<Rightarrow> pyfloat res" where
  "percentile_type7 values q =
     (if values = [] \<or> \<not> isfinite q \<or> \<not> (fle (Fin 0) q \<and> fle q (Fin 1))
      then Inl (ValueError ''Type-7 percentile requires samples and q in [0, 1]'')
      else bnd (map_res finite_sample values) (\<lambda>samples.
        let ordered = sort samples in
        if length ordered = 1 then py_index ordered 0
        else bnd (float_of_int (int (length ordered) - 1)) (\<lambda>n.
          let position = fmul q n in
          bnd (math_floor position) (\<lambda>lower. bnd (math_ceil position) (\<lambda>upper.
            if lower = upper then py_index ordered lower
            else bnd (float_of_int lower) (\<lambda>l.
              let weight = fsub position l in
              bnd (py_index ordered lower) (\<lambda>a. bnd (py_index ordered upper) (\<lambda>b.
                Inr (fadd (fmul a (fsub (Fin 1) weight)) (fmul b weight))))))))))"

text \<open>
  \<open>Decimal(str(x))\<close>: \<open>str\<close> of a float is the shortest decimal that rounds to it, and the one closest
  to it among these. The candidates with \<open>n\<close> significant digits are the two neighbours on the grid of
  the last digit; seventeen digits always suffice, so the number itself, the last candidate, is
  never reached.
\<close>

definition decimal_exponent :: "rat \<Rightarrow> int" where
  "decimal_exponent v =
     (if 1 \<le> v then int (length (str_of_nat (nat \<lfloor>v\<rfloor>))) - 1
      else case find (\<lambda>k. 1 \<le> v * 10 ^ k) [1..<400] of None \<Rightarrow> 0 | Some k \<Rightarrow> - int k)"

definition pow10 :: "int \<Rightarrow> rat" where
  "pow10 e = (if 0 \<le> e then 10 ^ nat e else 1 / 10 ^ nat (- e))"

definition decimal_candidates :: "rat \<Rightarrow> nat \<Rightarrow> rat list" where
  "decimal_candidates v n =
     (let unit = pow10 (decimal_exponent v - int n + 1);
          lower = of_int \<lfloor>v / unit\<rfloor> * unit; upper = of_int \<lceil>v / unit\<rceil> * unit
      in if v - lower \<le> upper - v then [lower, upper] else [upper, lower])"

definition decimal_repr :: "rat \<Rightarrow> rat" where
  "decimal_repr v =
     (case find (\<lambda>d. fl d = Fin v) (concat (map (decimal_candidates v) [1..<18])) of
        None \<Rightarrow> v | Some d \<Rightarrow> d)"

text \<open>
  \<open>round_up_ms\<close> at its default quantum of 0.1, the only one the program uses. The quotient by 0.1
  and the product are exact within the 28 digits of the decimal context for values below 1e27;
  \<open>estimate_guard_ms\<close> rejects everything from 20 on.
\<close>

definition round_up_ms :: "pyfloat \<Rightarrow> pyfloat res" where
  "round_up_ms value = bnd (finite_sample value) (\<lambda>v.
     Inr (fl (of_int \<lceil>10 * decimal_repr (fval v)\<rceil> / 10)))"

definition estimate_guard_ms :: "pyfloat list \<Rightarrow> (pyfloat \<times> pyfloat) res" where
  "estimate_guard_ms values =
     bnd (percentile_type7 values PERCENTILE) (\<lambda>raw.
       bnd (round_up_ms (fmul raw MARGIN)) (\<lambda>guard.
         if fle FORMAL_PERIOD_MS guard
         then Inl (ValueError ''single-client guard does not fit the formal 20 ms period'')
         else Inr (raw, guard)))"

section \<open>Held-out cases\<close>

definition require_held_out_coverage :: "pyfloat \<Rightarrow> pyfloat \<Rightarrow> unit res" where
  "require_held_out_coverage envelope_ms observed_max_ms =
     bnd (finite_sample envelope_ms) (\<lambda>envelope. bnd (finite_sample observed_max_ms) (\<lambda>observed.
       if fle FORMAL_PERIOD_MS envelope
       then Inl (ValueError ''held-out case does not fit the formal 20 ms period'')
       else if flt (fadd envelope coverage_slack) observed
       then Inl (ValueError ''held-out case exceeds the additive guard envelope'')
       else Inr ()))"

text \<open>The calibrated guards, keyed as \<open>_guard_key\<close> builds the key.\<close>

type_synonym guard_values = "((string \<times> string \<times> string) \<times> pyfloat) list"

definition client_key :: "client_spec \<Rightarrow> string \<times> string \<times> string" where
  "client_key c = (client_placement c, str_of_int (client_quota c), client_modality c)"

definition guard_key :: "calibration_case \<Rightarrow> (string \<times> string \<times> string) res" where
  "guard_key c = bnd (py_index (case_clients c) 0) (\<lambda>k. Inr (client_key k))"

text \<open>
  \<open>per_instance[key[0]] = per_instance.get(key[0], 0.0) + count * guard\<close>. The product of an int and a
  float converts the int first. The returned components are a dictionary; its sorted order is not
  kept.
\<close>

definition add_client ::
  "guard_values \<Rightarrow> client_spec \<Rightarrow> (string \<times> pyfloat) list \<Rightarrow> (string \<times> pyfloat) list res" where
  "add_client guards c per_instance =
     (case map_of guards (client_key c) of
        None \<Rightarrow> Inl (ValueError ''held-out case refers to an uncalibrated guard'')
      | Some g \<Rightarrow> bnd (float_of_int (client_count c)) (\<lambda>n.
          Inr (add_guard (client_placement c) (fmul n g) per_instance)))"

definition additive_envelope_ms ::
  "client_spec list \<Rightarrow> guard_values \<Rightarrow> (pyfloat \<times> (string \<times> pyfloat) list) res" where
  "additive_envelope_ms clients guards =
     bnd (fold_res (add_client guards) clients []) (\<lambda>per_instance.
       case map snd per_instance of
         [] \<Rightarrow> Inl (ValueError ''max() arg is an empty sequence'')
       | v # vs \<Rightarrow> Inr (foldl fmax v vs, per_instance))"

section \<open>The lock\<close>

text \<open>What the replay of one case leaves: its identity, its pooled drains and its block evidence.\<close>

record replayed_case =
  replayed_identity :: calibration_case
  pooled_ms :: "pyfloat list"
  blocks_evidence :: pyval

text \<open>\<open>max(pooled)\<close>.\<close>

definition observed_max_ms :: "replayed_case \<Rightarrow> pyfloat res" where
  "observed_max_ms r = (case pooled_ms r of
     [] \<Rightarrow> Inl (ValueError ''max() arg is an empty sequence'') | v # vs \<Rightarrow> Inr (foldl fmax v vs))"

text \<open>\<open>guards.setdefault(p, {}).setdefault(q, {})[m] = cell\<close>.\<close>

fun set_in :: "string list \<Rightarrow> pyval \<Rightarrow> pydict \<Rightarrow> pydict" where
  "set_in [] v d = d"
| "set_in [k] v d = dset k v d"
| "set_in (k # ks) v d =
     (case dget d k of VDict e \<Rightarrow> dset k (VDict (set_in ks v e)) d | _ \<Rightarrow> dset k (VDict (set_in ks v [])) d)"

definition freeze_single ::
  "replayed_case \<Rightarrow> pydict \<times> guard_values \<Rightarrow> (pydict \<times> guard_values) res" where
  "freeze_single r st =
     (case st of (guards, values) \<Rightarrow>
        bnd (estimate_guard_ms (pooled_ms r)) (\<lambda>(raw, guard).
        bnd (guard_key (replayed_identity r)) (\<lambda>(p, q, m).
        bnd (observed_max_ms r) (\<lambda>peak.
          Inr (set_in [p, q, m]
                 (VDict [(''guard_ms'', VFloat guard), (''raw_pooled_p999_ms'', VFloat raw),
                    (''samples'', VInt (int (length (pooled_ms r)))), (''observed_max_ms'', VFloat peak)])
                 guards,
               ((p, q, m), guard) # values)))))"

record held_validation =
  held_identity :: calibration_case
  envelope_ms :: pyfloat
  per_instance_ms :: "(string \<times> pyfloat) list"
  headroom_ms :: pyfloat

definition validate_held_out :: "guard_values \<Rightarrow> replayed_case \<Rightarrow> held_validation res" where
  "validate_held_out guards r =
     bnd (additive_envelope_ms (case_clients (replayed_identity r)) guards) (\<lambda>(envelope, parts).
     bnd (observed_max_ms r) (\<lambda>peak.
     bnd (require_held_out_coverage envelope peak) (\<lambda>_.
       Inr \<lparr>held_identity = replayed_identity r, envelope_ms = envelope, per_instance_ms = parts,
         headroom_ms = fsub envelope peak\<rparr>)))"

text \<open>
  The part of \<open>build_lock\<close> after the replay, and the fields of the lock that a reader of guards
  looks at.
\<close>

definition freeze_guards ::
  "replayed_case list \<Rightarrow> replayed_case list \<Rightarrow> (pydict \<times> guard_values \<times> held_validation list) res" where
  "freeze_guards single held =
     bnd (fold_res freeze_single single ([], [])) (\<lambda>(guards, values).
     bnd (map_res (validate_held_out values) held) (\<lambda>validation.
       Inr ([(''schema_version'', VInt 3), (''kind'', VStr ''p9-quota-aware-guard-lock''),
             (''guards'', VDict guards)], values, validation)))"

section \<open>Rounding errors of the estimator\<close>

lemma rnd_lower:
  assumes "0 \<le> x"
  shows "x * (1 - 1 / 2 ^ 52) - pow2 (-1074) \<le> rnd x"
proof (cases "x = 0")
  case False
  let ?u = "pow2 (quantum x)"
  have "of_int \<lfloor>x / ?u\<rfloor> \<le> (of_int (round_even (x / ?u)) :: rat)"
    using round_even_floor(1) by simp
  moreover have "x / ?u - 1 \<le> of_int \<lfloor>x / ?u\<rfloor>" by linarith
  ultimately have "(x / ?u - 1) * ?u \<le> rnd x"
    unfolding rnd_eq [OF False] by (intro mult_right_mono) auto
  then have "x - ?u \<le> rnd x" by (simp add: left_diff_distrib)
  moreover have "?u \<le> x / 2 ^ 52 + pow2 (-1074)"
  proof -
    have "pow2 (expo x) \<le> x" using expo_bounds [OF False] assms by simp
    moreover have "pow2 (expo x) = pow2 (expo x - 52) * 2 ^ 52"
      using pow2_add_nat [of "expo x - 52" 52] by simp
    ultimately have "pow2 (expo x - 52) \<le> x / 2 ^ 52" by (simp add: field_simps)
    then have "pow2 (expo x - 52) \<le> x / 2 ^ 52 + pow2 (-1074)" by (rule order_trans) simp
    moreover have "pow2 (-1074) \<le> x / 2 ^ 52 + pow2 (-1074)" using assms by simp
    ultimately show ?thesis by (simp add: quantum_def max_def)
  qed
  ultimately show ?thesis by (simp add: algebra_simps)
qed (simp add: pow2_def)

text \<open>A coarse form, enough for the estimator: the margin of 1.2 hides these errors.\<close>

lemma pow2_subnormal: "pow2 (-1074) \<le> 1 / 10 ^ 300"
  by (simp add: pow2_def)

lemma rnd_coarse:
  assumes "0 \<le> x"
  shows "x * (999 / 1000) - 1 / 10 ^ 12 \<le> rnd x"
proof -
  have "x * (999 / 1000) \<le> x * (1 - 1 / 2 ^ 52)" using assms by (intro mult_left_mono) auto
  moreover have "pow2 (-1074) \<le> 1 / 10 ^ 12" using pow2_subnormal by (rule order_trans) simp
  ultimately show ?thesis using rnd_lower [OF assms] by linarith
qed

lemma fl_Fin_rnd: "fl x = Fin y \<Longrightarrow> y = rnd x"
  by (auto simp: fl_def Let_def split: if_splits)

lemma decimal_repr_rounds: "fl v = Fin v \<Longrightarrow> fl (decimal_repr v) = Fin v"
  by (auto simp: decimal_repr_def split: option.splits dest: find_SomeD)

text \<open>The shortest decimal rounds to the value, so rounding it up does not fall below the value.\<close>

lemma round_up_ge:
  assumes "round_up_ms (Fin v) = Inr g" and "double (Fin v)"
  shows "fle (Fin v) g"
proof -
  let ?n = "\<lceil>10 * decimal_repr v\<rceil>"
  have g: "g = fl (of_int ?n / 10)"
    using assms(1) by (auto simp: round_up_ms_def bnd_eq_Inr finite_sample_def split: if_splits)
  have "10 * decimal_repr v \<le> of_int ?n" by (rule le_of_int_ceiling)
  then have "decimal_repr v \<le> of_int ?n / 10" by linarith
  from fl_mono [OF this] show ?thesis
    by (simp add: g decimal_repr_rounds [OF double_fl_id [OF assms(2)]])
qed

lemma sorted_above:
  assumes "sorted xs" and "i < length xs"
  shows "length (filter (\<lambda>x. xs ! i < x) xs) \<le> length xs - Suc i"
proof -
  have "filter (\<lambda>x. xs ! i < x) (take (Suc i) xs) = []"
    using assms by (auto simp: filter_empty_conv in_set_conv_nth not_less sorted_nth_mono)
  then have "filter (\<lambda>x. xs ! i < x) xs = filter (\<lambda>x. xs ! i < x) (drop (Suc i) xs)"
    by (metis append_self_conv2 append_take_drop_id filter_append)
  also have "length \<dots> \<le> length xs - Suc i" by (metis length_drop length_filter_le)
  finally show ?thesis .
qed

lemma weighted_terms:
  fixes x y z t u e k :: rat
  assumes "x * k - e \<le> t" "y * k - e \<le> u" "z \<le> x" "0 \<le> k"
  shows "(z + y) * k - 2 * e \<le> t + u"
proof -
  have "z * k \<le> x * k" using assms(3,4) by (rule mult_right_mono)
  then show ?thesis using assms(1,2) unfolding distrib_right by linarith
qed

lemma scaled_lower:
  fixes x z e r k :: rat
  assumes "x * k - e \<le> r" "z \<le> x" "0 \<le> k"
  shows "z * k - e \<le> r"
proof -
  have "z * k \<le> x * k" using assms(2,3) by (rule mult_right_mono)
  then show ?thesis using assms(1) by linarith
qed

lemma scaled_twice:
  fixes a e r s :: rat
  assumes "s * (999 / 1000) - e \<le> r" "a * (998 / 1000) * (999 / 1000) - 2 * e \<le> s" "0 \<le> a" "0 \<le> e"
  shows "a * (99 / 100) - 4 * e \<le> r"
  using assms by (simp add: field_simps)

lemma interpolation_lower:
  assumes "0 \<le> a" "a \<le> b" "0 \<le> w" "w \<le> 1"
  shows "a * (99 / 100) - 4 * (1 / 10 ^ 12) \<le> rnd (rnd (a * rnd (1 - w)) + rnd (b * w))"
proof -
  let ?c = "rnd (1 - w)" and ?e = "1 / 10 ^ 12 :: rat"
  have c: "(1 - w) * (999 / 1000) - ?e \<le> ?c" "0 \<le> ?c"
    using rnd_coarse [of "1 - w"] assms(4) by auto
  have t1: "a * ?c * (999 / 1000) - ?e \<le> rnd (a * ?c)"
    using assms(1) c(2) by (intro rnd_coarse) simp
  have "a * w * (999 / 1000) - ?e \<le> b * w * (999 / 1000) - ?e"
    using assms by (simp add: mult_right_mono)
  also have "\<dots> \<le> rnd (b * w)" using assms by (intro rnd_coarse) simp
  finally have t2: "a * w * (999 / 1000) - ?e \<le> rnd (b * w)" .
  have "a * ((1 - w) * (999 / 1000) - ?e) \<le> a * ?c" using assms(1) c(1) by (intro mult_left_mono) auto
  then have "(a * ((1 - w) * (999 / 1000) - ?e) + a * w) * (999 / 1000) - 2 * ?e
      \<le> rnd (a * ?c) + rnd (b * w)"
    by (rule weighted_terms [OF t1 t2]) simp_all
  moreover have "a * ((1 - w) * (999 / 1000) - ?e) + a * w \<ge> a * (998 / 1000)"
  proof -
    have "a * ((1 - w) * (999 / 1000) - ?e) + a * w = a * (999 / 1000 - ?e + w / 1000)"
      by (simp add: field_simps)
    also have "\<dots> \<ge> a * (998 / 1000)" using assms by (intro mult_left_mono) auto
    finally show ?thesis .
  qed
  ultimately have s: "a * (998 / 1000) * (999 / 1000) - 2 * ?e \<le> rnd (a * ?c) + rnd (b * w)"
    by (rule scaled_lower) simp_all
  have "0 \<le> rnd (a * ?c) + rnd (b * w)" using assms c(2) by (intro add_nonneg_nonneg rnd_nonneg) auto
  from scaled_twice [OF rnd_coarse [OF this] s assms(1)] show ?thesis by simp
qed

section \<open>The percentile and the guard against the samples\<close>

lemma finite_sample_Inr [simp]: "finite_sample x = Inr y \<longleftrightarrow> y = x \<and> isfinite x \<and> \<not> flt x (Fin 0)"
  by (auto simp: finite_sample_def)

lemma finite_samples_Inr: "map_res finite_sample xs = Inr ys \<Longrightarrow> ys = xs \<and> (\<forall>x \<in> set xs. \<exists>a. x = Fin a \<and> 0 \<le> a)"
proof (induction xs arbitrary: ys)
  case (Cons x xs)
  then show ?case by (cases x) (auto simp: bnd_eq_Inr)
qed simp

lemma fl_unit:
  assumes "0 \<le> x" "x \<le> 1"
  shows "fl x = Fin (rnd x)" "0 \<le> rnd x" "rnd x \<le> 1"
proof -
  show r: "0 \<le> rnd x" "rnd x \<le> 1"
    using assms rnd_mono [of x 1] rnd_of_int [of 1] by auto
  have "rnd x < 2 ^ 1024" using r(2) by (rule order_le_less_trans) simp
  then show "fl x = Fin (rnd x)" using r by (simp add: fl_def)
qed

text \<open>The interpolated value against the lower of its two order statistics.\<close>

lemma interpolated_value:
  assumes "0 \<le> a" "a \<le> b" "of_int n \<le> p" "p < of_int n + 1"
    and "fadd (fmul (Fin a) (fsub (Fin 1) (fsub (Fin p) (Fin (of_int n)))))
           (fmul (Fin b) (fsub (Fin p) (Fin (of_int n)))) = Fin r"
  shows "a * (99 / 100) - 4 * (1 / 10 ^ 12) \<le> r"
proof -
  let ?w = "rnd (p - of_int n)"
  have w: "fl (p - of_int n) = Fin ?w" "0 \<le> ?w" "?w \<le> 1"
    using fl_unit [of "p - of_int n"] assms(3,4) by auto
  then have c: "fl (1 - ?w) = Fin (rnd (1 - ?w))"
    using fl_unit [of "1 - ?w"] by simp
  have sum: "fadd (fl (a * rnd (1 - ?w))) (fl (b * ?w)) = Fin r"
    using assms(5) w(1) c by (simp add: fsub_def)
  then obtain t u where tu: "fl (a * rnd (1 - ?w)) = Fin t" "fl (b * ?w) = Fin u"
    using fl_cases [of "a * rnd (1 - ?w)"] fl_cases [of "b * ?w"]
    by (cases "fl (a * rnd (1 - ?w))"; cases "fl (b * ?w)") auto
  with sum have "r = rnd (rnd (a * rnd (1 - ?w)) + rnd (b * ?w))"
    by (auto dest!: fl_Fin_rnd)
  then show ?thesis using interpolation_lower [OF assms(1,2) w(2,3)] by simp
qed

text \<open>The index of the lower order statistic.\<close>

definition statistic_index :: "pyfloat list \<Rightarrow> pyfloat \<Rightarrow> nat \<Rightarrow> bool" where
  "statistic_index values q i \<longleftrightarrow> i < length values \<and>
     (length values = 1 \<or> (\<exists>n. float_of_int (int (length values) - 1) = Inr n \<and>
        math_floor (fmul q n) = Inr (int i)))"

lemma percentile_above_statistic:
  assumes "percentile_type7 values q = Inr (Fin r)" and "int (length values) \<le> 2 ^ 53"
  shows "\<exists>i a. statistic_index values q i \<and> sort values ! i = Fin a \<and> 0 \<le> a \<and>
      a * (99 / 100) - 4 * (1 / 10 ^ 12) \<le> r"
proof -
  have some: "values \<noteq> []" and q: "fle (Fin 0) q" "fle q (Fin 1)"
    using assms(1) by (auto simp: percentile_type7_def split: if_splits)
  obtain ys where ys: "map_res finite_sample values = Inr ys"
    using assms(1) by (auto simp: percentile_type7_def bnd_eq_Inr split: if_splits)
  then have samples: "map_res finite_sample values = Inr values"
    "\<forall>x \<in> set values. \<exists>a. x = Fin a \<and> 0 \<le> a"
    using finite_samples_Inr [OF ys] by auto
  let ?s = "sort values"
  have entry: "\<exists>a. ?s ! i = Fin a \<and> 0 \<le> a" if "i < length values" for i
    using that samples(2) by (metis length_sort nth_mem set_sort)
  show ?thesis
  proof (cases "length values = 1")
    case True
    then have "?s ! 0 = Fin r"
      using assms(1) q some samples(1) by (auto simp: percentile_type7_def py_index_def Let_def split: if_splits)
    with entry [of 0] True show ?thesis by (auto simp: statistic_index_def)
  next
    case False
    then obtain n lower upper where n: "float_of_int (int (length values) - 1) = Inr n"
      and lower: "math_floor (fmul q n) = Inr lower" and upper: "math_ceil (fmul q n) = Inr upper"
      and rest: "(if lower = upper then py_index ?s lower
            else bnd (float_of_int lower) (\<lambda>l.
              let weight = fsub (fmul q n) l in
              bnd (py_index ?s lower) (\<lambda>a. bnd (py_index ?s upper) (\<lambda>b.
                Inr (fadd (fmul a (fsub (Fin 1) weight)) (fmul b weight)))))) = Inr (Fin r)"
      using assms(1) q some samples(1)
      by (auto simp: percentile_type7_def bnd_eq_Inr Let_def split: if_splits)
    obtain p where p: "fmul q n = Fin p" "lower = \<lfloor>p\<rfloor>" "upper = \<lceil>p\<rceil>"
      using lower upper by (cases "fmul q n") (auto simp: math_floor_def math_ceil_def)
    have n_eq: "n = Fin (of_int (int (length values) - 1))"
      using n assms(2) fl_of_int [of "int (length values) - 1"] some
      by (auto simp: float_of_int_def)
    obtain c where c: "q = Fin c" "0 \<le> c" using q by (cases q) (auto simp: fle_def feq_def)
    have "0 \<le> p"
    proof -
      have "0 \<le> c * of_int (int (length values) - 1)" using c(2) some by (cases "values") auto
      from fl_nonneg [OF this] p(1) show ?thesis by (simp add: n_eq c(1))
    qed
    then have lower0: "0 \<le> lower" using p(2) by simp
    have in_range: "\<exists>i x. k = int i \<and> i < length values \<and> py_index ?s k = Inr x \<and> x = ?s ! i"
      if "py_index ?s k = Inr y" "0 \<le> k" for k y
      using that by (auto simp: py_index_def split: if_splits intro!: exI [of _ "nat k"])
    show ?thesis
    proof (cases "lower = upper")
      case True
      with rest lower0 in_range [of lower] obtain i where "lower = int i" "i < length values" "?s ! i = Fin r"
        by fastforce
      with entry [of i] n lower show ?thesis by (intro exI [of _ i]) (auto simp: statistic_index_def)
    next
      case False
      with rest obtain l a b where l: "float_of_int lower = Inr l" and ab: "py_index ?s lower = Inr a"
        "py_index ?s upper = Inr b"
        and r: "fadd (fmul a (fsub (Fin 1) (fsub (fmul q n) l))) (fmul b (fsub (fmul q n) l)) = Fin r"
        by (auto simp: bnd_eq_Inr Let_def)
      have "lower \<le> upper" using p by (simp add: floor_le_ceiling)
      with in_range [OF ab(1) lower0] in_range [OF ab(2)] lower0 obtain i j where
        i: "lower = int i" "i < length values" "a = ?s ! i" and j: "upper = int j" "j < length values" "b = ?s ! j"
        using ab by fastforce
      have "i \<le> j" using \<open>lower \<le> upper\<close> i(1) j(1) by simp
      then have "a \<le> b" using i j by (simp add: sorted_nth_mono)
      moreover obtain x where x: "a = Fin x" "0 \<le> x" using entry [OF i(2)] i(3) by auto
      moreover obtain y where y: "b = Fin y" using entry [OF j(2)] j(3) by auto
      ultimately have xy: "x \<le> y" by simp
      have "l = Fin (of_int lower)"
        using l i(1,2) assms(2) fl_of_int [of lower] by (auto simp: float_of_int_def)
      then have "x * (99 / 100) - 4 * (1 / 10 ^ 12) \<le> r"
        using interpolated_value [OF x(2) xy, of lower p r] r p x(1) y by simp linarith
      then show ?thesis using n lower i x by (intro exI [of _ i] exI [of _ x]) (auto simp: statistic_index_def)
    qed
  qed
qed

text \<open>The percentile exists for every non-empty list of finite nonnegative samples.\<close>

lemma percentile_total:
  assumes "values \<noteq> []" and "\<forall>x \<in> set values. \<exists>a. x = Fin a \<and> 0 \<le> a"
    and "int (length values) \<le> 2 ^ 53" and "fle (Fin 0) q" "fle q (Fin 1)"
  shows "\<exists>r. percentile_type7 values q = Inr r"
proof (cases "length values = 1")
  case True
  have "map_res finite_sample values = Inr values"
    using assms(2) by (induction "values") (auto simp: bnd_eq_Inr)
  moreover have "isfinite q" using assms(4,5) by (cases q) (auto simp: fle_def feq_def)
  moreover obtain x where "values = [x]" using True by (auto simp: length_Suc_conv)
  ultimately show ?thesis using assms(4,5) by (simp add: percentile_type7_def py_index_def)
next
  case False
  let ?m = "int (length values) - 1"
  obtain c where c: "q = Fin c" "0 \<le> c" "c \<le> 1" using assms(4,5) by (cases q) (auto simp: fle_def feq_def)
  have "0 < length values" using assms(1) by simp
  then have m: "0 \<le> ?m" "?m \<le> 2 ^ 53" using assms(3) by linarith+
  have m': "(0 :: rat) \<le> of_int ?m" using m(1) by (simp only: of_int_0_le_iff)
  have samples: "map_res finite_sample values = Inr values"
    using assms(2) by (induction "values") (auto simp: bnd_eq_Inr)
  have small: "rnd (of_int k) = of_int k" "fl (of_int k) = Fin (of_int k)" if "0 \<le> k" "k \<le> ?m" for k
    using that m rnd_of_int [of k] fl_of_int [of k] by auto
  let ?p = "rnd (c * of_int ?m)"
  have "c * of_int ?m \<le> 1 * of_int ?m" by (rule mult_right_mono [OF c(3) m'])
  then have le: "?p \<le> of_int ?m" using rnd_mono [of "c * of_int ?m" "of_int ?m"] small(1) [of ?m] m(1) by simp
  have ge: "0 \<le> ?p" using mult_nonneg_nonneg [OF c(2) m'] by (rule rnd_nonneg)
  have "?p \<le> of_int (2 ^ 53)" using le m(2) by (meson of_int_le_iff order_trans)
  also have "\<dots> < 2 ^ 1024" by simp
  finally have p: "fl (c * of_int ?m) = Fin ?p" using ge by (simp add: fl_def)
  have low: "0 \<le> \<lfloor>?p\<rfloor>" "\<lfloor>?p\<rfloor> \<le> ?m" using ge le floor_mono [OF le] by auto
  have "\<lceil>?p\<rceil> \<le> ?m" using le by (simp only: ceiling_le_iff)
  moreover have "0 \<le> \<lceil>?p\<rceil>" using ceiling_mono [OF ge] by (simp only: ceiling_zero)
  ultimately have high: "0 \<le> \<lceil>?p\<rceil>" "\<lceil>?p\<rceil> \<le> ?m" by blast+
  have entry: "\<exists>x. py_index (sort values) k = Inr x" if "0 \<le> k" "k \<le> ?m" for k
    using that by (simp add: py_index_def)
  obtain a b where "py_index (sort values) \<lfloor>?p\<rfloor> = Inr a" "py_index (sort values) \<lceil>?p\<rceil> = Inr b"
    using entry [OF low] entry [OF high] by blast
  moreover have "float_of_int ?m = Inr (Fin (of_int ?m))" "float_of_int \<lfloor>?p\<rfloor> = Inr (Fin (of_int \<lfloor>?p\<rfloor>))"
    using small(2) [of ?m] small(2) [OF low] m(1) by (simp_all add: float_of_int_def)
  ultimately show ?thesis
    using assms(1) c False samples p
    by (simp add: percentile_type7_def Let_def math_floor_def math_ceil_def)
qed

text \<open>A sample in milliseconds: a float of at least one picosecond.\<close>

definition drain_sample :: "pyfloat \<Rightarrow> bool" where
  "drain_sample x \<longleftrightarrow> (\<exists>a. x = Fin a \<and> 1 / 10 ^ 9 \<le> a \<and> a < 2 ^ 1024 \<and> representable a)"

lemma drain_sampleD: "drain_sample x \<Longrightarrow> \<exists>a. x = Fin a \<and> 1 / 10 ^ 9 \<le> a"
  by (auto simp: drain_sample_def)

lemma margin_value: "\<exists>m. MARGIN = Fin m \<and> 119 / 100 \<le> m"
proof -
  have m: "119 / 100 \<le> rnd (6 / 5)" using rnd_coarse [of "6 / 5"] by simp
  have "rnd (6 / 5) \<le> rnd 2" by (rule rnd_mono) simp
  also have "\<dots> = 2" using rnd_of_int [of 2] by simp
  also have "\<dots> < 2 ^ 1024" by simp
  finally have "MARGIN = Fin (rnd (6 / 5))" using m by (simp add: MARGIN_def fl_def)
  with m show ?thesis by blast
qed

lemma margin_covers:
  assumes "a * (99 / 100) - 4 * (1 / 10 ^ 12) \<le> r" "1 / 10 ^ 9 \<le> a" "119 / 100 \<le> m"
  shows "a \<le> rnd (r * m)"
proof -
  have r: "a * (98 / 100) \<le> r" using assms(1,2) by simp
  have "0 \<le> a" using assms(2) by (rule order_trans [rotated]) simp
  then have "0 \<le> a * (98 / 100)" by simp
  then have "a * (98 / 100) * (119 / 100) \<le> r * m" using r assms(3) by (intro mult_mono) auto
  then have low: "a * (11 / 10) \<le> r * m" using \<open>0 \<le> a\<close> by simp
  moreover have "0 \<le> a * (11 / 10)" using \<open>0 \<le> a\<close> by simp
  ultimately have "0 \<le> r * m" by (rule order_trans [rotated])
  from scaled_lower [OF rnd_coarse [OF this] low] assms(2) show ?thesis by simp
qed

lemma estimate_parts:
  assumes "estimate_guard_ms values = Inr (raw, g)"
  shows "\<exists>r m \<mu>. raw = Fin r \<and> percentile_type7 values PERCENTILE = Inr (Fin r) \<and> MARGIN = Fin m \<and>
      119 / 100 \<le> m \<and> fl (r * m) = Fin \<mu> \<and> round_up_ms (Fin \<mu>) = Inr g \<and> fle (Fin \<mu>) g \<and> flt g (Fin 20)"
proof -
  obtain m where m: "MARGIN = Fin m" "119 / 100 \<le> m" using margin_value by blast
  from assms have parts: "percentile_type7 values PERCENTILE = Inr raw"
    "round_up_ms (fmul raw MARGIN) = Inr g" "\<not> fle (Fin 20) g"
    by (auto simp: estimate_guard_ms_def bnd_eq_Inr FORMAL_PERIOD_MS_def split: if_splits)
  then obtain \<mu> where \<mu>: "fmul raw MARGIN = Fin \<mu>"
    by (auto simp: round_up_ms_def bnd_eq_Inr isfinite_Fin)
  with m obtain r where r: "raw = Fin r" by (cases raw) (auto simp: inf_of_def split: if_splits)
  have product: "fl (r * m) = Fin \<mu>" using \<mu> unfolding r m(1) by simp
  have "double (Fin \<mu>)" unfolding product [symmetric] by (rule double_fl)
  moreover have "round_up_ms (Fin \<mu>) = Inr g" using parts(2) \<mu> by simp
  ultimately have "fle (Fin \<mu>) g" by (rule round_up_ge [rotated])
  then have "g \<noteq> NaN" by (auto simp: fle_def feq_def)
  with parts(3) have "flt g (Fin 20)" by (simp add: not_flt flip: not_flt)
  then show ?thesis using parts(1) product r m \<open>fle (Fin \<mu>) g\<close> \<open>round_up_ms (Fin \<mu>) = Inr g\<close> by auto
qed

lemma estimate_above_statistic:
  assumes "estimate_guard_ms values = Inr (raw, g)" and "int (length values) \<le> 2 ^ 53"
    and "\<forall>x \<in> set values. drain_sample x"
  shows "\<exists>i. statistic_index values PERCENTILE i \<and> fle (sort values ! i) g"
proof -
  obtain r m \<mu> where e: "percentile_type7 values PERCENTILE = Inr (Fin r)" "119 / 100 \<le> m"
    "fl (r * m) = Fin \<mu>" "fle (Fin \<mu>) g"
    using estimate_parts [OF assms(1)] by blast
  obtain i a where i: "statistic_index values PERCENTILE i" "sort values ! i = Fin a"
    "a * (99 / 100) - 4 * (1 / 10 ^ 12) \<le> r"
    using percentile_above_statistic [OF e(1) assms(2)] by blast
  have "Fin a \<in> set values"
    using i(1,2) by (metis length_sort nth_mem set_sort statistic_index_def)
  then have "1 / 10 ^ 9 \<le> a" using assms(3) drain_sampleD by fastforce
  from margin_covers [OF i(3) this e(2)] have "fle (Fin a) (Fin \<mu>)"
    using fl_Fin_rnd [OF e(3)] by simp
  with e(4) i(1,2) show ?thesis using fle_trans by metis
qed

lemma length_filter_mono: "(\<And>x. P x \<Longrightarrow> Q x) \<Longrightarrow> length (filter P xs) \<le> length (filter Q xs)"
  by (induction xs) (auto intro: le_SucI)

lemma samples_above_guard:
  assumes "statistic_index values q i" and "fle (sort values ! i) g"
  shows "length (filter (flt g) values) \<le> length values - Suc i"
proof -
  have "g \<noteq> NaN" "sort values ! i \<noteq> NaN" using assms(2) by (auto simp: fle_def feq_def)
  then have "sort values ! i < x" if "flt g x" for x
    using that assms(2) fle_flt_trans [OF assms(2) that] by (metis flt.simps(5-) flt_less)
  then have "length (filter (flt g) values) \<le> length (filter (\<lambda>x. sort values ! i < x) values)"
    by (intro length_filter_mono) blast
  also have "\<dots> = length (filter (\<lambda>x. sort values ! i < x) (sort values))"
    by (simp add: filter_sort)
  also have "\<dots> \<le> length (sort values) - Suc i"
    using assms(1) by (intro sorted_above) (auto simp: statistic_index_def)
  finally show ?thesis by simp
qed

lemma percentile_index:
  assumes "statistic_index values PERCENTILE i" and "length values = BLOCKS * EVENTS_PER_BLOCK"
  shows "9989 \<le> i"
proof -
  let ?q = "rnd (999 / 1000)"
  have q: "999 / 1000 * (1 - 1 / 2 ^ 52) - pow2 (-1074) \<le> ?q" "PERCENTILE = Fin ?q"
    using rnd_lower [of "999 / 1000"] fl_unit [of "999 / 1000"] by (auto simp: PERCENTILE_def)
  have "999 / 1000 * (1 - 1 / 2 ^ 52) - 1 / 10 ^ 300 \<le> ?q" using q(1) pow2_subnormal by linarith
  then have "(999 / 1000 * (1 - 1 / 2 ^ 52) - 1 / 10 ^ 300) * 9999 \<le> ?q * 9999"
    by (rule mult_right_mono) simp
  then have "9989 \<le> ?q * 9999" by (rule order_trans [rotated]) simp
  moreover have "rnd 9989 = (9989 :: rat)" using rnd_of_int [of 9989] by simp
  ultimately have p: "9989 \<le> rnd (?q * 9999)" using rnd_mono [of 9989 "?q * 9999"] by simp
  have "length values = 10000" using assms(2) by (simp add: BLOCKS_def EVENTS_PER_BLOCK_def)
  then obtain n where n: "float_of_int 9999 = Inr n" "math_floor (fmul PERCENTILE n) = Inr (int i)"
    using assms(1) by (auto simp: statistic_index_def)
  have "n = Fin 9999" using n(1) fl_of_int [of 9999] by (auto simp: float_of_int_def)
  then obtain x where x: "fl (?q * 9999) = Fin x" "int i = \<lfloor>x\<rfloor>"
    using n(2) unfolding q(2) \<open>n = Fin 9999\<close>
    by (cases "fl (?q * 9999)") (auto simp: math_floor_def)
  have "9989 \<le> \<lfloor>x\<rfloor>" using fl_Fin_rnd [OF x(1)] p by (simp add: le_floor_iff)
  then show ?thesis using x(2) by linarith
qed

section \<open>The frozen lock and its readers\<close>

definition frozen_cell :: "replayed_case \<Rightarrow> pyfloat \<Rightarrow> pyfloat \<Rightarrow> pyfloat \<Rightarrow> pyval" where
  "frozen_cell r raw g peak =
     VDict [(''guard_ms'', VFloat g), (''raw_pooled_p999_ms'', VFloat raw),
       (''samples'', VInt (int (length (pooled_ms r)))), (''observed_max_ms'', VFloat peak)]"

definition formal_guard :: "pyfloat \<Rightarrow> bool" where
  "formal_guard g \<longleftrightarrow> (\<exists>v. g = Fin v \<and> 0 < v \<and> v < 20) \<and> double g"

lemma formal_guard_readers:
  assumes "formal_guard g"
  shows "runtime_guard (frozen_cell r raw g peak) = Inr g" "audit_guard (frozen_cell r raw g peak) = Inr g"
  using assms by (auto simp: formal_guard_def frozen_cell_def runtime_guard_def audit_guard_def
      strict_float_def dget_default_def dget_def)

lemma estimate_formal_guard:
  assumes "estimate_guard_ms values = Inr (raw, g)" and "int (length values) \<le> 2 ^ 53"
    and "\<forall>x \<in> set values. drain_sample x"
  shows "formal_guard g"
proof -
  obtain i where i: "statistic_index values PERCENTILE i" "fle (sort values ! i) g"
    using estimate_above_statistic [OF assms] by blast
  have "sort values ! i \<in> set values"
    using i(1) by (metis length_sort nth_mem set_sort statistic_index_def)
  then obtain a where a: "sort values ! i = Fin a" "1 / 10 ^ 9 \<le> a" using assms(3) drain_sampleD by blast
  obtain \<mu> where parts: "round_up_ms (Fin \<mu>) = Inr g" "flt g (Fin 20)"
    using estimate_parts [OF assms(1)] by blast
  have "double g" using parts(1) double_fl by (auto simp: round_up_ms_def bnd_eq_Inr)
  moreover have "0 < a" using a(2) by (rule less_le_trans [rotated]) simp
  ultimately show ?thesis
    using parts(2) i(2) a(1) by (cases g) (auto simp: formal_guard_def fle_def feq_def)
qed

text \<open>One step per case; the key of a single-client case is the key of its client.\<close>

lemma freeze_single_Inr:
  assumes "case_clients (replayed_identity r) = [c]"
  shows "freeze_single r (guards, values) = Inr st \<longleftrightarrow>
    (\<exists>raw g peak. estimate_guard_ms (pooled_ms r) = Inr (raw, g) \<and> observed_max_ms r = Inr peak \<and>
       st = (set_in [client_placement c, str_of_int (client_quota c), client_modality c]
               (frozen_cell r raw g peak) guards, (client_key c, g) # values))"
  using assms by (auto simp: freeze_single_def guard_key_def py_index_def client_key_def frozen_cell_def bnd_eq_Inr)

fun frozen :: "replayed_case list \<Rightarrow> (pyfloat \<times> pyfloat \<times> pyfloat) list \<Rightarrow> pydict \<times> guard_values \<Rightarrow>
    pydict \<times> guard_values" where
  "frozen (r # rs) ((raw, g, peak) # ts) (guards, values) =
     (let c = hd (case_clients (replayed_identity r)) in
      frozen rs ts (set_in [client_placement c, str_of_int (client_quota c), client_modality c]
               (frozen_cell r raw g peak) guards, (client_key c, g) # values))"
| "frozen _ _ st = st"

definition estimated :: "replayed_case \<Rightarrow> pyfloat \<times> pyfloat \<times> pyfloat \<Rightarrow> bool" where
  "estimated r t \<longleftrightarrow> (case t of (raw, g, peak) \<Rightarrow>
     estimate_guard_ms (pooled_ms r) = Inr (raw, g) \<and> observed_max_ms r = Inr peak)"

lemma freeze_single_fold:
  assumes "fold_res freeze_single rs st = Inr st'"
    and "\<forall>r \<in> set rs. \<exists>c. case_clients (replayed_identity r) = [c]"
  shows "\<exists>ts. list_all2 estimated rs ts \<and> st' = frozen rs ts st"
  using assms
proof (induction rs arbitrary: st)
  case (Cons r rs)
  obtain guards "values" where st: "st = (guards, values)" by (cases st)
  from Cons.prems obtain u where u: "freeze_single r st = Inr u" "fold_res freeze_single rs u = Inr st'"
    by (auto simp: bnd_eq_Inr)
  from Cons.prems(2) obtain c where c: "case_clients (replayed_identity r) = [c]" by auto
  from u(1) [unfolded st freeze_single_Inr [OF c]] obtain raw g peak where
    e: "estimate_guard_ms (pooled_ms r) = Inr (raw, g)" "observed_max_ms r = Inr peak"
    "u = (set_in [client_placement c, str_of_int (client_quota c), client_modality c]
               (frozen_cell r raw g peak) guards, (client_key c, g) # values)" by blast
  from Cons.IH [OF u(2)] Cons.prems(2) obtain ts where "list_all2 estimated rs ts" "st' = frozen rs ts u" by auto
  then have "list_all2 estimated (r # rs) ((raw, g, peak) # ts) \<and> st' = frozen (r # rs) ((raw, g, peak) # ts) st"
    using e c st by (simp add: estimated_def)
  then show ?case by blast
qed simp

text \<open>The eight cells that the fixed protocol fills.\<close>

definition eight_cells :: "pyfloat list \<Rightarrow> cell list" where
  "eight_cells gs = zip
     [(''resident-1g'', 25, ''language''), (''resident-1g'', 25, ''audio''),
      (''resident-1g'', 50, ''language''), (''resident-1g'', 50, ''audio''),
      (''resident-1g'', 100, ''language''), (''resident-1g'', 100, ''audio''),
      (''borrower-2g'', 100, ''language''), (''borrower-2g'', 100, ''audio'')] gs"

definition cell_key :: "string \<times> int \<times> string \<Rightarrow> string \<times> string \<times> string" where
  "cell_key k = (case k of (p, q, m) \<Rightarrow> (p, str_of_int q, m))"

lemma single_case_clients:
  "map (\<lambda>c. map client_key (case_clients c)) single_client_cases =
     map (\<lambda>c. [cell_key (fst c)]) (eight_cells (replicate 8 NaN))"
  by (simp add: single_client_cases_def eight_cells_def client_def client_key_def cell_key_def eval_nat_numeral)

definition guards_of :: "(pyfloat \<times> pyfloat \<times> pyfloat) list \<Rightarrow> pyfloat list" where
  "guards_of ts = map (fst \<circ> snd) ts"

lemma list_of_eight:
  "length xs = 8 \<Longrightarrow> \<exists>a b c d e f g h. xs = [a, b, c, d, e, f, g, h]"
  by (auto simp: length_Suc_conv eval_nat_numeral)

lemma eight_clients:
  assumes "map replayed_identity [a, b, c, d, e, f, g, h] = single_client_cases"
  shows "case_clients (replayed_identity a) = [client ''resident-1g'' 25 ''language'' 1]"
    "case_clients (replayed_identity b) = [client ''resident-1g'' 25 ''audio'' 1]"
    "case_clients (replayed_identity c) = [client ''resident-1g'' 50 ''language'' 1]"
    "case_clients (replayed_identity d) = [client ''resident-1g'' 50 ''audio'' 1]"
    "case_clients (replayed_identity e) = [client ''resident-1g'' 100 ''language'' 1]"
    "case_clients (replayed_identity f) = [client ''resident-1g'' 100 ''audio'' 1]"
    "case_clients (replayed_identity g) = [client ''borrower-2g'' 100 ''language'' 1]"
    "case_clients (replayed_identity h) = [client ''borrower-2g'' 100 ''audio'' 1]"
  using assms by (simp_all add: single_client_cases_def)

text \<open>The nested dictionary that the eight assignments build, and what a reader of cells finds in it.\<close>

definition protocol_guards ::
  "pyval \<Rightarrow> pyval \<Rightarrow> pyval \<Rightarrow> pyval \<Rightarrow> pyval \<Rightarrow> pyval \<Rightarrow> pyval \<Rightarrow> pyval \<Rightarrow> pydict" where
  "protocol_guards a b c d e f g h =
     [(''resident-1g'', VDict
        [(''25'', VDict [(''language'', a), (''audio'', b)]),
         (''50'', VDict [(''language'', c), (''audio'', d)]),
         (''100'', VDict [(''language'', e), (''audio'', f)])]),
      (''borrower-2g'', VDict [(''100'', VDict [(''language'', g), (''audio'', h)])])]"

lemma protocol_guards_build:
  "set_in [''borrower-2g'', ''100'', ''audio''] h (set_in [''borrower-2g'', ''100'', ''language''] g
   (set_in [''resident-1g'', ''100'', ''audio''] f (set_in [''resident-1g'', ''100'', ''language''] e
   (set_in [''resident-1g'', ''50'', ''audio''] d (set_in [''resident-1g'', ''50'', ''language''] c
   (set_in [''resident-1g'', ''25'', ''audio''] b (set_in [''resident-1g'', ''25'', ''language''] a []))))))) =
   protocol_guards a b c d e f g h"
  by (simp add: protocol_guards_def dget_def)

lemma protocol_guards_placements: "lock_placements_ok (protocol_guards a b c d e f g h)"
  by (simp add: lock_placements_ok_def protocol_guards_def dkeys_def lock_layout_def)

lemma read_two_modalities:
  assumes "reader a = Inr x" "reader b = Inr y"
  shows "read_modalities reader p q (VDict [(''language'', a), (''audio'', b)]) =
    Inr [((p, q, ''language''), x), ((p, q, ''audio''), y)]"
  using assms by (simp add: read_modalities_def dkeys_def MODALITIES_def dget_def)

lemma protocol_guards_read:
  assumes "reader a = Inr a'" "reader b = Inr b'" "reader c = Inr c'" "reader d = Inr d'"
    "reader e = Inr e'" "reader f = Inr f'" "reader g = Inr g'" "reader h = Inr h'"
  shows "read_placements reader (protocol_guards a b c d e f g h) =
    Inr (eight_cells [a', b', c', d', e', f', g', h'])"
  by (simp add: read_placements_def lock_layout_def read_quotas_def protocol_guards_def dget_def dkeys_def
      quota_names read_two_modalities [of reader, OF assms(1,2)] read_two_modalities [of reader, OF assms(3,4)]
      read_two_modalities [of reader, OF assms(5,6)] read_two_modalities [of reader, OF assms(7,8)]
      eight_cells_def)

lemma frozen_readers:
  assumes "map replayed_identity single = single_client_cases" and "length ts = 8"
    and "\<forall>g \<in> set (guards_of ts). formal_guard g" and "frozen single ts ([], []) = (guards, values)"
  shows "read_placements runtime_guard guards = Inr (eight_cells (guards_of ts))"
    and "read_placements audit_guard guards = Inr (eight_cells (guards_of ts))"
    and "lock_placements_ok guards"
    and "values = rev (map (\<lambda>(k, g). (cell_key k, g)) (eight_cells (guards_of ts)))"
proof -
  have "length single = 8" using arg_cong [OF assms(1), of length] by (simp add: single_client_cases_def)
  then obtain a b c d e f g h where single: "single = [a, b, c, d, e, f, g, h]" using list_of_eight by blast
  obtain a' b' c' d' e' f' g' h' where ts: "ts = [a', b', c', d', e', f', g', h']"
    using list_of_eight [OF assms(2)] by blast
  note clients = eight_clients [OF assms(1) [unfolded single]]
  note formal = assms(3) [unfolded ts guards_of_def, simplified]
  have frozen: "(guards, values) = frozen single ts ([], [])" using assms(4) by simp
  obtain ra ga pa rb gb pb rc gc pc rd gd pd re ge pe rf gf pf rg gg pg rh gh ph where
    parts: "a' = (ra, ga, pa)" "b' = (rb, gb, pb)" "c' = (rc, gc, pc)" "d' = (rd, gd, pd)"
      "e' = (re, ge, pe)" "f' = (rf, gf, pf)" "g' = (rg, gg, pg)" "h' = (rh, gh, ph)"
    by (metis prod_cases3)
  have gs: "guards_of ts = [ga, gb, gc, gd, ge, gf, gg, gh]" by (simp add: ts parts guards_of_def)
  have both: "guards = protocol_guards (frozen_cell a ra ga pa) (frozen_cell b rb gb pb)
      (frozen_cell c rc gc pc) (frozen_cell d rd gd pd) (frozen_cell e re ge pe) (frozen_cell f rf gf pf)
      (frozen_cell g rg gg pg) (frozen_cell h rh gh ph) \<and>
    values = [((''borrower-2g'', ''100'', ''audio''), gh), ((''borrower-2g'', ''100'', ''language''), gg),
      ((''resident-1g'', ''100'', ''audio''), gf), ((''resident-1g'', ''100'', ''language''), ge),
      ((''resident-1g'', ''50'', ''audio''), gd), ((''resident-1g'', ''50'', ''language''), gc),
      ((''resident-1g'', ''25'', ''audio''), gb), ((''resident-1g'', ''25'', ''language''), ga)]"
    using frozen unfolding single ts parts
    by (simp only: frozen.simps clients client_def client_spec.simps list.sel Let_def quota_names
        protocol_guards_build client_key_def prod.inject)
  have table: "values = rev (map (\<lambda>(k, g). (cell_key k, g)) (eight_cells (guards_of ts)))"
    by (simp add: conjunct2 [OF both] gs eight_cells_def cell_key_def quota_names)
  note dict = conjunct1 [OF both]
  show "values = rev (map (\<lambda>(k, g). (cell_key k, g)) (eight_cells (guards_of ts)))" by (rule table)
  show "read_placements runtime_guard guards = Inr (eight_cells (guards_of ts))"
    "read_placements audit_guard guards = Inr (eight_cells (guards_of ts))" "lock_placements_ok guards"
    unfolding dict gs
    by (rule protocol_guards_read; rule formal_guard_readers; use assms(3) in \<open>simp add: gs\<close>)+
      (rule protocol_guards_placements)
qed

lemma three_equal_guards:
  assumes "formal_guard g"
  shows "fmul (Fin 3) g = fadd (fadd (fadd (Fin 0) g) g) g" "fadd (Fin 0) (fmul (Fin 3) g) = fmul (Fin 3) g"
    "fadd (Fin 0) g = g"
proof -
  obtain v where g: "g = Fin v" "0 < v" "v < 20" "double (Fin v)" using assms by (auto simp: formal_guard_def)
  have v: "fl v = Fin v" using g(4) by (rule double_fl_id)
  have "representable (2 * v)" using g(4) by (intro representable_double) (simp add: double_def)
  moreover have "\<bar>2 * v\<bar> < 2 ^ 1024"
  proof -
    have "2 * v < 40" using g(3) by simp
    also have "\<dots> < 2 ^ 1024" by simp
    finally show ?thesis using g(2) by simp
  qed
  ultimately have "fl (2 * v) = Fin (2 * v)" by (rule fl_representable)
  then have two: "fl (v + v) = Fin (2 * v)" by (simp only: mult_2 [symmetric])
  have "2 * v + v = 3 * v" by simp
  then show "fmul (Fin 3) g = fadd (fadd (fadd (Fin 0) g) g) g"
    unfolding g(1) by (simp only: fadd.simps fmul.simps add_0 v two)
  show "fadd (Fin 0) g = g" using g(1) v by simp
  have "double (fl (3 * v))" by (rule double_fl)
  then show "fadd (Fin 0) (fmul (Fin 3) g) = fmul (Fin 3) g"
    using g(1) double_fl_id by (cases "fl (3 * v)") auto
qed

lemma freeze_guards_parts:
  assumes "freeze_guards single held = Inr (lock, guards, validation)"
    and "map replayed_identity single = single_client_cases"
    and "\<forall>r \<in> set single. int (length (pooled_ms r)) \<le> 2 ^ 53 \<and> (\<forall>x \<in> set (pooled_ms r). drain_sample x)"
  obtains ts where "list_all2 estimated single ts" "length ts = 8"
    "\<forall>g \<in> set (guards_of ts). formal_guard g"
    "guard_profile_from_lock lock = Inr (profile_of_cells (eight_cells (guards_of ts)))"
    "audit_guard_profile_from_lock lock =
       Inr (map (\<lambda>((p, q, m), v). ((p, str_of_int q, m), v)) (eight_cells (guards_of ts)))"
    "guards = rev (map (\<lambda>(k, g). (cell_key k, g)) (eight_cells (guards_of ts)))"
    "map_res (validate_held_out guards) held = Inr validation"
proof -
  have clients: "\<forall>r \<in> set single. \<exists>c. case_clients (replayed_identity r) = [c]"
  proof
    fix r assume "r \<in> set single"
    then have "replayed_identity r \<in> set single_client_cases" using assms(2) by (metis in_set_conv_nth length_map nth_map nth_mem)
    then show "\<exists>c. case_clients (replayed_identity r) = [c]" by (auto simp: single_client_cases_def)
  qed
  from assms(1) obtain G where G: "fold_res freeze_single single ([], []) = Inr (G, guards)"
    and validation: "map_res (validate_held_out guards) held = Inr validation"
    and lock: "lock = [(''schema_version'', VInt 3), (''kind'', VStr ''p9-quota-aware-guard-lock''),
             (''guards'', VDict G)]"
    by (auto simp: freeze_guards_def bnd_eq_Inr)
  obtain ts where ts: "list_all2 estimated single ts" "frozen single ts ([], []) = (G, guards)"
    using freeze_single_fold [OF G clients] by auto
  have len: "length ts = 8"
    using list_all2_lengthD [OF ts(1)] arg_cong [OF assms(2), of length] by (simp add: single_client_cases_def)
  have formal: "\<forall>g \<in> set (guards_of ts). formal_guard g"
  proof
    fix g assume "g \<in> set (guards_of ts)"
    then obtain raw peak where "(raw, g, peak) \<in> set ts" by (auto simp: guards_of_def)
    with ts(1) obtain r where "r \<in> set single" "estimated r (raw, g, peak)"
      by (metis in_set_conv_nth list_all2_conv_all_nth)
    then show "formal_guard g" using assms(3) by (auto simp: estimated_def intro: estimate_formal_guard)
  qed
  note readers = frozen_readers [OF assms(2) len formal ts(2)]
  have "guard_profile_from_lock lock = Inr (profile_of_cells (eight_cells (guards_of ts)))"
    using readers(1,3)
    by (simp add: lock guard_profile_from_lock_def guard_cells_from_lock_def GUARD_LOCK_SCHEMA_VERSION_def
        dget_def feq_def)
  moreover have "audit_guard_profile_from_lock lock =
       Inr (map (\<lambda>((p, q, m), v). ((p, str_of_int q, m), v)) (eight_cells (guards_of ts)))"
    using readers(2,3) by (simp add: lock audit_guard_profile_from_lock_def dget_def)
  ultimately show thesis using that ts(1) len formal readers(4) validation by blast
qed

lemma cell_guard_value:
  assumes "map_of cs (p, q, m) = Some g" and "m \<notin> fst ` fst ` set cs" and "formal_guard g"
  shows "guard_value_ms (profile_of_cells cs) (worker p q t m) = Inr g"
proof -
  have "((p, q, m), g) \<in> set cs" using assms(1) by (rule map_of_SomeD)
  then have "p \<in> fst ` fst ` set cs" "(p, q) \<in> (\<lambda>((p, q, m), v). (p, q)) ` set cs" by force+
  then have "profile_lookup (profile_of_cells cs) (worker p q t m) = Some g"
    using assms(1,2) by (simp add: profile_lookup_def profile_of_cells_def worker_def)
  then show ?thesis using assms(3) by (auto simp: guard_value_ms_def formal_guard_def)
qed

text \<open>The guard of a case, under its three keys.\<close>

definition calibrated_guard :: "cell list \<Rightarrow> client_spec \<Rightarrow> pyfloat \<Rightarrow> bool" where
  "calibrated_guard cs c g \<longleftrightarrow>
     map_of cs (client_placement c, client_quota c, client_modality c) = Some g \<and>
     map_of (map (\<lambda>((p, q, m), v). ((p, str_of_int q, m), v)) cs) (client_key c) = Some g \<and>
     map_of (rev (map (\<lambda>(k, g). (cell_key k, g)) cs)) (client_key c) = Some g \<and>
     client_modality c \<notin> fst ` fst ` set cs"

lemma eight_calibrated:
  assumes "map replayed_identity single = single_client_cases" and "length ts = 8"
    and "list_all2 estimated single ts" and "r \<in> set single"
  shows "\<exists>c raw g peak. case_clients (replayed_identity r) = [c] \<and> estimated r (raw, g, peak) \<and>
    g \<in> set (guards_of ts) \<and> calibrated_guard (eight_cells (guards_of ts)) c g"
proof -
  have "length single = 8" using arg_cong [OF assms(1), of length] by (simp add: single_client_cases_def)
  then obtain a b c d e f g h where single: "single = [a, b, c, d, e, f, g, h]" using list_of_eight by blast
  obtain a' b' c' d' e' f' g' h' where ts: "ts = [a', b', c', d', e', f', g', h']"
    using list_of_eight [OF assms(2)] by blast
  obtain ra ga pa rb gb pb rc gc pc rd gd pd re ge pe rf gf pf rg gg pg rh gh ph where
    parts: "a' = (ra, ga, pa)" "b' = (rb, gb, pb)" "c' = (rc, gc, pc)" "d' = (rd, gd, pd)"
      "e' = (re, ge, pe)" "f' = (rf, gf, pf)" "g' = (rg, gg, pg)" "h' = (rh, gh, ph)"
    by (metis prod_cases3)
  have gs: "guards_of ts = [ga, gb, gc, gd, ge, gf, gg, gh]" by (simp add: ts parts guards_of_def)
  have est: "estimated a (ra, ga, pa)" "estimated b (rb, gb, pb)" "estimated c (rc, gc, pc)"
     "estimated d (rd, gd, pd)" "estimated e (re, ge, pe)"
     "estimated f (rf, gf, pf)" "estimated g (rg, gg, pg)" "estimated h (rh, gh, ph)"
    using assms(3) unfolding single ts parts by simp_all
  note clients = eight_clients [OF assms(1) [unfolded single]]
  have cal: "calibrated_guard (eight_cells (guards_of ts)) (client p q m 1) v"
    if "(p, q, m, v) \<in> {(''resident-1g'', 25, ''language'', ga), (''resident-1g'', 25, ''audio'', gb),
      (''resident-1g'', 50, ''language'', gc), (''resident-1g'', 50, ''audio'', gd),
      (''resident-1g'', 100, ''language'', ge), (''resident-1g'', 100, ''audio'', gf),
      (''borrower-2g'', 100, ''language'', gg), (''borrower-2g'', 100, ''audio'', gh)}" for p q m v
    using that
    by (elim insertE emptyE; simp add: calibrated_guard_def gs eight_cells_def client_def client_key_def
        cell_key_def quota_names)
  have witnessed: "\<exists>c raw g peak. case_clients (replayed_identity x) = [c] \<and> estimated x (raw, g, peak) \<and>
      g \<in> set (guards_of ts) \<and> calibrated_guard (eight_cells (guards_of ts)) c g"
    if "case_clients (replayed_identity x) = [client p q m 1]" "estimated x (raw, v, peak)"
      "v \<in> set (guards_of ts)" "calibrated_guard (eight_cells (guards_of ts)) (client p q m 1) v"
    for x p q m raw v peak
    using that by blast
  from assms(4) consider "r = a" | "r = b" | "r = c" | "r = d" | "r = e" | "r = f" | "r = g" | "r = h"
    by (auto simp: single)
  then show ?thesis
  proof cases
    case 1 show ?thesis unfolding 1 by (rule witnessed [OF clients(1) est(1)]) (simp_all add: gs cal [unfolded gs])
  next
    case 2 show ?thesis unfolding 2 by (rule witnessed [OF clients(2) est(2)]) (simp_all add: gs cal [unfolded gs])
  next
    case 3 show ?thesis unfolding 3 by (rule witnessed [OF clients(3) est(3)]) (simp_all add: gs cal [unfolded gs])
  next
    case 4 show ?thesis unfolding 4 by (rule witnessed [OF clients(4) est(4)]) (simp_all add: gs cal [unfolded gs])
  next
    case 5 show ?thesis unfolding 5 by (rule witnessed [OF clients(5) est(5)]) (simp_all add: gs cal [unfolded gs])
  next
    case 6 show ?thesis unfolding 6 by (rule witnessed [OF clients(6) est(6)]) (simp_all add: gs cal [unfolded gs])
  next
    case 7 show ?thesis unfolding 7 by (rule witnessed [OF clients(7) est(7)]) (simp_all add: gs cal [unfolded gs])
  next
    case 8 show ?thesis unfolding 8 by (rule witnessed [OF clients(8) est(8)]) (simp_all add: gs cal [unfolded gs])
  qed
qed

lemma fadd_Fin_not_NaN: "b \<noteq> NaN \<Longrightarrow> fadd (Fin a) b \<noteq> NaN"
  by (cases b) auto

text \<open>The plan of the split held-out cases: three residents and three borrowers, all audio.\<close>

lemma split_plan:
  assumes "resident_quota_percent s = Inr q" "resident_admission_limit s = 6" "3 \<le> borrower_limit s"
  shows "plan_for ''mig-governor'' (replicate 6 ''audio'') s 100 =
    Inr (plan_of (replicate 6 ''audio'') q 100 3 6)"
  using plan_for_closed [of "''mig-governor''" 6 s q 3 "replicate 6 ''audio''" 100] assms
  by (simp add: plan_shares_def)

lemma split_guard:
  assumes "\<And>t. guard_value_ms profile (worker ''resident-1g'' q t ''audio'') = Inr a"
    and "\<And>t. guard_value_ms profile (worker ''borrower-2g'' 100 t ''audio'') = Inr b"
    and "formal_guard a" "formal_guard b"
  shows "guard_for ''mig-governor'' (plan_of (replicate 6 ''audio'') q 100 3 6) profile None =
    Inr (fmax (fmul (Fin 3) a) (fmul (Fin 3) b))"
proof -
  have three: "[0..<3] = [0, 1, 2::nat]" "[3..<6] = [3, 4, 5::nat]" by (simp_all add: upt_rec)
  have six: "replicate 6 ''audio'' ! i = ''audio''" if "i < 6" for i using that by simp
  have places: "placement (worker p k t m) = p" for p k t m by (simp add: worker_def)
  have "filter (\<lambda>a. placement a \<in> {''resident-1g'', ''borrower-2g''}) (actions (plan_of (replicate 6 ''audio'') q 100 3 6)) =
    [worker ''resident-1g'' q 0 ''audio'', worker ''resident-1g'' q 1 ''audio'', worker ''resident-1g'' q 2 ''audio'',
     worker ''borrower-2g'' 100 3 ''audio'', worker ''borrower-2g'' 100 4 ''audio'', worker ''borrower-2g'' 100 5 ''audio'']"
    by (simp add: actions_def plan_of_def three six places)
  then show ?thesis
    by (simp add: guard_for_def gated_placements_def guard_totals_def assms(1,2) places
        three_equal_guards(1) [OF assms(3)] three_equal_guards(1) [OF assms(4)])
qed

lemma split_envelope:
  assumes "map_of guards (''resident-1g'', str_of_int q, ''audio'') = Some a"
    and "map_of guards (''borrower-2g'', ''100'', ''audio'') = Some b"
    and "formal_guard a" "formal_guard b"
  shows "additive_envelope_ms [client ''resident-1g'' q ''audio'' 3, client ''borrower-2g'' 100 ''audio'' 3] guards =
    Inr (fmax (fmul (Fin 3) a) (fmul (Fin 3) b),
      [(''resident-1g'', fmul (Fin 3) a), (''borrower-2g'', fmul (Fin 3) b)])"
proof -
  have "float_of_int 3 = Inr (Fin 3)" using fl_of_int [of 3] by (simp add: float_of_int_def)
  then show ?thesis
    using assms(1,2) three_equal_guards(2) [OF assms(3)] three_equal_guards(2) [OF assms(4)]
    by (simp add: additive_envelope_ms_def add_client_def client_def client_key_def quota_names)
qed

lemma audio_cells:
  assumes "length gs = 8" "q \<in> {25, 50, 100}"
  shows "\<exists>a b. a \<in> set gs \<and> b \<in> set gs \<and>
    map_of (eight_cells gs) (''resident-1g'', q, ''audio'') = Some a \<and>
    map_of (eight_cells gs) (''borrower-2g'', 100, ''audio'') = Some b \<and>
    map_of (rev (map (\<lambda>(k, g). (cell_key k, g)) (eight_cells gs))) (''resident-1g'', str_of_int q, ''audio'') = Some a \<and>
    map_of (rev (map (\<lambda>(k, g). (cell_key k, g)) (eight_cells gs))) (''borrower-2g'', ''100'', ''audio'') = Some b \<and>
    ''audio'' \<notin> fst ` fst ` set (eight_cells gs)"
proof -
  obtain a b c d e f g h where gs: "gs = [a, b, c, d, e, f, g, h]" using list_of_eight [OF assms(1)] by blast
  show ?thesis using assms(2)
    by (elim insertE emptyE; simp add: gs eight_cells_def cell_key_def quota_names)
qed

section \<open>Properties\<close>

text \<open>
  C8: A guard estimated from one case, ten blocks of 1,000 drain events, is shorter than the formal
  period of 20 ms and at most ten of the 10,000 measured drains are longer than it, with the
  interpolation, the margin of 1.2 and the rounding to 0.1 ms in floating point.
\<close>

theorem guard_covers_all_but_ten:
  assumes "estimate_guard_ms values = Inr (raw, g)" and "length values = BLOCKS * EVENTS_PER_BLOCK"
    and "\<forall>x \<in> set values. drain_sample x"
  shows "length (filter (flt g) values) \<le> 10 \<and> flt (Fin 0) g \<and> flt g (Fin 20)"
proof -
  have n: "length values = 10000" using assms(2) by (simp add: BLOCKS_def EVENTS_PER_BLOCK_def)
  then have small: "int (length values) \<le> 2 ^ 53" by simp
  obtain i where i: "statistic_index values PERCENTILE i" "fle (sort values ! i) g"
    using estimate_above_statistic [OF assms(1) small assms(3)] by blast
  have "length (filter (flt g) values) \<le> length values - Suc i" by (rule samples_above_guard [OF i])
  also have "\<dots> \<le> 10" using percentile_index [OF i(1) assms(2)] n by simp
  finally show ?thesis using estimate_formal_guard [OF assms(1) small assms(3)] by (auto simp: formal_guard_def)
qed

text \<open>
  C9: A lock frozen from the fixed single-client cases is accepted by the runtime's reader and by the
  audit's reader, and for the client of every case both find exactly the guard estimated from that
  case's pooled drains, whatever tenant the runtime asks for.
\<close>

theorem frozen_lock_is_loaded:
  assumes "freeze_guards single held = Inr (lock, guards, validation)"
    and "map replayed_identity single = single_client_cases"
    and "\<forall>r \<in> set single. int (length (pooled_ms r)) \<le> 2 ^ 53 \<and> (\<forall>x \<in> set (pooled_ms r). drain_sample x)"
  shows "\<exists>profile table. guard_profile_from_lock lock = Inr profile \<and>
      audit_guard_profile_from_lock lock = Inr table \<and>
      (\<forall>r \<in> set single. \<exists>c raw g. case_clients (replayed_identity r) = [c] \<and>
        estimate_guard_ms (pooled_ms r) = Inr (raw, g) \<and>
        (\<forall>t. guard_value_ms profile (worker (client_placement c) (client_quota c) t (client_modality c)) = Inr g) \<and>
        map_of table (client_key c) = Some g)"
proof (rule freeze_guards_parts [OF assms], goal_cases)
  case (1 ts)
  let ?cs = "eight_cells (guards_of ts)"
  have "\<exists>c raw g. case_clients (replayed_identity r) = [c] \<and> estimate_guard_ms (pooled_ms r) = Inr (raw, g) \<and>
      (\<forall>t. guard_value_ms (profile_of_cells ?cs)
        (worker (client_placement c) (client_quota c) t (client_modality c)) = Inr g) \<and>
      map_of (map (\<lambda>((p, q, m), v). ((p, str_of_int q, m), v)) ?cs) (client_key c) = Some g"
    if member: "r \<in> set single" for r
  proof -
    obtain c raw g peak where r: "case_clients (replayed_identity r) = [c]" "estimated r (raw, g, peak)"
      "g \<in> set (guards_of ts)" "calibrated_guard ?cs c g"
      using eight_calibrated [OF assms(2) 1(2,1) member] by blast
    have "formal_guard g" using 1(3) r(3) by blast
    with r show ?thesis by (auto simp: estimated_def calibrated_guard_def cell_guard_value)
  qed
  with 1(4,5) show ?case by blast
qed

text \<open>
  C7: The envelope that a split held-out case was checked against is, to the last bit, the guard
  that the governor computes from the loaded lock for the same placement, three residents at 25 or
  50 percent and three borrowers, although one multiplies by the count and the other adds worker by
  worker; so the longest drain measured in that placement exceeds the runtime's guard by no more than
  the slack of the check, and the guard fits the formal period.
\<close>

theorem held_out_envelope_is_runtime_guard:
  assumes "freeze_guards single held = Inr (lock, guards, validation)"
    and "map replayed_identity single = single_client_cases"
    and "\<forall>r \<in> set single. int (length (pooled_ms r)) \<le> 2 ^ 53 \<and> (\<forall>x \<in> set (pooled_ms r). drain_sample x)"
    and "i < length held" and "(q, replayed_identity (held ! i)) \<in> {(50, held_out_cases ! 1), (25, held_out_cases ! 2)}"
    and "resident_quota_percent s = Inr q" "resident_admission_limit s = 6" "3 \<le> borrower_limit s"
  shows "\<exists>profile plan peak. guard_profile_from_lock lock = Inr profile \<and>
      plan_for ''mig-governor'' (replicate 6 ''audio'') s 100 = Inr plan \<and>
      guard_for ''mig-governor'' plan profile None = Inr (envelope_ms (validation ! i)) \<and>
      observed_max_ms (held ! i) = Inr peak \<and> fle peak (fadd (envelope_ms (validation ! i)) coverage_slack) \<and>
      flt (envelope_ms (validation ! i)) FORMAL_PERIOD_MS"
proof (rule freeze_guards_parts [OF assms(1-3)], goal_cases)
  case (1 ts)
  let ?cs = "eight_cells (guards_of ts)"
  have q: "q \<in> {25, 50, 100}" using assms(5) by auto
  have clients: "case_clients (replayed_identity (held ! i)) =
      [client ''resident-1g'' q ''audio'' 3, client ''borrower-2g'' 100 ''audio'' 3]"
    using assms(5) by (auto simp: held_out_cases_def)
  have "length (guards_of ts) = 8" using 1(2) by (simp add: guards_of_def)
  from audio_cells [OF this q] obtain a b where ab: "a \<in> set (guards_of ts)" "b \<in> set (guards_of ts)"
    "map_of ?cs (''resident-1g'', q, ''audio'') = Some a" "map_of ?cs (''borrower-2g'', 100, ''audio'') = Some b"
    "map_of guards (''resident-1g'', str_of_int q, ''audio'') = Some a"
    "map_of guards (''borrower-2g'', ''100'', ''audio'') = Some b" "''audio'' \<notin> fst ` fst ` set ?cs"
    unfolding 1(6) by blast
  have formal: "formal_guard a" "formal_guard b" using ab(1,2) 1(3) by auto
  let ?e = "fmax (fmul (Fin 3) a) (fmul (Fin 3) b)"
  have "validate_held_out guards (held ! i) = Inr (validation ! i)"
    using 1(7) assms(4) by (simp add: map_res_eq_Inr list_all2_conv_all_nth)
  then have "\<exists>peak. observed_max_ms (held ! i) = Inr peak \<and> require_held_out_coverage ?e peak = Inr () \<and>
      envelope_ms (validation ! i) = ?e"
    unfolding validate_held_out_def clients split_envelope [OF ab(5,6) formal]
    by (auto simp: bnd_eq_Inr dest: arg_cong [of _ _ envelope_ms])
  then obtain peak where v: "envelope_ms (validation ! i) = ?e" "observed_max_ms (held ! i) = Inr peak"
    "require_held_out_coverage ?e peak = Inr ()"
    by blast
  then have ok: "isfinite ?e" "isfinite peak" "\<not> fle FORMAL_PERIOD_MS ?e" "\<not> flt (fadd ?e coverage_slack) peak"
    using v(3) by (auto simp: require_held_out_coverage_def bnd_eq_Inr split: if_splits)
  have guard: "guard_for ''mig-governor'' (plan_of (replicate 6 ''audio'') q 100 3 6) (profile_of_cells ?cs) None = Inr ?e"
    using cell_guard_value [OF ab(3,7) formal(1)] cell_guard_value [OF ab(4,7) formal(2)]
    by (intro split_guard formal) auto
  have nan: "?e \<noteq> NaN" "peak \<noteq> NaN" using ok(1,2) by (auto dest: isfinite_not_NaN)
  have "fadd ?e coverage_slack \<noteq> NaN"
    using ok(1) fadd_Fin_not_NaN [of coverage_slack] by (auto simp: coverage_slack_def isfinite_Fin)
  then have "fle peak (fadd ?e coverage_slack)" using ok(4) nan by (simp add: not_flt)
  moreover have "flt ?e FORMAL_PERIOD_MS"
    using ok(3) nan(1) by (metis FORMAL_PERIOD_MS_def not_flt pyfloat.distinct(5))
  ultimately show ?case
    using 1(4) split_plan [OF assms(6-8)] guard v by auto
qed

section \<open>Examples\<close>

text \<open>Drains of exactly one millisecond: the guard exists and is at most five.\<close>

lemma round_up_small:
  assumes "0 \<le> v" "v \<le> 4" "double (Fin v)"
  shows "\<exists>g. round_up_ms (Fin v) = Inr g \<and> fle g (Fin 5)"
proof -
  have "fl (decimal_repr v) = Fin v" using decimal_repr_rounds [OF double_fl_id [OF assms(3)]] .
  then have r: "rnd (decimal_repr v) = v" by (auto dest: fl_Fin_rnd)
  have "decimal_repr v \<le> 5"
  proof (rule ccontr)
    assume "\<not> decimal_repr v \<le> 5"
    then have "rnd 5 \<le> rnd (decimal_repr v)" by (intro rnd_mono) simp
    with r assms(2) rnd_of_int [of 5] show False by simp
  qed
  then have "10 * decimal_repr v \<le> of_int 50" by simp
  then have "\<lceil>10 * decimal_repr v\<rceil> \<le> 50" by (rule ceiling_le)
  then have "of_int \<lceil>10 * decimal_repr v\<rceil> / 10 \<le> (5 :: rat)" by simp
  from fl_mono [OF this] show ?thesis
    using assms(1) fl_of_int [of 5] by (simp add: round_up_ms_def finite_sample_def)
qed

lemma estimate_small:
  assumes "percentile_type7 values PERCENTILE = Inr (Fin r)" "0 \<le> r" "r \<le> 2"
  shows "\<exists>g. estimate_guard_ms values = Inr (Fin r, g)"
proof -
  obtain m where m: "MARGIN = Fin m" "119 / 100 \<le> m" using margin_value by blast
  have "m \<le> 2"
  proof -
    have "m = rnd (6 / 5)" using m(1) by (auto simp: MARGIN_def dest: fl_Fin_rnd)
    then show ?thesis using rnd_mono [of "6 / 5" 2] rnd_of_int [of 2] by simp
  qed
  have "r * m \<le> 2 * 2" using assms(2,3) m(2) \<open>m \<le> 2\<close> by (intro mult_mono) auto
  then have le: "rnd (r * m) \<le> 4" using rnd_mono [of "r * m" 4] rnd_of_int [of 4] by simp
  have ge: "0 \<le> rnd (r * m)" using assms(2) m(2) by (intro rnd_nonneg) simp
  have "rnd (r * m) < 2 ^ 1024" using le by (rule order_le_less_trans) simp
  then have product: "fl (r * m) = Fin (rnd (r * m))" using ge by (simp add: fl_def)
  have "double (Fin (rnd (r * m)))" unfolding product [symmetric] by (rule double_fl)
  from round_up_small [OF ge le this] obtain g where g: "round_up_ms (Fin (rnd (r * m))) = Inr g" "fle g (Fin 5)"
    by blast
  then have "\<not> fle (Fin 20) g" by (cases g) (auto simp: fle_def feq_def)
  moreover have "fmul (Fin r) MARGIN = Fin (rnd (r * m))" unfolding m(1) using product by simp
  ultimately show ?thesis using assms(1) g(1) by (simp add: estimate_guard_ms_def FORMAL_PERIOD_MS_def)
qed

lemma one_millisecond_percentile:
  "\<exists>r. percentile_type7 (replicate 10000 (Fin 1)) PERCENTILE = Inr (Fin r) \<and> 0 \<le> r \<and> r \<le> 2"
proof -
  let ?q = "rnd (999 / 1000)" and ?xs = "replicate 10000 (Fin 1)"
  have q: "PERCENTILE = Fin ?q" "0 \<le> ?q" "?q \<le> 1"
    using fl_unit [of "999 / 1000"] by (auto simp: PERCENTILE_def)
  have range: "isfinite PERCENTILE" "fle (Fin 0) PERCENTILE" "fle PERCENTILE (Fin 1)"
    unfolding q(1) using q(2,3) by simp_all
  have "?q * 9999 \<le> 1 * 9999" using q(3) by (rule mult_right_mono) simp
  then have le: "rnd (?q * 9999) \<le> 9999" using rnd_mono [of "?q * 9999" 9999] rnd_of_int [of 9999] by simp
  have ge: "0 \<le> rnd (?q * 9999)" using q(2) by (intro rnd_nonneg) simp
  let ?p = "rnd (?q * 9999)"
  have "?p < 2 ^ 1024" using le by (rule order_le_less_trans) simp
  then have p: "fmul PERCENTILE (Fin 9999) = Fin ?p" using ge by (simp add: q(1) fl_def)
  have n: "float_of_int 9999 = Inr (Fin 9999)" using fl_of_int [of 9999] by (simp add: float_of_int_def)
  have samples: "map_res finite_sample ?xs = Inr ?xs"
    by (simp add: map_res_eq_Inr list_all2_conv_all_nth)
  have sorted: "sort ?xs = ?xs" by (intro sorted_sort_id) simp
  have low: "0 \<le> \<lfloor>?p\<rfloor>" "\<lfloor>?p\<rfloor> \<le> 9999" using ge le by (auto simp: floor_le_iff)
  have high: "0 \<le> \<lceil>?p\<rceil>" "\<lceil>?p\<rceil> \<le> 9999" using ceiling_mono [OF ge] le by (auto simp: ceiling_le_iff)
  have entry: "py_index ?xs k = Inr (Fin 1)" if "0 \<le> k" "k \<le> 9999" for k
    using that by (simp add: py_index_def)
  have l: "float_of_int \<lfloor>?p\<rfloor> = Inr (Fin (of_int \<lfloor>?p\<rfloor>))"
    using fl_of_int [of "\<lfloor>?p\<rfloor>"] low by (simp add: float_of_int_def)
  have fraction: "0 \<le> ?p - of_int \<lfloor>?p\<rfloor>" "?p - of_int \<lfloor>?p\<rfloor> \<le> 1" by linarith+
  let ?w = "rnd (?p - of_int \<lfloor>?p\<rfloor>)"
  have w: "fl (?p - of_int \<lfloor>?p\<rfloor>) = Fin ?w" "0 \<le> ?w" "?w \<le> 1"
    using fl_unit [OF fraction] by simp_all
  let ?c = "rnd (1 - ?w)"
  have c: "fl (1 - ?w) = Fin ?c" "0 \<le> ?c" "?c \<le> 1" using fl_unit [of "1 - ?w"] w by auto
  have sum: "0 \<le> ?c + ?w" "?c + ?w \<le> 2" using c w by auto
  have bounds: "0 \<le> rnd (?c + ?w)" "rnd (?c + ?w) \<le> 2"
    using sum rnd_mono [of "?c + ?w" 2] rnd_of_int [of 2] by auto
  have "rnd (?c + ?w) < 2 ^ 1024" using bounds(2) by (rule order_le_less_trans) simp
  then have f: "fl (?c + ?w) = Fin (rnd (?c + ?w))" using bounds(1) by (simp add: fl_def)
  have exact: "fl ?c = Fin ?c" "fl ?w = Fin ?w"
    using c(1) w(1) double_fl double_fl_id by metis+
  have "percentile_type7 ?xs PERCENTILE =
      (if \<lfloor>?p\<rfloor> = \<lceil>?p\<rceil> then Inr (Fin 1) else Inr (Fin (rnd (?c + ?w))))"
    using range entry [OF low] entry [OF high]
    by (simp add: percentile_type7_def samples sorted n p l math_floor_def math_ceil_def fsub_def
        w(1) c(1) exact f del: replicate.simps)
  then show ?thesis using bounds by (auto split: if_splits)
qed

lemma one_sample: "drain_sample (Fin 1)"
  using representable_rnd [of 1] rnd_of_int [of 1] by (simp add: drain_sample_def)

theorem guard_covers_all_but_ten_witness:
  "\<exists>raw g. estimate_guard_ms (replicate (BLOCKS * EVENTS_PER_BLOCK) (Fin 1)) = Inr (raw, g) \<and>
     length (filter (flt g) (replicate (BLOCKS * EVENTS_PER_BLOCK) (Fin 1))) \<le> 10"
proof -
  have n: "BLOCKS * EVENTS_PER_BLOCK = 10000" by (simp add: BLOCKS_def EVENTS_PER_BLOCK_def)
  obtain r where "percentile_type7 (replicate (BLOCKS * EVENTS_PER_BLOCK) (Fin 1)) PERCENTILE = Inr (Fin r)"
    "0 \<le> r" "r \<le> 2"
    using one_millisecond_percentile unfolding n by blast
  from estimate_small [OF this] obtain g where
    g: "estimate_guard_ms (replicate (BLOCKS * EVENTS_PER_BLOCK) (Fin 1)) = Inr (Fin r, g)" by blast
  have "\<forall>x \<in> set (replicate (BLOCKS * EVENTS_PER_BLOCK) (Fin 1)). drain_sample x"
    using one_sample by (auto simp: in_set_replicate)
  from guard_covers_all_but_ten [OF g length_replicate this] g show ?thesis by blast
qed

text \<open>A short campaign: one drain of a millisecond per case, and a split case with the same drain.\<close>

definition short_case :: "calibration_case \<Rightarrow> replayed_case" where
  "short_case c = \<lparr>replayed_identity = c, pooled_ms = [Fin 1], blocks_evidence = VNone\<rparr>"

lemma short_estimate: "\<exists>g. estimate_guard_ms [Fin 1] = Inr (Fin 1, g)"
proof (rule estimate_small)
  show "percentile_type7 [Fin 1] PERCENTILE = Inr (Fin 1)"
    using fl_unit [of "999 / 1000"] by (simp add: percentile_type7_def PERCENTILE_def finite_sample_def py_index_def)
qed simp_all

lemma short_guard_value:
  assumes "estimate_guard_ms [Fin 1] = Inr (Fin 1, g)"
  shows "\<exists>v. g = Fin v \<and> 1 \<le> v \<and> v \<le> 5 \<and> formal_guard g"
proof -
  have formal: "formal_guard g"
    by (rule estimate_formal_guard [OF assms]) (use one_sample in auto)
  obtain i where "statistic_index [Fin 1] PERCENTILE i" "fle (sort [Fin 1] ! i) g"
    using estimate_above_statistic [OF assms] one_sample by auto
  then have "fle (Fin 1) g" by (auto simp: statistic_index_def)
  obtain m \<mu> where m: "MARGIN = Fin m" "119 / 100 \<le> m" "fl (1 * m) = Fin \<mu>" "round_up_ms (Fin \<mu>) = Inr g"
    using estimate_parts [OF assms] by auto
  have "m = rnd (6 / 5)" using m(1) by (auto simp: MARGIN_def dest: fl_Fin_rnd)
  then have "m \<le> 2" using rnd_mono [of "6 / 5" 2] rnd_of_int [of 2] by simp
  then have "\<mu> \<le> 4" "0 \<le> \<mu>"
    using fl_Fin_rnd [OF m(3)] m(2) rnd_mono [of m 4] rnd_of_int [of 4] by auto
  moreover have "double (Fin \<mu>)" unfolding m(3) [symmetric] by (rule double_fl)
  ultimately have "fle g (Fin 5)" using round_up_small [of \<mu>] m(4) by auto
  with \<open>fle (Fin 1) g\<close> formal show ?thesis by (auto simp: formal_guard_def)
qed

definition short_single :: "replayed_case list" where
  "short_single = map short_case single_client_cases"

lemma short_frozen:
  assumes "estimate_guard_ms [Fin 1] = Inr (Fin 1, g)"
  shows "\<exists>lock guards validation. freeze_guards short_single [short_case (held_out_cases ! 1)] =
    Inr (lock, guards, validation)"
proof -
  obtain v where v: "g = Fin v" "1 \<le> v" "v \<le> 5" "formal_guard g" using short_guard_value [OF assms] by blast
  have each: "freeze_single (short_case c) st = Inr (frozen [short_case c] [(Fin 1, g, Fin 1)] st)"
    if "case_clients c = [k]" for c k st
  proof -
    obtain G V where st: "st = (G, V)" by (cases st)
    have "case_clients (replayed_identity (short_case c)) = [k]" using that by (simp add: short_case_def)
    from freeze_single_Inr [OF this] show ?thesis
      using assms that by (simp add: st short_case_def observed_max_ms_def)
  qed
  have "\<exists>st'. fold_res freeze_single (map short_case cs) st = Inr st'"
    if "\<forall>c \<in> set cs. \<exists>k. case_clients c = [k]" for cs st
    using that
  proof (induction cs arbitrary: st)
    case (Cons c cs)
    then obtain k where "case_clients c = [k]" by auto
    with Cons show ?case by (simp add: each del: frozen.simps)
  qed simp
  moreover have "\<forall>c \<in> set single_client_cases. \<exists>k. case_clients c = [k]"
    by (auto simp: single_client_cases_def)
  ultimately obtain G guards where G: "fold_res freeze_single short_single ([], []) = Inr (G, guards)"
    unfolding short_single_def by (metis surj_pair)
  have ids: "map replayed_identity short_single = single_client_cases"
    by (simp add: short_single_def short_case_def comp_def)
  have "\<forall>r \<in> set short_single. \<exists>c. case_clients (replayed_identity r) = [c]"
    by (auto simp: short_single_def short_case_def single_client_cases_def)
  from freeze_single_fold [OF G this] obtain ts where
    ts: "list_all2 estimated short_single ts" "frozen short_single ts ([], []) = (G, guards)" by auto
  have gs: "x = g" if "x \<in> set (guards_of ts)" for x
  proof -
    from that obtain raw peak where "(raw, x, peak) \<in> set ts" by (auto simp: guards_of_def)
    with ts(1) obtain r where "r \<in> set short_single" "estimated r (raw, x, peak)"
      by (metis in_set_conv_nth list_all2_conv_all_nth)
    then show "x = g" using assms by (auto simp: estimated_def short_single_def short_case_def)
  qed
  have len: "length ts = 8"
    using list_all2_lengthD [OF ts(1)] by (simp add: short_single_def single_client_cases_def)
  have table: "guards = rev (map (\<lambda>(k, g). (cell_key k, g)) (eight_cells (guards_of ts)))"
    using frozen_readers(4) [OF ids len _ ts(2)] gs v(4) by blast
  from audio_cells [of "guards_of ts" 50] len gs have
    "map_of guards (''resident-1g'', str_of_int 50, ''audio'') = Some g"
    "map_of guards (''borrower-2g'', ''100'', ''audio'') = Some g"
    unfolding table by (auto simp: guards_of_def)
  note envelope = split_envelope [OF this v(4) v(4)]
  have "fmul (Fin 3) g = fl (3 * v)" by (simp add: v(1))
  moreover have "fle (Fin 1) (fl (3 * v))" "fle (fl (3 * v)) (Fin 15)"
    using v(2,3) fl_mono [of 1 "3 * v"] fl_mono [of "3 * v" 15] fl_of_int [of 1] fl_of_int [of 15] by auto
  ultimately obtain e where e: "fmul (Fin 3) g = Fin e" "1 \<le> e" "e \<le> 15"
    by (cases "fl (3 * v)") (auto simp: fle_def feq_def)
  have "(0 :: rat) \<le> rnd (1 / 10 ^ 12)" by (rule rnd_nonneg) simp
  then have "rnd (e + rnd (1 / 10 ^ 12)) \<ge> rnd 1" using e(2) by (intro rnd_mono) linarith
  then have above: "\<not> flt (fadd (Fin e) coverage_slack) (Fin 1)"
    using rnd_of_int [of 1] fl_unit(1) [of "1 / 10 ^ 12"] fl_cases [of "e + rnd (1 / 10 ^ 12)"]
    by (auto simp: coverage_slack_def)
  have "\<exists>v. validate_held_out guards (short_case (held_out_cases ! 1)) = Inr v"
    using envelope above e
    by (simp add: validate_held_out_def short_case_def held_out_cases_def observed_max_ms_def
        require_held_out_coverage_def finite_sample_def fmax_def FORMAL_PERIOD_MS_def)
  then show ?thesis using G by (auto simp: freeze_guards_def)
qed

lemma short_samples:
  "\<forall>r \<in> set short_single. int (length (pooled_ms r)) \<le> 2 ^ 53 \<and> (\<forall>x \<in> set (pooled_ms r). drain_sample x)"
  using one_sample by (auto simp: short_single_def short_case_def)

lemma short_identities: "map replayed_identity short_single = single_client_cases"
  by (simp add: short_single_def short_case_def comp_def)

theorem frozen_lock_is_loaded_witness:
  "\<exists>lock guards validation profile. freeze_guards short_single [short_case (held_out_cases ! 1)] =
     Inr (lock, guards, validation) \<and> guard_profile_from_lock lock = Inr profile"
proof -
  obtain lock guards validation where f: "freeze_guards short_single [short_case (held_out_cases ! 1)] =
    Inr (lock, guards, validation)"
    using short_estimate short_frozen by blast
  from frozen_lock_is_loaded [OF f short_identities short_samples] f show ?thesis by blast
qed

theorem held_out_envelope_is_runtime_guard_witness:
  "\<exists>lock guards validation profile plan. freeze_guards short_single [short_case (held_out_cases ! 1)] =
     Inr (lock, guards, validation) \<and> guard_profile_from_lock lock = Inr profile \<and>
     plan_for ''mig-governor'' (replicate 6 ''audio'') (initial_feedback\<lparr>resident_quota_index := 1, borrower_limit := 3\<rparr>)
       100 = Inr plan \<and>
     guard_for ''mig-governor'' plan profile None = Inr (envelope_ms (validation ! 0))"
proof -
  let ?s = "initial_feedback\<lparr>resident_quota_index := 1, borrower_limit := 3\<rparr>"
  obtain lock guards validation where f: "freeze_guards short_single [short_case (held_out_cases ! 1)] =
    Inr (lock, guards, validation)"
    using short_estimate short_frozen by blast
  have "resident_quota_percent ?s = Inr 50" "resident_admission_limit ?s = 6" "3 \<le> borrower_limit ?s"
    by (simp_all add: resident_quota_percent_def RESIDENT_QUOTAS_def py_index_def initial_feedback_def)
  from held_out_envelope_is_runtime_guard [OF f short_identities short_samples _ _ this, of 0] f
  show ?thesis by (auto simp: short_case_def)
qed

end
