(* ===== verification/GuardEvidence.thy ===== *)
theory GuardEvidence
  imports GuardFreeze
begin

text \<open>
  The evidence behind a frozen guard (analysis/freeze_p9_guard.py): the registry that claims every
  raw file once, the replay of a drain trace, the choice of the first thermally valid attempt of a
  block and the pooling of a case's ten blocks. The file system and SHA-256 are surroundings; the
  replay of one block attempt from telemetry is an argument of the pooling.
\<close>

section \<open>The evidence registry\<close>

text \<open>What the file system says of a relative path below the campaign directory.\<close>

record evidence_file =
  resolved_path :: string
  below_root :: bool
  regular_file :: bool
  device_inode :: "int \<times> int"
  payload :: string

datatype path_answer = Symlink | Missing | Resolved evidence_file

record manifest_entry =
  entry_path :: string
  relative_path :: string
  entry_kind :: string
  entry_case :: string
  entry_block :: int
  entry_inode :: "int \<times> int"
  size_bytes :: int
  sha256 :: string

record evidence_registry =
  seen_paths :: "string list"
  seen_inodes :: "(int \<times> int) list"
  seen_hashes :: "string list"
  manifest :: "manifest_entry list"

definition empty_registry :: evidence_registry where
  "empty_registry = \<lparr>seen_paths = [], seen_inodes = [], seen_hashes = [], manifest = []\<rparr>"

definition claim_file ::
  "(string \<Rightarrow> string) \<Rightarrow> (string \<Rightarrow> path_answer) \<Rightarrow> pyval \<Rightarrow> string \<Rightarrow> string \<Rightarrow> int \<Rightarrow>
     evidence_registry \<Rightarrow> (string \<times> evidence_registry) res" where
  "claim_file digest_of files raw kind case_name block reg =
     (case raw of
        VStr path \<Rightarrow>
          if path = [] \<or> hd path = CHR ''/''
          then Inl (ValueError ''raw evidence paths must be non-empty and relative'')
          else (case files path of
            Symlink \<Rightarrow> Inl (ValueError ''raw evidence symlinks are forbidden'')
          | Missing \<Rightarrow> Inl (ValueError ''raw evidence is missing'')
          | Resolved f \<Rightarrow>
              if \<not> below_root f then Inl (ValueError ''raw evidence path escapes the campaign directory'')
              else if \<not> regular_file f then Inl (ValueError ''raw evidence is not a regular file'')
              else let digest = digest_of (payload f) in
                if resolved_path f \<in> set (seen_paths reg)
                then Inl (ValueError ''raw evidence path was reused'')
                else if device_inode f \<in> set (seen_inodes reg)
                then Inl (ValueError ''raw evidence inode was reused (hardlink detected)'')
                else if digest \<in> set (seen_hashes reg)
                then Inl (ValueError ''byte-identical raw evidence was reused'')
                else Inr (payload f,
                  \<lparr>seen_paths = resolved_path f # seen_paths reg,
                   seen_inodes = device_inode f # seen_inodes reg,
                   seen_hashes = digest # seen_hashes reg,
                   manifest = manifest reg @
                     [\<lparr>entry_path = resolved_path f, relative_path = path, entry_kind = kind,
                       entry_case = case_name, entry_block = block, entry_inode = device_inode f,
                       size_bytes = int (length (payload f)), sha256 = digest\<rparr>]\<rparr>))
      | _ \<Rightarrow> Inl (ValueError ''raw evidence paths must be non-empty and relative''))"

text \<open>A campaign claims one file after another with the same registry.\<close>

type_synonym claim_request = "pyval \<times> string \<times> string \<times> int"

fun claim_all ::
  "(string \<Rightarrow> string) \<Rightarrow> (string \<Rightarrow> path_answer) \<Rightarrow> claim_request list \<Rightarrow> evidence_registry \<Rightarrow>
     (string list \<times> evidence_registry) res" where
  "claim_all digest_of files [] reg = Inr ([], reg)"
| "claim_all digest_of files ((raw, kind, case_name, block) # rs) reg =
     bnd (claim_file digest_of files raw kind case_name block reg) (\<lambda>(p, reg').
     bnd (claim_all digest_of files rs reg') (\<lambda>(ps, reg''). Inr (p # ps, reg'')))"

section \<open>The drain trace\<close>

definition TRACE_FIELDS :: "string list" where
  "TRACE_FIELDS = [''request'', ''release_to_completion_ms'', ''gpu_service_ms'', ''queue_delay_ms'',
     ''gate_overhead_ms'', ''drain_ms'', ''resume_ms'']"

text \<open>\<open>_close\<close>: both sides finite and nonnegative, and close in relative or absolute terms.\<close>

definition close_values :: "pyval \<Rightarrow> pyval \<Rightarrow> pyfloat \<Rightarrow> unit res" where
  "close_values left right tolerance =
     bnd (finite_nonneg_value left) (\<lambda>l. bnd (finite_nonneg_value right) (\<lambda>r.
       if isclose l r tolerance tolerance then Inr () else Inl (ValueError ''differs from raw evidence'')))"

text \<open>
  A row of \<open>csv.DictReader\<close>: missing cols are \<open>None\<close>, surplus cols add a key that is no field name,
  which the key comparison refuses. \<open>int\<close> and \<open>float\<close> read the texts.
\<close>

record trace_row =
  drain_ms :: pyfloat
  resume_ms :: pyfloat

definition trace_field :: "string list \<Rightarrow> nat \<Rightarrow> pyval" where
  "trace_field cols k = (if k < length cols then VStr (cols ! k) else VNone)"

definition read_trace_row :: "int \<Rightarrow> string list \<Rightarrow> trace_row res" where
  "read_trace_row expected_request cols =
     (if length TRACE_FIELDS < length cols
      then Inl (ValueError ''critical trace request sequence is invalid'')
      else bnd (to_pyint (trace_field cols 0)) (\<lambda>request.
        if request \<noteq> expected_request
        then Inl (ValueError ''critical trace request sequence is invalid'')
        else bnd (map_res (\<lambda>k. bnd (to_float (trace_field cols k)) finite_sample) [1, 2, 3, 4, 5, 6])
          (\<lambda>numeric.
            bnd (close_values (VFloat (numeric ! 3)) (VFloat (fadd (numeric ! 4) (numeric ! 5)))
              (fl (1 / 10 ^ 7))) (\<lambda>_.
              Inr \<lparr>drain_ms = numeric ! 4, resume_ms = numeric ! 5\<rparr>))))"

fun read_trace_rows :: "int \<Rightarrow> string list list \<Rightarrow> trace_row list res" where
  "read_trace_rows request [] = Inr []"
| "read_trace_rows request (cols # rows) =
     bnd (read_trace_row request cols) (\<lambda>r.
     bnd (read_trace_rows (request + 1) rows) (\<lambda>rs. Inr (r # rs)))"

text \<open>\<open>max(drains)\<close>, on the thousand drains that the code has checked for.\<close>

fun longest_drain :: "pyfloat list \<Rightarrow> pyfloat" where
  "longest_drain [] = NaN"
| "longest_drain (x # xs) = foldl fmax x xs"

record drain_trace =
  drains_ms :: "pyfloat list"
  resumes_ms :: "pyfloat list"
  drain_p999_ms :: pyfloat
  drain_max_ms :: pyfloat

definition replay_critical_trace :: "string list option \<Rightarrow> string list list \<Rightarrow> drain_trace res" where
  "replay_critical_trace header rows =
     (if header \<noteq> Some TRACE_FIELDS then Inl (ValueError ''critical trace has an unexpected header'')
      else bnd (read_trace_rows 0 rows) (\<lambda>rs.
        let drains = map drain_ms rs in
        if length drains \<noteq> EVENTS_PER_BLOCK
        then Inl (ValueError ''critical trace does not contain exactly 1000 drain events'')
        else if \<exists>x \<in> set drains. fle x (Fin 0)
        then Inl (ValueError ''every cooperative drain event must have a positive acknowledgement'')
        else bnd (percentile_type7 drains PERCENTILE) (\<lambda>p.
          Inr \<lparr>drains_ms = drains, resumes_ms = map resume_ms rs, drain_p999_ms = p,
            drain_max_ms = longest_drain drains\<rparr>)))"

section \<open>Attempts and blocks\<close>

text \<open>What the replay of one attempt of a block yields.\<close>

record replayed_attempt =
  thermally_valid :: bool
  attempt_trace :: drain_trace
  attempt_evidence :: pyval

definition require_first_thermally_valid_attempt ::
  "replayed_attempt list \<Rightarrow> pyval \<Rightarrow> replayed_attempt res" where
  "require_first_thermally_valid_attempt attempts selected =
     (if attempts = [] \<or> \<not> py_eq selected (VInt (int (length attempts))) \<or>
         (\<exists>(index, attempt) \<in> set (enumerate 1 attempts).
            thermally_valid attempt \<noteq> (index = length attempts))
      then Inl (ValueError ''guard retry did not select the first thermally valid block-attempt'')
      else Inr (last attempts))"

definition BLOCK_MAX_ATTEMPTS :: nat where "BLOCK_MAX_ATTEMPTS = 3"

text \<open>
  The argument \<open>replay\<close> stands for the part of \<open>_replay_block_attempt\<close> that reads the telemetry and the
  JSON evidence of one case: block, expected attempt, recorded attempt, registry and end of the
  previous attempt give the thermal verdict, the header and the rows of the claimed trace, the
  replayed evidence, the registry and the end of the attempt. The drains come from the trace.
\<close>

record attempt_sources =
  source_valid :: bool
  source_header :: "string list option"
  source_rows :: "string list list"
  source_evidence :: pyval

type_synonym attempt_replay =
  "nat \<Rightarrow> nat \<Rightarrow> pyval \<Rightarrow> evidence_registry \<times> int \<Rightarrow> (attempt_sources \<times> evidence_registry \<times> int) res"

definition attempt_result ::
  "attempt_replay \<Rightarrow> nat \<Rightarrow> nat \<Rightarrow> pyval \<Rightarrow> evidence_registry \<times> int \<Rightarrow>
     (replayed_attempt \<times> evidence_registry \<times> int) res" where
  "attempt_result replay block n v st =
     bnd (replay block n v st) (\<lambda>(s, st').
     bnd (replay_critical_trace (source_header s) (source_rows s)) (\<lambda>trace.
       Inr (\<lparr>thermally_valid = source_valid s, attempt_trace = trace, attempt_evidence = source_evidence s\<rparr>, st')))"

fun replay_attempts ::
  "attempt_replay \<Rightarrow> nat \<Rightarrow> nat \<Rightarrow> pyval list \<Rightarrow> evidence_registry \<times> int \<Rightarrow>
     (replayed_attempt list \<times> evidence_registry \<times> int) res" where
  "replay_attempts replay block n [] st = Inr ([], st)"
| "replay_attempts replay block n (v # vs) st =
     bnd (attempt_result replay block n v st) (\<lambda>(a, st').
     bnd (replay_attempts replay block (Suc n) vs st') (\<lambda>(rest, st''). Inr (a # rest, st'')))"

definition replay_block ::
  "attempt_replay \<Rightarrow> nat \<Rightarrow> pyval \<Rightarrow> evidence_registry \<times> int \<Rightarrow>
     (replayed_attempt list \<times> evidence_registry \<times> int) res" where
  "replay_block replay block v st =
     (case v of
        VDict d \<Rightarrow>
          if dkeys d \<noteq> {''block'', ''selected_attempt'', ''attempts''} \<or>
             \<not> py_eq (dget d ''block'') (VInt (int block))
          then Inl (ValueError ''guard logical block has an invalid schema or order'')
          else (case dget d ''attempts'' of
            VList attempts \<Rightarrow>
              if \<not> (1 \<le> length attempts \<and> length attempts \<le> BLOCK_MAX_ATTEMPTS) \<or>
                 \<not> py_eq (dget d ''selected_attempt'') (VInt (int (length attempts)))
              then Inl (ValueError ''guard logical block has an invalid attempt count'')
              else bnd (replay_attempts replay block 1 attempts st) (\<lambda>(replayed, st').
                bnd (require_first_thermally_valid_attempt replayed (dget d ''selected_attempt''))
                  (\<lambda>_. Inr (replayed, st')))
          | _ \<Rightarrow> Inl (ValueError ''guard logical block has an invalid attempt count''))
      | _ \<Rightarrow> Inl (ValueError ''guard logical block has an invalid schema or order''))"

fun replay_blocks ::
  "attempt_replay \<Rightarrow> nat \<Rightarrow> pyval list \<Rightarrow> evidence_registry \<times> int \<Rightarrow>
     (replayed_attempt list list \<times> evidence_registry \<times> int) res" where
  "replay_blocks replay n [] st = Inr ([], st)"
| "replay_blocks replay n (v # vs) st =
     bnd (replay_block replay n v st) (\<lambda>(b, st').
     bnd (replay_blocks replay (Suc n) vs st') (\<lambda>(rest, st''). Inr (b # rest, st'')))"

text \<open>\<open>pooled.extend(selected["_pooled"])\<close> over the blocks.\<close>

definition pooled_drains :: "replayed_attempt list list \<Rightarrow> pyfloat list" where
  "pooled_drains blocks = concat (map (\<lambda>b. drains_ms (attempt_trace (last b))) blocks)"

text \<open>
  \<open>_replay_case\<close>: the identity cols must equal the fixed case, whose clients are given as JSON. The
  result keeps the replayed blocks beside the pool.
\<close>

definition replay_case ::
  "attempt_replay \<Rightarrow> calibration_case \<Rightarrow> pydict \<Rightarrow> evidence_registry \<times> int \<Rightarrow>
     (replayed_case \<times> replayed_attempt list list \<times> evidence_registry \<times> int) res" where
  "replay_case replay c e st =
     bnd (map_res client_to_json (case_clients c)) (\<lambda>clients.
       if \<not> py_eq (dget e ''case_id'') (VStr (case_id c)) \<or>
          \<not> py_eq (dget e ''held_out'') (VBool (held_out c)) \<or>
          \<not> py_eq (dget e ''clients'') (VList clients)
       then Inl (ValueError ''guard case identity differs from the fixed protocol'')
       else (case dget e ''blocks'' of
         VList blocks \<Rightarrow>
           if length blocks \<noteq> BLOCKS then Inl (ValueError ''guard case must contain exactly ten blocks'')
           else bnd (replay_blocks replay 1 blocks st) (\<lambda>(replayed, st').
             let pooled = pooled_drains replayed in
             if length pooled \<noteq> BLOCKS * EVENTS_PER_BLOCK
             then Inl (ValueError ''case does not contain exactly 10,000 selected drain events'')
             else bnd (percentile_type7 pooled PERCENTILE) (\<lambda>_.
               Inr (\<lparr>replayed_identity = c, pooled_ms = pooled, blocks_evidence = dget e ''blocks''\<rparr>,
                 replayed, st')))
       | _ \<Rightarrow> Inl (ValueError ''guard case must contain exactly ten blocks'')))"

section \<open>Facts on the registry\<close>

definition independent :: "evidence_registry \<Rightarrow> bool" where
  "independent reg \<longleftrightarrow>
     distinct (map entry_path (manifest reg)) \<and> distinct (map entry_inode (manifest reg)) \<and>
     distinct (map sha256 (manifest reg)) \<and>
     set (seen_paths reg) = entry_path ` set (manifest reg) \<and>
     set (seen_inodes reg) = entry_inode ` set (manifest reg) \<and>
     set (seen_hashes reg) = sha256 ` set (manifest reg)"

lemma claim_file_Inr:
  assumes "claim_file digest_of files raw kind case_name block reg = Inr (p, reg')"
  shows "\<exists>path f e. raw = VStr path \<and> files path = Resolved f \<and> below_root f \<and> regular_file f \<and> p = payload f \<and>
      manifest reg' = manifest reg @ [e] \<and> relative_path e = path \<and> entry_path e = resolved_path f \<and>
      entry_inode e = device_inode f \<and> sha256 e = digest_of p \<and>
      (independent reg \<longrightarrow> independent reg')"
  using assms
  by (cases raw) (auto simp: claim_file_def Let_def independent_def split: if_splits path_answer.splits)

lemma claim_all_facts:
  assumes "claim_all digest_of files rs reg = Inr (ps, reg')"
  shows "\<exists>es. manifest reg' = manifest reg @ es \<and> map sha256 es = map digest_of ps \<and>
      list_all2 (\<lambda>(raw, _) e. raw = VStr (relative_path e)) rs es \<and> (independent reg \<longrightarrow> independent reg')"
  using assms
proof (induction digest_of files rs reg arbitrary: ps rule: claim_all.induct)
  case (2 digest_of files raw kind case_name block rs reg)
  from "2.prems" obtain p mid qs where first: "claim_file digest_of files raw kind case_name block reg = Inr (p, mid)"
    and rest: "claim_all digest_of files rs mid = Inr (qs, reg')" and ps: "ps = p # qs"
    by (auto simp: bnd_eq_Inr)
  from claim_file_Inr [OF first] obtain e where e: "manifest mid = manifest reg @ [e]" "raw = VStr (relative_path e)"
    "sha256 e = digest_of p" "independent reg \<longrightarrow> independent mid"
    by blast
  obtain es where "manifest reg' = manifest mid @ es" "map sha256 es = map digest_of qs"
    "list_all2 (\<lambda>(raw, _) e. raw = VStr (relative_path e)) rs es" "independent mid \<longrightarrow> independent reg'"
    using "2.IH" [OF first refl rest] by blast
  with e ps show ?case by (intro exI [of _ "e # es"]) simp
qed auto

section \<open>Facts on the pool\<close>

lemma read_trace_rows_drains:
  assumes "read_trace_rows n rows = Inr rs" and "r \<in> set rs"
  shows "\<exists>a. drain_ms r = Fin a \<and> 0 \<le> a"
  using assms
proof (induction n rows arbitrary: rs rule: read_trace_rows.induct)
  case (2 n cols rows)
  then obtain q qs where q: "read_trace_row n cols = Inr q" "read_trace_rows (n + 1) rows = Inr qs" "rs = q # qs"
    by (auto simp: bnd_eq_Inr)
  from q(1) obtain numeric where nums: "map_res (\<lambda>k. bnd (to_float (trace_field cols k)) finite_sample)
      [1, 2, 3, 4, 5, 6] = Inr numeric" "drain_ms q = numeric ! 4"
    by (auto simp: read_trace_row_def bnd_eq_Inr simp del: map_res.simps split: if_splits)
  then have "isfinite (numeric ! 4) \<and> \<not> flt (numeric ! 4) (Fin 0)"
    by (auto simp: bnd_eq_Inr)
  then have "\<exists>a. drain_ms q = Fin a \<and> 0 \<le> a" using nums(2) by (auto simp: isfinite_Fin not_less)
  with "2.IH" [OF q(1,2)] "2.prems"(2) q(3) show ?case by auto
qed auto

lemma replay_critical_trace_facts:
  assumes "replay_critical_trace header rows = Inr t"
  shows "length (drains_ms t) = EVENTS_PER_BLOCK \<and> (\<forall>x \<in> set (drains_ms t). \<exists>a. x = Fin a \<and> 0 < a)"
proof -
  from assms obtain rs where rs: "read_trace_rows 0 rows = Inr rs" "drains_ms t = map drain_ms rs"
    "length rs = EVENTS_PER_BLOCK" "\<forall>x \<in> set (map drain_ms rs). \<not> fle x (Fin 0)"
    by (auto simp: replay_critical_trace_def bnd_eq_Inr Let_def split: if_splits)
  have "\<exists>a. x = Fin a \<and> 0 < a" if "x \<in> set (map drain_ms rs)" for x
    using that rs(4) read_trace_rows_drains [OF rs(1)] by fastforce
  then show ?thesis using rs(2,3) by auto
qed

definition sound_attempt :: "replayed_attempt \<Rightarrow> bool" where
  "sound_attempt a \<longleftrightarrow> length (drains_ms (attempt_trace a)) = EVENTS_PER_BLOCK \<and>
     (\<forall>x \<in> set (drains_ms (attempt_trace a)). \<exists>v. x = Fin v \<and> 0 < v)"

lemma replay_attempts_facts:
  "replay_attempts replay block n vs st = Inr (as, st') \<Longrightarrow> length as = length vs \<and> (\<forall>a \<in> set as. sound_attempt a)"
proof (induction replay block n vs st arbitrary: as rule: replay_attempts.induct)
  case (2 replay block n v vs st)
  then show ?case
    using replay_critical_trace_facts
    by (fastforce simp: bnd_eq_Inr attempt_result_def sound_attempt_def)
qed simp

text \<open>A block of a case: one to three attempts, the last of them the only thermally valid one.\<close>

definition accepted_block :: "replayed_attempt list \<Rightarrow> bool" where
  "accepted_block b \<longleftrightarrow> 1 \<le> length b \<and> length b \<le> BLOCK_MAX_ATTEMPTS \<and> thermally_valid (last b) \<and>
     (\<forall>a \<in> set (butlast b). \<not> thermally_valid a) \<and> (\<forall>a \<in> set b. sound_attempt a)"

lemma first_valid:
  assumes "require_first_thermally_valid_attempt as sel = Inr a"
  shows "as \<noteq> [] \<and> a = last as \<and> thermally_valid (last as) \<and> (\<forall>x \<in> set (butlast as). \<not> thermally_valid x)"
proof -
  from assms have some: "as \<noteq> []" and a: "a = last as"
    and all: "\<forall>(index, x) \<in> set (enumerate 1 as). thermally_valid x = (index = length as)"
    by (auto simp: require_first_thermally_valid_attempt_def split: if_splits)
  have place: "thermally_valid (as ! i) = (Suc i = length as)" if "i < length as" for i
  proof -
    have "(1 + i, as ! i) \<in> set (enumerate 1 as)"
      using that by (metis length_enumerate nth_enumerate_eq nth_mem)
    with all show ?thesis by auto
  qed
  have "thermally_valid (last as)" using place [of "length as - 1"] some by (simp add: last_conv_nth)
  moreover have "\<not> thermally_valid x" if "x \<in> set (butlast as)" for x
    using that place by (auto simp: in_set_conv_nth nth_butlast)
  ultimately show ?thesis using some a by blast
qed

lemma replay_block_facts:
  assumes "replay_block replay block v st = Inr (b, st')"
  shows "accepted_block b"
proof -
  obtain d where d: "v = VDict d" using assms by (cases v) (auto simp: replay_block_def)
  obtain attempts where l: "dget d ''attempts'' = VList attempts"
    using assms by (cases "dget d ''attempts''") (auto simp: replay_block_def d split: if_splits)
  from assms obtain st1 a where
    len: "1 \<le> length attempts" "length attempts \<le> BLOCK_MAX_ATTEMPTS"
    and replayed: "replay_attempts replay block 1 attempts st = Inr (b, st1)"
    and first: "require_first_thermally_valid_attempt b (dget d ''selected_attempt'') = Inr a"
    unfolding replay_block_def d pyval.case l by (auto simp: bnd_eq_Inr split: if_splits)
  from replay_attempts_facts [OF replayed] len first_valid [OF first] show ?thesis
    by (auto simp: accepted_block_def)
qed

lemma bnd_pairE:
  assumes "bnd m (\<lambda>(x, y). f x y) = Inr r"
  obtains x y where "m = Inr (x, y)" "f x y = Inr r"
  using assms by (cases m) auto

lemma replay_blocks_facts:
  "replay_blocks replay n vs st = Inr (bs, st') \<Longrightarrow> length bs = length vs \<and> (\<forall>b \<in> set bs. accepted_block b)"
proof (induction replay n vs st arbitrary: bs rule: replay_blocks.induct)
  case (2 replay n v vs st)
  from "2.prems" obtain b st1 where b: "replay_block replay n v st = Inr (b, st1)"
    and more: "bnd (replay_blocks replay (Suc n) vs st1) (\<lambda>(rest, st''). Inr (b # rest, st'')) = Inr (bs, st')"
    unfolding replay_blocks.simps by (rule bnd_pairE)
  from more obtain rest st2 where "replay_blocks replay (Suc n) vs st1 = Inr (rest, st2)"
    and same: "Inr (b # rest, st2) = (Inr (bs, st') :: (replayed_attempt list list \<times> evidence_registry \<times> int) res)"
    by (rule bnd_pairE)
  then have rest: "replay_blocks replay (Suc n) vs st1 = Inr (rest, st')" and bs: "bs = b # rest" by auto
  from "2.IH" [OF b refl rest] replay_block_facts [OF b] bs show ?case by simp
qed simp

lemma pooled_length:
  assumes "\<forall>b \<in> set bs. accepted_block b"
  shows "length (pooled_drains bs) = length bs * EVENTS_PER_BLOCK"
    and "\<forall>x \<in> set (pooled_drains bs). \<exists>a. x = Fin a \<and> 0 < a"
proof -
  have last: "sound_attempt (last b)" if "b \<in> set bs" for b
  proof -
    have "b \<noteq> []" using assms that by (auto simp: accepted_block_def)
    then show ?thesis using assms that by (auto simp: accepted_block_def)
  qed
  then show "\<forall>x \<in> set (pooled_drains bs). \<exists>a. x = Fin a \<and> 0 < a"
    by (auto simp: pooled_drains_def sound_attempt_def)
  from last show "length (pooled_drains bs) = length bs * EVENTS_PER_BLOCK"
    by (induction bs) (auto simp: pooled_drains_def sound_attempt_def)
qed

section \<open>Properties\<close>

text \<open>
  C10: However many files a campaign claims, and whatever the file system answers, the manifest
  lists them in the order of the claims under their relative paths, and no two of its entries share
  a resolved path, an inode or a digest; so no two claimed files have the same content.
\<close>

theorem claimed_evidence_is_independent:
  assumes "claim_all digest_of files requests empty_registry = Inr (payloads, reg)"
  shows "list_all2 (\<lambda>(raw, _) e. raw = VStr (relative_path e)) requests (manifest reg) \<and>
    map sha256 (manifest reg) = map digest_of payloads \<and> distinct payloads \<and>
    distinct (map entry_path (manifest reg)) \<and> distinct (map entry_inode (manifest reg)) \<and>
    distinct (map sha256 (manifest reg))"
proof -
  have "independent empty_registry" by (simp add: independent_def empty_registry_def)
  with claim_all_facts [OF assms] have facts: "map sha256 (manifest reg) = map digest_of payloads"
    "list_all2 (\<lambda>(raw, _) e. raw = VStr (relative_path e)) requests (manifest reg)" "independent reg"
    by (auto simp: empty_registry_def)
  then have "distinct (map digest_of payloads)" by (metis independent_def)
  then have "distinct payloads" by (simp add: distinct_map)
  with facts show ?thesis by (simp add: independent_def)
qed

text \<open>
  C11: A replayed case pools exactly ten blocks of 1,000 drains, all finite and positive. Every block
  has one to three attempts; the pool takes the last one, which is thermally valid while no earlier
  attempt of the block is, whatever the replay of an attempt reports and however long the drains are.
\<close>

theorem case_pools_first_valid_attempts:
  assumes "replay_case replay c e st = Inr (r, blocks, st')"
  shows "length blocks = BLOCKS \<and> (\<forall>b \<in> set blocks. accepted_block b) \<and> replayed_identity r = c \<and>
    pooled_ms r = concat (map (\<lambda>b. drains_ms (attempt_trace (last b))) blocks) \<and>
    length (pooled_ms r) = BLOCKS * EVENTS_PER_BLOCK \<and>
    (\<forall>x \<in> set (pooled_ms r). \<exists>a. x = Fin a \<and> 0 < a)"
proof -
  from assms obtain vs where vs: "replay_blocks replay 1 vs st = Inr (blocks, st')" "length vs = BLOCKS"
    and r: "replayed_identity r = c" "pooled_ms r = pooled_drains blocks"
    by (auto simp: replay_case_def bnd_eq_Inr Let_def split: if_splits pyval.splits)
  from replay_blocks_facts [OF vs(1)] have b: "length blocks = BLOCKS" "\<forall>b \<in> set blocks. accepted_block b"
    using vs(2) by auto
  from pooled_length [OF b(2)] b r show ?thesis by (simp add: pooled_drains_def)
qed

section \<open>Examples\<close>

text \<open>Two different files, with the content as its own digest.\<close>

definition two_files :: "string \<Rightarrow> path_answer" where
  "two_files p =
     (if p = ''a'' then Resolved \<lparr>resolved_path = ''/c/a'', below_root = True, regular_file = True,
        device_inode = (1, 1), payload = ''x''\<rparr>
      else if p = ''b'' then Resolved \<lparr>resolved_path = ''/c/b'', below_root = True, regular_file = True,
        device_inode = (1, 2), payload = ''y''\<rparr>
      else Missing)"

theorem claimed_evidence_is_independent_witness:
  "\<exists>reg. claim_all (\<lambda>p. p) two_files [(VStr ''a'', ''critical-csv'', ''c'', 1), (VStr ''b'', ''worker-json'', ''c'', 1)]
      empty_registry = Inr ([''x'', ''y''], reg) \<and> distinct (map entry_path (manifest reg)) \<and>
    map sha256 (manifest reg) = [''x'', ''y'']"
proof -
  let ?rs = "[(VStr ''a'', ''critical-csv'', ''c'', 1), (VStr ''b'', ''worker-json'', ''c'', 1)]"
  have "\<exists>reg. claim_all (\<lambda>p. p) two_files ?rs empty_registry = Inr ([''x'', ''y''], reg)"
    by (simp add: claim_file_def two_files_def empty_registry_def Let_def)
  then obtain reg where reg: "claim_all (\<lambda>p. p) two_files ?rs empty_registry = Inr ([''x'', ''y''], reg)" by blast
  from claimed_evidence_is_independent [OF this] reg show ?thesis by auto
qed

text \<open>A case whose blocks have one attempt each, with drains of a millisecond.\<close>

definition millisecond_row :: "nat \<Rightarrow> string list" where
  "millisecond_row k = [str_of_nat k, ''1'', ''1'', ''0'', ''1'', ''1'', ''0'']"

definition millisecond_replay :: attempt_replay where
  "millisecond_replay block n v st =
     Inr (\<lparr>source_valid = True, source_header = Some TRACE_FIELDS,
       source_rows = map millisecond_row [0..<1000], source_evidence = VNone\<rparr>, st)"

definition millisecond_block :: "nat \<Rightarrow> pyval" where
  "millisecond_block k = VDict [(''block'', VInt (int k)), (''selected_attempt'', VInt 1), (''attempts'', VList [VNone])]"

lemma millisecond_floats: "float_of_string ''1'' = Inr (Fin 1)" "float_of_string ''0'' = Inr (Fin 0)"
  by code_simp+

lemma millisecond_row_read: "read_trace_row (int k) (millisecond_row k) = Inr \<lparr>drain_ms = Fin 1, resume_ms = Fin 0\<rparr>"
  using fl_of_int [of 1]
  by (simp add: read_trace_row_def millisecond_row_def TRACE_FIELDS_def trace_field_def millisecond_floats
      finite_sample_def close_values_def finite_nonneg_value_def isclose_def feq_def)

lemma millisecond_rows_read:
  "read_trace_rows (int k) (map millisecond_row [k..<k + n]) = Inr (replicate n \<lparr>drain_ms = Fin 1, resume_ms = Fin 0\<rparr>)"
proof (induction n arbitrary: k)
  case (Suc n)
  have "[k..<k + Suc n] = k # [Suc k..<Suc k + n]" by (simp add: upt_conv_Cons)
  then show ?case using Suc [of "Suc k"] by (simp add: millisecond_row_read add.commute)
qed simp

lemma millisecond_percentile: "0 < n \<Longrightarrow> n \<le> 10000 \<Longrightarrow> \<exists>p. percentile_type7 (replicate n (Fin 1)) PERCENTILE = Inr p"
proof (rule percentile_total)
  have q: "PERCENTILE = Fin (rnd (999 / 1000))" "0 \<le> rnd (999 / 1000)" "rnd (999 / 1000) \<le> 1"
    using fl_unit [of "999 / 1000"] by (auto simp: PERCENTILE_def)
  show "fle (Fin 0) PERCENTILE" "fle PERCENTILE (Fin 1)" unfolding q(1) using q(2,3) by simp_all
qed auto

lemma millisecond_trace_replayed:
  "\<exists>t. replay_critical_trace (Some TRACE_FIELDS) (map millisecond_row [0..<1000]) = Inr t \<and>
     drains_ms t = replicate 1000 (Fin 1)"
proof -
  obtain p where "percentile_type7 (replicate 1000 (Fin 1)) PERCENTILE = Inr p"
    using millisecond_percentile [of 1000] by auto
  then show ?thesis
    using millisecond_rows_read [of 0 1000]
    by (simp add: replay_critical_trace_def EVENTS_PER_BLOCK_def Let_def del: upt_Suc replicate.simps)
qed

lemma millisecond_block_replayed:
  "\<exists>a. replay_block millisecond_replay k (millisecond_block k) st = Inr ([a], st) \<and>
     drains_ms (attempt_trace a) = replicate 1000 (Fin 1)"
proof -
  obtain t where t: "replay_critical_trace (Some TRACE_FIELDS) (map millisecond_row [0..<1000]) = Inr t"
    "drains_ms t = replicate 1000 (Fin 1)"
    using millisecond_trace_replayed by blast
  then have "attempt_result millisecond_replay k 1 VNone st =
    Inr (\<lparr>thermally_valid = True, attempt_trace = t, attempt_evidence = VNone\<rparr>, st)"
    by (simp add: attempt_result_def millisecond_replay_def del: upt_Suc)
  then show ?thesis
    using t(2) by (auto simp: replay_block_def millisecond_block_def dkeys_def dget_def insert_commute
        BLOCK_MAX_ATTEMPTS_def require_first_thermally_valid_attempt_def py_eq_int)
qed

lemma millisecond_blocks_replayed:
  "\<exists>bs. replay_blocks millisecond_replay k (map millisecond_block [k..<k + n]) st = Inr (bs, st) \<and>
     pooled_drains bs = replicate (n * 1000) (Fin 1)"
proof (induction n arbitrary: k)
  case (Suc n)
  obtain a where a: "replay_block millisecond_replay k (millisecond_block k) st = Inr ([a], st)"
    "drains_ms (attempt_trace a) = replicate 1000 (Fin 1)"
    using millisecond_block_replayed by blast
  obtain bs where bs: "replay_blocks millisecond_replay (Suc k) (map millisecond_block [Suc k..<Suc k + n]) st = Inr (bs, st)"
    "pooled_drains bs = replicate (n * 1000) (Fin 1)"
    using Suc by blast
  have "[k..<k + Suc n] = k # [Suc k..<Suc k + n]" by (simp add: upt_conv_Cons)
  with a(1) bs(1) have "replay_blocks millisecond_replay k (map millisecond_block [k..<k + Suc n]) st = Inr ([a] # bs, st)"
    by simp
  moreover have "pooled_drains ([a] # bs) = replicate (Suc n * 1000) (Fin 1)"
    using a(2) bs(2) by (simp add: pooled_drains_def replicate_add [symmetric])
  ultimately show ?case by blast
qed (simp add: pooled_drains_def)

definition millisecond_case :: pydict where
  "millisecond_case =
     [(''case_id'', VStr ''resident-1g-q25-audio''), (''held_out'', VBool False),
      (''clients'', VList [VDict [(''placement'', VStr ''resident-1g''), (''quota_percent'', VInt 25),
        (''modality'', VStr ''audio''), (''model'', VStr ''whisper-tiny-encoder''), (''count'', VInt 1)]]),
      (''blocks'', VList (map millisecond_block [1..<11]))]"

theorem case_pools_first_valid_attempts_witness:
  "\<exists>r blocks. replay_case millisecond_replay (single_client_cases ! 1) millisecond_case (empty_registry, 0) =
      Inr (r, blocks, empty_registry, 0) \<and> length (pooled_ms r) = BLOCKS * EVENTS_PER_BLOCK"
proof -
  obtain bs where bs: "replay_blocks millisecond_replay 1 (map millisecond_block [1..<1 + 10]) (empty_registry, 0) =
      Inr (bs, empty_registry, 0)" "pooled_drains bs = replicate (10 * 1000) (Fin 1)"
    using millisecond_blocks_replayed by blast
  obtain p where p: "percentile_type7 (replicate 10000 (Fin 1)) PERCENTILE = Inr p"
    using millisecond_percentile [of 10000] by auto
  have "\<exists>r. replay_case millisecond_replay (single_client_cases ! 1) millisecond_case (empty_registry, 0) =
      Inr (r, bs, empty_registry, 0)"
    using bs p
    by (simp add: replay_case_def millisecond_case_def dget_def single_client_cases_def client_def client_to_json_def
        client_model_def MODELS_def quota_names feq_def BLOCKS_def EVENTS_PER_BLOCK_def Let_def
        del: upt_Suc replicate.simps)
  then obtain r where r: "replay_case millisecond_replay (single_client_cases ! 1) millisecond_case (empty_registry, 0) =
      Inr (r, bs, empty_registry, 0)" by blast
  from case_pools_first_valid_attempts [OF this] r show ?thesis by blast
qed

end
