(* ===== verification/BoerSearch.thy ===== *)
theory BoerSearch
  imports PyValue
begin

text \<open>
  The port of BOER's configuration search (baselines/boer/thor_adapter.py): the readers of the
  specification and of a measurement, static and dynamic pruning, the objective, and the loop that
  observes one candidate after another. The least-squares line, the random draw and the expected
  improvement are numpy's and are arguments, as are the files and the evaluator's output.
\<close>

section \<open>Candidates and specifications\<close>

definition UPSTREAM_COMMIT :: string where
  "UPSTREAM_COMMIT = ''df54815de3b1c9059f873a17c13f7d5203eedd3e''"

definition INITIAL_RANDOM_POINTS :: nat where "INITIAL_RANDOM_POINTS = 6"
definition MAX_OBSERVATIONS :: nat where "MAX_OBSERVATIONS = 20"
definition NO_IMPROVEMENT_LIMIT :: nat where "NO_IMPROVEMENT_LIMIT = 5"

record candidate =
  candidate_id :: string
  sm_percent :: int
  offered_rps :: int

definition finite_number :: "pyval \<Rightarrow> pyfloat res" where
  "finite_number v =
     (if is_bool v \<or> \<not> is_number v then Inl (ValueError ''must be numeric'')
      else bnd (to_float v) (\<lambda>x. if isfinite x then Inr x else Inl (ValueError ''must be finite'')))"

text \<open>
  A capacity point and the measurement it names; \<open>files\<close> yields the digest and the content of a file.
  A point that is no object fails the comparison of its keys.
\<close>

definition check_capacity_point ::
  "(pyval \<Rightarrow> (string \<times> pyval) res) \<Rightarrow> pydict \<Rightarrow> pyval \<Rightarrow> unit res" where
  "check_capacity_point files contract v =
     (case v of
        VDict point \<Rightarrow>
          if dkeys point \<noteq> {''sm_percent'', ''max_rps'', ''evidence_path'', ''evidence_sha256''}
          then Inl (ValueError ''BOER capacity point lacks raw evidence binding'')
          else bnd (files (dget point ''evidence_path'')) (\<lambda>(digest, raw).
            if \<not> py_eq (VStr digest) (dget point ''evidence_sha256'')
            then Inl (ValueError ''BOER capacity evidence hash differs'')
            else
              let differs = Inl (ValueError ''BOER capacity evidence content differs'')
              in case raw of
                VDict d \<Rightarrow>
                  if \<not> py_eq (dget d ''model'') (dget_default contract ''producer_model'' (VStr ''resnet10-detection''))
                  then differs
                  else if \<not> py_eq (dget d ''role'') (VStr ''benchmark'') then differs
                  else bnd (vget (dget_default d ''execution_environment'' (VDict [])) ''mps_active_thread_percentage'')
                    (\<lambda>percentage.
                    if \<not> py_eq percentage (dget point ''sm_percent'') then differs
                    else if \<not> py_eq (dget d ''completed_requests'') (VInt 1000) then differs
                    else bnd (finite_number (dget d ''throughput_per_second'')) (\<lambda>t.
                      bnd (finite_number (dget point ''max_rps'')) (\<lambda>m.
                        if feq t m then Inr () else differs)))
              | _ \<Rightarrow> Inl AttributeError)
      | VList _ \<Rightarrow> Inl (ValueError ''BOER capacity point lacks raw evidence binding'')
      | VStr _ \<Rightarrow> Inl (ValueError ''BOER capacity point lacks raw evidence binding'')
      | _ \<Rightarrow> Inl TypeError)"

definition check_deadline_lock ::
  "(pyval \<Rightarrow> (string \<times> pyval) res) \<Rightarrow> pydict \<Rightarrow> unit res" where
  "check_deadline_lock files contract =
     (if dget contract ''deadline_lock_path'' = VNone then Inr ()
      else bnd (files (dget contract ''deadline_lock_path'')) (\<lambda>(digest, lock).
        if \<not> py_eq (VStr digest) (dget contract ''deadline_lock_sha256'')
        then Inl (ValueError ''BOER deadline lock hash differs'')
        else bnd (vget lock ''kind'') (\<lambda>kind.
          if \<not> py_eq kind (VStr ''p9-dependent-pipeline-deadline-lock'')
          then Inl (ValueError ''BOER contract differs from deadline lock'')
          else bnd (bnd (vget lock ''deadline_us'') finite_number) (\<lambda>locked.
            bnd (finite_number (dget contract ''deadline_us'')) (\<lambda>deadline.
              if feq locked deadline then Inr ()
              else Inl (ValueError ''BOER contract differs from deadline lock''))))))"

definition load_spec :: "(pyval \<Rightarrow> (string \<times> pyval) res) \<Rightarrow> pyval \<Rightarrow> pydict res" where
  "load_spec files v =
     (case v of
        VDict spec \<Rightarrow>
          if \<not> py_eq (dget spec ''schema_version'') (VInt 1)
          then Inl (ValueError ''BOER spec must use schema_version 1'')
          else if \<not> py_eq (dget spec ''system'') (VStr ''BOER'') \<or>
            \<not> py_eq (dget spec ''upstream_commit'') (VStr UPSTREAM_COMMIT)
          then Inl (ValueError ''BOER spec does not bind the pinned artifact'')
          else (case dget spec ''contract'' of
            VDict contract \<Rightarrow>
              if \<not> py_eq (dget contract ''pressure_layout'') (VStr ''1g+2g'')
              then Inl (ValueError ''BOER Thor port requires fixed 1g+2g pressure layout'')
              else (case dget spec ''evaluator_command'' of
                VList command \<Rightarrow>
                  if command = [] \<or> \<not> (\<forall>item \<in> set command. is_str item \<and> truthy item)
                  then Inl (ValueError ''BOER evaluator_command must be a nonempty string list'')
                  else bnd (check_deadline_lock files contract) (\<lambda>_.
                    bnd (iterate (dget_default spec ''static_capacity_profile'' (VList []))) (\<lambda>points.
                    bnd (map_res (check_capacity_point files contract) points) (\<lambda>_. Inr spec)))
              | _ \<Rightarrow> Inl (ValueError ''BOER evaluator_command must be a nonempty string list''))
          | _ \<Rightarrow> Inl (ValueError ''BOER Thor port requires fixed 1g+2g pressure layout''))
      | _ \<Rightarrow> Inl (ValueError ''BOER spec must use schema_version 1''))"

fun read_candidates :: "pyval list \<Rightarrow> string list \<Rightarrow> candidate list res" where
  "read_candidates [] seen = Inr []"
| "read_candidates (raw # raws) seen =
     (case raw of
        VDict d \<Rightarrow>
          (case dget d ''id'' of
             VStr i \<Rightarrow>
               if i = [] \<or> i \<in> set seen then Inl (ValueError ''BOER candidate id is empty or duplicated'')
               else (case genuine_int (dget d ''sm_percent'') of
                 None \<Rightarrow> Inl (ValueError ''BOER SM percentage must be an integer in [10, 90]'')
               | Some sm \<Rightarrow>
                   if sm < 10 \<or> 90 < sm
                   then Inl (ValueError ''BOER SM percentage must be an integer in [10, 90]'')
                   else (case genuine_int (dget d ''offered_rps'') of
                     None \<Rightarrow> Inl (ValueError ''BOER offered RPS must be positive'')
                   | Some rps \<Rightarrow>
                       if rps \<le> 0 then Inl (ValueError ''BOER offered RPS must be positive'')
                       else bnd (read_candidates raws (i # seen)) (\<lambda>cs.
                         Inr (\<lparr>candidate_id = i, sm_percent = sm, offered_rps = rps\<rparr> # cs))))
           | _ \<Rightarrow> Inl (ValueError ''BOER candidate id is empty or duplicated''))
      | _ \<Rightarrow> Inl (ValueError ''BOER candidate must be an object''))"

definition candidates_from_spec :: "pydict \<Rightarrow> candidate list res" where
  "candidates_from_spec spec =
     bnd (iterate (dget_default spec ''candidates'' (VList []))) (\<lambda>raws.
     bnd (read_candidates raws []) (\<lambda>cs.
       if length cs < INITIAL_RANDOM_POINTS
       then Inl (ValueError ''BOER search needs at least six candidate points'') else Inr cs))"

section \<open>Pruning\<close>

text \<open>\<open>np.polyfit(x, y, 1)\<close> is the argument \<open>fit\<close>.\<close>

type_synonym capacity_line = "pyfloat \<times> pyfloat"

definition static_capacity_line ::
  "(pyfloat list \<Rightarrow> pyfloat list \<Rightarrow> capacity_line res) \<Rightarrow> pyval \<Rightarrow> capacity_line res" where
  "static_capacity_line fit v =
     bnd (iterate v) (\<lambda>points.
       if length points < 2 then Inl (ValueError ''BOER static pruning needs at least two capacity points'')
       else bnd (map_res (\<lambda>p. bnd (vget p ''sm_percent'') finite_number) points) (\<lambda>x.
         bnd (map_res (\<lambda>p. bnd (vget p ''max_rps'') finite_number) points) (\<lambda>y.
           if length (uniq x) < 2
           then Inl (ValueError ''BOER capacity points need distinct SM percentages'')
           else fit x y)))"

definition capacity_of :: "candidate \<Rightarrow> capacity_line \<Rightarrow> pyfloat res" where
  "capacity_of c line =
     bnd (float_of_int (sm_percent c)) (\<lambda>sm. Inr (fadd (fmul sm (fst line)) (snd line)))"

text \<open>An \<open>int\<close> compares with a \<open>float\<close> by its exact value.\<close>

definition statically_feasible :: "candidate \<Rightarrow> capacity_line \<Rightarrow> bool res" where
  "statically_feasible c line =
     bnd (capacity_of c line) (\<lambda>capacity. Inr (flt (Fin (of_int (offered_rps c))) capacity))"

definition dynamically_feasible :: "candidate \<Rightarrow> candidate list \<Rightarrow> bool" where
  "dynamically_feasible c failures \<longleftrightarrow>
     \<not> (\<exists>f \<in> set failures. sm_percent c \<le> sm_percent f \<and> offered_rps f \<le> offered_rps c)"

section \<open>Measurements\<close>

record boer_metrics =
  metric_feasible :: pyfloat
  slo_limit_ms :: pyfloat
  worst_p99_ms :: pyfloat
  served_rps_0 :: pyfloat
  served_rps_1 :: pyfloat
  deadline_miss_rate :: "pyfloat option"
  dmr_target :: "pyfloat option"
  evidence :: "string \<times> (string \<times> string) list"

definition boer_objective :: "boer_metrics \<Rightarrow> pyfloat \<times> pyfloat \<Rightarrow> pyfloat res" where
  "boer_objective m demands =
     (if feq (metric_feasible m) (Fin 0)
      then bnd (fdiv (slo_limit_ms m) (worst_p99_ms m)) (\<lambda>q. Inr (fmul (Fin (1 / 2)) (fmin (Fin 1) q)))
      else bnd (fdiv (fmin (served_rps_0 m) (fst demands)) (fst demands)) (\<lambda>served0.
        bnd (fdiv (fmin (served_rps_1 m) (snd demands)) (snd demands)) (\<lambda>served1.
          Inr (fadd (Fin (1 / 2)) (fmul (Fin (1 / 4)) (fadd served0 served1))))))"

text \<open>
  \<open>bind_evaluator_evidence\<close>: \<open>listing\<close> yields the names and digests of the files of a directory,
  sorted by name, or nothing when there is no such directory.
\<close>

definition bind_evaluator_evidence ::
  "(string \<Rightarrow> (string \<times> string) list option) \<Rightarrow> pydict \<Rightarrow> (string \<times> (string \<times> string) list) res" where
  "bind_evaluator_evidence listing raw =
     (case dget raw ''result_dir'' of
        VStr directory \<Rightarrow>
          if directory = [] then Inl (ValueError ''BOER hardware evaluator omitted result_dir'')
          else (case listing directory of
            None \<Rightarrow> Inl (ValueError ''BOER hardware evidence directory is missing'')
          | Some files \<Rightarrow>
              if \<not> {''pipeline.csv'', ''pipeline.json'', ''background.json''} \<subseteq> fst ` set files
              then Inl (ValueError ''BOER hardware evidence is incomplete'')
              else Inr (directory, files))
      | _ \<Rightarrow> Inl (ValueError ''BOER hardware evaluator omitted result_dir''))"

definition optional_number :: "pydict \<Rightarrow> string \<Rightarrow> pyfloat option res" where
  "optional_number raw k =
     (case map_of raw k of None \<Rightarrow> Inr None | Some v \<Rightarrow> bnd (finite_number v) (\<lambda>x. Inr (Some x)))"

definition some_not_positive :: "pyfloat list \<Rightarrow> bool" where
  "some_not_positive ms \<longleftrightarrow> (\<exists>m \<in> set ms. fle m (Fin 0))"

text \<open>\<open>evaluate_subprocess\<close> from the parsed output of the command.\<close>

definition evaluate_subprocess ::
  "(string \<Rightarrow> (string \<times> string) list option) \<Rightarrow> pyval \<Rightarrow> boer_metrics res" where
  "evaluate_subprocess listing output =
     (case output of
        VDict raw \<Rightarrow>
          bnd (map_res (\<lambda>k. finite_number (dget raw k))
            [''feasible'', ''slo_limit_ms'', ''worst_p99_ms'', ''served_rps_0'', ''served_rps_1'']) (\<lambda>ms.
          bnd (optional_number raw ''deadline_miss_rate'') (\<lambda>dmr.
          bnd (optional_number raw ''dmr_target'') (\<lambda>target.
            if \<not> (feq (ms ! 0) (Fin 0) \<or> feq (ms ! 0) (Fin 1))
            then Inl (ValueError ''BOER feasible must be 0 or 1'')
            else if some_not_positive (tl ms)
            then Inl (ValueError ''BOER evaluator metrics must be positive'')
            else bnd (bind_evaluator_evidence listing raw) (\<lambda>e.
              Inr \<lparr>metric_feasible = ms ! 0, slo_limit_ms = ms ! 1, worst_p99_ms = ms ! 2,
                served_rps_0 = ms ! 3, served_rps_1 = ms ! 4, deadline_miss_rate = dmr,
                dmr_target = target, evidence = e\<rparr>))))
      | _ \<Rightarrow> Inl (ValueError ''BOER evaluator output must be a JSON object''))"

section \<open>The choice of the next candidate\<close>

record observation =
  observed :: candidate
  objective :: pyfloat
  obs_feasible :: bool
  metrics :: "boer_metrics option"
  obs_source :: string

text \<open>A candidate in the unit square; a side of the domain without extent divides by one.\<close>

definition unit_position :: "int \<Rightarrow> int list \<Rightarrow> pyfloat res" where
  "unit_position v vs =
     (let low = Min (set vs); extent = Max (set vs) - low
      in int_truediv (v - low) (if extent = 0 then 1 else extent))"

definition encode :: "candidate list \<Rightarrow> candidate \<Rightarrow> (pyfloat \<times> pyfloat) res" where
  "encode domain c =
     bnd (unit_position (sm_percent c) (map sm_percent domain)) (\<lambda>x.
     bnd (unit_position (offered_rps c) (map offered_rps domain)) (\<lambda>y. Inr (x, y)))"

text \<open>\<open>np.argmax\<close>: the first NaN if there is one, else the first greatest value.\<close>

definition np_argmax :: "pyfloat list \<Rightarrow> nat res" where
  "np_argmax xs =
     (case best_by (\<lambda>a b. snd b \<noteq> NaN \<and> (snd a = NaN \<or> flt (snd b) (snd a))) (enumerate 0 xs) of
        None \<Rightarrow> Inl (ValueError ''attempt to get argmax of an empty sequence'')
      | Some (i, _) \<Rightarrow> Inr i)"

text \<open>
  The argument \<open>expected\<close> is the expected improvement of every point of its third argument, from the
  points observed and their objectives: the Matern kernel, the inverse and the normal distribution.
\<close>

type_synonym unit_points = "(pyfloat \<times> pyfloat) list"
type_synonym improvement = "unit_points \<Rightarrow> pyfloat list \<Rightarrow> unit_points \<Rightarrow> pyfloat list res"

definition select_expected_improvement ::
  "improvement \<Rightarrow> candidate list \<Rightarrow> observation list \<Rightarrow> candidate list \<Rightarrow> candidate res" where
  "select_expected_improvement expected remaining observations domain =
     bnd (map_res (\<lambda>o'. encode domain (observed o')) observations) (\<lambda>train_x.
     bnd (map_res (encode domain) remaining) (\<lambda>test_x.
     bnd (expected train_x (map objective observations) test_x) (\<lambda>scores.
     bnd (np_argmax scores) (\<lambda>i. py_index remaining (int i)))))"

section \<open>The search\<close>

record search_state =
  remaining :: "candidate list"
  initial :: "candidate list"
  observations :: "observation list"
  dynamic_failures :: "candidate list"
  best :: pyfloat
  no_improvement :: nat

text \<open>What the loop takes from its surroundings.\<close>

record surroundings =
  expected_improvement :: improvement
  evaluator :: "candidate \<Rightarrow> boer_metrics res"

definition observe ::
  "surroundings \<Rightarrow> pyfloat \<times> pyfloat \<Rightarrow> capacity_line \<Rightarrow> candidate list \<Rightarrow> candidate \<Rightarrow> observation res" where
  "observe env demands line failures c =
     bnd (statically_feasible c line) (\<lambda>ok.
       if \<not> ok then
         bnd (capacity_of c line) (\<lambda>capacity.
         bnd (float_of_int (offered_rps c)) (\<lambda>offered.
         bnd (fdiv capacity offered) (\<lambda>share.
         bnd (fdiv share (Fin 2)) (\<lambda>half.
           Inr \<lparr>observed = c, objective = fmax (Fin 0) (fmin (Fin (1 / 2)) half), obs_feasible = False,
             metrics = None, obs_source = ''static-prune''\<rparr>))))
       else if \<not> dynamically_feasible c failures then
         Inr \<lparr>observed = c, objective = Fin 0, obs_feasible = False, metrics = None,
           obs_source = ''dynamic-prune''\<rparr>
       else bnd (evaluator env c) (\<lambda>m.
         bnd (boer_objective m demands) (\<lambda>v.
           Inr \<lparr>observed = c, objective = v, obs_feasible = feq (metric_feasible m) (Fin 1),
             metrics = Some m, obs_source = ''hardware''\<rparr>)))"

definition next_candidate :: "surroundings \<Rightarrow> candidate list \<Rightarrow> search_state \<Rightarrow> candidate res" where
  "next_candidate env domain st =
     (case initial st of
        c # _ \<Rightarrow> Inr c
      | [] \<Rightarrow> select_expected_improvement (expected_improvement env) (remaining st) (observations st) domain)"

definition search_step ::
  "surroundings \<Rightarrow> pyfloat \<times> pyfloat \<Rightarrow> capacity_line \<Rightarrow> candidate list \<Rightarrow> search_state \<Rightarrow> search_state res" where
  "search_step env demands line domain st =
     bnd (next_candidate env domain st) (\<lambda>c.
       if c \<notin> set (remaining st) then Inl (ValueError ''list.remove(x): x not in list'')
       else bnd (observe env demands line (dynamic_failures st) c) (\<lambda>o'.
         let improved = flt (best st) (objective o') in
         Inr \<lparr>remaining = remove1 c (remaining st), initial = tl (initial st),
           observations = observations st @ [o'],
           dynamic_failures = (if obs_source o' = ''hardware'' \<and> \<not> obs_feasible o'
             then dynamic_failures st @ [c] else dynamic_failures st),
           best = (if improved then objective o' else best st),
           no_improvement = (if improved then 0 else no_improvement st + 1)\<rparr>))"

definition stale :: "search_state \<Rightarrow> bool" where
  "stale st \<longleftrightarrow> INITIAL_RANDOM_POINTS \<le> length (observations st) \<and> NO_IMPROVEMENT_LIMIT \<le> no_improvement st"

text \<open>The loop makes at most \<open>MAX_OBSERVATIONS - len(observations)\<close> more observations, its first argument.\<close>

fun search_loop ::
  "nat \<Rightarrow> surroundings \<Rightarrow> pyfloat \<times> pyfloat \<Rightarrow> capacity_line \<Rightarrow> candidate list \<Rightarrow> search_state \<Rightarrow> search_state res" where
  "search_loop 0 env demands line domain st = Inr st"
| "search_loop (Suc n) env demands line domain st =
     (if remaining st = [] then Inr st
      else bnd (search_step env demands line domain st) (\<lambda>st'.
        if stale st' then Inr st' else search_loop n env demands line domain st'))"

definition start_state :: "candidate list \<Rightarrow> candidate list \<Rightarrow> search_state" where
  "start_state domain first =
     \<lparr>remaining = domain, initial = first, observations = [], dynamic_failures = [], best = NInf,
      no_improvement = 0\<rparr>"

text \<open>The initial points, in the order of the domain; \<open>draw\<close> is numpy's choice without replacement.\<close>

definition initial_points :: "(int \<Rightarrow> nat \<Rightarrow> nat list res) \<Rightarrow> pydict \<Rightarrow> candidate list \<Rightarrow> candidate list res" where
  "initial_points draw spec domain =
     bnd (to_pyint (dget_default spec ''seed'' (VInt 4))) (\<lambda>seed.
     bnd (draw seed (length domain)) (\<lambda>sampled.
     bnd (map_res (\<lambda>i. py_index domain (int i)) sampled) (\<lambda>cs.
       Inr (filter (\<lambda>c. candidate_id c \<in> candidate_id ` set cs) domain))))"

definition tenant_demands :: "pydict \<Rightarrow> (pyfloat \<times> pyfloat) res" where
  "tenant_demands spec =
     (case dget spec ''tenant_demands_rps'' of
        VList [a, b] \<Rightarrow>
          bnd (finite_number a) (\<lambda>d0. bnd (finite_number b) (\<lambda>d1.
            if fle (fmin d0 d1) (Fin 0) then Inl (ValueError ''BOER tenant demands must be positive'')
            else Inr (d0, d1)))
      | _ \<Rightarrow> Inl (ValueError ''BOER requires exactly two tenant demands''))"

definition measured :: "observation list \<Rightarrow> observation list" where
  "measured os = filter (\<lambda>o'. obs_source o' = ''hardware'' \<and> obs_feasible o') os"

record search_result =
  search_contract :: pyval
  selected :: "observation option"
  search_line :: capacity_line
  search_observations :: "observation list"

definition run_search ::
  "(pyfloat list \<Rightarrow> pyfloat list \<Rightarrow> capacity_line res) \<Rightarrow> (int \<Rightarrow> nat \<Rightarrow> nat list res) \<Rightarrow> surroundings \<Rightarrow>
     pydict \<Rightarrow> search_result res" where
  "run_search fit draw env spec =
     bnd (candidates_from_spec spec) (\<lambda>domain.
     bnd (static_capacity_line fit (dget_default spec ''static_capacity_profile'' (VList []))) (\<lambda>line.
     bnd (tenant_demands spec) (\<lambda>demands.
     bnd (initial_points draw spec domain) (\<lambda>first.
     bnd (search_loop MAX_OBSERVATIONS env demands line domain (start_state domain first)) (\<lambda>st.
       if measured (observations st) = [] \<and> \<not> truthy (dget_default spec ''allow_no_feasible'' (VBool False))
       then Inl (RuntimeError ''BOER did not measure a feasible Thor configuration'')
       else bnd (dindex spec ''contract'') (\<lambda>contract.
         Inr \<lparr>search_contract = contract,
           selected = best_by (\<lambda>a b. flt (objective b) (objective a)) (measured (observations st)),
           search_line = line, search_observations = observations st\<rparr>))))))"

section \<open>Facts on the search\<close>

text \<open>An infeasible measurement, and the one reason for which a candidate is observed as it is.\<close>

definition failed :: "observation \<Rightarrow> bool" where
  "failed o' \<longleftrightarrow> obs_source o' = ''hardware'' \<and> \<not> obs_feasible o'"

definition dominated :: "candidate \<Rightarrow> observation list \<Rightarrow> bool" where
  "dominated c prior \<longleftrightarrow>
     (\<exists>f \<in> set prior. failed f \<and> sm_percent c \<le> sm_percent (observed f) \<and> offered_rps (observed f) \<le> offered_rps c)"

definition justified :: "capacity_line \<Rightarrow> observation list \<Rightarrow> observation \<Rightarrow> bool" where
  "justified line prior o' \<longleftrightarrow>
     (obs_source o' = ''static-prune'' \<and> statically_feasible (observed o') line = Inr False \<and> \<not> obs_feasible o') \<or>
     (obs_source o' = ''dynamic-prune'' \<and> statically_feasible (observed o') line = Inr True \<and>
        dominated (observed o') prior \<and> \<not> obs_feasible o') \<or>
     (obs_source o' = ''hardware'' \<and> statically_feasible (observed o') line = Inr True \<and>
        \<not> dominated (observed o') prior)"

lemma observe_cases:
  assumes "observe env demands line failures c = Inr o'" and "failures = map observed (filter failed prior)"
  shows "observed o' = c \<and> justified line prior o'"
proof -
  have "dynamically_feasible c failures \<longleftrightarrow> \<not> dominated c prior"
    unfolding assms(2) by (auto simp: dynamically_feasible_def dominated_def)
  with assms(1) show ?thesis
    by (auto simp: observe_def bnd_eq_Inr justified_def split: if_splits)
qed

definition search_inv :: "capacity_line \<Rightarrow> candidate list \<Rightarrow> search_state \<Rightarrow> bool" where
  "search_inv line domain st \<longleftrightarrow>
     distinct (map observed (observations st) @ remaining st) \<and>
     set (map observed (observations st) @ remaining st) = set domain \<and>
     dynamic_failures st = map observed (filter failed (observations st)) \<and>
     (\<forall>i < length (observations st). justified line (take i (observations st)) (observations st ! i))"

lemma search_step_parts:
  assumes "search_step env demands line domain st = Inr st'"
  shows "\<exists>o'. observe env demands line (dynamic_failures st) (observed o') = Inr o' \<and> observed o' \<in> set (remaining st) \<and>
      remaining st' = remove1 (observed o') (remaining st) \<and> observations st' = observations st @ [o'] \<and>
      dynamic_failures st' = (if failed o' then dynamic_failures st @ [observed o'] else dynamic_failures st) \<and>
      best st' = (if flt (best st) (objective o') then objective o' else best st) \<and>
      no_improvement st' = (if flt (best st) (objective o') then 0 else no_improvement st + 1)"
proof -
  from assms obtain c o' where o': "observe env demands line (dynamic_failures st) c = Inr o'"
    "c \<in> set (remaining st)" and st': "st' = \<lparr>remaining = remove1 c (remaining st), initial = tl (initial st),
           observations = observations st @ [o'],
           dynamic_failures = (if obs_source o' = ''hardware'' \<and> \<not> obs_feasible o'
             then dynamic_failures st @ [c] else dynamic_failures st),
           best = (if flt (best st) (objective o') then objective o' else best st),
           no_improvement = (if flt (best st) (objective o') then 0 else no_improvement st + 1)\<rparr>"
    by (auto simp: search_step_def bnd_eq_Inr Let_def simp del: One_nat_def split: if_split_asm)
  have "observed o' = c" using o'(1) by (auto simp: observe_def bnd_eq_Inr split: if_splits)
  with o' st' show ?thesis by (intro exI [of _ o']) (auto simp: failed_def)
qed

lemma search_inv_step:
  assumes "search_inv line domain st" and "search_step env demands line domain st = Inr st'"
  shows "search_inv line domain st'"
proof -
  obtain o' where o': "observe env demands line (dynamic_failures st) (observed o') = Inr o'" "observed o' \<in> set (remaining st)"
    and st': "remaining st' = remove1 (observed o') (remaining st)" "observations st' = observations st @ [o']"
      "dynamic_failures st' = (if failed o' then dynamic_failures st @ [observed o'] else dynamic_failures st)"
    using search_step_parts [OF assms(2)] by blast
  have inv: "distinct (map observed (observations st) @ remaining st)"
    "set (map observed (observations st) @ remaining st) = set domain"
    "dynamic_failures st = map observed (filter failed (observations st))"
    "\<forall>i < length (observations st). justified line (take i (observations st)) (observations st ! i)"
    using assms(1) by (auto simp: search_inv_def)
  have "justified line (observations st) o'" using observe_cases [OF o'(1) inv(3)] by simp
  then have "\<forall>i < length (observations st'). justified line (take i (observations st')) (observations st' ! i)"
    using inv(4) by (auto simp: st'(2) nth_append less_Suc_eq)
  moreover have "dynamic_failures st' = map observed (filter failed (observations st'))"
    using inv(3) by (simp add: st'(2,3))
  moreover have "distinct (map observed (observations st') @ remaining st')"
    "set (map observed (observations st') @ remaining st') = set domain"
    using inv(1,2) o'(2) by (auto simp: st'(1,2))
  ultimately show ?thesis by (simp add: search_inv_def)
qed

text \<open>Induction over the loop: what a step preserves holds at its end.\<close>

lemma search_loop_invariant:
  assumes "search_loop n env demands line domain st = Inr st'" and "P st"
    and "\<And>s s'. P s \<Longrightarrow> search_step env demands line domain s = Inr s' \<Longrightarrow> P s'"
  shows "P st'"
  using assms(1,2)
proof (induction n arbitrary: st)
  case (Suc n)
  then show ?case using assms(3) by (auto simp: bnd_eq_Inr split: if_splits)
qed simp

lemma search_loop_length:
  "search_loop n env demands line domain st = Inr st' \<Longrightarrow>
     length (observations st') \<le> n + length (observations st) \<and>
     (length (observations st') < n + length (observations st) \<longrightarrow> remaining st' = [] \<or> stale st')"
proof (induction n arbitrary: st)
  case (Suc n)
  show ?case
  proof (cases "remaining st = []")
    case False
    then obtain s where s: "search_step env demands line domain st = Inr s"
      and rest: "(if stale s then Inr s else search_loop n env demands line domain s) = Inr st'"
      using Suc.prems by (auto simp: bnd_eq_Inr)
    have "length (observations s) = Suc (length (observations st))" using search_step_parts [OF s] by auto
    then show ?thesis using rest Suc.IH [of s] by (auto split: if_splits)
  qed (use Suc.prems in auto)
qed simp

lemma read_candidates_distinct:
  "read_candidates raws seen = Inr cs \<Longrightarrow>
     distinct (map candidate_id cs) \<and> set (map candidate_id cs) \<inter> set seen = {} \<and>
     (\<forall>c \<in> set cs. 10 \<le> sm_percent c \<and> sm_percent c \<le> 90 \<and> 0 < offered_rps c)"
proof (induction raws seen arbitrary: cs rule: read_candidates.induct)
  case (2 raw raws seen)
  from "2.prems" show ?case
    by (auto simp: bnd_eq_Inr split: pyval.splits if_splits option.splits dest!: "2.IH") blast
qed simp

lemma candidates_distinct:
  "candidates_from_spec spec = Inr domain \<Longrightarrow> distinct domain"
  using read_candidates_distinct by (fastforce simp: candidates_from_spec_def bnd_eq_Inr distinct_map split: if_splits)

lemma run_search_parts:
  assumes "run_search fit draw env spec = Inr r"
  shows "\<exists>domain line demands first st. candidates_from_spec spec = Inr domain \<and> tenant_demands spec = Inr demands \<and>
      search_loop MAX_OBSERVATIONS env demands line domain (start_state domain first) = Inr st \<and>
      search_line r = line \<and> search_observations r = observations st \<and>
      selected r = best_by (\<lambda>a b. flt (objective b) (objective a)) (measured (observations st))"
  using assms by (auto simp: run_search_def bnd_eq_Inr split: if_split_asm) blast+

lemma search_inv_run:
  assumes "candidates_from_spec spec = Inr domain"
    and "search_loop n env demands line domain (start_state domain first) = Inr st"
  shows "search_inv line domain st"
proof (rule search_loop_invariant [OF assms(2)])
  show "search_inv line domain (start_state domain first)"
    using candidates_distinct [OF assms(1)] by (simp add: search_inv_def start_state_def)
qed (rule search_inv_step)

text \<open>Objectives: at least one half for a feasible measurement, at most one half for the rest.\<close>

definition sound_objective :: "observation \<Rightarrow> bool" where
  "sound_objective o' \<longleftrightarrow> (\<exists>v. objective o' = Fin v \<and> (if obs_feasible o' then 1 / 2 \<le> v else v \<le> 1 / 2))"

lemma fl_small: "fl 0 = Fin 0" "fl 1 = Fin 1" "fl 2 = Fin 2" "fl (1 / 2) = Fin (1 / 2)"
  by code_simp+

definition positive :: "pyfloat \<Rightarrow> bool" where
  "positive x \<longleftrightarrow> (\<exists>a. x = Fin a \<and> 0 < a)"

definition sound_metrics :: "boer_metrics \<Rightarrow> bool" where
  "sound_metrics m \<longleftrightarrow> (metric_feasible m = Fin 0 \<or> metric_feasible m = Fin 1) \<and>
     positive (slo_limit_ms m) \<and> positive (worst_p99_ms m) \<and> positive (served_rps_0 m) \<and> positive (served_rps_1 m)"

lemma finite_number_finite: "finite_number v = Inr x \<Longrightarrow> isfinite x"
  by (auto simp: finite_number_def bnd_eq_Inr split: if_splits)

lemma evaluate_subprocess_sound:
  assumes "evaluate_subprocess listing output = Inr m"
  shows "sound_metrics m"
proof -
  obtain raw where "output = VDict raw" using assms by (cases "output") (auto simp: evaluate_subprocess_def)
  note run = assms [unfolded this evaluate_subprocess_def pyval.case]
  obtain ms where ms: "map_res (\<lambda>k. finite_number (dget raw k))
      [''feasible'', ''slo_limit_ms'', ''worst_p99_ms'', ''served_rps_0'', ''served_rps_1''] = Inr ms"
    and rest: "bnd (optional_number raw ''deadline_miss_rate'') (\<lambda>dmr.
          bnd (optional_number raw ''dmr_target'') (\<lambda>target.
            if \<not> (feq (ms ! 0) (Fin 0) \<or> feq (ms ! 0) (Fin 1))
            then Inl (ValueError ''BOER feasible must be 0 or 1'')
            else if some_not_positive (tl ms)
            then Inl (ValueError ''BOER evaluator metrics must be positive'')
            else bnd (bind_evaluator_evidence listing raw) (\<lambda>e.
              Inr \<lparr>metric_feasible = ms ! 0, slo_limit_ms = ms ! 1, worst_p99_ms = ms ! 2,
                served_rps_0 = ms ! 3, served_rps_1 = ms ! 4, deadline_miss_rate = dmr,
                dmr_target = target, evidence = e\<rparr>))) = Inr m"
    using run unfolding bnd_eq_Inr [of "map_res _ _"] by blast
  from rest have m: "metric_feasible m = ms ! 0" "slo_limit_ms m = ms ! 1" "worst_p99_ms m = ms ! 2"
      "served_rps_0 m = ms ! 3" "served_rps_1 m = ms ! 4"
    and zero_one: "feq (ms ! 0) (Fin 0) \<or> feq (ms ! 0) (Fin 1)" and ok: "\<not> some_not_positive (tl ms)"
    by (auto simp: bnd_eq_Inr split: if_split_asm)
  have len: "length ms = 5" using ms by (auto simp: bnd_eq_Inr)
  have fin: "isfinite x" if "x \<in> set ms" for x
    using map_res_mem [OF ms that] finite_number_finite by blast
  have pos: "positive (ms ! i)" if i: "1 \<le> i" "i < 5" for i
  proof -
    have mem: "ms ! i \<in> set (tl ms)" using i len by (auto simp: in_set_conv_nth nth_tl intro: exI [of _ "i - 1"])
    obtain a where "ms ! i = Fin a" using fin [of "ms ! i"] i len by (auto simp: isfinite_Fin)
    with mem ok [unfolded some_not_positive_def] show ?thesis by (auto simp: positive_def not_le)
  qed
  show ?thesis using zero_one pos [of 1] pos [of 2] pos [of 3] pos [of 4] by (auto simp: sound_metrics_def m feq_def)
qed

lemma served_share:
  assumes "positive x" and "positive d"
  shows "\<exists>s. fdiv (fmin x d) d = Inr (Fin s) \<and> 0 \<le> s \<and> s \<le> 1"
proof -
  obtain a b where ab: "x = Fin a" "d = Fin b" "0 < a" "0 < b" using assms by (auto simp: positive_def)
  have "0 \<le> min a b / b" "min a b / b \<le> 1" using ab by (auto simp: divide_simps)
  from fl_between [OF fl_small(1,2) this] show ?thesis
    using ab by (auto simp: fmin_def min_def split: if_splits)
qed

lemma boer_objective_sound:
  assumes "sound_metrics m" and "positive (fst demands)" and "positive (snd demands)"
  shows "\<exists>v. boer_objective m demands = Inr (Fin v) \<and> (if metric_feasible m = Fin 1 then 1 / 2 \<le> v else v \<le> 1 / 2)"
proof (cases "metric_feasible m = Fin 1")
  case True
  obtain s t where s: "fdiv (fmin (served_rps_0 m) (fst demands)) (fst demands) = Inr (Fin s)" "0 \<le> s" "s \<le> 1"
    and t: "fdiv (fmin (served_rps_1 m) (snd demands)) (snd demands) = Inr (Fin t)" "0 \<le> t" "t \<le> 1"
    using served_share assms by (metis sound_metrics_def)
  have "0 \<le> s + t" "s + t \<le> 2" using s t by auto
  from fl_between [OF fl_small(1,3) this] obtain u where u: "fl (s + t) = Fin u" "0 \<le> u" "u \<le> 2" by blast
  then have "0 \<le> 1 / 4 * u" "1 / 4 * u \<le> 1 / 2" by auto
  from fl_between [OF fl_small(1,4) this] obtain w where w: "fl (1 / 4 * u) = Fin w" "0 \<le> w" "w \<le> 1 / 2" by blast
  then have "1 / 2 \<le> 1 / 2 + w" "1 / 2 + w \<le> 1" by auto
  from fl_between [OF fl_small(4,2) this] obtain v where "fl (1 / 2 + w) = Fin v" "1 / 2 \<le> v" by blast
  then show ?thesis using True s(1) t(1) u(1) w(1) by (simp add: boer_objective_def)
next
  case False
  obtain a b where ab: "slo_limit_ms m = Fin a" "worst_p99_ms m = Fin b" "0 < a" "0 < b" "metric_feasible m = Fin 0"
    using assms(1) False by (auto simp: sound_metrics_def positive_def)
  have "0 \<le> a / b" using ab by simp
  have "\<exists>c. fmin (Fin 1) x = Fin c \<and> 0 \<le> c \<and> c \<le> 1" if "fle (Fin 0) x" for x
    using that by (cases x; cases "flt x (Fin 1)") (auto simp: fmin_def fle_def feq_def)
  from this [OF fl_nonneg [OF \<open>0 \<le> a / b\<close>]]
  obtain c where c: "fmin (Fin 1) (fl (a / b)) = Fin c" "0 \<le> c" "c \<le> 1" by blast
  then have "0 \<le> 1 / 2 * c" "1 / 2 * c \<le> 1 / 2" by auto
  from fl_between [OF fl_small(1,4) this] show ?thesis using ab c(1) by (auto simp: boer_objective_def)
qed

lemma observe_sound:
  assumes "observe env demands line failures c = Inr o'" and "positive (fst demands)" and "positive (snd demands)"
    and "\<And>m. evaluator env c = Inr m \<Longrightarrow> sound_metrics m"
  shows "sound_objective o'"
proof -
  have half: "\<exists>v. fmax (Fin 0) (fmin (Fin (1 / 2)) x) = Fin v \<and> v \<le> 1 / 2" for x
  proof (cases "flt x (Fin (1 / 2))")
    case True
    then show ?thesis by (cases x) (auto simp: fmax_def fmin_def)
  next
    case False
    then have "fmax (Fin 0) (fmin (Fin (1 / 2)) x) = Fin (1 / 2)" by (simp add: fmin_def fmax_def)
    then show ?thesis by (intro exI [of _ "1 / 2"]) simp
  qed
  from assms(1) consider (pruned) x where "objective o' = fmax (Fin 0) (fmin (Fin (1 / 2)) x)" "\<not> obs_feasible o'"
    | (zero) "objective o' = Fin 0" "\<not> obs_feasible o'"
    | (hardware) m where "evaluator env c = Inr m" "boer_objective m demands = Inr (objective o')"
        "obs_feasible o' = feq (metric_feasible m) (Fin 1)"
    by (auto simp: observe_def bnd_eq_Inr split: if_splits)
  then show ?thesis
  proof cases
    case pruned
    then show ?thesis using half [of x] by (auto simp: sound_objective_def)
  next
    case zero
    then show ?thesis by (simp add: sound_objective_def)
  next
    case hardware
    from boer_objective_sound [OF assms(4) [OF hardware(1)] assms(2,3)] hardware(2,3)
    show ?thesis by (auto simp: sound_objective_def feq_def)
  qed
qed

lemma tenant_demands_positive:
  assumes "tenant_demands spec = Inr demands"
  shows "positive (fst demands) \<and> positive (snd demands)"
proof -
  from assms obtain a b d0 d1 where "finite_number a = Inr d0" "finite_number b = Inr d1" "demands = (d0, d1)"
    "\<not> fle (fmin d0 d1) (Fin 0)"
    by (auto simp: tenant_demands_def bnd_eq_Inr split: pyval.splits list.splits if_splits)
  moreover from this have "isfinite d0" "isfinite d1"
    using finite_number_finite by blast+
  ultimately show ?thesis by (auto simp: isfinite_Fin positive_def fmin_def split: if_splits)
qed

lemma observe_hardware:
  "observe env demands line failures c = Inr o' \<Longrightarrow> obs_feasible o' \<Longrightarrow> obs_source o' = ''hardware''"
  by (auto simp: observe_def bnd_eq_Inr split: if_splits)

lemma feasible_is_measured:
  assumes "search_loop n env demands line domain (start_state domain first) = Inr st" and "o' \<in> set (observations st)"
    and "obs_feasible o'"
  shows "o' \<in> set (measured (observations st))"
proof -
  have "\<forall>o' \<in> set (observations st). obs_feasible o' \<longrightarrow> obs_source o' = ''hardware''"
  proof (rule search_loop_invariant [OF assms(1)])
    fix s s' assume old: "\<forall>o' \<in> set (observations s). obs_feasible o' \<longrightarrow> obs_source o' = ''hardware''"
      and step: "search_step env demands line domain s = Inr s'"
    from search_step_parts [OF step] obtain o' where "observe env demands line (dynamic_failures s) (observed o') = Inr o'"
      "observations s' = observations s @ [o']" by blast
    with old observe_hardware [OF this(1)]
    show "\<forall>o' \<in> set (observations s'). obs_feasible o' \<longrightarrow> obs_source o' = ''hardware''" by auto
  qed (simp add: start_state_def)
  with assms(2,3) show ?thesis by (simp add: measured_def)
qed

lemma search_sound:
  assumes "search_loop n env demands line domain (start_state domain first) = Inr st"
    and "tenant_demands spec = Inr demands"
    and "\<And>c m. evaluator env c = Inr m \<Longrightarrow> sound_metrics m"
  shows "\<forall>o' \<in> set (observations st). sound_objective o'"
proof (rule search_loop_invariant [OF assms(1)])
  show "\<forall>o' \<in> set (observations (start_state domain first)). sound_objective o'" by (simp add: start_state_def)
next
  fix s s' assume sound: "\<forall>o' \<in> set (observations s). sound_objective o'"
    and step: "search_step env demands line domain s = Inr s'"
  from search_step_parts [OF step] obtain o' where "observe env demands line (dynamic_failures s) (observed o') = Inr o'"
    "observations s' = observations s @ [o']" by blast
  with observe_sound [OF this(1)] tenant_demands_positive [OF assms(2)] assms(3) sound
  show "\<forall>o' \<in> set (observations s'). sound_objective o'" by auto
qed

text \<open>The best objective so far stands just before the observations that did not improve on it.\<close>

definition sound_best :: "search_state \<Rightarrow> bool" where
  "sound_best st \<longleftrightarrow> (\<forall>o' \<in> set (observations st). sound_objective o') \<and>
     (if observations st = [] then best st = NInf \<and> no_improvement st = 0
      else \<exists>before o' after. observations st = before @ o' # after \<and> best st = objective o' \<and>
        length after = no_improvement st \<and> (\<forall>a \<in> set after. fle (objective a) (objective o')))"

lemma search_best:
  assumes "search_loop n env demands line domain (start_state domain first) = Inr st"
    and "tenant_demands spec = Inr demands"
    and "\<And>c m. evaluator env c = Inr m \<Longrightarrow> sound_metrics m"
  shows "sound_best st"
proof (rule search_loop_invariant [OF assms(1)])
  show "sound_best (start_state domain first)" by (simp add: sound_best_def start_state_def)
next
  fix s s' assume sound: "sound_best s" and step: "search_step env demands line domain s = Inr s'"
  from search_step_parts [OF step] obtain o' where o': "observe env demands line (dynamic_failures s) (observed o') = Inr o'"
    and s': "observations s' = observations s @ [o']" "best s' = (if flt (best s) (objective o') then objective o' else best s)"
      "no_improvement s' = (if flt (best s) (objective o') then 0 else no_improvement s + 1)" by blast
  have so: "sound_objective o'"
    using observe_sound [OF o'] tenant_demands_positive [OF assms(2)] assms(3) by blast
  then obtain v where v: "objective o' = Fin v" by (auto simp: sound_objective_def)
  show "sound_best s'"
  proof (cases "flt (best s) (objective o')")
    case True
    then show ?thesis using sound so s'
      by (auto simp: sound_best_def intro!: exI [of _ "observations s"] exI [of _ o'])
  next
    case False
    then obtain before q after where q: "observations s = before @ q # after" "best s = objective q"
      "length after = no_improvement s" "\<forall>a \<in> set after. fle (objective a) (objective q)"
      using sound v by (auto simp: sound_best_def split: if_splits)
    have "fle (objective o') (objective q)"
      using False q(1,2) v sound by (auto simp: sound_best_def sound_objective_def)
    then have "\<exists>before o'' after. observations s' = before @ o'' # after \<and> best s' = objective o'' \<and>
        length after = no_improvement s' \<and> (\<forall>a \<in> set after. fle (objective a) (objective o''))"
      using s' False q by (intro exI [of _ before] exI [of _ q] exI [of _ "after @ [o']"]) auto
    then show ?thesis using sound so s'(1) by (auto simp: sound_best_def)
  qed
qed

lemma sound_best_stale:
  assumes "sound_best st" and "k \<le> no_improvement st" and "i < k"
  shows "\<exists>o' \<in> set (take (length (observations st) - k) (observations st)). fle (objective (rev (observations st) ! i)) (objective o')"
proof -
  obtain before o' after where o': "observations st = before @ o' # after"
    "length after = no_improvement st" "\<forall>a \<in> set after. fle (objective a) (objective o')"
    using assms by (auto simp: sound_best_def split: if_splits)
  have "rev (observations st) ! i \<in> set after"
    using assms(2,3) o'(1,2) by (simp add: nth_append rev_nth)
  moreover have "o' \<in> set (take (length (observations st) - k) (observations st))"
    using assms(2) o'(1,2) by (simp add: Suc_diff_le)
  ultimately show ?thesis using o'(3) by blast
qed

section \<open>Properties\<close>

text \<open>
  C21: A search makes at most twenty observations and never observes a candidate twice. A candidate is
  measured on the hardware only if it lies below the capacity line and no earlier infeasible
  measurement dominates it, with at least its share of the SMs and at most its load; it is pruned
  without a measurement only for one of these two reasons, which held at that moment.
\<close>

theorem observations_are_justified:
  assumes "run_search fit draw env spec = Inr r"
  shows "\<exists>domain. candidates_from_spec spec = Inr domain \<and>
    length (search_observations r) \<le> MAX_OBSERVATIONS \<and>
    distinct (map observed (search_observations r)) \<and> observed ` set (search_observations r) \<subseteq> set domain \<and>
    (\<forall>i < length (search_observations r).
       justified (search_line r) (take i (search_observations r)) (search_observations r ! i))"
proof -
  obtain domain line demands first st where domain: "candidates_from_spec spec = Inr domain"
    and loop: "search_loop MAX_OBSERVATIONS env demands line domain (start_state domain first) = Inr st"
    and r: "search_line r = line" "search_observations r = observations st"
    using run_search_parts [OF assms] by blast
  have "search_inv line domain st" by (rule search_inv_run [OF domain loop])
  moreover have "length (observations st) \<le> MAX_OBSERVATIONS"
    using search_loop_length [OF loop] by (simp add: start_state_def)
  ultimately show ?thesis using domain by (auto simp: search_inv_def r)
qed

text \<open>
  C22: When every measurement has passed the evaluator's checks, the selected observation is a feasible
  hardware measurement, and its objective is at least that of every observation of the search,
  pruned or infeasible ones included; one is selected as soon as any is feasible.
\<close>

theorem selected_observation_is_best:
  assumes "run_search fit draw env spec = Inr r"
    and "\<forall>c m. evaluator env c = Inr m \<longrightarrow> (\<exists>output. evaluate_subprocess listing output = Inr m)"
  shows "(selected r = None \<longleftrightarrow> measured (search_observations r) = []) \<and>
    (\<forall>s. selected r = Some s \<longrightarrow> s \<in> set (measured (search_observations r)) \<and>
       (\<forall>o' \<in> set (search_observations r). fle (objective o') (objective s)))"
proof -
  obtain domain line demands first st where demands: "tenant_demands spec = Inr demands"
    and loop: "search_loop MAX_OBSERVATIONS env demands line domain (start_state domain first) = Inr st"
    and r: "search_observations r = observations st"
      "selected r = best_by (\<lambda>a b. flt (objective b) (objective a)) (measured (observations st))"
    using run_search_parts [OF assms(1)] by blast
  have sound: "\<forall>o' \<in> set (observations st). sound_objective o'"
    using search_sound [OF loop demands] assms(2) evaluate_subprocess_sound by metis
  then have "\<forall>o' \<in> set (measured (observations st)). objective o' \<noteq> NaN"
    by (auto simp: measured_def sound_objective_def)
  then have best: "selected r = best_by (key_greater objective) (measured (observations st))"
    unfolding r(2) by (rule best_by_flt)
  have "fle (objective o') (objective s)" if s: "selected r = Some s" and o': "o' \<in> set (observations st)" for s o'
  proof (cases "o' \<in> set (measured (observations st))")
    case True
    with best_by_greatest best s have "objective o' \<le> objective s" by metis
    moreover have "objective o' \<noteq> NaN" "objective s \<noteq> NaN"
      using sound o' best_by_in [OF s [unfolded best]] by (auto simp: sound_objective_def measured_def)
    ultimately show ?thesis by (simp add: fle_less_eq)
  next
    case False
    then have "\<not> obs_feasible o'" using feasible_is_measured [OF loop o'] by blast
    moreover have "obs_feasible s" "s \<in> set (observations st)"
      using best_by_in [OF s [unfolded best]] by (auto simp: measured_def)
    moreover have "sound_objective o'" "sound_objective s" using sound o' calculation(3) by auto
    ultimately show ?thesis by (auto simp: sound_objective_def)
  qed
  moreover have "s \<in> set (measured (observations st))" if "selected r = Some s" for s
    using best_by_in that best by metis
  ultimately show ?thesis using best r(1) by auto
qed

text \<open>
  A search that leaves candidates unobserved and has made fewer than twenty observations has made at least
  six, and each of its last five is no better than one made before them.
\<close>

lemma early_stop_is_stale:
  assumes "run_search fit draw env spec = Inr r"
    and "\<forall>c m. evaluator env c = Inr m \<longrightarrow> (\<exists>output. evaluate_subprocess listing output = Inr m)"
    and "candidates_from_spec spec = Inr domain"
    and "length (search_observations r) < min MAX_OBSERVATIONS (length domain)"
  shows "INITIAL_RANDOM_POINTS \<le> length (search_observations r) \<and>
    (\<forall>i < NO_IMPROVEMENT_LIMIT. \<exists>o' \<in> set (take (length (search_observations r) - NO_IMPROVEMENT_LIMIT) (search_observations r)).
       fle (objective (rev (search_observations r) ! i)) (objective o'))"
proof -
  obtain line demands first st where demands: "tenant_demands spec = Inr demands"
    and loop: "search_loop MAX_OBSERVATIONS env demands line domain (start_state domain first) = Inr st"
    and r: "search_observations r = observations st"
    using run_search_parts [OF assms(1)] assms(3) by auto
  have "search_inv line domain st" by (rule search_inv_run [OF assms(3) loop])
  then have "length (observations st) + length (remaining st) = length domain"
    using candidates_distinct [OF assms(3)] unfolding search_inv_def
    by (metis distinct_card length_append length_map)
  then have "stale st" using search_loop_length [OF loop] assms(4) by (auto simp: r start_state_def)
  moreover have "sound_best st"
    using search_best [OF loop demands] assms(2) evaluate_subprocess_sound by metis
  ultimately show ?thesis unfolding r by (auto simp: stale_def intro: sound_best_stale)
qed

section \<open>Examples\<close>

text \<open>
  Eleven candidates: the first two lie above the line, the third fails and dominates the fourth, the
  fifth is the first feasible one and the next five are no better, so the last is not observed.
\<close>

definition test_candidate :: "string \<Rightarrow> int \<Rightarrow> int \<Rightarrow> pyval" where
  "test_candidate i sm rps = VDict [(''id'', VStr i), (''sm_percent'', VInt sm), (''offered_rps'', VInt rps)]"

definition test_spec :: pydict where
  "test_spec =
     [(''contract'', VDict [(''pressure_layout'', VStr ''1g+2g'')]),
      (''tenant_demands_rps'', VList [VInt 10, VInt 20]),
      (''static_capacity_profile'', VList
        [VDict [(''sm_percent'', VInt 10), (''max_rps'', VInt 200)],
         VDict [(''sm_percent'', VInt 90), (''max_rps'', VInt 1800)]]),
      (''candidates'', VList
        [test_candidate ''a'' 10 1000, test_candidate ''b'' 10 1000, test_candidate ''c'' 10 100,
         test_candidate ''d'' 10 100, test_candidate ''e'' 90 100, test_candidate ''f'' 90 100,
         test_candidate ''g'' 90 100, test_candidate ''h'' 90 100, test_candidate ''i'' 90 100,
         test_candidate ''j'' 90 100, test_candidate ''k'' 90 100])]"

definition test_files :: "(string \<times> string) list" where
  "test_files = [(''background.json'', ''x''), (''pipeline.csv'', ''y''), (''pipeline.json'', ''z'')]"

definition test_output :: "candidate \<Rightarrow> pyval" where
  "test_output c = VDict
     [(''feasible'', VInt (if sm_percent c = 10 then 0 else 1)), (''slo_limit_ms'', VInt 1), (''worst_p99_ms'', VInt 2),
      (''served_rps_0'', VInt 10), (''served_rps_1'', VInt 20), (''result_dir'', VStr ''r'')]"

definition test_surroundings :: surroundings where
  "test_surroundings = \<lparr>expected_improvement = (\<lambda>_ _ points. Inr (map (\<lambda>_. Fin 0) points)),
     evaluator = (\<lambda>c. evaluate_subprocess (\<lambda>_. Some test_files) (test_output c))\<rparr>"

definition test_search :: "search_result res" where
  "test_search = run_search (\<lambda>_ _. Inr (Fin 20, Fin 0)) (\<lambda>_ _. Inr [0, 1, 2, 3, 4, 5]) test_surroundings test_spec"

lemma case_InrD: "(case m of Inl _ \<Rightarrow> False | Inr x \<Rightarrow> P x) \<Longrightarrow> \<exists>x. m = Inr x \<and> P x"
  by (cases m) auto

lemma test_search_runs:
  "\<exists>r. test_search = Inr r \<and> map (\<lambda>o'. candidate_id (observed o')) (search_observations r) =
       [''a'', ''b'', ''c'', ''d'', ''e'', ''f'', ''g'', ''h'', ''i'', ''j''] \<and>
     map_option (candidate_id \<circ> observed) (selected r) = Some ''e''"
proof -
  have run: "case test_search of Inl _ \<Rightarrow> False | Inr r \<Rightarrow>
      map (\<lambda>o'. candidate_id (observed o')) (search_observations r) =
        [''a'', ''b'', ''c'', ''d'', ''e'', ''f'', ''g'', ''h'', ''i'', ''j''] \<and>
      map_option (candidate_id \<circ> observed) (selected r) = Some ''e''" by code_simp
  show ?thesis by (rule case_InrD [OF run])
qed

lemma test_evaluator:
  "\<forall>c m. evaluator test_surroundings c = Inr m \<longrightarrow>
     (\<exists>out. evaluate_subprocess (\<lambda>_. Some test_files) out = Inr m)"
  by (auto simp: test_surroundings_def)

theorem observations_are_justified_witness:
  "\<exists>r. test_search = Inr r \<and> (\<forall>i < length (search_observations r).
     justified (search_line r) (take i (search_observations r)) (search_observations r ! i))"
proof -
  obtain r where r: "test_search = Inr r" using test_search_runs by blast
  from observations_are_justified [OF r [unfolded test_search_def]] r show ?thesis by blast
qed

theorem selected_observation_is_best_witness:
  "\<exists>r s. test_search = Inr r \<and> selected r = Some s \<and> candidate_id (observed s) = ''e'' \<and>
     (\<forall>o' \<in> set (search_observations r). fle (objective o') (objective s))"
proof -
  obtain r s where r: "test_search = Inr r" "selected r = Some s" "candidate_id (observed s) = ''e''"
    using test_search_runs by auto
  from selected_observation_is_best [OF r(1) [unfolded test_search_def] test_evaluator] r show ?thesis by blast
qed

lemma early_stop_is_stale_witness:
  "\<exists>r. test_search = Inr r \<and> length (search_observations r) = 10 \<and>
     (\<forall>i < 5. \<exists>o' \<in> set (take 5 (search_observations r)).
        fle (objective (rev (search_observations r) ! i)) (objective o'))"
proof -
  obtain r where run: "test_search = Inr r \<and> map (\<lambda>o'. candidate_id (observed o')) (search_observations r) =
      [''a'', ''b'', ''c'', ''d'', ''e'', ''f'', ''g'', ''h'', ''i'', ''j''] \<and>
      map_option (candidate_id \<circ> observed) (selected r) = Some ''e''"
    using test_search_runs by (rule exE)
  note r = run [THEN conjunct1]
  have ten: "length (search_observations r) = 10"
    using arg_cong [OF run [THEN conjunct2, THEN conjunct1], of length] by simp
  have "case candidates_from_spec test_spec of Inl _ \<Rightarrow> False | Inr domain \<Rightarrow> length domain = 11" by code_simp
  then obtain domain where domain: "candidates_from_spec test_spec = Inr domain" "length domain = 11"
    by (auto split: sum.splits)
  have "length (search_observations r) < min MAX_OBSERVATIONS (length domain)"
    using ten domain(2) by (simp add: MAX_OBSERVATIONS_def)
  note stop = early_stop_is_stale [OF r [unfolded test_search_def] test_evaluator domain(1) this]
  have five: "length (search_observations r) - 5 = 5" using ten by simp
  from stop [unfolded NO_IMPROVEMENT_LIMIT_def five, THEN conjunct2] r ten show ?thesis by (intro exI conjI)
qed

end
