(* ===== verification/ParvaAllocator.thy ===== *)
theory ParvaAllocator
  imports PyValue "HOL-Library.Multiset"
begin

text \<open>
  The port of ParvaGPU (baselines/parvagpu/thor_adapter.py): the readers of its profiles, manifest
  and services, the configurator that turns a service's demand into MIG segments, the allocator
  that places the segments on the fixed instances, and the plan made of both. Files and digests are
  surroundings: the readers get what a file holds.
\<close>

section \<open>Profiles and services\<close>

record profile_point =
  point_model :: "string option"
  segment_gpc :: int
  batch_size :: int
  point_processes :: int
  point_throughput :: pyfloat
  point_latency_ms :: pyfloat

record parva_service =
  service_model :: string
  request_rate :: pyfloat
  slo_ms :: pyfloat

record segment_request =
  request_model :: string
  request_point :: profile_point

definition UPSTREAM_COMMIT :: string where
  "UPSTREAM_COMMIT = ''5f3de1e18582b4c81896a1c3eb0e2915238dfee6''"

definition SUPPORTED_SEGMENTS :: "int list" where
  "SUPPORTED_SEGMENTS = [1, 2]"

definition SLO_HEADROOM :: pyfloat where
  "SLO_HEADROOM = fl (9 / 10)"

definition finite_positive :: "pyval \<Rightarrow> pyfloat res" where
  "finite_positive v =
     (if is_bool v \<or> \<not> is_number v then Inl (ValueError ''must be numeric'')
      else bnd (to_float v) (\<lambda>x.
        if \<not> isfinite x \<or> fle x (Fin 0) then Inl (ValueError ''must be finite and positive'')
        else Inr x))"

text \<open>
  A row of \<open>csv.DictReader\<close>: a repeated column name keeps its last value, a short row reads \<open>None\<close>.
\<close>

definition csv_field :: "string list \<Rightarrow> string list \<Rightarrow> string \<Rightarrow> pyval" where
  "csv_field header cols name =
     (case filter (\<lambda>k. header ! k = name) [0..<length header] of
        [] \<Rightarrow> VNone
      | ks \<Rightarrow> if last ks < length cols then VStr (cols ! last ks) else VNone)"

definition load_profile_row :: "string list \<Rightarrow> string list \<Rightarrow> profile_point res" where
  "load_profile_row header cols =
     bnd (to_pyint (csv_field header cols ''segment_gpc'')) (\<lambda>segment.
     bnd (to_pyint (csv_field header cols ''batch_size'')) (\<lambda>batch.
     bnd (to_pyint (csv_field header cols ''processes'')) (\<lambda>procs.
       if segment \<notin> set SUPPORTED_SEGMENTS
       then Inl (ValueError ''Thor ParvaGPU profiles may contain only 1g or 2g segments'')
       else if batch \<le> 0 \<or> procs < 1 \<or> 3 < procs
       then Inl (ValueError ''ParvaGPU batch/process profile is invalid'')
       else
         bnd (bnd (to_float (csv_field header cols ''throughput'')) (\<lambda>x. finite_positive (VFloat x))) (\<lambda>thr.
         bnd (bnd (to_float (csv_field header cols ''latency_ms'')) (\<lambda>x. finite_positive (VFloat x))) (\<lambda>lat.
           Inr \<lparr>point_model = (case csv_field header cols ''model'' of VStr m \<Rightarrow> Some m | _ \<Rightarrow> None),
             segment_gpc = segment, batch_size = batch, point_processes = procs,
             point_throughput = thr, point_latency_ms = lat\<rparr>)))))"

definition load_profiles :: "string list option \<Rightarrow> string list list \<Rightarrow> profile_point list res" where
  "load_profiles header rows =
     (let names = (case header of None \<Rightarrow> [] | Some h \<Rightarrow> h) in
      if set names \<noteq> {''model'', ''segment_gpc'', ''batch_size'', ''processes'', ''throughput'', ''latency_ms''}
      then Inl (ValueError ''ParvaGPU profile CSV schema differs from the Thor adapter contract'')
      else bnd (map_res (load_profile_row names) rows) (\<lambda>points.
        if points = [] then Inl (ValueError ''ParvaGPU profile is empty'') else Inr points))"

text \<open>The deadline lock that a specification may name: \<open>locks\<close> yields the digest and the content.\<close>

definition load_spec :: "(pyval \<Rightarrow> (string \<times> pyval) res) \<Rightarrow> pyval \<Rightarrow> pydict res" where
  "load_spec locks v =
     (case v of
        VDict spec \<Rightarrow>
          if \<not> py_eq (dget spec ''schema_version'') (VInt 1)
          then Inl (ValueError ''ParvaGPU spec must use schema_version 1'')
          else if \<not> py_eq (dget spec ''system'') (VStr ''ParvaGPU'') \<or>
            \<not> py_eq (dget spec ''upstream_commit'') (VStr UPSTREAM_COMMIT)
          then Inl (ValueError ''ParvaGPU spec does not bind the pinned artifact'')
          else (case dget spec ''contract'' of
            VDict contract \<Rightarrow>
              if \<not> py_eq (dget contract ''pressure_layout'') (VStr ''1g+2g'')
              then Inl (ValueError ''ParvaGPU Thor port requires the fixed 1g+2g layout'')
              else if \<not> py_eq (dget spec ''available_segments_gpc'')
                (if py_eq (dget contract ''scenario'') (VStr ''independent-payload-services'')
                 then VList [VInt 1, VInt 2] else VList [VInt 1])
              then Inl (ValueError ''available segments differ from the fixed-layout contract'')
              else if dget contract ''deadline_lock_path'' = VNone then Inr spec
              else bnd (locks (dget contract ''deadline_lock_path'')) (\<lambda>(digest, lock).
                if \<not> py_eq (VStr digest) (dget contract ''deadline_lock_sha256'')
                then Inl (ValueError ''ParvaGPU deadline lock hash differs'')
                else bnd (vget lock ''kind'') (\<lambda>kind.
                  if \<not> py_eq kind (VStr ''p9-dependent-pipeline-deadline-lock'')
                  then Inl (ValueError ''ParvaGPU contract differs from deadline lock'')
                  else bnd (bnd (vget lock ''deadline_us'') finite_positive) (\<lambda>locked.
                    bnd (finite_positive (dget contract ''pipeline_deadline_us'')) (\<lambda>deadline.
                      if \<not> feq locked deadline
                      then Inl (ValueError ''ParvaGPU contract differs from deadline lock'')
                      else Inr spec))))
          | _ \<Rightarrow> Inl (ValueError ''ParvaGPU Thor port requires the fixed 1g+2g layout''))
      | _ \<Rightarrow> Inl (ValueError ''ParvaGPU spec must use schema_version 1''))"

text \<open>\<open>v not in {...}\<close> hashes \<open>v\<close>, which a list or an object does not allow.\<close>

definition load_profile_manifest :: "string \<Rightarrow> pyval \<Rightarrow> pydict res" where
  "load_profile_manifest expected v =
     (let invalid = Inl (ValueError ''invalid ParvaGPU Thor profile manifest'');
          incomplete = Inl (ValueError ''ParvaGPU input profile provenance is incomplete'')
      in case v of
        VDict manifest \<Rightarrow>
          if \<not> py_eq (dget manifest ''schema_version'') (VInt 1) \<or>
            \<not> py_eq (dget manifest ''platform'') (VStr ''NVIDIA Thor'') then invalid
          else if is_list (dget manifest ''mig_profile'') \<or> is_dict (dget manifest ''mig_profile'')
          then Inl TypeError
          else if dget manifest ''mig_profile'' \<notin> {VStr ''1g.0gb'', VStr ''fixed-2g+1g''} \<or>
            \<not> py_eq (dget manifest ''mps_quota_percent'') (VInt 100) then invalid
          else if \<not> py_eq (dget manifest ''profile_sha256'') (VStr expected)
          then Inl (ValueError ''ParvaGPU profile hash differs from its manifest'')
          else (case dget manifest ''input_sha256'' of
            VDict inputs \<Rightarrow>
              if length inputs < 2 \<or>
                \<not> (\<forall>(_, w) \<in> set inputs. case w of VStr s \<Rightarrow> length s = 64 | _ \<Rightarrow> False)
              then incomplete else Inr manifest
          | _ \<Rightarrow> incomplete)
      | _ \<Rightarrow> invalid)"

fun read_services :: "pyval list \<Rightarrow> string list \<Rightarrow> parva_service list res" where
  "read_services [] seen = Inr []"
| "read_services (raw # raws) seen =
     (case raw of
        VDict d \<Rightarrow>
          (case dget d ''model'' of
             VStr m \<Rightarrow>
               if m = [] \<or> m \<in> set seen
               then Inl (ValueError ''ParvaGPU service model is empty or duplicated'')
               else bnd (finite_positive (dget d ''request_rate'')) (\<lambda>rate.
                 bnd (finite_positive (dget d ''slo_ms'')) (\<lambda>slo.
                 bnd (read_services raws (m # seen)) (\<lambda>ss.
                   Inr (\<lparr>service_model = m, request_rate = rate, slo_ms = slo\<rparr> # ss))))
           | _ \<Rightarrow> Inl (ValueError ''ParvaGPU service must name a model''))
      | _ \<Rightarrow> Inl (ValueError ''ParvaGPU service must name a model''))"

definition services_from_spec :: "pydict \<Rightarrow> parva_service list res" where
  "services_from_spec spec =
     bnd (iterate (dget_default spec ''services'' (VList []))) (\<lambda>raws.
     bnd (read_services raws []) (\<lambda>ss.
       if ss = [] then Inl (ValueError ''ParvaGPU needs at least one service'') else Inr ss))"

section \<open>The configurator\<close>

text \<open>\<open>math.fmod\<close>: the exact remainder, with the sign of the dividend.\<close>

fun math_fmod :: "pyfloat \<Rightarrow> pyfloat \<Rightarrow> pyfloat res" where
  "math_fmod NaN _ = Inr NaN"
| "math_fmod _ NaN = Inr NaN"
| "math_fmod (Fin a) (Fin b) =
     (if b = 0 then Inl (ValueError ''math domain error'')
      else Inr (Fin (a - b * of_int (if 0 \<le> a / b then \<lfloor>a / b\<rfloor> else \<lceil>a / b\<rceil>))))"
| "math_fmod (Fin a) _ = Inr (Fin a)"
| "math_fmod _ _ = Inl (ValueError ''math domain error'')"

definition throughput_per :: "(profile_point \<Rightarrow> int) \<Rightarrow> profile_point \<Rightarrow> pyfloat res" where
  "throughput_per gpc p = bnd (float_of_int (gpc p)) (fdiv (point_throughput p))"

text \<open>\<open>max(points, key=...)\<close>: the keys first, then the scan; \<open>None\<close> for no points.\<close>

definition best_point :: "(profile_point \<Rightarrow> pyfloat res) \<Rightarrow> profile_point list \<Rightarrow> profile_point option res" where
  "best_point key ps =
     bnd (map_res (\<lambda>p. bnd (key p) (\<lambda>k. Inr (p, k))) ps) (\<lambda>ranked.
       Inr (map_option fst (best_by (\<lambda>a b. flt (snd b) (snd a)) ranked)))"

definition eligible_points :: "parva_service \<Rightarrow> profile_point list \<Rightarrow> profile_point list res" where
  "eligible_points s profiles =
     bnd (fdiv (slo_ms s) (Fin 2)) (\<lambda>half.
       Inr (filter (\<lambda>p. point_model p = Some (service_model s) \<and>
         flt (point_latency_ms p) (fmul half SLO_HEADROOM)) profiles))"

definition complete_instances :: "pyfloat \<Rightarrow> pyfloat \<Rightarrow> int res" where
  "complete_instances rate thr =
     bnd (bnd (fdiv rate thr) math_floor) (\<lambda>n.
     bnd (math_fmod rate thr) (\<lambda>rest.
       Inr (max 0 (if feq rest (Fin 0) then n - 1 else n))))"

text \<open>The dictionary \<open>by_size\<close> in the order of the sizes, without the sizes that have no point.\<close>

definition points_by_size :: "profile_point list \<Rightarrow> profile_point list res" where
  "points_by_size eligible =
     bnd (map_res (\<lambda>size. best_point (throughput_per (\<lambda>_. size))
         (filter (\<lambda>p. segment_gpc p = size) eligible)) SUPPORTED_SEGMENTS) (\<lambda>bests.
       Inr (List.map_filter id bests))"

definition segment_of :: "parva_service \<Rightarrow> profile_point \<Rightarrow> segment_request" where
  "segment_of s p = \<lparr>request_model = service_model s, request_point = p\<rparr>"

definition configure_service :: "parva_service \<Rightarrow> profile_point list \<Rightarrow> segment_request list res" where
  "configure_service s profiles =
     bnd (eligible_points s profiles) (\<lambda>eligible.
     if eligible = [] then Inl (RuntimeError ''no SLO-feasible ParvaGPU profile for '')
     else bnd (best_point (throughput_per segment_gpc) eligible) (\<lambda>best.
       case best of
         None \<Rightarrow> Inl (ValueError ''max() arg is an empty sequence'')
       | Some optimal \<Rightarrow>
           bnd (complete_instances (request_rate s) (point_throughput optimal)) (\<lambda>complete.
           bnd (float_of_int complete) (\<lambda>count.
             let covered = fmul count (point_throughput optimal);
                 remainder = fsub (request_rate s) covered
             in bnd (points_by_size eligible) (\<lambda>by_size.
               case find (\<lambda>p. fle remainder (point_throughput p)) by_size of
                 None \<Rightarrow> Inl (RuntimeError ''ParvaGPU cannot cover the remaining demand for '')
               | Some p \<Rightarrow> Inr (replicate (nat complete) (segment_of s optimal) @ [segment_of s p]))))))"

section \<open>The allocator\<close>

record allocation_entry =
  allocated_model :: string
  physical_segment_gpc :: int
  profile_segment_gpc :: int
  allocated_batch :: int
  allocated_processes :: int
  profile_throughput :: pyfloat
  profile_latency_ms :: pyfloat

definition entry_of :: "int \<Rightarrow> segment_request \<Rightarrow> allocation_entry" where
  "entry_of physical r =
     \<lparr>allocated_model = request_model r, physical_segment_gpc = physical,
      profile_segment_gpc = segment_gpc (request_point r), allocated_batch = batch_size (request_point r),
      allocated_processes = point_processes (request_point r),
      profile_throughput = point_throughput (request_point r),
      profile_latency_ms = point_latency_ms (request_point r)\<rparr>"

fun allocate_loop ::
  "int list \<Rightarrow> segment_request list \<Rightarrow> allocation_entry list \<Rightarrow> bool \<times> allocation_entry list \<times> string option" where
  "allocate_loop bins [] allocation = (True, allocation, None)"
| "allocate_loop bins (r # rs) allocation =
     (case find (\<lambda>i. segment_gpc (request_point r) \<le> bins ! i) [0..<length bins] of
        None \<Rightarrow> (False, allocation, Some ''insufficient fixed MIG segments'')
      | Some i \<Rightarrow> allocate_loop (take i bins @ drop (Suc i) bins) rs (allocation @ [entry_of (bins ! i) r]))"

text \<open>\<open>sorted(..., reverse=True)\<close> keeps the order of equal elements.\<close>

definition allocate_fixed ::
  "segment_request list \<Rightarrow> int list \<Rightarrow> bool \<times> allocation_entry list \<times> string option" where
  "allocate_fixed requests available =
     allocate_loop (rev (sort available))
       (sort_key (\<lambda>r. - segment_gpc (request_point r)) requests) []"

section \<open>The plan\<close>

text \<open>The services in order; the first one without a configuration ends the loop with its message.\<close>

fun configure_services ::
  "parva_service list \<Rightarrow> profile_point list \<Rightarrow> segment_request list \<Rightarrow> (segment_request list \<times> string option) res" where
  "configure_services [] profiles requests = Inr (requests, None)"
| "configure_services (s # ss) profiles requests =
     (case configure_service s profiles of
        Inr rs \<Rightarrow> configure_services ss profiles (requests @ rs)
      | Inl (RuntimeError message) \<Rightarrow> Inr (requests, Some message)
      | Inl e \<Rightarrow> Inl e)"

text \<open>The sizes of the available segments, which the code's annotation takes to be integers.\<close>

fun segment_size :: "pyval \<Rightarrow> int res" where
  "segment_size (VInt n) = Inr n"
| "segment_size (VBool b) = Inr (if b then 1 else 0)"
| "segment_size (VFloat (Fin x)) = (if x = of_int \<lfloor>x\<rfloor> then Inr \<lfloor>x\<rfloor> else Inl TypeError)"
| "segment_size _ = Inl TypeError"

definition available_segments :: "pydict \<Rightarrow> int list res" where
  "available_segments spec =
     bnd (bnd (dindex spec ''available_segments_gpc'') iterate) (map_res segment_size)"

record parva_plan =
  plan_contract :: pyval
  feasible :: bool
  reason :: "string option"
  segment_requests :: "segment_request list"
  allocation :: "allocation_entry list"

definition plan_segments :: "pydict \<Rightarrow> profile_point list \<Rightarrow> parva_plan res" where
  "plan_segments spec profiles =
     bnd (services_from_spec spec) (\<lambda>services.
     bnd (configure_services services profiles []) (\<lambda>(requests, failure).
     bnd (case failure of
         None \<Rightarrow> bnd (available_segments spec) (\<lambda>available. Inr (allocate_fixed requests available))
       | Some message \<Rightarrow> Inr (False, [], Some message)) (\<lambda>(ok, entries, why).
     bnd (dindex spec ''contract'') (\<lambda>contract.
       Inr \<lparr>plan_contract = contract, feasible = ok, reason = why, segment_requests = requests,
         allocation = entries\<rparr>))))"

section \<open>Facts on the scan for a maximum\<close>

lemma scan_greatest:
  "\<exists>ys zs. b # xs = ys @ scan_best (key_greater k) b xs # zs \<and>
     (\<forall>y \<in> set ys. k y < k (scan_best (key_greater k) b xs)) \<and> (\<forall>z \<in> set zs. k z \<le> k (scan_best (key_greater k) b xs))"
proof (induction xs arbitrary: b)
  case Nil
  show ?case by (intro exI [of _ "[]"]) simp
next
  case (Cons x xs)
  show ?case
  proof (cases "k b < k x")
    case True
    obtain ys zs where *: "x # xs = ys @ scan_best (key_greater k) x xs # zs"
      "\<forall>y \<in> set ys. k y < k (scan_best (key_greater k) x xs)" "\<forall>z \<in> set zs. k z \<le> k (scan_best (key_greater k) x xs)"
      using Cons.IH [of x] by blast
    have "k x \<le> k (scan_best (key_greater k) x xs)"
      using * by (cases ys) auto
    moreover have "scan_best (key_greater k) b (x # xs) = scan_best (key_greater k) x xs"
    proof -
      have "key_greater k x b" using True by (simp add: key_greater_def)
      then show ?thesis by simp
    qed
    ultimately show ?thesis
      using True * by (intro exI [of _ "b # ys"] exI [of _ zs]) auto
  next
    case False
    obtain ys zs where *: "b # xs = ys @ scan_best (key_greater k) b xs # zs"
      "\<forall>y \<in> set ys. k y < k (scan_best (key_greater k) b xs)" "\<forall>z \<in> set zs. k z \<le> k (scan_best (key_greater k) b xs)"
      using Cons.IH [of b] by blast
    have same: "scan_best (key_greater k) b (x # xs) = scan_best (key_greater k) b xs"
    proof -
      have "\<not> key_greater k x b" using False by (simp add: key_greater_def)
      then show ?thesis by simp
    qed
    show ?thesis
    proof (cases ys)
      case Nil
      with * False show ?thesis
        unfolding same by (intro exI [of _ "[]"] exI [of _ "x # xs"]) auto
    next
      case (Cons y ys')
      with * False show ?thesis
        unfolding same by (intro exI [of _ "b # x # ys'"] exI [of _ zs]) auto
    qed
  qed
qed

lemma first_greatest:
  "best_by (key_greater k) xs = Some x \<longleftrightarrow>
     (\<exists>ys zs. xs = ys @ x # zs \<and> (\<forall>y \<in> set ys. k y < k x) \<and> (\<forall>z \<in> set zs. k z \<le> k x))"
proof
  assume "best_by (key_greater k) xs = Some x"
  then show "\<exists>ys zs. xs = ys @ x # zs \<and> (\<forall>y \<in> set ys. k y < k x) \<and> (\<forall>z \<in> set zs. k z \<le> k x)"
    using scan_greatest by (fastforce simp: best_by_def split: list.splits)
next
  assume "\<exists>ys zs. xs = ys @ x # zs \<and> (\<forall>y \<in> set ys. k y < k x) \<and> (\<forall>z \<in> set zs. k z \<le> k x)"
  then obtain ys zs where *: "xs = ys @ x # zs" "\<forall>y \<in> set ys. k y < k x" "\<forall>z \<in> set zs. k z \<le> k x" by blast
  have stay: "scan_best (key_greater k) x zs = x" if "\<forall>z \<in> set zs. k z \<le> k x" for zs
    using that by (induction zs) (auto simp: key_greater_def)
  have "scan_best (key_greater k) b (ys @ x # zs) = x" if "k b < k x" "\<forall>y \<in> set ys. k y < k x" for b ys
    using that by (induction ys arbitrary: b) (auto simp: key_greater_def stay [OF *(3)])
  then show "best_by (key_greater k) xs = Some x"
    using * stay by (cases ys) (auto simp: best_by_def)
qed

lemma filter_keeps_greatest:
  assumes "best_by (key_greater k) xs = Some x" and "P x"
  shows "best_by (key_greater k) (filter P xs) = Some x"
proof -
  obtain ys zs where *: "xs = ys @ x # zs" "\<forall>y \<in> set ys. k y < k x" "\<forall>z \<in> set zs. k z \<le> k x"
    using assms(1) unfolding first_greatest by blast
  show ?thesis unfolding first_greatest
    using * assms(2) by (intro exI [of _ "filter P ys"] exI [of _ "filter P zs"]) simp
qed

section \<open>Facts on the allocator\<close>

text \<open>
  What the allocator is for: every request gets a segment of its own that is large enough.
\<close>

definition matchable :: "int list \<Rightarrow> int list \<Rightarrow> bool" where
  "matchable needs bins \<longleftrightarrow> (\<exists>ps. mset ps \<subseteq># mset bins \<and> list_all2 (\<le>) needs ps)"

lemma matchable_reorder:
  assumes "matchable needs bins" and "mset needs' = mset needs" and "mset bins' = mset bins"
  shows "matchable needs' bins'"
proof -
  obtain ps where ps: "mset ps \<subseteq># mset bins" "list_all2 (\<le>) needs ps"
    using assms(1) by (auto simp: matchable_def)
  obtain qs where "list_all2 (\<le>) needs' qs" "mset qs = mset ps"
    using list_all2_reorder_left_invariance [OF ps(2) assms(2)] by auto
  with ps(1) assms(3) show ?thesis unfolding matchable_def by metis
qed

lemma matchable_Cons:
  assumes "\<forall>c \<in> set bins. c \<le> b" and "\<forall>n \<in> set needs. n \<le> r"
  shows "matchable (r # needs) (b # bins) \<longleftrightarrow> r \<le> b \<and> matchable needs bins"
proof
  assume "r \<le> b \<and> matchable needs bins"
  then obtain ps where "mset ps \<subseteq># mset bins" "list_all2 (\<le>) needs ps" "r \<le> b" by (auto simp: matchable_def)
  then show "matchable (r # needs) (b # bins)" unfolding matchable_def by (intro exI [of _ "b # ps"]) simp
next
  assume "matchable (r # needs) (b # bins)"
  then obtain p qs where sub: "mset (p # qs) \<subseteq># mset (b # bins)" and p: "r \<le> p" and qs: "list_all2 (\<le>) needs qs"
    unfolding matchable_def list_all2_Cons1 by auto
  have "p \<in># mset (b # bins)" using sub by (rule mset_subset_eqD) simp
  then have pb: "p \<le> b" using assms(1) by auto
  have "matchable needs bins"
  proof (cases "p = b \<or> b \<notin> set qs")
    case True
    then have "mset qs \<subseteq># mset bins"
    proof
      assume "p = b"
      with sub show ?thesis by simp
    next
      assume b: "b \<notin> set qs"
      have "count (mset qs) x \<le> count (mset bins) x" for x
        using mset_subset_eq_count [OF sub, of x] b
        by (cases "x = b") (auto simp: count_mset_0_iff [THEN iffD2] split: if_splits)
      then show ?thesis by (simp add: subseteq_mset_def)
    qed
    with qs show ?thesis by (auto simp: matchable_def)
  next
    case False
    then obtain i where i: "i < length qs" "qs ! i = b" by (auto simp: in_set_conv_nth)
    have "mset (qs[i := p]) = add_mset p (mset qs - {#b#})" using i by (simp add: mset_update)
    moreover have "add_mset p (mset qs - {#b#}) \<subseteq># mset bins"
    proof -
      have "mset qs = add_mset b (mset qs - {#b#})" using False by simp
      then have "add_mset p (add_mset b (mset qs - {#b#})) \<subseteq># add_mset b (mset bins)" using sub by simp
      then show ?thesis by (simp add: add_mset_commute)
    qed
    moreover have "list_all2 (\<le>) needs (qs[i := p])"
      using qs i assms(2) p by (auto simp: list_all2_conv_all_nth nth_list_update) (metis nth_mem order_trans)
    ultimately show ?thesis unfolding matchable_def by (metis)
  qed
  with p pb show "r \<le> b \<and> matchable needs bins" by simp
qed

definition needed_gpc :: "segment_request \<Rightarrow> int" where
  "needed_gpc r = segment_gpc (request_point r)"

lemma first_fit_descending:
  assumes "sorted_wrt (\<ge>) ((b :: int) # bins)"
  shows "find (\<lambda>i. need \<le> (b # bins) ! i) [0..<length (b # bins)] = (if need \<le> b then Some 0 else None)"
proof (cases "need \<le> b")
  case True
  then show ?thesis by (simp add: upt_conv_Cons del: upt_Suc)
next
  case False
  have "\<not> need \<le> (b # bins) ! i" if "i < length (b # bins)" for i
  proof (cases i)
    case (Suc k)
    then have "bins ! k \<le> b" using assms that by auto
    with False have "bins ! k < need" by linarith
    with Suc show ?thesis by simp
  qed (use False in simp)
  then show ?thesis using False by (auto simp: find_None_iff simp del: upt_Suc)
qed

lemma allocate_loop_matchable:
  assumes "sorted_wrt (\<ge>) bins" and "sorted_wrt (\<ge>) (map needed_gpc rs)"
  shows "fst (allocate_loop bins rs acc) \<longleftrightarrow> matchable (map needed_gpc rs) bins"
  using assms
proof (induction rs arbitrary: bins acc)
  case Nil
  show ?case by (auto simp: matchable_def)
next
  case (Cons r rs)
  show ?case
  proof (cases bins)
    case Nil
    then show ?thesis by (auto simp: matchable_def list_all2_Cons1)
  next
    case (Cons b bs)
    have step: "fst (allocate_loop bins (r # rs) acc) \<longleftrightarrow>
        needed_gpc r \<le> b \<and> fst (allocate_loop bs rs (acc @ [entry_of b r]))"
      using first_fit_descending [of b bs "needed_gpc r"] Cons.prems(1)
      by (simp add: Cons needed_gpc_def del: upt_Suc)
    have "fst (allocate_loop bs rs (acc @ [entry_of b r])) \<longleftrightarrow> matchable (map needed_gpc rs) bs"
      using Cons.prems by (intro Cons.IH) (auto simp: Cons)
    moreover have "matchable (map needed_gpc (r # rs)) bins \<longleftrightarrow> needed_gpc r \<le> b \<and> matchable (map needed_gpc rs) bs"
      unfolding Cons list.map using Cons.prems by (intro matchable_Cons) (auto simp: Cons)
    ultimately show ?thesis using step by simp
  qed
qed

text \<open>What an allocation holds, complete or not.\<close>

definition fits :: "segment_request \<Rightarrow> allocation_entry \<Rightarrow> bool" where
  "fits r e \<longleftrightarrow> e = entry_of (physical_segment_gpc e) r \<and> needed_gpc r \<le> physical_segment_gpc e"

lemma fits_entry: "fits r (entry_of n r) \<longleftrightarrow> segment_gpc (request_point r) \<le> n"
  "physical_segment_gpc (entry_of n r) = n"
  by (simp_all add: fits_def entry_of_def needed_gpc_def)

lemma allocate_loop_facts:
  "allocate_loop bins rs acc = (ok, out, why) \<Longrightarrow>
     \<exists>es. out = acc @ es \<and> mset (map physical_segment_gpc es) \<subseteq># mset bins \<and>
       list_all2 fits (take (length es) rs) es \<and> (ok \<longleftrightarrow> length es = length rs) \<and> length es \<le> length rs \<and>
       why = (if ok then None else Some ''insufficient fixed MIG segments'')"
proof (induction bins rs acc rule: allocate_loop.induct)
  case (2 bins r rs acc)
  show ?case
  proof (cases "find (\<lambda>i. segment_gpc (request_point r) \<le> bins ! i) [0..<length bins]")
    case None
    with "2.prems" show ?thesis by auto
  next
    case (Some i)
    have i: "i < length bins" "segment_gpc (request_point r) \<le> bins ! i" using find_SomeD [OF Some] by auto
    obtain es where es: "out = acc @ [entry_of (bins ! i) r] @ es"
      "mset (map physical_segment_gpc es) \<subseteq># mset (take i bins @ drop (Suc i) bins)"
      "list_all2 fits (take (length es) rs) es" "ok \<longleftrightarrow> length es = length rs" "length es \<le> length rs"
      "why = (if ok then None else Some ''insufficient fixed MIG segments'')"
      using "2.IH" [OF Some] "2.prems" Some by auto
    have "mset bins = add_mset (bins ! i) (mset (take i bins @ drop (Suc i) bins))"
      using id_take_nth_drop [OF i(1)] by (metis mset.simps(2) mset_append union_mset_add_mset_right)
    then show ?thesis
      using es i by (intro exI [of _ "entry_of (bins ! i) r # es"]) (simp add: fits_entry)
  qed
qed auto

section \<open>Facts on the configurator\<close>

text \<open>What the readers guarantee of a point and of a service; their floats are doubles.\<close>

definition positive_double :: "pyfloat \<Rightarrow> bool" where
  "positive_double x \<longleftrightarrow> double x \<and> isfinite x \<and> flt (Fin 0) x"

definition valid_point :: "profile_point \<Rightarrow> bool" where
  "valid_point p \<longleftrightarrow> segment_gpc p \<in> set SUPPORTED_SEGMENTS \<and> positive_double (point_throughput p)"

definition valid_service :: "parva_service \<Rightarrow> bool" where
  "valid_service s \<longleftrightarrow> positive_double (request_rate s)"

lemma positive_doubleD: "positive_double x \<Longrightarrow> \<exists>t. x = Fin t \<and> 0 < t \<and> representable t \<and> t < 2 ^ 1024"
  by (cases x) (auto simp: positive_double_def double_def)

lemma double_fneg: "double x \<Longrightarrow> double (fneg x)"
proof -
  have "representable (- a)" if "representable a" for a
    using rnd_representable [OF that] rnd_minus [of a] representable_rnd [of "- a"] by simp
  then show "double x \<Longrightarrow> double (fneg x)" by (cases x) (auto simp: double_def)
qed

lemma float_of_string_double: "float_of_string v = Inr x \<Longrightarrow> double x"
proof -
  have "double y" if "parse_decimal w = Some y" for w y
    using that by (auto simp: parse_decimal_def Let_def double_fl split: prod.splits if_splits option.splits list.splits)
  moreover have "double PInf" "double NInf" "double NaN" by (simp_all add: double_def)
  ultimately show "float_of_string v = Inr x \<Longrightarrow> double x"
    by (auto simp: float_of_string_def Let_def double_fneg split: prod.splits if_splits option.splits)
qed

lemma load_profiles_valid:
  assumes "load_profiles header rows = Inr ps"
  shows "\<forall>p \<in> set ps. valid_point p"
proof -
  have "valid_point p" if row: "load_profile_row names cols = Inr p" for names cols p
  proof -
    have "double x" if "to_float (csv_field names cols n) = Inr x" for n x
      using that by (auto simp: csv_field_def float_of_string_double split: list.splits if_splits)
    moreover obtain x where "to_float (csv_field names cols ''throughput'') = Inr x"
      and x: "finite_positive (VFloat x) = Inr (point_throughput p)" and g: "segment_gpc p \<in> set SUPPORTED_SEGMENTS"
      using row by (auto simp: load_profile_row_def bnd_eq_Inr split: if_split_asm)
    ultimately have "double x" by blast
    then have "positive_double (point_throughput p)"
      using x by (cases "point_throughput p") (auto simp: finite_positive_def bnd_eq_Inr positive_double_def split: if_splits)
    with g show ?thesis by (simp add: valid_point_def)
  qed
  moreover obtain names where "map_res (load_profile_row names) rows = Inr ps"
    using assms by (auto simp: load_profiles_def bnd_eq_Inr Let_def split: if_split_asm)
  ultimately show ?thesis by (metis (no_types) map_res_mem)
qed

definition per_gpc :: "profile_point \<Rightarrow> pyfloat" where
  "per_gpc p = fl (fval (point_throughput p) / of_int (segment_gpc p))"

lemma small_float_of_int: "\<bar>n\<bar> \<le> 4 \<Longrightarrow> float_of_int n = Inr (Fin (of_int n))"
  using fl_of_int [of n] by (simp add: float_of_int_def)

lemma throughput_per_valid:
  assumes "valid_point p" and "g p = segment_gpc p"
  shows "throughput_per g p = Inr (per_gpc p)"
proof -
  obtain t where "point_throughput p = Fin t" using assms(1) positive_doubleD by (auto simp: valid_point_def)
  then show ?thesis
    using assms by (auto simp: throughput_per_def per_gpc_def valid_point_def SUPPORTED_SEGMENTS_def small_float_of_int)
qed

lemma best_by_map: "best_by f (map g xs) = map_option g (best_by (\<lambda>a b. f (g a) (g b)) xs)"
proof -
  have "scan_best f (g b) (map g xs) = g (scan_best (\<lambda>a b. f (g a) (g b)) b xs)" for b xs
    by (induction xs arbitrary: b) auto
  then show ?thesis by (cases xs) (auto simp: best_by_def)
qed

lemma best_point_valid:
  assumes "\<forall>p \<in> set ps. valid_point p \<and> g p = segment_gpc p"
  shows "best_point (throughput_per g) ps = Inr (best_by (key_greater per_gpc) ps)"
proof -
  have "map_res (\<lambda>p. bnd (throughput_per g p) (\<lambda>k. Inr (p, k))) ps = map_res (\<lambda>p. Inr (p, per_gpc p)) ps"
    using assms by (intro map_res_cong) (auto simp: throughput_per_valid)
  moreover have "best_by (\<lambda>a b. flt (per_gpc b) (per_gpc a)) ps = best_by (key_greater per_gpc) ps"
    by (rule best_by_flt) (simp add: per_gpc_def)
  ultimately show ?thesis
    by (cases "best_by (key_greater per_gpc) ps") (simp_all add: best_point_def map_res_Inr best_by_map)
qed

definition latency_limit :: "parva_service \<Rightarrow> pyfloat \<Rightarrow> bool" where
  "latency_limit s limit \<longleftrightarrow> (\<exists>half. fdiv (slo_ms s) (Fin 2) = Inr half \<and> limit = fmul half SLO_HEADROOM)"

definition serves :: "parva_service \<Rightarrow> profile_point \<Rightarrow> bool" where
  "serves s p \<longleftrightarrow> point_model p = Some (service_model s) \<and>
     (\<exists>limit. latency_limit s limit \<and> flt (point_latency_ms p) limit)"

lemma eligible_points_serve:
  assumes "eligible_points s profiles = Inr es"
  shows "set es = {p \<in> set profiles. serves s p}"
  using assms by (auto simp: eligible_points_def serves_def latency_limit_def bnd_eq_Inr)

definition best_of_size :: "profile_point list \<Rightarrow> int \<Rightarrow> profile_point option" where
  "best_of_size es g = best_by (key_greater per_gpc) (filter (\<lambda>p. segment_gpc p = g) es)"

lemma points_by_size_valid:
  assumes "\<forall>p \<in> set es. valid_point p"
  shows "points_by_size es = Inr (List.map_filter id [best_of_size es 1, best_of_size es 2])"
proof -
  have "best_point (throughput_per (\<lambda>_. n)) (filter (\<lambda>p. segment_gpc p = n) es) = Inr (best_of_size es n)" for n
    unfolding best_of_size_def using assms by (intro best_point_valid) simp
  then show ?thesis by (simp add: points_by_size_def SUPPORTED_SEGMENTS_def)
qed

text \<open>A demand of at most three segments leaves no more than a segment after the complete ones.\<close>

lemma complete_instances_small:
  assumes "0 < r" and "0 < t" and "r \<le> 3 * t"
  shows "\<exists>n. complete_instances (Fin r) (Fin t) = Inr n \<and> 0 \<le> n \<and> n \<le> 3 \<and> r \<le> of_int (n + 1) * t"
proof -
  define q where "q = r / t"
  have q: "0 < q" "q \<le> 3" "r = q * t" using assms by (auto simp: q_def divide_simps)
  have three: "rnd q \<le> 3" using rnd_mono [OF q(2)] rnd_of_int [of 3] by simp
  have pos: "0 \<le> rnd q" using q(1) by simp
  then have flq: "fl q = Fin (rnd q)" using three by (simp add: fl_def Let_def)
  have floor: "0 \<le> \<lfloor>rnd q\<rfloor>" "\<lfloor>rnd q\<rfloor> \<le> 3" using pos three by (auto simp: floor_le_iff)
  define n where "n = (if q = of_int \<lfloor>q\<rfloor> then \<lfloor>rnd q\<rfloor> - 1 else \<lfloor>rnd q\<rfloor>)"
  have zero: "r - t * of_int \<lfloor>q\<rfloor> = 0 \<longleftrightarrow> q = of_int \<lfloor>q\<rfloor>"
    using assms(2) q(3) by (auto simp: q_def field_simps)
  have c: "complete_instances (Fin r) (Fin t) = Inr (max 0 n)"
    using assms(2) flq zero q(1)
    by (simp add: complete_instances_def math_floor_def n_def q_def [symmetric] del: of_int_floor_cancel)
  have "0 \<le> n \<and> n \<le> 3 \<and> q \<le> of_int (n + 1)"
  proof (cases "q = of_int \<lfloor>q\<rfloor>")
    case True
    have "rnd q = of_int \<lfloor>q\<rfloor>"
    proof -
      have "\<bar>\<lfloor>q\<rfloor>\<bar> \<le> 2 ^ 53" using q(1,2) by (auto simp: abs_le_iff floor_le_iff)
      then show ?thesis by (metis True rnd_of_int)
    qed
    moreover have "1 \<le> \<lfloor>q\<rfloor>" using True q(1) by (metis of_int_0_less_iff int_one_le_iff_zero_less)
    ultimately show ?thesis using True floor by (simp add: n_def)
  next
    case False
    then have n: "n = \<lfloor>rnd q\<rfloor>" by (simp add: n_def)
    have "\<not> of_int (n + 1) \<le> q"
    proof
      assume "of_int (n + 1) \<le> q"
      from rnd_mono [OF this] have "of_int (n + 1) \<le> rnd q"
        using rnd_of_int [of "n + 1"] floor n by simp
      then show False unfolding n by linarith
    qed
    then show ?thesis using floor n by simp
  qed
  moreover from this have "r \<le> of_int (n + 1) * t" using assms(2) q(3) by (simp add: mult_right_mono)
  ultimately show ?thesis using c by (intro exI [of _ n]) (simp add: max_def)
qed

lemma remainder_small:
  assumes "0 < r" and "0 < t" and "representable t" and "t < 2 ^ 1024" and "representable r" and "r < 2 ^ 1024"
    and "0 \<le> n" "n \<le> 3" "r \<le> of_int (n + 1) * t" "r \<le> 3 * t"
  shows "fle (fsub (Fin r) (fmul (Fin (of_int n)) (Fin t))) (Fin t)"
proof (cases "fl (of_int n * t)")
  case (Fin c)
  have "r - c \<le> t"
  proof (cases "n = 3")
    case True
    have "fle (fl r) (fl (3 * t))" using assms(10) by (rule fl_mono)
    then show ?thesis using Fin True assms by (simp add: fl_representable)
  next
    case False
    then consider "n = 0" | "n = 1" | "n = 2" using assms(7,8) by linarith
    then have "representable (of_int n * t)"
      using assms(3) representable_double [OF assms(3)] representable_rnd [of 0] by cases simp_all
    then have "c = of_int n * t" using Fin rnd_representable fl_cases [of "of_int n * t"] by auto
    then show ?thesis using assms(9) by (simp add: algebra_simps)
  qed
  then have "fle (fl (r - c)) (fl t)" by (rule fl_mono)
  then show ?thesis using Fin assms by (simp add: fsub_def fl_representable)
next
  case NInf
  have "0 \<le> of_int n * t" using assms by simp
  from fl_nonneg [OF this] NInf show ?thesis by (simp add: fle_def feq_def)
qed (simp_all add: fsub_def fle_def)

lemma by_size_members:
  assumes "p \<in> set (List.map_filter id [best_of_size es 1, best_of_size es 2])"
  shows "best_of_size es (segment_gpc p) = Some p \<and> p \<in> set es"
proof -
  from assms obtain g where g: "best_of_size es g = Some p"
    by (auto simp: map_filter_def split: option.splits if_splits)
  then have "p \<in> set es \<and> segment_gpc p = g" using best_by_in by (fastforce simp: best_of_size_def)
  with g show ?thesis by simp
qed

lemma greatest_per_gpc: "best_by (key_greater per_gpc) ps = Some p \<Longrightarrow> q \<in> set ps \<Longrightarrow> fle (per_gpc q) (per_gpc p)"
  using best_by_greatest [of per_gpc ps p q] by (simp add: per_gpc_def fle_less_eq)

text \<open>The pieces of a configuration.\<close>

lemma configure_service_eligible:
  assumes "\<forall>p \<in> set profiles. valid_point p"
  shows "\<exists>es. eligible_points s profiles = Inr es \<and> set es = {p \<in> set profiles. serves s p} \<and> (\<forall>p \<in> set es. valid_point p)"
proof -
  have "\<exists>half. fdiv (slo_ms s) (Fin 2) = Inr half" by (cases "slo_ms s") auto
  then obtain es where es: "eligible_points s profiles = Inr es" by (auto simp: eligible_points_def)
  from eligible_points_serve [OF this] assms es show ?thesis by auto
qed

definition remainder_after :: "parva_service \<Rightarrow> profile_point \<Rightarrow> int \<Rightarrow> pyfloat" where
  "remainder_after s p n = fsub (request_rate s) (fmul (Fin (rnd (of_int n))) (point_throughput p))"

lemma configure_service_parts:
  assumes "\<forall>p \<in> set profiles. valid_point p" and "configure_service s profiles = Inr rs"
  shows "\<exists>es optimal p n. eligible_points s profiles = Inr es \<and> best_by (key_greater per_gpc) es = Some optimal \<and>
      best_of_size es (segment_gpc p) = Some p \<and> p \<in> set es \<and> 0 \<le> n \<and>
      complete_instances (request_rate s) (point_throughput optimal) = Inr n \<and>
      fle (remainder_after s optimal n) (point_throughput p) \<and>
      (segment_gpc p = 2 \<longrightarrow> (\<forall>q. best_of_size es 1 = Some q \<longrightarrow>
         \<not> fle (remainder_after s optimal n) (point_throughput q))) \<and>
      rs = replicate (nat n) (segment_of s optimal) @ [segment_of s p]"
proof -
  obtain es where es: "eligible_points s profiles = Inr es" "\<forall>p \<in> set es. valid_point p"
    using configure_service_eligible [OF assms(1)] by blast
  obtain sized where sized: "points_by_size es = Inr sized"
    "sized = List.map_filter id [best_of_size es 1, best_of_size es 2]"
    using points_by_size_valid [OF es(2)] by blast
  from assms(2) obtain optimal n count p where
    best: "best_by (key_greater per_gpc) es = Some optimal"
    and n: "complete_instances (request_rate s) (point_throughput optimal) = Inr n"
    and count: "float_of_int n = Inr count"
    and found: "find (\<lambda>p. fle (fsub (request_rate s) (fmul count (point_throughput optimal))) (point_throughput p)) sized
      = Some p"
    and rs: "rs = replicate (nat n) (segment_of s optimal) @ [segment_of s p]"
    using best_point_valid [of es segment_gpc] es(2)
    by (auto simp: configure_service_def es(1) sized(1) bnd_eq_Inr Let_def split: if_splits option.splits)
  have "0 \<le> n" using n by (auto simp: complete_instances_def bnd_eq_Inr)
  moreover have "count = Fin (rnd (of_int n))"
    using count fl_cases [of "of_int n"] by (auto simp: float_of_int_def split: pyfloat.splits)
  then have first: "find (\<lambda>p. fle (remainder_after s optimal n) (point_throughput p)) sized = Some p"
    using found by (simp add: remainder_after_def)
  moreover have "best_of_size es (segment_gpc p) = Some p \<and> p \<in> set es"
    using find_SomeD [OF first] sized(2) by_size_members by blast
  moreover have "\<not> fle (remainder_after s optimal n) (point_throughput q)"
    if q: "best_of_size es 1 = Some q" "segment_gpc p = 2" for q
  proof
    assume "fle (remainder_after s optimal n) (point_throughput q)"
    then have "p = q" using first q(1) by (simp add: sized(2))
    with q show False using best_by_in [of _ "filter _ es" q] by (fastforce simp: best_of_size_def)
  qed
  ultimately show ?thesis using es(1) best n rs find_SomeD [OF first] by blast
qed

lemma best_one_gpc:
  assumes "best_of_size es 1 = Some b" and "q \<in> set es" and "segment_gpc q = 1" and "\<forall>p \<in> set es. valid_point p"
  shows "fle (point_throughput q) (point_throughput b)"
proof -
  have b: "b \<in> set es" "segment_gpc b = 1" using best_by_in assms(1) by (fastforce simp: best_of_size_def)+
  have "per_gpc p = point_throughput p" if "p \<in> set es" "segment_gpc p = 1" for p
    using assms(4) that positive_doubleD [of "point_throughput p"]
    by (auto simp: valid_point_def per_gpc_def fl_representable)
  then show ?thesis
    using greatest_per_gpc [of "filter (\<lambda>p. segment_gpc p = 1) es" b q] assms b by (simp add: best_of_size_def)
qed

lemma configuration_not_empty:
  assumes "\<forall>p \<in> set profiles. valid_point p" and "configure_service s profiles = Inr rs"
  shows "\<exists>p. segment_of s p \<in> set rs \<and> serves s p"
proof -
  obtain es p n optimal where "eligible_points s profiles = Inr es" "p \<in> set es"
    "rs = replicate n (segment_of s optimal) @ [segment_of s p]"
    using configure_service_parts [OF assms] by blast
  then show ?thesis using eligible_points_serve by auto
qed

lemma configure_services_facts:
  "configure_services ss profiles acc = Inr (requests, None) \<Longrightarrow>
     \<exists>rss. list_all2 (\<lambda>s rs. configure_service s profiles = Inr rs) ss rss \<and> requests = acc @ concat rss"
proof (induction ss profiles acc rule: configure_services.induct)
  case (2 s ss profiles acc)
  obtain rs where rs: "configure_service s profiles = Inr rs"
    using "2.prems" by (auto split: sum.splits pyerr.splits)
  then obtain rss where "list_all2 (\<lambda>s rs. configure_service s profiles = Inr rs) ss rss" "requests = (acc @ rs) @ concat rss"
    using "2.IH" [OF rs] "2.prems" by auto
  with rs show ?case by (intro exI [of _ "rs # rss"]) simp
qed simp

lemma one_each: "list_all2 R ss rss \<Longrightarrow> (\<And>s rs. R s rs \<Longrightarrow> rs \<noteq> []) \<Longrightarrow> length ss \<le> length (concat rss)"
proof (induction rule: list_all2_induct)
  case (Cons s ss rs rss)
  then show ?case by (cases rs) fastforce+
qed simp

lemma allocate_fixed_True:
  assumes "allocate_fixed requests available = (True, es, why)"
  shows "mset (map physical_segment_gpc es) \<subseteq># mset available" "why = None"
    "list_all2 fits (sort_key (\<lambda>r. - segment_gpc (request_point r)) requests) es"
  using allocate_loop_facts [OF assms [unfolded allocate_fixed_def]] by auto

section \<open>Properties\<close>

text \<open>
  C23: The allocator succeeds exactly when the requests can be placed at all: some choice of distinct
  available segments gives every request one that is at least as large. Its first fit over both
  lists in descending order misses no placement.
\<close>

theorem allocation_is_complete:
  "fst (allocate_fixed requests available) \<longleftrightarrow>
     (\<exists>ps. mset ps \<subseteq># mset available \<and>
        list_all2 (\<le>) (map (\<lambda>r. segment_gpc (request_point r)) requests) ps)"
proof -
  let ?rs = "sort_key (\<lambda>r. - segment_gpc (request_point r)) requests"
  have "sorted_wrt (\<ge>) (rev (sort available))" by (simp add: sorted_wrt_rev)
  moreover have "sorted_wrt (\<ge>) (map needed_gpc ?rs)"
    using sorted_sort_key [of "\<lambda>r. - segment_gpc (request_point r)" requests]
    by (simp add: sorted_wrt_map needed_gpc_def)
  ultimately have "fst (allocate_fixed requests available) \<longleftrightarrow>
      matchable (map needed_gpc ?rs) (rev (sort available))"
    unfolding allocate_fixed_def by (rule allocate_loop_matchable)
  also have "\<dots> \<longleftrightarrow> matchable (map needed_gpc requests) available"
    by (intro iffI) (erule matchable_reorder; simp)+
  finally show ?thesis by (simp add: matchable_def needed_gpc_def [abs_def])
qed

text \<open>
  C25: A configuration is some number of segments of the point with the highest throughput per GPC
  followed by one segment that covers the demand left over. Every segment's latency is below half
  the objective less the headroom, and no eligible point of a smaller segment covers what is left.
\<close>

theorem configuration_covers_demand:
  assumes "configure_service s profiles = Inr rs" and "\<forall>p \<in> set profiles. valid_point p"
  shows "\<exists>optimal p n. rs = replicate (nat n) (segment_of s optimal) @ [segment_of s p] \<and>
    {optimal, p} \<subseteq> {q \<in> set profiles. serves s q} \<and>
    (\<forall>q \<in> set profiles. serves s q \<longrightarrow> fle (per_gpc q) (per_gpc optimal)) \<and>
    complete_instances (request_rate s) (point_throughput optimal) = Inr n \<and>
    fle (remainder_after s optimal n) (point_throughput p) \<and>
    (\<forall>q \<in> set profiles. serves s q \<and> segment_gpc q < segment_gpc p \<longrightarrow>
       \<not> fle (remainder_after s optimal n) (point_throughput q))"
proof -
  obtain es optimal p n where es: "eligible_points s profiles = Inr es"
    and best: "best_by (key_greater per_gpc) es = Some optimal"
    and p: "p \<in> set es" "fle (remainder_after s optimal n) (point_throughput p)"
    and n: "complete_instances (request_rate s) (point_throughput optimal) = Inr n"
    and small: "segment_gpc p = 2 \<longrightarrow> (\<forall>q. best_of_size es 1 = Some q \<longrightarrow>
         \<not> fle (remainder_after s optimal n) (point_throughput q))"
    and rs: "rs = replicate (nat n) (segment_of s optimal) @ [segment_of s p]"
    using configure_service_parts [OF assms(2,1)] by blast
  note members = eligible_points_serve [OF es]
  have "\<not> fle (remainder_after s optimal n) (point_throughput q)"
    if q: "q \<in> set es" "segment_gpc q < segment_gpc p" for q
  proof -
    have "valid_point q" "valid_point p" using q(1) p(1) members assms(2) by auto
    then have gpc: "segment_gpc q = 1" "segment_gpc p = 2"
      using q(2) by (auto simp: valid_point_def SUPPORTED_SEGMENTS_def)
    obtain b where b: "best_of_size es 1 = Some b"
      using q(1) gpc(1) by (cases "best_of_size es 1") (auto simp: best_of_size_def filter_empty_conv)
    have "fle (point_throughput q) (point_throughput b)"
      by (rule best_one_gpc [OF b q(1) gpc(1)]) (use members assms(2) in auto)
    then show ?thesis using small gpc(2) b fle_trans by blast
  qed
  moreover have "optimal \<in> set es" using best_by_in [OF best] .
  moreover have "fle (per_gpc q) (per_gpc optimal)" if "q \<in> set es" for q
    using greatest_per_gpc [OF best that] .
  ultimately show ?thesis using rs n p members by (intro exI [of _ optimal] exI [of _ p] exI [of _ n]) auto
qed

text \<open>
  C26: A demand of at most three times the throughput of the chosen segment is always configured, with
  at most four segments, whatever the roundings. For more the remainder can exceed a segment by a
  rounding error, see \<open>four_segments_refused_iff\<close>.
\<close>

theorem small_demand_is_configured:
  assumes "\<forall>p \<in> set profiles. valid_point p" and "valid_service s"
    and "eligible_points s profiles = Inr es"
    and "best_point (throughput_per segment_gpc) es = Inr (Some optimal)"
    and "fval (request_rate s) \<le> 3 * fval (point_throughput optimal)"
  shows "\<exists>rs. configure_service s profiles = Inr rs \<and> 1 \<le> length rs \<and> length rs \<le> 4"
proof -
  have valid: "\<forall>p \<in> set es. valid_point p" using eligible_points_serve [OF assms(3)] assms(1) by auto
  have best: "best_by (key_greater per_gpc) es = Some optimal"
    using assms(4) best_point_valid [of es segment_gpc] valid by simp
  have optimal: "optimal \<in> set es" "valid_point optimal" using best_by_in [OF best] valid by auto
  obtain r t where rt: "request_rate s = Fin r" "0 < r" "representable r" "r < 2 ^ 1024"
    "point_throughput optimal = Fin t" "0 < t" "representable t" "t < 2 ^ 1024"
    using positive_doubleD assms(2) optimal(2) unfolding valid_service_def valid_point_def by blast
  have le: "r \<le> 3 * t" using assms(5) rt by simp
  obtain n where n: "complete_instances (Fin r) (Fin t) = Inr n" "0 \<le> n" "n \<le> 3" "r \<le> of_int (n + 1) * t"
    using complete_instances_small [OF rt(2,6) le] by blast
  have fit: "fle (fsub (Fin r) (fmul (Fin (of_int n)) (Fin t))) (Fin t)"
    using remainder_small [OF rt(2,6,7,8,3,4) n(2,3,4) le] .
  have g: "segment_gpc optimal = 1 \<or> segment_gpc optimal = 2"
    using optimal(2) by (auto simp: valid_point_def SUPPORTED_SEGMENTS_def)
  define sized where "sized = List.map_filter id [best_of_size es 1, best_of_size es 2]"
  have "best_of_size es (segment_gpc optimal) = Some optimal"
    unfolding best_of_size_def by (rule filter_keeps_greatest [OF best]) simp
  then have "optimal \<in> set sized" using g by (auto simp: sized_def map_filter_def)
  then obtain p where found: "find (\<lambda>p. fle (fsub (Fin r) (fmul (Fin (of_int n)) (Fin t))) (point_throughput p)) sized = Some p"
    using fit rt(5) by (cases "find (\<lambda>p. fle (fsub (Fin r) (fmul (Fin (of_int n)) (Fin t))) (point_throughput p)) sized")
      (auto simp: find_None_iff)
  have sized: "points_by_size es = Inr sized" unfolding sized_def by (rule points_by_size_valid [OF valid])
  have "configure_service s profiles = Inr (replicate (nat n) (segment_of s optimal) @ [segment_of s p])"
    using optimal(1) found n small_float_of_int [of n]
    by (auto simp: configure_service_def assms(3,4) rt(1,5) sized Let_def)
  then show ?thesis using n by simp
qed

text \<open>
  C24: A feasible plan places every service: it has a segment for the service's model whose latency
  meets the service's objective with the headroom, on a physical segment that is large enough, and
  no physical segment is used twice. So there are at most as many services as available segments,
  and the fixed layout's single 1g segment never holds two services, whatever their profiles are.
\<close>

theorem feasible_plan_is_sound:
  assumes "plan_segments spec profiles = Inr r" and "feasible r" and "\<forall>p \<in> set profiles. valid_point p"
  shows "\<exists>ss available. services_from_spec spec = Inr ss \<and> available_segments spec = Inr available \<and>
    length ss \<le> length available \<and> reason r = None \<and>
    mset (map physical_segment_gpc (allocation r)) \<subseteq># mset available \<and>
    (\<forall>s \<in> set ss. \<exists>e \<in> set (allocation r). allocated_model e = service_model s \<and>
       profile_segment_gpc e \<le> physical_segment_gpc e \<and>
       (\<exists>limit. latency_limit s limit \<and> flt (profile_latency_ms e) limit))"
proof -
  from assms(1,2) obtain ss requests available where ss: "services_from_spec spec = Inr ss"
    and requests: "configure_services ss profiles [] = Inr (requests, None)"
    and available: "available_segments spec = Inr available"
    and placed: "allocate_fixed requests available = (True, allocation r, reason r)"
    by (auto simp: plan_segments_def bnd_eq_Inr split: option.splits) (metis not_None_eq)
  obtain rss where rss: "list_all2 (\<lambda>s rs. configure_service s profiles = Inr rs) ss rss" "requests = concat rss"
    using configure_services_facts [OF requests] by auto
  have alloc: "mset (map physical_segment_gpc (allocation r)) \<subseteq># mset available" "reason r = None"
    "list_all2 fits (sort_key (\<lambda>r. - segment_gpc (request_point r)) requests) (allocation r)"
    using allocate_fixed_True [OF placed] by auto
  have served: "\<exists>e \<in> set (allocation r). fits q e" if "q \<in> set requests" for q
  proof -
    have "q \<in> set (sort_key (\<lambda>r. - segment_gpc (request_point r)) requests)" using that by simp
    with alloc(3) show ?thesis by (metis in_set_conv_nth list_all2_conv_all_nth)
  qed
  have "length ss \<le> length requests"
    unfolding rss(2) by (rule one_each [OF rss(1)]) (auto dest: configuration_not_empty [OF assms(3)])
  also have "\<dots> = length (allocation r)" using list_all2_lengthD [OF alloc(3)] by simp
  also have "\<dots> \<le> length available" using size_mset_mono [OF alloc(1)] by simp
  finally have "length ss \<le> length available" .
  moreover have "\<exists>e \<in> set (allocation r). allocated_model e = service_model s \<and>
      profile_segment_gpc e \<le> physical_segment_gpc e \<and>
      (\<exists>limit. latency_limit s limit \<and> flt (profile_latency_ms e) limit)" if s: "s \<in> set ss" for s
  proof -
    obtain i where i: "i < length ss" "s = ss ! i" using s by (auto simp: in_set_conv_nth)
    then have rs: "configure_service s profiles = Inr (rss ! i)" "rss ! i \<in> set rss"
      using rss(1) by (auto simp: list_all2_conv_all_nth)
    obtain p where p: "segment_of s p \<in> set (rss ! i)" "serves s p" using configuration_not_empty [OF assms(3) rs(1)] by blast
    then have "segment_of s p \<in> set requests" using rs(2) rss(2) by auto
    then obtain e where e: "e \<in> set (allocation r)" "fits (segment_of s p) e" using served by blast
    define n where "n = physical_segment_gpc e"
    have n: "e = entry_of n (segment_of s p)" "segment_gpc p \<le> n"
      using e(2) by (simp_all add: n_def fits_def needed_gpc_def segment_of_def)
    have "allocated_model e = service_model s" "profile_segment_gpc e = segment_gpc p"
      "profile_latency_ms e = point_latency_ms p"
      by (subst n(1), simp add: entry_of_def segment_of_def)+
    with e(1) p(2) n(2) show ?thesis
      by (intro bexI [of _ e]) (simp_all add: serves_def n_def)
  qed
  ultimately show ?thesis using ss available alloc by blast
qed

text \<open>
  A number of the grid of \<open>t\<close> that is above \<open>t\<close> stays above it when it is rounded, since the next grid
  point is a double.
\<close>

lemma above_stays_above:
  assumes "0 < t" and "representable t" and "x = of_int k * pow2 (quantum t)" and "t < x"
  shows "t < rnd x"
proof -
  define m where "m = round_even (t / pow2 (quantum t))"
  have t: "t = of_int m * pow2 (quantum t)"
    using rnd_eq [of t] rnd_representable [OF assms(2)] assms(1) by (simp add: m_def)
  have "pow2 (expo t + 1) \<le> pow2 (quantum t + 53)" by (rule pow2_mono) (simp add: quantum_def)
  then have "of_int m * pow2 (quantum t) < of_int (2 ^ 53) * pow2 (quantum t)"
    using expo_bounds(2) [of t] assms(1) t pow2_add_nat [of "quantum t" 53] by simp
  then have "(of_int m :: rat) < of_int (2 ^ 53)" by (simp only: mult_less_cancel_right_pos [OF pow2_pos])
  then have m: "m < 2 ^ 53" by (simp only: of_int_less_iff)
  have "0 < of_int m * pow2 (quantum t)" using assms(1) t by simp
  then have "0 < (of_int m :: rat)" by (auto simp: zero_less_mult_iff leD [OF pow2_nonneg])
  then have "0 < m" by simp
  define y where "y = of_int (m + 1) * pow2 (quantum t)"
  have "of_int m * pow2 (quantum t) < of_int k * pow2 (quantum t)" using assms(3,4) t by simp
  then have "(of_int m :: rat) < of_int k" by (simp only: mult_less_cancel_right_pos [OF pow2_pos])
  then have "m + 1 \<le> k" by simp
  then have "(of_int (m + 1) :: rat) \<le> of_int k" by (simp only: of_int_le_iff)
  then have "y \<le> x" unfolding y_def assms(3) by (rule mult_right_mono) simp
  moreover have "representable y"
    unfolding representable_def y_def using m \<open>0 < m\<close>
    by (intro exI [of _ "m + 1"] exI [of _ "quantum t"]) (simp add: quantum_def)
  moreover have "t < y" by (subst t) (simp add: y_def algebra_simps)
  ultimately show ?thesis using rnd_mono [of y x] rnd_representable [of y] by simp
qed

lemma rounded_on_grid:
  assumes "0 < t" and "t \<le> x"
  shows "\<exists>k. rnd x = of_int k * pow2 (quantum t)"
proof -
  have "quantum t \<le> quantum x" using expo_mono [of t x] assms by (simp add: quantum_def)
  then have "pow2 (quantum x) = of_int (2 ^ nat (quantum x - quantum t)) * pow2 (quantum t)"
    by (simp add: pow2_split [of "quantum t" "quantum x"])
  then have "rnd x = of_int (round_even (x / pow2 (quantum x)) * 2 ^ nat (quantum x - quantum t)) * pow2 (quantum t)"
    using rnd_eq [of x] assms by (simp add: mult.assoc)
  then show ?thesis by blast
qed

text \<open>What is left of four segments after three: at most a segment exactly when three do not round down.\<close>

lemma remainder_of_four:
  assumes "0 < t" and "representable t" and "4 * t < 2 ^ 1024"
  shows "fl (3 * t) = Fin (rnd (3 * t)) \<and> (fle (fl (4 * t - rnd (3 * t))) (Fin t) \<longleftrightarrow> 3 * t \<le> rnd (3 * t))"
proof -
  let ?c = "rnd (3 * t)"
  have four: "rnd (4 * t) = 4 * t"
    using rnd_representable [OF representable_double [OF representable_double [OF assms(2)]]] by simp
  have c: "0 \<le> ?c" "?c \<le> 4 * t" using rnd_mono [of "3 * t" "4 * t"] four assms(1) by simp_all
  then have three: "fl (3 * t) = Fin ?c" using assms(3) by (simp add: fl_def Let_def)
  have flt: "fl t = Fin t" using assms by (simp add: fl_representable)
  have x: "0 \<le> rnd (4 * t - ?c)" "rnd (4 * t - ?c) \<le> 4 * t"
    using rnd_mono [of "4 * t - ?c" "4 * t"] four c by simp_all
  then have fx: "fl (4 * t - ?c) = Fin (rnd (4 * t - ?c))" using assms(3) by (simp add: fl_def Let_def)
  show ?thesis
  proof (cases "3 * t \<le> ?c")
    case True
    then have "4 * t - ?c \<le> t" by simp
    from fl_mono [OF this] flt True three show ?thesis by simp
  next
    case False
    obtain k where k: "?c = of_int k * pow2 (quantum t)" using rounded_on_grid [of t "3 * t"] assms(1) by auto
    obtain m where m: "t = of_int m * pow2 (quantum t)"
      using rounded_on_grid [of t t] rnd_representable [OF assms(2)] assms(1) by auto
    have grid: "4 * t - ?c = of_int (4 * m - k) * pow2 (quantum t)"
      by (subst (1) m, subst k) (simp add: algebra_simps)
    have "t < 4 * t - ?c" using False by simp
    from above_stays_above [OF assms(1,2) grid this] show ?thesis using False fx three by simp
  qed
qed

lemma complete_instances_four:
  assumes "0 < t"
  shows "complete_instances (Fin (4 * t)) (Fin t) = Inr 3"
  using assms fl_of_int [of 4] by (simp add: complete_instances_def math_floor_def)

text \<open>
  C27: when exactly a demand of four whole segments is refused. Let no eligible point have more throughput
  than the optimal one, \<open>t\<close>, and let the demand be \<open>4 * t\<close>. The code keeps three complete segments and
  looks for one that covers the rest. If the float product \<open>3 * t\<close> rounds down, the rest exceeds every
  segment and the service is refused with the message that the demand cannot be covered, although four
  segments cover it exactly; otherwise it gets three optimal segments and a last one that covers the
  rest. (At \<open>t = 0.3\<close>, a demand of 1.2, it is refused.)
\<close>

theorem four_segments_refused_iff:
  assumes "\<forall>p \<in> set profiles. valid_point p" and "eligible_points s profiles = Inr es"
    and "best_point (throughput_per segment_gpc) es = Inr (Some optimal)"
    and "\<forall>p \<in> set es. fle (point_throughput p) (Fin t)"
    and "point_throughput optimal = Fin t" and "request_rate s = Fin (4 * t)" and "4 * t < 2 ^ 1024"
  shows "if fval (fmul (Fin 3) (Fin t)) < 3 * t
    then configure_service s profiles = Inl (RuntimeError ''ParvaGPU cannot cover the remaining demand for '')
    else \<exists>p \<in> set es. fle (fsub (Fin (4 * t)) (fmul (Fin 3) (Fin t))) (point_throughput p) \<and>
      configure_service s profiles = Inr (replicate 3 (segment_of s optimal) @ [segment_of s p])"
proof -
  have valid: "\<forall>p \<in> set es. valid_point p" using eligible_points_serve [OF assms(2)] assms(1) by auto
  have best: "best_by (key_greater per_gpc) es = Some optimal"
    using assms(3) best_point_valid [of es segment_gpc] valid by simp
  have optimal: "optimal \<in> set es" "valid_point optimal" using best_by_in [OF best] valid by auto
  have t: "0 < t" "representable t"
    using positive_doubleD [of "Fin t"] optimal(2) assms(5) by (auto simp: valid_point_def)
  note four = remainder_of_four [OF t assms(7)]
  define rest where "rest = fsub (Fin (4 * t)) (fmul (Fin 3) (Fin t))"
  have fits: "fle rest (Fin t) \<longleftrightarrow> 3 * t \<le> rnd (3 * t)" using four by (simp add: rest_def fsub_def)
  define sized where "sized = List.map_filter id [best_of_size es 1, best_of_size es 2]"
  have sized: "points_by_size es = Inr sized" unfolding sized_def by (rule points_by_size_valid [OF valid])
  have members: "set sized \<subseteq> set es" using by_size_members unfolding sized_def by blast
  have conf: "configure_service s profiles =
      (case find (\<lambda>p. fle rest (point_throughput p)) sized of
         None \<Rightarrow> Inl (RuntimeError ''ParvaGPU cannot cover the remaining demand for '')
       | Some p \<Rightarrow> Inr (replicate 3 (segment_of s optimal) @ [segment_of s p]))"
    using optimal(1) complete_instances_four [OF t(1)] small_float_of_int [of 3]
    by (auto simp: configure_service_def assms(2,3,5,6) sized rest_def Let_def split: option.splits)
  have tripled: "fval (fmul (Fin 3) (Fin t)) = rnd (3 * t)" using four by simp
  show ?thesis
  proof (cases "rnd (3 * t) < 3 * t")
    case True
    then have "\<not> fle rest (point_throughput p)" if "p \<in> set es" for p
      using fits fle_trans [of rest "point_throughput p" "Fin t"] assms(4) that by auto
    then have "find (\<lambda>p. fle rest (point_throughput p)) sized = None"
      using members by (auto simp: find_None_iff)
    with True tripled conf show ?thesis by simp
  next
    case False
    have g: "segment_gpc optimal = 1 \<or> segment_gpc optimal = 2"
      using optimal(2) by (auto simp: valid_point_def SUPPORTED_SEGMENTS_def)
    have "best_of_size es (segment_gpc optimal) = Some optimal"
      unfolding best_of_size_def by (rule filter_keeps_greatest [OF best]) simp
    then have "optimal \<in> set sized" using g by (auto simp: sized_def map_filter_def)
    moreover have "fle rest (point_throughput optimal)" using False fits assms(5) by simp
    ultimately obtain p where p: "find (\<lambda>p. fle rest (point_throughput p)) sized = Some p"
      by (cases "find (\<lambda>p. fle rest (point_throughput p)) sized") (auto simp: find_None_iff)
    then have "p \<in> set es" "fle rest (point_throughput p)"
      using members by (auto simp: find_Some_iff)
    with False tripled conf p show ?thesis by (auto simp: rest_def)
  qed
qed

section \<open>Examples\<close>

text \<open>The profiles and the services of the program's own tests.\<close>

definition test_point :: "string \<Rightarrow> int \<Rightarrow> rat \<Rightarrow> profile_point" where
  "test_point m g t = \<lparr>point_model = Some m, segment_gpc = g, batch_size = 1, point_processes = 1,
     point_throughput = Fin t, point_latency_ms = Fin 2\<rparr>"

definition test_points :: "profile_point list" where
  "test_points = [test_point ''audio'' 1 500, test_point ''audio'' 2 800,
     test_point ''language'' 1 400, test_point ''language'' 2 700]"

definition test_service :: "string \<Rightarrow> pyval" where
  "test_service m = VDict [(''model'', VStr m), (''request_rate'', VInt 300), (''slo_ms'', VInt 10)]"

definition test_spec :: pydict where
  "test_spec = [(''contract'', VDict [(''pressure_layout'', VStr ''1g+2g'')]),
     (''available_segments_gpc'', VList [VInt 1, VInt 2]),
     (''services'', VList [test_service ''audio'', test_service ''language''])]"

lemma whole_double: "0 < n \<Longrightarrow> n \<le> 2 ^ 53 \<Longrightarrow> positive_double (Fin (of_int n))"
  using double_fl [of "of_int n"] fl_of_int [of n] by (simp add: positive_double_def)

lemma test_points_valid: "\<forall>p \<in> set test_points. valid_point p"
  using whole_double [of 500] whole_double [of 800] whole_double [of 400] whole_double [of 700]
  by (simp add: test_points_def test_point_def valid_point_def SUPPORTED_SEGMENTS_def)

definition audio_service :: parva_service where
  "audio_service = \<lparr>service_model = ''audio'', request_rate = Fin 300, slo_ms = Fin 10\<rparr>"

lemma audio_configured: "configure_service audio_service test_points = Inr [segment_of audio_service (test_point ''audio'' 1 500)]"
  by code_simp

lemma test_planned: "\<exists>r. plan_segments test_spec test_points = Inr r \<and> feasible r"
proof -
  have "case plan_segments test_spec test_points of Inl _ \<Rightarrow> False | Inr r \<Rightarrow> feasible r" by code_simp
  then show ?thesis by (simp split: sum.splits)
qed

theorem configuration_covers_demand_witness:
  "\<exists>optimal p n. [segment_of audio_service (test_point ''audio'' 1 500)] =
      replicate (nat n) (segment_of audio_service optimal) @ [segment_of audio_service p] \<and>
    fle (remainder_after audio_service optimal n) (point_throughput p)"
  using configuration_covers_demand [OF audio_configured test_points_valid] by blast

theorem small_demand_is_configured_witness:
  "\<exists>rs. configure_service audio_service test_points = Inr rs \<and> length rs \<le> 4"
proof -
  let ?es = "[test_point ''audio'' 1 500, test_point ''audio'' 2 800]"
  have valid: "valid_service audio_service"
    using whole_double [of 300] by (simp add: valid_service_def audio_service_def)
  have "eligible_points audio_service test_points = Inr ?es" by code_simp
  moreover have "best_point (throughput_per segment_gpc) ?es = Inr (Some (test_point ''audio'' 1 500))" by code_simp
  moreover have "fval (request_rate audio_service) \<le> 3 * fval (point_throughput (test_point ''audio'' 1 500))"
    by (simp add: audio_service_def test_point_def)
  ultimately show ?thesis
    using small_demand_is_configured [OF test_points_valid valid] by blast
qed

theorem feasible_plan_is_sound_witness:
  "\<exists>r available. plan_segments test_spec test_points = Inr r \<and> available_segments test_spec = Inr available \<and>
    mset (map physical_segment_gpc (allocation r)) \<subseteq># mset available"
proof -
  obtain r where r: "plan_segments test_spec test_points = Inr r" "feasible r" using test_planned by blast
  from feasible_plan_is_sound [OF r test_points_valid] r show ?thesis by blast
qed

theorem four_segments_refused_iff_witness:
  "configure_service \<lparr>service_model = ''audio'', request_rate = fl (12 / 10), slo_ms = Fin 10\<rparr>
     [test_point ''audio'' 1 (fval (fl (3 / 10)))] =
     Inl (RuntimeError ''ParvaGPU cannot cover the remaining demand for '') \<and>
   configure_service \<lparr>service_model = ''audio'', request_rate = Fin 2000, slo_ms = Fin 10\<rparr>
     [test_point ''audio'' 1 500] \<noteq> Inl (RuntimeError ''ParvaGPU cannot cover the remaining demand for '')"
proof
  let ?t = "fval (fl (3 / 10))"
  let ?s = "\<lparr>service_model = ''audio'', request_rate = fl (12 / 10), slo_ms = Fin 10\<rparr>"
  have "valid_point (test_point ''audio'' 1 ?t)"
    using double_fl [of "3 / 10"]
    by (simp add: valid_point_def test_point_def SUPPORTED_SEGMENTS_def positive_double_def fl_eval)
  moreover have "eligible_points ?s [test_point ''audio'' 1 ?t] = Inr [test_point ''audio'' 1 ?t]" by code_simp
  moreover have "best_point (throughput_per segment_gpc) [test_point ''audio'' 1 ?t] =
      Inr (Some (test_point ''audio'' 1 ?t))" by code_simp
  moreover have "fl (12 / 10) = Fin (4 * ?t)" "fval (fmul (Fin 3) (Fin ?t)) < 3 * ?t" "4 * ?t < 2 ^ 1024"
    by (simp_all add: fl_eval)
  ultimately show "configure_service ?s [test_point ''audio'' 1 ?t] =
      Inl (RuntimeError ''ParvaGPU cannot cover the remaining demand for '')"
    using four_segments_refused_iff [of "[test_point ''audio'' 1 ?t]" ?s "[test_point ''audio'' 1 ?t]"
        "test_point ''audio'' 1 ?t" ?t] by (simp add: test_point_def)
next
  let ?s = "\<lparr>service_model = ''audio'', request_rate = Fin 2000, slo_ms = Fin 10\<rparr>"
  have "valid_point (test_point ''audio'' 1 500)" using test_points_valid by (simp add: test_points_def)
  moreover have "eligible_points ?s [test_point ''audio'' 1 500] = Inr [test_point ''audio'' 1 500]" by code_simp
  moreover have "best_point (throughput_per segment_gpc) [test_point ''audio'' 1 500] =
      Inr (Some (test_point ''audio'' 1 500))" by code_simp
  moreover have "fval (fmul (Fin 3) (Fin 500)) = 1500" "(2000::rat) < 2 ^ 1024" by (simp_all add: fl_eval)
  ultimately show "configure_service ?s [test_point ''audio'' 1 500] \<noteq>
      Inl (RuntimeError ''ParvaGPU cannot cover the remaining demand for '')"
    using four_segments_refused_iff [of "[test_point ''audio'' 1 500]" ?s "[test_point ''audio'' 1 500]"
        "test_point ''audio'' 1 500" 500] by (simp add: test_point_def)
qed

end
