(* ===== verification/Spec2Isabelle.thy ===== *)
theory Spec2Isabelle
  imports DagContract StagePlanner SlackGovernor CpuList Workers FullGpuGovernor ModalityGovernors
    TelemetryMonitor ThermalStart AuditReplay SlackArguments AuditWorkers
    BlessSchedule GuardEvidence BoerSearch ParvaAllocator
begin

text \<open>
  Verification of JetsonDLAGreen, the runtime that shares a partitioned Jetson GPU between a critical
  task and best-effort workers.

  The program. A control program, the governor, runs in epochs. Before an epoch it decides from a
  feedback state which workers run on which GPU instance with which share, and for how long they are
  paused before each critical release (the guard). After the epoch it moves the feedback state by the
  measured deadline misses and drains, and falls back to one resident worker when the telemetry is
  unhealthy. Guards are calibrated beforehand and frozen in a lock. A telemetry process is watched
  throughout; a measurement starts only in a qualified thermal state. A second, independently written
  program replays all decisions from the recorded evidence. A planner selects, for a pipeline of two
  stages, a placement that meets a deadline. Baseline schedulers are ported for comparison.

  Shared theories.
    \<^item> Prelude: exceptions as values (the sum type \<open>'a res\<close>), sequencing, \<open>min\<close> and \<open>max\<close> with a key (locale
      \<open>ranking\<close>), indexing and slicing as Python does it.
    \<^item> PyFloat: \<open>float\<close> as IEEE doubles over rationals with every rounding written out (locale \<open>rounding\<close>,
      interpreted on \<open>rnd\<close>); infinities and NaN. Signed zeros are identified.
    \<^item> PyText, PyRegex, PyValue: \<open>str\<close>/\<open>int\<close>/\<open>float\<close> conversions, the part of \<open>re\<close> that the parser uses as a
      backtracking matcher, and dynamically typed JSON values.
    \<^item> Controllers: locales for feedback controllers; the four controllers of the program interpret them.

  Components, each with its operations in the order of the source.
    \<^item> DagContract (runtime/quiet_dag_contract.py): validation of a stage graph; acceptance gives a
      topological order, the cycle error is exactly a cycle.
    \<^item> StagePlanner (runtime/quiet_stage_dag.py): candidates, evaluation of profiles, selection and
      actuation; a selected plan meets the deadline, is optimal, and its JSON is actuated.
    \<^item> SlackGovernor, SlackArguments, SlackWorkers (runtime/mig_slack_governor.py): \<open>plan_for\<close>, \<open>guard_for\<close>,
      \<open>update_feedback\<close> and the epoch loop; \<open>validate_args\<close>; pipes, starts, \<open>stop_workers\<close>, accounting. The
      theorems bound guards and recovery; show that accepted arguments complete the runs of five fixed
      policies when the borrowers are covered (calibrated quota, nothing gated or a fixed guard) and fail
      at the first epoch when the profile lacks the borrower; and that the adaptive policy can leave the
      envelope the arguments were checked for. \<open>resident-full-gate\<close> is not part of that guarantee: six
      rounded additions may exceed \<open>6.0 * r\<close>. The shutdown waits for every worker but for two outputs.
    \<^item> AuditReplay, AuditWorkers (analysis/summarize_mig_slack_governor.py): the audit's reader of the lock,
      its replay of the controller, of the dependency edges and of the workers, proved to agree with the
      runtime on every epoch of every run.
    \<^item> GuardFreeze, GuardEvidence (runtime/profile_p9_guard.py, analysis/freeze_p9_guard.py): calibration
      cases, the type 7 percentile, rounding through the shortest decimal, held-out coverage, the lock;
      the evidence registry, drain traces, attempts and blocks. The lock is read back by the runtime
      and the audit, and the envelope of a split held-out case is the runtime's guard to the last bit.
    \<^item> TelemetryParse, TelemetryStats, TelemetryMonitor (runtime/tegrastats_telemetry.py): the line parser,
      summaries and health, the log and the bounded monitor; the monitor's healthy verdicts are those
      over all samples ever accepted.
    \<^item> ThermalWindow, ThermalStart (runtime/mig_slack_governor.py): stability windows, qualification,
      its evidence and hand-off; a passed qualification is causal, fresh and fast.
    \<^item> CpuList, Workers, FullGpuGovernor, ModalityGovernors (runtime/full_gpu_governor.py,
      multimodal_governor.py, mig_governor.py): the older governors, their CPU lists and workers.
    \<^item> BlessScheduler, BlessSchedule (baselines/bless/scheduler.py, analysis/build_bless_common_schedule.py):
      kernel squads and their configuration; squads are greedy, configurations optimal, and a squad
      never holds two requests.
    \<^item> BoerSearch (baselines/boer/thor_adapter.py): pruning, objective and the search loop; no candidate
      is observed twice or measured against the pruning rules, and the selected one is the best.
    \<^item> ParvaAllocator (baselines/parvagpu/thor_adapter.py): configurator and allocator; the allocator
      finds a placement whenever there is one; four exact segments are refused when \<open>3 * t\<close> rounds down.

  Conventions. A dictionary is an association list without repeated keys; its order is kept only where
  the program observes it. Messages keep the literal parts of the source. Strings are ASCII. Subclasses
  of an exception are identified with the class that the handlers name. \<open>sum\<close> of floats adds from the
  left, as CPython before 3.12. Concurrency enters as the argument that a call sees (the monitor, the
  observed exit of a process), processes and files as what the program observes of them: answers of
  \<open>os.pipe\<close>, \<open>poll\<close> and \<open>communicate\<close>, file contents, decoded JSON and digests are arguments. Decoding
  errors other than a \<open>JSONDecodeError\<close> (bytes that are no text, integers with too many digits) are left out.

  Loops and bounds. All loops are total functions but two: the precedence worklist
  (\<open>partial_function\<close>, proved to return on every parsed graph) and the polling loop of the thermal
  qualification, a function of the list of polls whose result is None when the polls run out before
  the deadline; \<open>qualification_returns\<close> shows that one poll past the deadline is enough. \<open>squad_loop\<close> recurses on the
  number of kernels still allowed and \<open>search_loop\<close> on the observations still allowed, the bounds of
  the loops themselves. The percentile theorems take drains of
  at least a picosecond, above the absolute error of the rounding of subnormal numbers, and at most
  \<open>2 ^ 53\<close> samples, whose count is exact as a float.

  Not modelled. Process control, signals and readiness waiting, command line parsing, and the writing of
  reports; the statistics of the audit's report and its raw trace files; the replay of a calibration
  block from telemetry (an argument of \<open>replay_case\<close>) and the collection of that evidence; the other
  freezers and analysis programs, figure generators and scripts; the remaining baselines; the native
  C++ and CUDA programs; tests. Monitors without \<open>sample_window\<close>, used by tests only, are left out.
\<close>

end
